(* ===== verification/C_Prelude.thy ===== *)
theory C_Prelude
  imports Main "HOL-Library.Word"
begin

text \<open>
  What the components share: the machine integers of the TC375 (a 32-bit little-endian
  TriCore, so \<open>size_t\<close> is 32 bits wide), the outcome of executing a piece of C, byte buffers
  with checked access, the in-memory form of 16- and 32-bit integers, big-endian wire fields
  as their specification, and C strings in fixed-size character arrays.
\<close>

unbundle bit_operations_syntax

section \<open>Machine types\<close>

type_synonym u8 = "8 word"
type_synonym u16 = "16 word"
type_synonym u32 = "32 word"
type_synonym size_t = "32 word"
type_synonym bytes = "u8 list"

named_theorems cexec_simps \<open>computation rules of the C execution outcomes\<close>
named_theorems wire_simps \<open>memory and wire forms of integers\<close>
named_theorems buf_simps \<open>checked buffer accesses that are in bounds\<close>

section \<open>Outcomes of C code\<close>

text \<open>
  \<open>Ret a\<close>: the code returned \<open>a\<close>. \<open>Fault\<close>: it accessed memory outside an object or through a
  null pointer, after which C defines nothing. \<open>Hang\<close>: it entered a loop that never ends.
\<close>

datatype 'a cexec = Ret 'a | Fault | Hang

fun cbind :: "'a cexec \<Rightarrow> ('a \<Rightarrow> 'b cexec) \<Rightarrow> 'b cexec" where
  "cbind (Ret a) f = f a"
| "cbind Fault f = Fault"
| "cbind Hang f = Hang"

declare cbind.simps [cexec_simps]

lemma cbind_Ret_iff: "cbind m f = Ret b \<longleftrightarrow> (\<exists>a. m = Ret a \<and> f a = Ret b)"
  by (cases m) auto

lemma cbind_Fault_iff: "cbind m f = Fault \<longleftrightarrow> m = Fault \<or> (\<exists>a. m = Ret a \<and> f a = Fault)"
  by (cases m) auto

lemma cbind_Hang_iff: "cbind m f = Hang \<longleftrightarrow> m = Hang \<or> (\<exists>a. m = Ret a \<and> f a = Hang)"
  by (cases m) auto

lemma cbind_assoc: "cbind (cbind m f) g = cbind m (\<lambda>a. cbind (f a) g)"
  by (cases m) auto

lemma cbind_return [simp]: "cbind m Ret = m"
  by (cases m) auto

lemma cbind_split:
  "P (cbind m f) \<longleftrightarrow> (m = Fault \<longrightarrow> P Fault) \<and> (m = Hang \<longrightarrow> P Hang) \<and> (\<forall>a. m = Ret a \<longrightarrow> P (f a))"
  by (cases m) auto

lemma cbind_cong [fundef_cong]:
  "m = m' \<Longrightarrow> (\<And>a. m' = Ret a \<Longrightarrow> f a = g a) \<Longrightarrow> cbind m f = cbind m' g"
  by (cases m') auto

text \<open>The code returns, and its result satisfies \<open>Q\<close>: total correctness of one execution.\<close>

definition returns :: "'a cexec \<Rightarrow> ('a \<Rightarrow> bool) \<Rightarrow> bool" where
  "returns m Q = (case m of Ret a \<Rightarrow> Q a | _ \<Rightarrow> False)"

lemma returns_Ret [simp]: "returns (Ret a) Q = Q a"
  by (simp add: returns_def)

lemma returns_Fault [simp]: "\<not> returns Fault Q"
  by (simp add: returns_def)

lemma returns_Hang [simp]: "\<not> returns Hang Q"
  by (simp add: returns_def)

lemma returns_cbind: "returns (cbind m f) Q = returns m (\<lambda>a. returns (f a) Q)"
  by (cases m) auto

lemma returns_mono: "returns m Q \<Longrightarrow> (\<And>a. m = Ret a \<Longrightarrow> Q a \<Longrightarrow> R a) \<Longrightarrow> returns m R"
  by (cases m) auto

lemma returnsE: "returns m Q \<Longrightarrow> (\<And>a. m = Ret a \<Longrightarrow> Q a \<Longrightarrow> thesis) \<Longrightarrow> thesis"
  by (cases m) auto

text \<open>If the code returns, its result satisfies \<open>Q\<close>.\<close>

definition whenever :: "'a cexec \<Rightarrow> ('a \<Rightarrow> bool) \<Rightarrow> bool" where
  "whenever m Q \<longleftrightarrow> (\<forall>a. m = Ret a \<longrightarrow> Q a)"

lemma whenever_Ret [simp]: "whenever (Ret a) Q = Q a"
  by (simp add: whenever_def)

lemma whenever_cbind [simp]: "whenever (cbind m f) Q = whenever m (\<lambda>a. whenever (f a) Q)"
  by (auto simp: whenever_def cbind_Ret_iff)

lemma whenever_if [simp]: "whenever (if b then m else m') Q = (if b then whenever m Q else whenever m' Q)"
  by simp

lemma whenever_option [simp]:
  "whenever (case x of None \<Rightarrow> m | Some y \<Rightarrow> f y) Q = (case x of None \<Rightarrow> whenever m Q | Some y \<Rightarrow> whenever (f y) Q)"
  by (cases x) simp_all

section \<open>Byte buffers\<close>

text \<open>
  A pointer parameter that may be \<open>NULL\<close> is an option; the list behind it is the object it
  points into, from the pointed-to byte to the object's end. Reads and writes are checked.
\<close>

definition deref :: "'a option \<Rightarrow> 'a cexec" where
  "deref p = (case p of None \<Rightarrow> Fault | Some a \<Rightarrow> Ret a)"

definition buf_get :: "bytes \<Rightarrow> nat \<Rightarrow> u8 cexec" where
  "buf_get b i = (if i < length b then Ret (b ! i) else Fault)"

definition buf_put :: "bytes \<Rightarrow> nat \<Rightarrow> u8 \<Rightarrow> bytes cexec" where
  "buf_put b i v = (if i < length b then Ret (b[i := v]) else Fault)"

definition buf_slice :: "bytes \<Rightarrow> nat \<Rightarrow> nat \<Rightarrow> bytes cexec" where
  "buf_slice b off n = (if off + n \<le> length b then Ret (take n (drop off b)) else Fault)"

definition buf_write :: "bytes \<Rightarrow> nat \<Rightarrow> bytes \<Rightarrow> bytes cexec" where
  "buf_write b off d = (if off + length d \<le> length b
     then Ret (take off b @ d @ drop (off + length d) b) else Fault)"

lemma deref_simps [simp]: "deref (Some a) = Ret a" "deref None = Fault"
  by (simp_all add: deref_def)

lemma buf_get_ok [buf_simps]: "i < length b \<Longrightarrow> buf_get b i = Ret (b ! i)"
  by (simp add: buf_get_def)

lemma buf_put_ok [buf_simps]: "i < length b \<Longrightarrow> buf_put b i v = Ret (b[i := v])"
  by (simp add: buf_put_def)

lemma buf_slice_ok [buf_simps]: "off + n \<le> length b \<Longrightarrow> buf_slice b off n = Ret (take n (drop off b))"
  by (simp add: buf_slice_def)

lemma buf_write_ok [buf_simps]:
  "off + length d \<le> length b \<Longrightarrow> buf_write b off d = Ret (take off b @ d @ drop (off + length d) b)"
  by (simp add: buf_write_def)

lemma buf_write_length: "buf_write b off d = Ret b' \<Longrightarrow> length b' = length b"
  by (auto simp: buf_write_def split: if_splits)

lemma buf_put_length: "buf_put b i v = Ret b' \<Longrightarrow> length b' = length b"
  by (auto simp: buf_put_def split: if_splits)

lemma buf_write_prefix:
  "length h = off \<Longrightarrow> length d \<le> length t \<Longrightarrow> buf_write (h @ t) off d = Ret (h @ d @ drop (length d) t)"
  by (simp add: buf_write_def)

section \<open>Integers in memory and on the wire\<close>

text \<open>
  \<open>memcpy\<close> between an integer object and a byte buffer copies the little-endian form of the
  TC375. The big-endian functions below are the network byte order, the specification the
  byte-swapping code is measured against.
\<close>

definition u16_mem :: "u16 \<Rightarrow> bytes" where
  "u16_mem x = [ucast x, ucast (drop_bit 8 x)]"

definition u32_mem :: "u32 \<Rightarrow> bytes" where
  "u32_mem x = [ucast x, ucast (drop_bit 8 x), ucast (drop_bit 16 x), ucast (drop_bit 24 x)]"

definition mem_u16 :: "bytes \<Rightarrow> u16" where
  "mem_u16 m = ucast (m ! 0) OR push_bit 8 (ucast (m ! 1))"

definition mem_u32 :: "bytes \<Rightarrow> u32" where
  "mem_u32 m = ucast (m ! 0) OR push_bit 8 (ucast (m ! 1)) OR push_bit 16 (ucast (m ! 2))
     OR push_bit 24 (ucast (m ! 3))"

definition be16 :: "u16 \<Rightarrow> bytes" where
  "be16 x = [ucast (drop_bit 8 x), ucast x]"

definition be32 :: "u32 \<Rightarrow> bytes" where
  "be32 x = [ucast (drop_bit 24 x), ucast (drop_bit 16 x), ucast (drop_bit 8 x), ucast x]"

definition be16_val :: "u8 \<Rightarrow> u8 \<Rightarrow> u16" where
  "be16_val hi lo = push_bit 8 (ucast hi) OR ucast lo"

definition be32_val :: "u8 \<Rightarrow> u8 \<Rightarrow> u8 \<Rightarrow> u8 \<Rightarrow> u32" where
  "be32_val b3 b2 b1 b0 =
     push_bit 24 (ucast b3) OR push_bit 16 (ucast b2) OR push_bit 8 (ucast b1) OR ucast b0"

lemma length_mem_simps [simp]:
  "length (u16_mem x) = 2" "length (u32_mem y) = 4" "length (be16 x) = 2" "length (be32 y) = 4"
  by (simp_all add: u16_mem_def u32_mem_def be16_def be32_def)

lemma bit_u8_ge [simp]: "8 \<le> n \<Longrightarrow> \<not> bit (b :: u8) n"
  by (auto dest: bit_imp_le_length)

lemma be16_val_be16 [wire_simps]: "be16_val (ucast (drop_bit 8 x)) (ucast x) = x"
  unfolding be16_val_def by (rule bit_eqI) (auto simp: bit_simps)

lemma be32_val_be32 [wire_simps]:
  "be32_val (ucast (drop_bit 24 x)) (ucast (drop_bit 16 x)) (ucast (drop_bit 8 x)) (ucast x) = x"
proof (rule bit_word_eqI)
  fix n :: nat
  assume "n < LENGTH(32)"
  then consider "n < 8" | "8 \<le> n \<and> n < 16" | "16 \<le> n \<and> n < 24" | "24 \<le> n \<and> n < 32"
    by fastforce
  then show "bit (be32_val (ucast (drop_bit 24 x)) (ucast (drop_bit 16 x)) (ucast (drop_bit 8 x)) (ucast x)) n
    = bit x n"
    by cases (auto simp: be32_val_def bit_simps)
qed

lemma be16_be16_val [wire_simps]: "be16 (be16_val a b) = [a, b]"
  unfolding be16_def be16_val_def by (auto intro!: bit_eqI simp: bit_simps)

lemma be32_be32_val [wire_simps]: "be32 (be32_val a b c d) = [a, b, c, d]"
  unfolding be32_def be32_val_def by (auto intro!: bit_eqI simp: bit_simps)

lemma be16_val_nth: "be16_val (be16 x ! 0) (be16 x ! 1) = x"
  by (simp add: be16_def be16_val_be16)

lemma be32_val_nth: "be32_val (be32 x ! 0) (be32 x ! 1) (be32 x ! 2) (be32 x ! 3) = x"
  by (simp add: be32_def be32_val_be32)

lemma be16_inject [simp]: "be16 x = be16 y \<longleftrightarrow> x = y"
  by (metis be16_val_nth)

lemma be32_inject [simp]: "be32 x = be32 y \<longleftrightarrow> x = y"
  by (metis be32_val_nth)

lemma mem_u32_u32_mem [wire_simps]: "mem_u32 (u32_mem x) = x"
proof (rule bit_word_eqI)
  fix n :: nat
  assume "n < LENGTH(32)"
  then consider "n < 8" | "8 \<le> n \<and> n < 16" | "16 \<le> n \<and> n < 24" | "24 \<le> n \<and> n < 32"
    by fastforce
  then show "bit (mem_u32 (u32_mem x)) n = bit x n"
    by cases (auto simp: mem_u32_def u32_mem_def bit_simps)
qed

lemma take2_drop: "i + 2 \<le> length b \<Longrightarrow> take 2 (drop i b) = [b ! i, b ! (i + 1)]"
  by (simp add: list_eq_iff_nth_eq numeral_2_eq_2 nth_Cons split: nat.split)

lemma take4_drop: "i + 4 \<le> length b \<Longrightarrow> take 4 (drop i b) = [b ! i, b ! (i + 1), b ! (i + 2), b ! (i + 3)]"
  by (rule nth_equalityI) (auto simp: nth_Cons numeral_eq_Suc split: nat.splits)

lemma unat_le_of_nat: "n < 2 ^ LENGTH('a) \<Longrightarrow> unat (of_nat n :: 'a::len word) = n"
  by (simp add: unat_of_nat take_bit_nat_eq_self_iff)

lemma unat_add_no_wrap:
  "unat a + unat b < 2 ^ LENGTH('a) \<Longrightarrow> unat (a + b :: 'a::len word) = unat a + unat b"
  by (simp add: unat_word_ariths)

lemma length_ge_8E:
  assumes "8 \<le> length b"
  obtains x0 x1 x2 x3 x4 x5 x6 x7 t where "b = [x0, x1, x2, x3, x4, x5, x6, x7] @ t"
  using assms by (auto simp: numeral_eq_Suc Suc_le_length_iff)

section \<open>C strings in character arrays\<close>

text \<open>
  A \<^verbatim>\<open>const char*\<close> argument is the list of its bytes up to the terminating zero. \<open>cstr_of\<close> reads the
  string in a fixed array (\<open>Fault\<close> when no zero byte ends it), \<open>c_strncpy\<close> is \<^verbatim>\<open>strncpy\<close>: at most
  \<open>n\<close> bytes, padded with zeros up to \<open>n\<close>, the rest of the array kept.
\<close>

definition cstr_of :: "bytes \<Rightarrow> bytes cexec" where
  "cstr_of a = (if 0 \<in> set a then Ret (takeWhile (\<lambda>b. b \<noteq> 0) a) else Fault)"

definition c_strncpy :: "bytes \<Rightarrow> bytes \<Rightarrow> nat \<Rightarrow> bytes cexec" where
  "c_strncpy dst src n = (if n \<le> length dst
     then Ret (take n (takeWhile (\<lambda>b. b \<noteq> 0) src @ replicate n 0) @ drop n dst) else Fault)"

lemma c_strncpy_ok [buf_simps]: "n \<le> length dst \<Longrightarrow>
    c_strncpy dst src n = Ret (take n (takeWhile (\<lambda>b. b \<noteq> 0) src @ replicate n 0) @ drop n dst)"
  by (simp add: c_strncpy_def)

lemma c_strncpy_length: "c_strncpy dst src n = Ret d \<Longrightarrow> length d = length dst"
  by (auto simp: c_strncpy_def split: if_splits)

text \<open>
  The idiom \<^verbatim>\<open>strncpy(dst, src, sizeof(dst) - 1)\<close> on a zeroed array leaves a terminated string: the
  source, cut to the array's size minus one.
\<close>

lemma cstr_of_strncpy:
  assumes "0 < length dst" "last dst = 0"
  shows "\<exists>d. c_strncpy dst src (length dst - 1) = Ret d \<and> length d = length dst \<and> last d = 0
    \<and> cstr_of d = Ret (take (length dst - 1) (takeWhile (\<lambda>b. b \<noteq> 0) src))"
proof -
  let ?n = "length dst - 1" and ?s = "takeWhile (\<lambda>b. b \<noteq> 0) src"
  have "drop ?n dst = [0]"
    using assms by (metis append_butlast_last_id append_eq_conv_conj length_butlast length_greater_0_conv)
  then have c: "c_strncpy dst src ?n = Ret (take ?n (?s @ replicate ?n 0) @ [0])"
    by (simp add: c_strncpy_def)
  have nz: "\<forall>b \<in> set (take ?n ?s). b \<noteq> 0"
    by (auto dest!: in_set_takeD set_takeWhileD)
  have "takeWhile (\<lambda>b. b \<noteq> 0) (take ?n ?s @ replicate k 0 @ [0]) = take ?n ?s" for k
  proof -
    have "takeWhile (\<lambda>b. b \<noteq> 0) (replicate k (0 :: u8) @ [0]) = []"
      by (cases k) simp_all
    moreover have "takeWhile (\<lambda>b. b \<noteq> 0) (take ?n ?s @ r) = take ?n ?s @ takeWhile (\<lambda>b. b \<noteq> 0) r" for r
      by (rule takeWhile_append2) (use nz in blast)
    ultimately show ?thesis
      by (simp only: append_Nil2)
  qed
  moreover have "take ?n (?s @ replicate ?n 0) @ [0] = take ?n ?s @ replicate (?n - length ?s) 0 @ [0]"
    by simp
  ultimately have "takeWhile (\<lambda>b. b \<noteq> 0) (take ?n (?s @ replicate ?n 0) @ [0]) = take ?n ?s"
    by simp
  then have "cstr_of (take ?n (?s @ replicate ?n 0) @ [0]) = Ret (take ?n ?s)"
    by (simp add: cstr_of_def)
  moreover have "length (take ?n (?s @ replicate ?n 0) @ [0]) = length dst"
    using assms(1) by (cases dst) (auto simp: min_def)
  ultimately show ?thesis
    using c by (intro exI [of _ "take ?n (?s @ replicate ?n 0) @ [0]"]) (simp only: last_snoc simp_thms)
qed

section \<open>Searching lists\<close>

lemma find_append: "List.find P (xs @ ys) = (case List.find P xs of Some x \<Rightarrow> Some x | None \<Rightarrow> List.find P ys)"
  by (induction xs) auto

end
