(* ===== verification/DoIP_Reconnect.thy ===== *)
theory DoIP_Reconnect
  imports C_Prelude
begin

text \<open>
  The reconnecting DoIP client of the zonal gateway:
  \<^verbatim>\<open>zonal_gateway/tc375/src/doip_client_reconnect.c\<close> and its header. The state machine, its
  exponential back-off and its task loop. \<open>GET_TIME_MS\<close> depends on the build; the connection
  attempt is a placeholder in the source, so the process function is also stated over an arbitrary
  attempt, the code's version being the instance with \<open>attempt_connection\<close>.
\<close>

section \<open>State\<close>

abbreviation DOIP_INITIAL_BACKOFF_MS :: u32 where "DOIP_INITIAL_BACKOFF_MS \<equiv> 1000"
abbreviation DOIP_MAX_BACKOFF_MS :: u32 where "DOIP_MAX_BACKOFF_MS \<equiv> 30000"
abbreviation DOIP_KEEPALIVE_INTERVAL_MS :: u32 where "DOIP_KEEPALIVE_INTERVAL_MS \<equiv> 30000"

datatype DoIPConnectionState =
  DOIP_STATE_DISCONNECTED | DOIP_STATE_CONNECTING | DOIP_STATE_CONNECTED | DOIP_STATE_RECONNECTING

text \<open>The numbers of the C enumeration, its order, and the names \<open>set_state\<close> indexes with them.\<close>

fun state_code :: "DoIPConnectionState \<Rightarrow> nat" where
  "state_code DOIP_STATE_DISCONNECTED = 0"
| "state_code DOIP_STATE_CONNECTING = 1"
| "state_code DOIP_STATE_CONNECTED = 2"
| "state_code DOIP_STATE_RECONNECTING = 3"

instantiation DoIPConnectionState :: linorder
begin

definition less_eq_DoIPConnectionState :: "DoIPConnectionState \<Rightarrow> DoIPConnectionState \<Rightarrow> bool" where
  "less_eq_DoIPConnectionState a b \<longleftrightarrow> state_code a \<le> state_code b"

definition less_DoIPConnectionState :: "DoIPConnectionState \<Rightarrow> DoIPConnectionState \<Rightarrow> bool" where
  "less_DoIPConnectionState a b \<longleftrightarrow> state_code a < state_code b"

lemma state_code_inject: "state_code a = state_code b \<longleftrightarrow> a = b"
  by (cases a; cases b) simp_all

instance
  by standard (auto simp: less_eq_DoIPConnectionState_def less_DoIPConnectionState_def state_code_inject)

end

definition state_names :: "string list" where
  "state_names = [''DISCONNECTED'', ''CONNECTING'', ''CONNECTED'', ''RECONNECTING'']"

record DoIPClientReconnect =
  state :: DoIPConnectionState
  is_connected :: bool
  server_host :: bytes
  server_port :: u16
  cert_file :: bytes
  key_file :: bytes
  ca_file :: bytes
  reconnect_count :: u32
  backoff_ms :: u32
  last_attempt_time_ms :: u32
  last_keepalive_time_ms :: u32
  total_reconnects :: u32
  total_keepalive_failures :: u32
  client_ctx :: "nat option"

definition reconnect_zero :: DoIPClientReconnect where
  "reconnect_zero = \<lparr>state = DOIP_STATE_DISCONNECTED, is_connected = False, server_host = replicate 64 0,
     server_port = 0, cert_file = replicate 128 0, key_file = replicate 128 0, ca_file = replicate 128 0,
     reconnect_count = 0, backoff_ms = 0, last_attempt_time_ms = 0, last_keepalive_time_ms = 0,
     total_reconnects = 0, total_keepalive_failures = 0, client_ctx = None\<rparr>"

text \<open>The clock of a build: the tick count in milliseconds under FreeRTOS, the constant 0 otherwise.\<close>

datatype clock = USE_FREERTOS u32 | BARE_METAL

fun GET_TIME_MS :: "clock \<Rightarrow> u32" where
  "GET_TIME_MS (USE_FREERTOS t) = t"
| "GET_TIME_MS BARE_METAL = 0"

section \<open>Operations\<close>

definition set_state :: "DoIPConnectionState \<Rightarrow> DoIPClientReconnect \<Rightarrow> DoIPClientReconnect" where
  "set_state new_state c = (if state c \<noteq> new_state then c\<lparr>state := new_state\<rparr> else c)"

definition attempt_connection :: "DoIPClientReconnect \<Rightarrow> int" where
  "attempt_connection c = -1"

definition close_connection :: "DoIPClientReconnect \<Rightarrow> DoIPClientReconnect" where
  "close_connection c =
     (let c1 = (if client_ctx c \<noteq> None then c\<lparr>client_ctx := None\<rparr> else c) in c1\<lparr>is_connected := False\<rparr>)"

definition copy_path :: "bytes \<Rightarrow> bytes option \<Rightarrow> bytes cexec" where
  "copy_path dst path = (case path of None \<Rightarrow> Ret dst | Some p \<Rightarrow> c_strncpy dst p (length dst - 1))"

definition doip_client_reconnect_init ::
  "DoIPClientReconnect option \<Rightarrow> bytes option \<Rightarrow> u16 \<Rightarrow> bytes option \<Rightarrow> bytes option \<Rightarrow> bytes option
     \<Rightarrow> (int \<times> DoIPClientReconnect option) cexec" where
  "doip_client_reconnect_init client host port cert key ca =
     (case (client, host) of
        (Some _, Some h) \<Rightarrow>
          let c0 = reconnect_zero in
          cbind (c_strncpy (server_host c0) h (length (server_host c0) - 1)) (\<lambda>host'.
          let c1 = c0\<lparr>server_host := host', server_port := port\<rparr> in
          cbind (copy_path (cert_file c1) cert) (\<lambda>cert'.
          cbind (copy_path (key_file c1) key) (\<lambda>key'.
          cbind (copy_path (ca_file c1) ca) (\<lambda>ca'.
          Ret (0, Some (c1\<lparr>cert_file := cert', key_file := key', ca_file := ca',
             state := DOIP_STATE_DISCONNECTED, is_connected := False, backoff_ms := DOIP_INITIAL_BACKOFF_MS,
             reconnect_count := 0, total_reconnects := 0, last_attempt_time_ms := 0,
             last_keepalive_time_ms := 0\<rparr>))))))
      | _ \<Rightarrow> Ret (-1, client))"

definition doip_client_reconnect_start ::
  "clock \<Rightarrow> DoIPClientReconnect option \<Rightarrow> int \<times> DoIPClientReconnect option" where
  "doip_client_reconnect_start clk client =
     (case client of
        None \<Rightarrow> (-1, None)
      | Some c \<Rightarrow>
          if state c = DOIP_STATE_CONNECTED then (0, client)
          else (0, Some ((set_state DOIP_STATE_CONNECTING c)\<lparr>last_attempt_time_ms := GET_TIME_MS clk\<rparr>)))"

definition reconnect_process_with ::
  "(DoIPClientReconnect \<Rightarrow> int) \<Rightarrow> clock \<Rightarrow> DoIPClientReconnect option \<Rightarrow> int \<times> DoIPClientReconnect option" where
  "reconnect_process_with attempt clk client =
     (case client of
        None \<Rightarrow> (-1, None)
      | Some c \<Rightarrow>
          let current_time = GET_TIME_MS clk in
          case state c of
            DOIP_STATE_DISCONNECTED \<Rightarrow> (-1, client)
          | DOIP_STATE_CONNECTED \<Rightarrow>
              if DOIP_KEEPALIVE_INTERVAL_MS < current_time - last_keepalive_time_ms c
              then (0, Some (c\<lparr>last_keepalive_time_ms := current_time\<rparr>))
              else (0, client)
          | _ \<Rightarrow>
              if current_time - last_attempt_time_ms c < backoff_ms c then (-2, client)
              else
                let c1 = c\<lparr>last_attempt_time_ms := current_time\<rparr>
                in if attempt c1 = 0
                   then (0, Some ((set_state DOIP_STATE_CONNECTED c1)
                          \<lparr>is_connected := True, reconnect_count := 0, backoff_ms := DOIP_INITIAL_BACKOFF_MS,
                           last_keepalive_time_ms := current_time\<rparr>))
                   else
                     let c2 = c1\<lparr>reconnect_count := reconnect_count c1 + 1,
                                 total_reconnects := total_reconnects c1 + 1\<rparr>;
                         b = backoff_ms c2 * 2;
                         c3 = c2\<lparr>backoff_ms := (if DOIP_MAX_BACKOFF_MS < b then DOIP_MAX_BACKOFF_MS else b)\<rparr>
                     in (-2, Some (set_state DOIP_STATE_RECONNECTING c3)))"

definition doip_client_reconnect_process ::
  "clock \<Rightarrow> DoIPClientReconnect option \<Rightarrow> int \<times> DoIPClientReconnect option" where
  "doip_client_reconnect_process = reconnect_process_with attempt_connection"

definition doip_client_reconnect_is_connected :: "DoIPClientReconnect option \<Rightarrow> bool" where
  "doip_client_reconnect_is_connected client =
     (case client of None \<Rightarrow> False | Some c \<Rightarrow> is_connected c \<and> state c = DOIP_STATE_CONNECTED)"

definition doip_client_reconnect_send :: "DoIPClientReconnect option \<Rightarrow> bytes option \<Rightarrow> size_t \<Rightarrow> int" where
  "doip_client_reconnect_send client data len =
     (case (client, data) of
        (Some c, Some _) \<Rightarrow> if \<not> is_connected c then -1 else -1
      | _ \<Rightarrow> -1)"

definition doip_client_reconnect_recv ::
  "DoIPClientReconnect option \<Rightarrow> bytes option \<Rightarrow> size_t \<Rightarrow> u32 \<Rightarrow> int" where
  "doip_client_reconnect_recv client buf cap timeout_ms =
     (case (client, buf) of
        (Some c, Some _) \<Rightarrow> if \<not> is_connected c then -1 else 0
      | _ \<Rightarrow> -1)"

definition doip_client_reconnect_reset ::
  "DoIPClientReconnect option \<Rightarrow> int \<times> DoIPClientReconnect option" where
  "doip_client_reconnect_reset client =
     (case client of
        None \<Rightarrow> (-1, None)
      | Some c \<Rightarrow>
          (0, Some ((set_state DOIP_STATE_RECONNECTING (close_connection c))
             \<lparr>backoff_ms := DOIP_INITIAL_BACKOFF_MS, last_attempt_time_ms := 0\<rparr>)))"

definition doip_client_reconnect_get_stats ::
  "DoIPClientReconnect option \<Rightarrow> u32 option \<Rightarrow> u32 option \<Rightarrow> u32 option \<times> u32 option" where
  "doip_client_reconnect_get_stats client tot backoff =
     (case client of
        None \<Rightarrow> (tot, backoff)
      | Some c \<Rightarrow> (map_option (\<lambda>_. total_reconnects c) tot, map_option (\<lambda>_. backoff_ms c) backoff))"

definition doip_client_reconnect_cleanup :: "DoIPClientReconnect option \<Rightarrow> DoIPClientReconnect option" where
  "doip_client_reconnect_cleanup client = map_option close_connection client"

text \<open>
  The task: start, then for ever process and, when connected, receive (whose result is only
  logged). The loop is cut after \<open>n\<close> rounds; \<open>clk i\<close> is the clock in round \<open>i\<close>. The result is the
  client and the statuses of the rounds.
\<close>

fun reconnect_task_loop ::
  "(nat \<Rightarrow> clock) \<Rightarrow> nat \<Rightarrow> nat \<Rightarrow> DoIPClientReconnect option \<Rightarrow> int list \<times> DoIPClientReconnect option" where
  "reconnect_task_loop clk i 0 client = ([], client)"
| "reconnect_task_loop clk i (Suc n) client =
     (let (status, client') = doip_client_reconnect_process (clk i) client;
          len = (if status = 0 then doip_client_reconnect_recv client' (Some (replicate 4096 0)) 4096 100 else 0);
          (rest, client'') = reconnect_task_loop clk (Suc i) n client'
      in (status # rest, client''))"

definition doip_client_reconnect_task ::
  "(nat \<Rightarrow> clock) \<Rightarrow> nat \<Rightarrow> DoIPClientReconnect option \<Rightarrow> int list \<times> DoIPClientReconnect option" where
  "doip_client_reconnect_task clk n client =
     (case client of
        None \<Rightarrow> ([], None)
      | Some _ \<Rightarrow> reconnect_task_loop clk 1 n (snd (doip_client_reconnect_start (clk 0) client)))"

section \<open>The waiting client\<close>

definition waiting :: "DoIPClientReconnect \<Rightarrow> bool" where
  "waiting c \<longleftrightarrow> state c = DOIP_STATE_CONNECTING \<or> state c = DOIP_STATE_RECONNECTING"

definition due :: "clock \<Rightarrow> DoIPClientReconnect \<Rightarrow> bool" where
  "due clk c \<longleftrightarrow> backoff_ms c \<le> GET_TIME_MS clk - last_attempt_time_ms c"

text \<open>The back-off before attempt \<open>k + 1\<close>: doubled after every failure, at most half a minute.\<close>

definition backoff_after :: "nat \<Rightarrow> nat" where
  "backoff_after k = min 30000 (1000 * 2 ^ k)"

lemma backoff_bounds: "1000 \<le> backoff_after k" "backoff_after k \<le> 30000"
  by (simp_all add: backoff_after_def)

lemma backoff_double:
  assumes "unat b = backoff_after k"
  shows "unat (if DOIP_MAX_BACKOFF_MS < b * 2 then DOIP_MAX_BACKOFF_MS else b * 2) = backoff_after (Suc k)"
proof -
  have "unat (b * 2) = unat b * 2"
    using assms backoff_bounds(2) [of k] by (simp add: unat_word_ariths)
  with assms show ?thesis
    by (auto simp: word_less_nat_alt backoff_after_def min_def)
qed

lemma state_simps [simp]: "state (set_state s c) = s" "is_connected (set_state s c) = is_connected c"
  "backoff_ms (set_state s c) = backoff_ms c" "server_host (set_state s c) = server_host c"
  "last_attempt_time_ms (set_state s c) = last_attempt_time_ms c"
  "total_reconnects (set_state s c) = total_reconnects c" "reconnect_count (set_state s c) = reconnect_count c"
  by (simp_all add: set_state_def)

lemma state_name_in_range: "state_code s < length state_names"
  by (cases s) (simp_all add: state_names_def)

lemma process_waiting:
  assumes "waiting c"
  shows "reconnect_process_with att clk (Some c) =
    (if \<not> due clk c then (-2, Some c)
     else if att (c\<lparr>last_attempt_time_ms := GET_TIME_MS clk\<rparr>) = 0
     then (0, Some ((set_state DOIP_STATE_CONNECTED (c\<lparr>last_attempt_time_ms := GET_TIME_MS clk\<rparr>))
            \<lparr>is_connected := True, reconnect_count := 0, backoff_ms := DOIP_INITIAL_BACKOFF_MS,
             last_keepalive_time_ms := GET_TIME_MS clk\<rparr>))
     else (-2, Some (set_state DOIP_STATE_RECONNECTING (c\<lparr>last_attempt_time_ms := GET_TIME_MS clk,
            reconnect_count := reconnect_count c + 1, total_reconnects := total_reconnects c + 1,
            backoff_ms := (if DOIP_MAX_BACKOFF_MS < backoff_ms c * 2 then DOIP_MAX_BACKOFF_MS else backoff_ms c * 2)\<rparr>))))"
  using assms by (auto simp: reconnect_process_with_def waiting_def due_def Let_def not_less
      split: DoIPConnectionState.split)

text \<open>
  C32. Retry policy. A client that has failed \<open>k\<close> times in a row attempts to connect exactly when the
  back-off min(30000, 1000 * 2^k) ms has passed on the 32-bit clock since the last attempt. Before
  that nothing changes; a failed attempt doubles the back-off up to 30 s and is counted; a
  successful one connects and resets the back-off.
\<close>
theorem reconnect_retry_policy:
  assumes "waiting c" "unat (backoff_ms c) = backoff_after k"
  shows "\<exists>r c'. reconnect_process_with att clk (Some c) = (r, Some c')
    \<and> (if unat (GET_TIME_MS clk - last_attempt_time_ms c) < backoff_after k then r = -2 \<and> c' = c
       else last_attempt_time_ms c' = GET_TIME_MS clk \<and>
         (if att (c\<lparr>last_attempt_time_ms := GET_TIME_MS clk\<rparr>) = 0
          then r = 0 \<and> doip_client_reconnect_is_connected (Some c') \<and> unat (backoff_ms c') = backoff_after 0
          else r = -2 \<and> waiting c' \<and> unat (backoff_ms c') = backoff_after (Suc k)
            \<and> total_reconnects c' = total_reconnects c + 1))"
  using backoff_double [OF assms(2)] assms(2)
  by (simp add: process_waiting [OF assms(1)] due_def word_le_nat_alt not_less
      doip_client_reconnect_is_connected_def)
    (simp add: waiting_def backoff_after_def)

theorem reconnect_retry_policy_witness:
  "\<exists>r c'. reconnect_process_with (\<lambda>c. -1) (USE_FREERTOS 5000)
      (Some (reconnect_zero\<lparr>state := DOIP_STATE_CONNECTING, backoff_ms := 1000\<rparr>)) = (r, Some c')
    \<and> r = -2 \<and> unat (backoff_ms c') = 2000"
  using reconnect_retry_policy [of "reconnect_zero\<lparr>state := DOIP_STATE_CONNECTING, backoff_ms := 1000\<rparr>" 0
      "\<lambda>c. -1" "USE_FREERTOS 5000"]
  by (auto simp: waiting_def backoff_after_def reconnect_zero_def)

section \<open>Reachable clients\<close>

text \<open>Any order of API calls on one client, each at its own time and with its own attempt outcome.\<close>

inductive reconnect_reachable :: "DoIPClientReconnect \<Rightarrow> bool" where
  init: "doip_client_reconnect_init (Some c0) (Some host) port cert key ca = Ret (0, Some c) \<Longrightarrow> reconnect_reachable c"
| start: "reconnect_reachable c \<Longrightarrow> doip_client_reconnect_start clk (Some c) = (r, Some c') \<Longrightarrow> reconnect_reachable c'"
| process: "reconnect_reachable c \<Longrightarrow> reconnect_process_with att clk (Some c) = (r, Some c') \<Longrightarrow> reconnect_reachable c'"
| reset: "reconnect_reachable c \<Longrightarrow> doip_client_reconnect_reset (Some c) = (r, Some c') \<Longrightarrow> reconnect_reachable c'"
| cleanup: "reconnect_reachable c \<Longrightarrow> doip_client_reconnect_cleanup (Some c) = Some c' \<Longrightarrow> reconnect_reachable c'"

definition reconnect_inv :: "DoIPClientReconnect \<Rightarrow> bool" where
  "reconnect_inv c \<longleftrightarrow> (\<exists>k. unat (backoff_ms c) = backoff_after k)
     \<and> (is_connected c \<longrightarrow> state c = DOIP_STATE_CONNECTED) \<and> (\<exists>h. cstr_of (server_host c) = Ret h)"

lemma inv_init:
  assumes "doip_client_reconnect_init (Some c0) (Some host) port cert key ca = Ret (0, Some c)"
  shows "reconnect_inv c"
proof -
  obtain d where d: "c_strncpy (replicate 64 0) host (length (replicate 64 (0 :: u8)) - 1) = Ret d" "\<exists>h. cstr_of d = Ret h"
    using cstr_of_strncpy [of "replicate 64 0" host] by auto
  have "unat (1000 :: u32) = backoff_after 0"
    by (simp add: backoff_after_def)
  moreover have "server_host c = d" "backoff_ms c = 1000" "\<not> is_connected c"
    using assms d(1) by (auto simp: doip_client_reconnect_init_def Let_def cbind_Ret_iff reconnect_zero_def)
  ultimately show ?thesis
    using d(2) by (auto simp: reconnect_inv_def simp del: unat_numeral)
qed

lemma backoff_after_0: "unat (1000 :: u32) = backoff_after 0"
  by (simp add: backoff_after_def)

lemma inv_process:
  assumes "reconnect_inv c" "reconnect_process_with att clk (Some c) = (r, Some c')"
  shows "reconnect_inv c'"
proof (cases "waiting c")
  case True
  from assms(1) obtain k where "unat (backoff_ms c) = backoff_after k"
    by (auto simp: reconnect_inv_def)
  note dbl = backoff_double [OF this]
  have nc: "\<not> is_connected c"
    using assms(1) True by (auto simp: reconnect_inv_def waiting_def)
  show ?thesis
    using assms dbl backoff_after_0 nc unfolding process_waiting [OF True] reconnect_inv_def
    by (auto split: if_splits simp del: unat_numeral)
next
  case False
  then show ?thesis
    using assms by (cases "state c")
      (auto simp: waiting_def reconnect_process_with_def reconnect_inv_def Let_def split: if_splits)
qed

text \<open>
  Reconnection invariant. In every state API calls can lead to, the back-off lies between 1 s
  and 30 s, the connected flag is set only in the state CONNECTED, so the is-connected query is the
  flag itself, and the server name is a terminated string.
\<close>
theorem reconnect_reachable_invariant:
  assumes "reconnect_reachable c"
  shows "1000 \<le> unat (backoff_ms c) \<and> unat (backoff_ms c) \<le> 30000
    \<and> (doip_client_reconnect_is_connected (Some c) \<longleftrightarrow> is_connected c) \<and> (\<exists>h. cstr_of (server_host c) = Ret h)"
proof -
  have "reconnect_inv c"
    using assms
  proof induction
    case (init c0 host port cert key ca c)
    then show ?case by (rule inv_init)
  next
    case (process c att clk r c')
    then show ?case by (blast intro: inv_process)
  next
    case (start c clk r c')
    then show ?case
      by (auto simp: doip_client_reconnect_start_def reconnect_inv_def split: if_splits)
  next
    case (reset c r c')
    then show ?case
      using backoff_after_0
      by (auto simp: doip_client_reconnect_reset_def reconnect_inv_def close_connection_def Let_def simp del: unat_numeral)
  next
    case (cleanup c c')
    then show ?case
      by (auto simp: doip_client_reconnect_cleanup_def reconnect_inv_def close_connection_def Let_def)
  qed
  then show ?thesis
    using backoff_bounds by (auto simp: reconnect_inv_def doip_client_reconnect_is_connected_def)
qed

definition reconnect_started :: DoIPClientReconnect where
  "reconnect_started = reconnect_zero\<lparr>server_host := [0x31] @ replicate 63 0, server_port := 13400, backoff_ms := 1000\<rparr>"

lemma init_example:
  "doip_client_reconnect_init (Some reconnect_zero) (Some [0x31]) 13400 None None None = Ret (0, Some reconnect_started)"
proof -
  have "take 63 (0x31 # replicate 63 (0 :: u8)) = 0x31 # replicate 62 0"
    by (simp add: take_Cons')
  moreover have "[0x31 :: u8] @ replicate 63 0 = (0x31 # replicate 62 0) @ [0]"
    by (simp add: replicate_append_same [symmetric] numeral_eq_Suc)
  ultimately show ?thesis
    by (simp add: doip_client_reconnect_init_def Let_def reconnect_zero_def c_strncpy_def copy_path_def reconnect_started_def)
qed

theorem reconnect_reachable_invariant_witness:
  "unat (backoff_ms reconnect_started) \<le> 30000 \<and> \<not> doip_client_reconnect_is_connected (Some reconnect_started)"
  using reconnect_reachable_invariant [OF reconnect_reachable.init [OF init_example]]
  by (simp add: reconnect_started_def reconnect_zero_def)

section \<open>Rounds of the task\<close>

text \<open>The client after \<open>n\<close> rounds of processing, over an arbitrary connection attempt.\<close>

fun reconnect_rounds ::
  "(DoIPClientReconnect \<Rightarrow> int) \<Rightarrow> (nat \<Rightarrow> clock) \<Rightarrow> nat \<Rightarrow> DoIPClientReconnect option \<Rightarrow> DoIPClientReconnect option" where
  "reconnect_rounds att clk 0 client = client"
| "reconnect_rounds att clk (Suc n) client = snd (reconnect_process_with att (clk n) (reconnect_rounds att clk n client))"

lemma connected_stays:
  "doip_client_reconnect_is_connected (Some c) \<Longrightarrow>
    \<exists>r c'. reconnect_process_with att clk (Some c) = (r, Some c') \<and> doip_client_reconnect_is_connected (Some c')"
  by (auto simp: doip_client_reconnect_is_connected_def reconnect_process_with_def Let_def)

text \<open>
  The client gets through once the server accepts. With the FreeRTOS clock advancing 100 ms per
  round and connection attempts succeeding, a waiting client whose back-off is at most 30 s is
  connected after at most 300 rounds.
\<close>
theorem reconnect_liveness:
  assumes "waiting c" "unat (backoff_ms c) \<le> 30000" "\<And>x. att x = 0"
    "\<And>i. clk i = USE_FREERTOS (last_attempt_time_ms c + of_nat (100 * (i + 1)))" "300 \<le> n"
  shows "doip_client_reconnect_is_connected (reconnect_rounds att clk n (Some c))"
proof -
  have step: "\<exists>c'. reconnect_rounds att clk k (Some c) = Some c' \<and>
      (doip_client_reconnect_is_connected (Some c') \<or> c' = c \<and> (k = 0 \<or> 100 * k < unat (backoff_ms c)))" for k
  proof (induction k)
    case 0
    show ?case by simp
  next
    case (Suc k)
    then obtain c' where c': "reconnect_rounds att clk k (Some c) = Some c'"
        "doip_client_reconnect_is_connected (Some c') \<or> c' = c \<and> (k = 0 \<or> 100 * k < unat (backoff_ms c))"
      by blast
    show ?case
    proof (cases "doip_client_reconnect_is_connected (Some c')")
      case True
      with connected_stays [OF True, of att "clk k"] c'(1) show ?thesis by auto
    next
      case False
      then have c: "c' = c" "k = 0 \<or> 100 * k < unat (backoff_ms c)"
        using c'(2) by auto
      have "100 * (k + 1) < 2 ^ 32"
        using c(2) assms(2) by auto
      then have now: "unat (GET_TIME_MS (clk k) - last_attempt_time_ms c) = 100 * (k + 1)"
        by (simp only: assms(4) GET_TIME_MS.simps add_diff_cancel_left') (intro unat_le_of_nat, simp)
      show ?thesis
      proof (cases "due (clk k) c")
        case True
        then show ?thesis
          using c'(1) c(1) assms(3) [of "c\<lparr>last_attempt_time_ms := GET_TIME_MS (clk k)\<rparr>"]
            process_waiting [OF assms(1), of att "clk k"]
          by (simp add: doip_client_reconnect_is_connected_def)
      next
        case False
        then have "100 * Suc k < unat (backoff_ms c)"
          using now by (simp add: due_def word_le_nat_alt)
        with False show ?thesis
          using c'(1) c(1) process_waiting [OF assms(1), of att "clk k"] by simp
      qed
    qed
  qed
  show ?thesis
    using step [of n] assms(2,5) by auto
qed

theorem reconnect_liveness_witness:
  "doip_client_reconnect_is_connected (reconnect_rounds (\<lambda>x. 0) (\<lambda>i. USE_FREERTOS (of_nat (100 * (i + 1)))) 300
     (Some (reconnect_zero\<lparr>state := DOIP_STATE_CONNECTING, backoff_ms := 1000\<rparr>)))"
  by (rule reconnect_liveness) (simp_all add: waiting_def reconnect_zero_def)

text \<open>
  The bare-metal build never tries. Without FreeRTOS the clock is the constant 0, so a started
  client waits for ever: every round of the task reports ``still connecting'', the client does not
  change, and no attempt is ever made or counted.
\<close>
theorem reconnect_bare_metal_never_attempts:
  assumes "doip_client_reconnect_init (Some c0) (Some host) port cert key ca = Ret (0, Some c)"
  shows "doip_client_reconnect_task (\<lambda>i. BARE_METAL) n (Some c)
    = (replicate n (-2), Some (c\<lparr>state := DOIP_STATE_CONNECTING, last_attempt_time_ms := 0\<rparr>))
    \<and> total_reconnects c = 0"
proof -
  have c: "state c = DOIP_STATE_DISCONNECTED" "backoff_ms c = 1000" "total_reconnects c = 0"
    using assms by (auto simp: doip_client_reconnect_init_def Let_def cbind_Ret_iff reconnect_zero_def)
  have loop: "reconnect_task_loop (\<lambda>i. BARE_METAL) i n (Some d) = (replicate n (-2), Some d)"
    if "state d = DOIP_STATE_CONNECTING" "backoff_ms d = 1000" "last_attempt_time_ms d = 0" for d i
    using that by (induction n arbitrary: i)
      (simp_all add: doip_client_reconnect_process_def reconnect_process_with_def Let_def)
  show ?thesis
    using c by (simp add: doip_client_reconnect_task_def doip_client_reconnect_start_def set_state_def loop)
qed

theorem reconnect_bare_metal_never_attempts_witness:
  "fst (doip_client_reconnect_task (\<lambda>i. BARE_METAL) 3 (Some reconnect_started)) = [-2, -2, -2]"
  using reconnect_bare_metal_never_attempts [OF init_example, of 3] by (simp add: numeral_eq_Suc)

end
