(* ===== verification/Diagnostic_Router.thy ===== *)
theory Diagnostic_Router
  imports C_Prelude
begin

text \<open>
  The zonal gateway's diagnostic router: \<^verbatim>\<open>zonal_gateway/tc375/src/diagnostic_router.c\<close> and its
  header. The routing table of at most 32 ECUs, the table of pending requests, and the statistics.
  The clock is the constant 0, as \<open>get_current_time_ms\<close> is a placeholder.
\<close>

section \<open>State\<close>

abbreviation DIAG_ROUTER_MAX_ECUS :: nat where "DIAG_ROUTER_MAX_ECUS \<equiv> 32"
abbreviation DIAG_ROUTER_TIMEOUT_MS :: u32 where "DIAG_ROUTER_TIMEOUT_MS \<equiv> 5000"
abbreviation DIAG_ROUTER_MAX_PENDING :: nat where "DIAG_ROUTER_MAX_PENDING \<equiv> 16"

record ECURoutingEntry =
  ecu_id :: bytes
  ecu_address :: u16
  ecu_connected :: bool
  last_activity_time_ms :: u32

record PendingDiagRequest =
  pend_source :: u16
  pend_target :: u16
  pend_data :: "bytes option"
  pend_len :: size_t
  timestamp_ms :: u32
  is_active :: bool

record DiagnosticRouter =
  ecus :: "ECURoutingEntry list"
  ecu_count :: u32
  pending :: "PendingDiagRequest list"
  total_requests :: u32
  routed_to_ecu :: u32
  routed_to_vmg :: u32
  routing_errors :: u32

definition router_zero :: DiagnosticRouter where
  "router_zero = \<lparr>
     ecus = replicate DIAG_ROUTER_MAX_ECUS \<lparr>ecu_id = replicate 32 0, ecu_address = 0, ecu_connected = False,
       last_activity_time_ms = 0\<rparr>,
     ecu_count = 0,
     pending = replicate DIAG_ROUTER_MAX_PENDING \<lparr>pend_source = 0, pend_target = 0, pend_data = None,
       pend_len = 0, timestamp_ms = 0, is_active = False\<rparr>,
     total_requests = 0, routed_to_ecu = 0, routed_to_vmg = 0, routing_errors = 0\<rparr>"

definition get_current_time_ms :: u32 where
  "get_current_time_ms = 0"

section \<open>Operations\<close>

definition diagnostic_router_init :: "DiagnosticRouter option \<Rightarrow> int \<times> DiagnosticRouter option" where
  "diagnostic_router_init router =
     (case router of None \<Rightarrow> (-1, None) | Some _ \<Rightarrow> (0, Some router_zero))"

definition entry_at :: "DiagnosticRouter \<Rightarrow> nat \<Rightarrow> ECURoutingEntry cexec" where
  "entry_at r i = (if i < length (ecus r) then Ret (ecus r ! i) else Fault)"

definition diagnostic_router_register_ecu ::
  "DiagnosticRouter option \<Rightarrow> bytes option \<Rightarrow> u16 \<Rightarrow> (int \<times> DiagnosticRouter option) cexec" where
  "diagnostic_router_register_ecu router ident logical_address =
     (case (router, ident) of
        (Some r, Some name) \<Rightarrow>
          if 32 \<le> ecu_count r then Ret (-1, router)
          else
            cbind (entry_at r (unat (ecu_count r))) (\<lambda>e.
            cbind (c_strncpy (ecu_id e) name (length (ecu_id e) - 1)) (\<lambda>id1.
            cbind (buf_put id1 (length id1 - 1) 0) (\<lambda>id2.
            Ret (0, Some (r\<lparr>ecus := (ecus r)[unat (ecu_count r) :=
                     e\<lparr>ecu_id := id2, ecu_address := logical_address, ecu_connected := False,
                       last_activity_time_ms := 0\<rparr>],
                   ecu_count := ecu_count r + 1\<rparr>)))))
      | _ \<Rightarrow> Ret (-1, router))"

text \<open>The search loop, from index \<open>i\<close> over \<open>n\<close> entries; the result is the index the pointer refers to.\<close>

fun find_from :: "DiagnosticRouter \<Rightarrow> u16 \<Rightarrow> nat \<Rightarrow> nat \<Rightarrow> nat option cexec" where
  "find_from r addr i 0 = Ret None"
| "find_from r addr i (Suc n) =
     cbind (entry_at r i) (\<lambda>e. if ecu_address e = addr then Ret (Some i) else find_from r addr (Suc i) n)"

definition diagnostic_router_find_ecu :: "DiagnosticRouter option \<Rightarrow> u16 \<Rightarrow> nat option cexec" where
  "diagnostic_router_find_ecu router logical_address =
     (case router of None \<Rightarrow> Ret None | Some r \<Rightarrow> find_from r logical_address 0 (unat (ecu_count r)))"

definition diagnostic_router_route_to_ecu ::
  "DiagnosticRouter option \<Rightarrow> u16 \<Rightarrow> u16 \<Rightarrow> bytes option \<Rightarrow> size_t \<Rightarrow> (int \<times> DiagnosticRouter option) cexec" where
  "diagnostic_router_route_to_ecu router source target uds_data uds_len =
     (case (router, uds_data) of
        (Some r, Some _) \<Rightarrow>
          if uds_len = 0 then Ret (-1, router)
          else
            let r1 = r\<lparr>total_requests := total_requests r + 1\<rparr> in
            cbind (diagnostic_router_find_ecu (Some r1) target) (\<lambda>ecu.
              case ecu of
                None \<Rightarrow> Ret (-1, Some (r1\<lparr>routing_errors := routing_errors r1 + 1\<rparr>))
              | Some _ \<Rightarrow> Ret (0, Some (r1\<lparr>routed_to_ecu := routed_to_ecu r1 + 1\<rparr>)))
      | _ \<Rightarrow> Ret (-1, router))"

fun activity_from :: "DiagnosticRouter \<Rightarrow> u16 \<Rightarrow> nat \<Rightarrow> nat \<Rightarrow> DiagnosticRouter cexec" where
  "activity_from r addr i 0 = Ret r"
| "activity_from r addr i (Suc n) =
     cbind (entry_at r i) (\<lambda>e.
       if ecu_address e = addr
       then Ret (r\<lparr>ecus := (ecus r)[i := e\<lparr>last_activity_time_ms := get_current_time_ms, ecu_connected := True\<rparr>]\<rparr>)
       else activity_from r addr (Suc i) n)"

definition diagnostic_router_update_activity ::
  "DiagnosticRouter option \<Rightarrow> u16 \<Rightarrow> DiagnosticRouter option cexec" where
  "diagnostic_router_update_activity router logical_address =
     (case router of
        None \<Rightarrow> Ret None
      | Some r \<Rightarrow> cbind (activity_from r logical_address 0 (unat (ecu_count r))) (\<lambda>r'. Ret (Some r')))"

definition diagnostic_router_route_to_vmg ::
  "DiagnosticRouter option \<Rightarrow> u16 \<Rightarrow> u16 \<Rightarrow> bytes option \<Rightarrow> size_t \<Rightarrow> (int \<times> DiagnosticRouter option) cexec" where
  "diagnostic_router_route_to_vmg router source target uds_data uds_len =
     (case (router, uds_data) of
        (Some _, Some _) \<Rightarrow>
          if uds_len = 0 then Ret (-1, router)
          else
            cbind (diagnostic_router_update_activity router source) (\<lambda>router'.
            cbind (deref router') (\<lambda>r. Ret (0, Some (r\<lparr>routed_to_vmg := routed_to_vmg r + 1\<rparr>))))
      | _ \<Rightarrow> Ret (-1, router))"

fun count_connected :: "DiagnosticRouter \<Rightarrow> nat \<Rightarrow> nat \<Rightarrow> int \<Rightarrow> int cexec" where
  "count_connected r i 0 sent_count = Ret sent_count"
| "count_connected r i (Suc n) sent_count =
     cbind (entry_at r i) (\<lambda>e. count_connected r (Suc i) n (if ecu_connected e then sent_count + 1 else sent_count))"

definition diagnostic_router_broadcast ::
  "DiagnosticRouter option \<Rightarrow> u16 \<Rightarrow> bytes option \<Rightarrow> size_t \<Rightarrow> (int \<times> DiagnosticRouter option) cexec" where
  "diagnostic_router_broadcast router source uds_data uds_len =
     (case (router, uds_data) of
        (Some r, Some _) \<Rightarrow>
          if uds_len = 0 then Ret (-1, router)
          else
            cbind (count_connected r 0 (unat (ecu_count r)) 0) (\<lambda>sent_count.
            Ret (sent_count, Some (r\<lparr>routed_to_ecu := routed_to_ecu r + of_int sent_count\<rparr>)))
      | _ \<Rightarrow> Ret (-1, router))"

fun timeouts_from :: "u32 \<Rightarrow> nat \<Rightarrow> nat \<Rightarrow> DiagnosticRouter \<Rightarrow> DiagnosticRouter cexec" where
  "timeouts_from current_time i 0 r = Ret r"
| "timeouts_from current_time i (Suc n) r =
     (if i < length (pending r)
      then
        let req = pending r ! i in
        timeouts_from current_time (Suc i) n
          (if is_active req \<and> DIAG_ROUTER_TIMEOUT_MS < current_time - timestamp_ms req
           then r\<lparr>pending := (pending r)[i := req\<lparr>is_active := False\<rparr>], routing_errors := routing_errors r + 1\<rparr>
           else r)
      else Fault)"

definition diagnostic_router_check_timeouts :: "DiagnosticRouter option \<Rightarrow> DiagnosticRouter option cexec" where
  "diagnostic_router_check_timeouts router =
     (case router of
        None \<Rightarrow> Ret None
      | Some r \<Rightarrow>
          cbind (timeouts_from get_current_time_ms 0 DIAG_ROUTER_MAX_PENDING r) (\<lambda>r'. Ret (Some r')))"

definition diagnostic_router_get_stats ::
  "DiagnosticRouter option \<Rightarrow> u32 option \<Rightarrow> u32 option \<Rightarrow> u32 option \<Rightarrow> u32 option
     \<Rightarrow> u32 option \<times> u32 option \<times> u32 option \<times> u32 option" where
  "diagnostic_router_get_stats router requests to_ecu to_vmg errors =
     (case router of
        None \<Rightarrow> (requests, to_ecu, to_vmg, errors)
      | Some r \<Rightarrow> (map_option (\<lambda>_. total_requests r) requests, map_option (\<lambda>_. routed_to_ecu r) to_ecu,
          map_option (\<lambda>_. routed_to_vmg r) to_vmg, map_option (\<lambda>_. routing_errors r) errors))"

section \<open>The routing table as a contract\<close>

text \<open>
  A table of named addresses: the empty table finds nothing, and registering keeps what is found
  already, adding the new address only if it was not there. The lookup over a whole registration
  history then is \<open>map_of\<close>, which takes the first entry of an address. \<open>stored\<close> is the form in which
  the table keeps a name.
\<close>

locale routing_table =
  fixes inv :: "'t \<Rightarrow> bool"
    and empty :: 't
    and register :: "'t \<Rightarrow> u16 \<times> 'n \<Rightarrow> 't option"
    and lookup :: "'t \<Rightarrow> u16 \<Rightarrow> 'n option"
    and stored :: "'n \<Rightarrow> 'n"
  assumes inv_empty: "inv empty"
    and lookup_empty: "lookup empty a = None"
    and inv_register: "inv t \<Longrightarrow> register t e = Some t' \<Longrightarrow> inv t'"
    and lookup_register: "inv t \<Longrightarrow> register t e = Some t' \<Longrightarrow>
      lookup t' a = (case lookup t a of Some n \<Rightarrow> Some n | None \<Rightarrow> if a = fst e then Some (stored (snd e)) else None)"
begin

fun register_all :: "'t \<Rightarrow> (u16 \<times> 'n) list \<Rightarrow> 't option" where
  "register_all t [] = Some t"
| "register_all t (e # es) = (case register t e of None \<Rightarrow> None | Some t' \<Rightarrow> register_all t' es)"

lemma register_all_lookup:
  "inv t \<Longrightarrow> register_all t es = Some t' \<Longrightarrow> inv t'
    \<and> lookup t' a = (case lookup t a of Some n \<Rightarrow> Some n | None \<Rightarrow> map_option stored (map_of es a))"
proof (induction es arbitrary: t)
  case (Cons e es)
  then obtain t1 where "register t e = Some t1" "register_all t1 es = Some t'"
    by (auto split: option.splits)
  with Cons.IH [OF inv_register [OF Cons.prems(1)], of e t1] show ?case
    using lookup_register [OF Cons.prems(1), of e t1 a] by (cases e) (auto split: option.splits)
qed (simp split: option.split)

lemma history_lookup: "register_all empty es = Some t \<Longrightarrow> lookup t a = map_option stored (map_of es a)"
  using register_all_lookup [OF inv_empty] lookup_empty by fastforce

end

section \<open>Well-formed routers\<close>

definition wf_router :: "DiagnosticRouter \<Rightarrow> bool" where
  "wf_router r \<longleftrightarrow> length (ecus r) = DIAG_ROUTER_MAX_ECUS \<and> unat (ecu_count r) \<le> DIAG_ROUTER_MAX_ECUS
     \<and> length (pending r) = DIAG_ROUTER_MAX_PENDING
     \<and> (\<forall>e \<in> set (ecus r). length (ecu_id e) = 32 \<and> last (ecu_id e) = 0)
     \<and> (\<forall>p \<in> set (pending r). \<not> is_active p)"

text \<open>The registered entries, in order.\<close>

definition table :: "DiagnosticRouter \<Rightarrow> ECURoutingEntry list" where
  "table r = take (unat (ecu_count r)) (ecus r)"

definition short_name :: "bytes \<Rightarrow> bytes" where
  "short_name n = take 31 (takeWhile (\<lambda>b. b \<noteq> 0) n)"

definition entry_name :: "ECURoutingEntry \<Rightarrow> bytes" where
  "entry_name e = takeWhile (\<lambda>b. b \<noteq> 0) (ecu_id e)"

lemma wf_router_zero: "wf_router router_zero"
  by (simp add: wf_router_def router_zero_def)

lemma table_zero: "table router_zero = []"
  by (simp add: table_def router_zero_def)

lemma entry_at_ok: "i < length (ecus r) \<Longrightarrow> entry_at r i = Ret (ecus r ! i)"
  by (simp add: entry_at_def)

lemma find_from_ok:
  "i + n \<le> length (ecus r) \<Longrightarrow> \<exists>res. find_from r a i n = Ret res \<and>
    (case res of None \<Rightarrow> \<forall>j. i \<le> j \<and> j < i + n \<longrightarrow> ecu_address (ecus r ! j) \<noteq> a
     | Some k \<Rightarrow> i \<le> k \<and> k < i + n \<and> ecu_address (ecus r ! k) = a \<and> (\<forall>j. i \<le> j \<and> j < k \<longrightarrow> ecu_address (ecus r ! j) \<noteq> a))"
proof (induction n arbitrary: i)
  case (Suc n)
  have at: "entry_at r i = Ret (ecus r ! i)"
    using Suc.prems by (simp add: entry_at_ok)
  show ?case
  proof (cases "ecu_address (ecus r ! i) = a")
    case True
    with at show ?thesis by (intro exI [of _ "Some i"]) (auto simp: not_less)
  next
    case False
    from Suc.IH [of "Suc i"] Suc.prems obtain res where res: "find_from r a (Suc i) n = Ret res"
      "case res of None \<Rightarrow> \<forall>j. Suc i \<le> j \<and> j < Suc i + n \<longrightarrow> ecu_address (ecus r ! j) \<noteq> a
       | Some k \<Rightarrow> Suc i \<le> k \<and> k < Suc i + n \<and> ecu_address (ecus r ! k) = a
           \<and> (\<forall>j. Suc i \<le> j \<and> j < k \<longrightarrow> ecu_address (ecus r ! j) \<noteq> a)"
      by auto
    have split: "i \<le> j \<longleftrightarrow> j = i \<or> Suc i \<le> j" for j by auto
    show ?thesis
      using res at False by (intro exI [of _ res]) (cases res, auto simp: split)
  qed
qed auto

lemma find_ecu_ok:
  assumes "wf_router r"
  shows "\<exists>res. diagnostic_router_find_ecu (Some r) a = Ret res \<and>
    List.find (\<lambda>e. ecu_address e = a) (table r) = map_option (\<lambda>i. ecus r ! i) res \<and>
    (\<forall>i. res = Some i \<longrightarrow> i < unat (ecu_count r))"
proof -
  have len: "0 + unat (ecu_count r) \<le> length (ecus r)" "length (table r) = unat (ecu_count r)"
    using assms by (simp_all add: wf_router_def table_def)
  obtain res where res: "find_from r a 0 (unat (ecu_count r)) = Ret res"
    "case res of None \<Rightarrow> \<forall>j. 0 \<le> j \<and> j < 0 + unat (ecu_count r) \<longrightarrow> ecu_address (ecus r ! j) \<noteq> a
     | Some k \<Rightarrow> 0 \<le> k \<and> k < 0 + unat (ecu_count r) \<and> ecu_address (ecus r ! k) = a \<and> (\<forall>j. 0 \<le> j \<and> j < k \<longrightarrow> ecu_address (ecus r ! j) \<noteq> a)"
    using find_from_ok [OF len(1), of a] by blast
  have nth: "table r ! j = ecus r ! j" if "j < unat (ecu_count r)" for j
    using that by (simp add: table_def)
  show ?thesis
  proof (cases res)
    case None
    have "\<not> (\<exists>e. e \<in> set (table r) \<and> ecu_address e = a)"
      using res(2) None len(2) nth by (auto simp: in_set_conv_nth)
    then have "List.find (\<lambda>e. ecu_address e = a) (table r) = None"
      by (simp add: find_None_iff)
    with None res(1) show ?thesis by (simp add: diagnostic_router_find_ecu_def)
  next
    case (Some k)
    then have k: "k < unat (ecu_count r)" "ecu_address (ecus r ! k) = a" "\<forall>j. j < k \<longrightarrow> ecu_address (ecus r ! j) \<noteq> a"
      using res(2) by simp_all
    have "List.find (\<lambda>e. ecu_address e = a) (table r) = Some (ecus r ! k)"
      unfolding find_Some_iff using k len(2) nth by (intro exI [of _ k]) auto
    with Some res(1) k(1) show ?thesis by (simp add: diagnostic_router_find_ecu_def)
  qed
qed

section \<open>Registration\<close>

definition new_entry :: "bytes \<Rightarrow> u16 \<Rightarrow> ECURoutingEntry \<Rightarrow> bool" where
  "new_entry name a e \<longleftrightarrow> entry_name e = short_name name \<and> ecu_address e = a \<and> \<not> ecu_connected e
     \<and> length (ecu_id e) = 32 \<and> last (ecu_id e) = 0"

lemma register_ok:
  assumes "wf_router r"
  shows "(32 \<le> ecu_count r \<longrightarrow> diagnostic_router_register_ecu (Some r) (Some name) a = Ret (-1, Some r))
    \<and> (\<not> 32 \<le> ecu_count r \<longrightarrow> (\<exists>r' e. diagnostic_router_register_ecu (Some r) (Some name) a = Ret (0, Some r')
       \<and> wf_router r' \<and> table r' = table r @ [e] \<and> new_entry name a e))"
proof (cases "32 \<le> ecu_count r")
  case True
  then show ?thesis by (simp add: diagnostic_router_register_ecu_def)
next
  case False
  let ?n = "unat (ecu_count r)" and ?e = "ecus r ! unat (ecu_count r)"
  have n: "?n < 32" "?n < length (ecus r)"
    using False assms by (simp_all add: word_less_nat_alt not_le wf_router_def)
  have e: "length (ecu_id ?e) = 32" "last (ecu_id ?e) = 0"
    using assms n(2) unfolding wf_router_def by (metis nth_mem)+
  obtain d where d: "c_strncpy (ecu_id ?e) name (length (ecu_id ?e) - 1) = Ret d" "length d = 32" "last d = 0"
      "cstr_of d = Ret (take 31 (takeWhile (\<lambda>b. b \<noteq> 0) name))"
    using cstr_of_strncpy [of "ecu_id ?e" name] e by auto
  have "d \<noteq> []"
    using d(2) by auto
  then have "d ! 31 = 0"
    using d(2,3) last_conv_nth [of d] by simp
  then have "d[31 := 0] = d"
    using d(2) by (metis list_update_id)
  then have put: "buf_put d (length d - 1) 0 = Ret d"
    using d(2) by (simp add: buf_put_def)
  let ?e' = "?e\<lparr>ecu_id := d, ecu_address := a, ecu_connected := False, last_activity_time_ms := 0\<rparr>"
  let ?r' = "r\<lparr>ecus := (ecus r)[?n := ?e'], ecu_count := ecu_count r + 1\<rparr>"
  have run: "diagnostic_router_register_ecu (Some r) (Some name) a = Ret (0, Some ?r')"
    using False n(2) d(1) put by (simp add: diagnostic_router_register_ecu_def entry_at_ok)
  have cnt: "unat (ecu_count r + 1) = Suc ?n"
    using n(1) by (subst unat_add_no_wrap) auto
  have "wf_router ?r'"
    using assms n cnt d(2,3) by (auto simp: wf_router_def dest!: set_update_subset_insert [THEN subsetD])
  moreover have "table ?r' = table r @ [?e']"
    using n(2) cnt by (simp add: table_def take_Suc_conv_app_nth)
  moreover have "new_entry name a ?e'"
    using d by (auto simp: new_entry_def entry_name_def short_name_def cstr_of_def split: if_splits)
  ultimately show ?thesis
    using run False by blast
qed


section \<open>The router as a routing table\<close>

definition router_register :: "DiagnosticRouter \<Rightarrow> u16 \<times> bytes \<Rightarrow> DiagnosticRouter option" where
  "router_register r e =
     (case diagnostic_router_register_ecu (Some r) (Some (snd e)) (fst e) of
        Ret (code, Some r') \<Rightarrow> if code = 0 then Some r' else None | _ \<Rightarrow> None)"

definition router_lookup :: "DiagnosticRouter \<Rightarrow> u16 \<Rightarrow> bytes option" where
  "router_lookup r a =
     (case diagnostic_router_find_ecu (Some r) a of
        Ret (Some i) \<Rightarrow> Some (entry_name (ecus r ! i)) | _ \<Rightarrow> None)"

fun router_register_all :: "DiagnosticRouter \<Rightarrow> (u16 \<times> bytes) list \<Rightarrow> DiagnosticRouter option" where
  "router_register_all r [] = Some r"
| "router_register_all r (e # es) =
     (case router_register r e of None \<Rightarrow> None | Some r' \<Rightarrow> router_register_all r' es)"

lemma router_lookup_table:
  assumes "wf_router r"
  shows "router_lookup r a = map_option entry_name (List.find (\<lambda>e. ecu_address e = a) (table r))"
proof -
  obtain res where "diagnostic_router_find_ecu (Some r) a = Ret res"
      "List.find (\<lambda>e. ecu_address e = a) (table r) = map_option (\<lambda>i. ecus r ! i) res"
    using find_ecu_ok [OF assms] by blast
  then show ?thesis
    by (cases res) (simp_all add: router_lookup_def)
qed

lemma router_register_table:
  assumes "wf_router r" "router_register r e = Some r'"
  obtains x where "wf_router r'" "table r' = table r @ [x]" "new_entry (snd e) (fst e) x"
proof (cases "32 \<le> ecu_count r")
  case True
  with register_ok [OF assms(1), of "snd e" "fst e"] assms(2) show thesis
    by (simp add: router_register_def)
next
  case False
  with register_ok [OF assms(1), of "snd e" "fst e"] assms(2) that show thesis
    by (auto simp: router_register_def)
qed

interpretation router_table: routing_table wf_router router_zero router_register router_lookup short_name
proof unfold_locales
  show "wf_router router_zero" by (rule wf_router_zero)
  show "router_lookup router_zero a = None" for a
    by (simp add: router_lookup_table wf_router_zero table_zero)
  show "wf_router t'" if "wf_router t" "router_register t e = Some t'" for t e t'
    using router_register_table [OF that] by blast
  show "router_lookup t' a = (case router_lookup t a of Some n \<Rightarrow> Some n
      | None \<Rightarrow> if a = fst e then Some (short_name (snd e)) else None)"
    if "wf_router t" "router_register t e = Some t'" for t e t' a
  proof -
    note prems = that
    obtain x where "wf_router t'" "table t' = table t @ [x]" "new_entry (snd e) (fst e) x"
      using router_register_table [OF prems] by blast
    then show ?thesis
      by (auto simp: router_lookup_table prems(1) find_append new_entry_def split: option.splits)
  qed
qed

lemma router_register_all_eq: "router_register_all r es = router_table.register_all r es"
  by (induction es arbitrary: r) (auto split: option.splits)

lemma router_register_all_fits:
  assumes "wf_router r" "unat (ecu_count r) + length es \<le> DIAG_ROUTER_MAX_ECUS"
  shows "\<exists>r'. router_register_all r es = Some r'"
  using assms
proof (induction es arbitrary: r)
  case (Cons e es)
  then have "\<not> 32 \<le> ecu_count r"
    by (simp add: word_le_nat_alt)
  with register_ok [OF Cons.prems(1), of "snd e" "fst e"] obtain r' x
    where r': "router_register r e = Some r'" "wf_router r'" "table r' = table r @ [x]"
    by (auto simp: router_register_def)
  have "length (table r) = unat (ecu_count r)" "length (table r') = unat (ecu_count r')"
    using Cons.prems(1) r'(2) by (simp_all add: wf_router_def table_def)
  then have "unat (ecu_count r') + length es \<le> DIAG_ROUTER_MAX_ECUS"
    using Cons.prems(2) r'(3) by simp
  from Cons.IH [OF r'(2) this] r'(1) show ?case by simp
qed simp

text \<open>
  C33. Lookup after registration. After registering up to 32 ECUs in an initialised router, the
  search for an address finds the first entry registered with it (with its name cut to 31 bytes),
  and nothing for an address that was not registered: later entries of an address are never found.
\<close>
theorem router_finds_first_registered:
  assumes "length es \<le> DIAG_ROUTER_MAX_ECUS"
  shows "\<exists>r. router_register_all router_zero es = Some r
    \<and> router_lookup r a = map_option short_name (map_of es a)"
proof -
  obtain r where r: "router_register_all router_zero es = Some r"
    using router_register_all_fits [OF wf_router_zero, of es] assms by (auto simp: router_zero_def)
  with router_table.history_lookup [of es r a] show ?thesis
    by (simp add: router_register_all_eq)
qed

theorem router_finds_first_registered_witness:
  "\<exists>r. router_register_all router_zero [(0x100, [0x41]), (0x200, [0x42]), (0x100, [0x43])] = Some r
    \<and> router_lookup r 0x100 = Some [0x41]"
  using router_finds_first_registered [of "[(0x100, [0x41]), (0x200, [0x42]), (0x100, [0x43])]" "0x100"]
  by (simp add: short_name_def)

section \<open>Routing\<close>

lemma find_none_iff: "List.find (\<lambda>e. ecu_address e = a) xs = None \<longleftrightarrow> a \<notin> ecu_address ` set xs"
  by (induction xs) auto

lemma wf_router_counters [simp]:
  "wf_router (r\<lparr>total_requests := x\<rparr>) = wf_router r" "wf_router (r\<lparr>routing_errors := x\<rparr>) = wf_router r"
  "wf_router (r\<lparr>routed_to_ecu := x\<rparr>) = wf_router r" "wf_router (r\<lparr>routed_to_vmg := x\<rparr>) = wf_router r"
  "table (r\<lparr>total_requests := x\<rparr>) = table r" "table (r\<lparr>routing_errors := x\<rparr>) = table r"
  "table (r\<lparr>routed_to_ecu := x\<rparr>) = table r" "table (r\<lparr>routed_to_vmg := x\<rparr>) = table r"
  by (simp_all add: wf_router_def table_def)

text \<open>
  Requests go to registered ECUs. A non-empty request from the vehicle gateway is accepted
  exactly when its target address is in the table, whether that ECU was ever heard of or not;
  it is counted as a request, and as routed or as an error.
\<close>
theorem router_routes_registered:
  assumes "wf_router r" "uds_len \<noteq> 0"
  shows "\<exists>r'. diagnostic_router_route_to_ecu (Some r) src tgt (Some d) uds_len
      = Ret (if tgt \<in> ecu_address ` set (table r) then 0 else -1, Some r')
    \<and> table r' = table r \<and> total_requests r' = total_requests r + 1
    \<and> routed_to_ecu r' = routed_to_ecu r + (if tgt \<in> ecu_address ` set (table r) then 1 else 0)
    \<and> routing_errors r' = routing_errors r + (if tgt \<in> ecu_address ` set (table r) then 0 else 1)"
proof -
  let ?r = "r\<lparr>total_requests := total_requests r + 1\<rparr>"
  have "wf_router ?r" using assms(1) by simp
  from find_ecu_ok [OF this, of tgt] obtain res where
    res: "diagnostic_router_find_ecu (Some ?r) tgt = Ret res" "List.find (\<lambda>e. ecu_address e = tgt) (table r) = map_option (\<lambda>i. ecus r ! i) res"
    by auto
  have "res = None \<longleftrightarrow> tgt \<notin> ecu_address ` set (table r)"
    using res(2) find_none_iff [of tgt "table r"] by (cases res) auto
  with res(1) assms(2) show ?thesis
    by (cases res) (auto simp: diagnostic_router_route_to_ecu_def Let_def)
qed

theorem router_routes_registered_witness:
  "\<exists>r'. diagnostic_router_route_to_ecu (Some router_zero) 0x0E00 0x0100 (Some [0x3E, 0]) 2 = Ret (-1, Some r')
    \<and> routing_errors r' = 1"
proof -
  have "routing_errors router_zero = 0"
    by (simp add: router_zero_def)
  with router_routes_registered [OF wf_router_zero, of 2 "0x0E00" "0x0100" "[0x3E, 0]"] show ?thesis
    by (auto simp: table_zero)
qed

lemma count_connected_ok:
  "i + n \<le> length (ecus r) \<Longrightarrow>
    count_connected r i n k = Ret (k + int (length (filter ecu_connected (take n (drop i (ecus r))))))"
proof (induction n arbitrary: i k)
  case (Suc n)
  have "take (Suc n) (drop i (ecus r)) = ecus r ! i # take n (drop (Suc i) (ecus r))"
    using Suc.prems by (simp add: Cons_nth_drop_Suc [symmetric])
  with Suc show ?case by (simp add: entry_at_ok)
qed simp

lemma activity_from_ok:
  "i + n \<le> length (ecus r) \<Longrightarrow> \<exists>es. activity_from r a i n = Ret (r\<lparr>ecus := es\<rparr>) \<and> length es = length (ecus r)
    \<and> (\<forall>j < length es. ecu_id (es ! j) = ecu_id (ecus r ! j) \<and> ecu_address (es ! j) = ecu_address (ecus r ! j)
        \<and> (ecu_connected (es ! j) \<longleftrightarrow> ecu_connected (ecus r ! j)
            \<or> i \<le> j \<and> j < i + n \<and> ecu_address (ecus r ! j) = a \<and> (\<forall>k. i \<le> k \<and> k < j \<longrightarrow> ecu_address (ecus r ! k) \<noteq> a)))"
proof (induction n arbitrary: i)
  case 0
  show ?case by (intro exI [of _ "ecus r"]) auto
next
  case (Suc n)
  have at: "entry_at r i = Ret (ecus r ! i)" "i < length (ecus r)"
    using Suc.prems by (simp_all add: entry_at_ok)
  have split: "i \<le> j \<longleftrightarrow> j = i \<or> Suc i \<le> j" for j by auto
  show ?case
  proof (cases "ecu_address (ecus r ! i) = a")
    case True
    with at show ?thesis
      by (intro exI [of _ "(ecus r)[i := (ecus r ! i)\<lparr>last_activity_time_ms := get_current_time_ms, ecu_connected := True\<rparr>]"])
        (auto simp: nth_list_update not_less le_eq_less_or_eq)
  next
    case False
    have "Suc i + n \<le> length (ecus r)"
      using Suc.prems by simp
    from Suc.IH [OF this] obtain es where es: "activity_from r a (Suc i) n = Ret (r\<lparr>ecus := es\<rparr>)"
      "length es = length (ecus r)"
      "\<forall>j < length es. ecu_id (es ! j) = ecu_id (ecus r ! j) \<and> ecu_address (es ! j) = ecu_address (ecus r ! j)
        \<and> (ecu_connected (es ! j) \<longleftrightarrow> ecu_connected (ecus r ! j)
            \<or> Suc i \<le> j \<and> j < Suc i + n \<and> ecu_address (ecus r ! j) = a
              \<and> (\<forall>k. Suc i \<le> k \<and> k < j \<longrightarrow> ecu_address (ecus r ! k) \<noteq> a))"
      by blast
    with at False show ?thesis
      by (intro exI [of _ es]) (auto simp: split)
  qed
qed

text \<open>
  A broadcast reaches exactly the ECUs heard of. Its result, also added to the routed counter,
  is the number of table entries that are connected; an entry becomes connected when an answer
  from its address passes the router, and only the first entry of that address does.
\<close>
theorem router_broadcast_and_activity:
  assumes "wf_router r" "n \<noteq> 0"
  shows "(let k = length (filter ecu_connected (table r)) in
      diagnostic_router_broadcast (Some r) src (Some d) n
        = Ret (int k, Some (r\<lparr>routed_to_ecu := routed_to_ecu r + of_nat k\<rparr>)))
    \<and> (\<exists>r'. diagnostic_router_route_to_vmg (Some r) a tgt (Some d) n = Ret (0, Some r')
      \<and> map ecu_address (table r') = map ecu_address (table r)
      \<and> (\<forall>j < length (table r). ecu_connected (table r' ! j) \<longleftrightarrow> ecu_connected (table r ! j)
          \<or> ecu_address (table r ! j) = a \<and> (\<forall>k < j. ecu_address (table r ! k) \<noteq> a)))"
proof -
  have len: "0 + unat (ecu_count r) \<le> length (ecus r)" "length (table r) = unat (ecu_count r)"
    using assms(1) by (simp_all add: wf_router_def table_def)
  obtain es where es: "activity_from r a 0 (unat (ecu_count r)) = Ret (r\<lparr>ecus := es\<rparr>)" "length es = length (ecus r)"
    "\<forall>j < length es. ecu_id (es ! j) = ecu_id (ecus r ! j) \<and> ecu_address (es ! j) = ecu_address (ecus r ! j)
        \<and> (ecu_connected (es ! j) \<longleftrightarrow> ecu_connected (ecus r ! j)
            \<or> 0 \<le> j \<and> j < 0 + unat (ecu_count r) \<and> ecu_address (ecus r ! j) = a \<and> (\<forall>k. 0 \<le> k \<and> k < j \<longrightarrow> ecu_address (ecus r ! k) \<noteq> a))"
    using activity_from_ok [OF len(1), of a] by blast
  let ?r = "r\<lparr>ecus := es, routed_to_vmg := routed_to_vmg r + 1\<rparr>"
  have nth: "table r ! j = ecus r ! j" "table ?r ! j = es ! j" if "j < unat (ecu_count r)" for j
    using that by (simp_all add: table_def)
  have len': "length (table ?r) = unat (ecu_count r)"
    using len es(2) by (simp add: table_def)
  have "diagnostic_router_route_to_vmg (Some r) a tgt (Some d) n = Ret (0, Some ?r)"
    using assms(2) es(1) by (simp add: diagnostic_router_route_to_vmg_def diagnostic_router_update_activity_def)
  moreover have "map ecu_address (table ?r) = map ecu_address (table r)"
    using es len len' nth by (intro nth_equalityI) simp_all
  moreover have "\<forall>j < length (table r). ecu_connected (table ?r ! j) \<longleftrightarrow> ecu_connected (table r ! j)
      \<or> ecu_address (table r ! j) = a \<and> (\<forall>k < j. ecu_address (table r ! k) \<noteq> a)"
    using es len nth by simp
  ultimately show ?thesis
    using assms(2) count_connected_ok [OF len(1), of 0]
    by (auto simp: diagnostic_router_broadcast_def table_def Let_def)
qed

theorem router_broadcast_and_activity_witness:
  "diagnostic_router_broadcast (Some router_zero) 0x0E00 (Some [0x3E, 0]) 2 = Ret (0, Some router_zero)"
  using router_broadcast_and_activity [OF wf_router_zero, of 2 "0x0E00" "[0x3E, 0]"]
  by (simp add: table_zero)

end
