(* ===== verification/Boot_Common.thy ===== *)
theory Boot_Common
  imports C_Prelude
begin

text \<open>
  What the bootloaders share: \<^verbatim>\<open>bootloader/common/boot_common.h\<close> (the same file for the end-node
  ECU and the zonal gateway). The boot configuration in data flash, the image metadata read from
  program flash, and the execution of boot code: a computation over the configuration that goes on
  with a value or leaves for good (it starts an image, resets the system, or stays in safe mode).
  \<open>calculate_crc32\<close> and \<open>verify_dilithium_signature\<close>, which the repository only declares, are
  fields of \<open>boot_env\<close>; \<open>system_reset\<close>, also only declared, does not return (the comments of its
  callers say so).
\<close>

section \<open>Memory map\<close>

abbreviation REGION_A_BOOT_META :: u32 where "REGION_A_BOOT_META \<equiv> 0x800A0000"
abbreviation REGION_A_BOOT_START :: u32 where "REGION_A_BOOT_START \<equiv> 0x800A1000"
abbreviation REGION_A_APP_META :: u32 where "REGION_A_APP_META \<equiv> 0x800D2000"
abbreviation REGION_A_APP_START :: u32 where "REGION_A_APP_START \<equiv> 0x800D3000"
abbreviation REGION_B_BOOT_META :: u32 where "REGION_B_BOOT_META \<equiv> 0x820A0000"
abbreviation REGION_B_BOOT_START :: u32 where "REGION_B_BOOT_START \<equiv> 0x820A1000"
abbreviation REGION_B_APP_META :: u32 where "REGION_B_APP_META \<equiv> 0x820D2000"
abbreviation REGION_B_APP_START :: u32 where "REGION_B_APP_START \<equiv> 0x820D3000"
abbreviation MAX_BOOT_ATTEMPTS :: u8 where "MAX_BOOT_ATTEMPTS \<equiv> 3"
abbreviation MAGIC_NUMBER :: u32 where "MAGIC_NUMBER \<equiv> 0xA5A5A5A5"

section \<open>Data\<close>

datatype BootBank = BANK_A | BANK_B | BANK_INVALID

fun other_bank :: "BootBank \<Rightarrow> BootBank" where
  "other_bank BANK_A = BANK_B"
| "other_bank _ = BANK_A"

record BootConfig =
  stage2_active :: u8
  stage2_boot_cnt_a :: u8
  stage2_boot_cnt_b :: u8
  app_active :: u8
  app_boot_cnt_a :: u8
  app_boot_cnt_b :: u8
  ota_pending :: u8
  cfg_reserved :: bytes
  cfg_crc :: u32

text \<open>The configuration in memory without its last field: the \<^verbatim>\<open>sizeof(BootConfig) - 4\<close> bytes the CRC covers.\<close>

definition config_bytes :: "BootConfig \<Rightarrow> bytes" where
  "config_bytes c = [stage2_active c, stage2_boot_cnt_a c, stage2_boot_cnt_b c, app_active c,
     app_boot_cnt_a c, app_boot_cnt_b c, ota_pending c] @ cfg_reserved c"

record BootMetadata =
  magic :: u32
  version :: u32
  meta_size :: u32
  crc32 :: u32
  signature :: bytes
  build_timestamp :: u32
  meta_boot_count :: u32
  valid :: u8

type_synonym flash = "u32 \<Rightarrow> u8"

definition flash_bytes :: "flash \<Rightarrow> u32 \<Rightarrow> nat \<Rightarrow> bytes" where
  "flash_bytes fl a n = map (\<lambda>i. fl (a + of_nat i)) [0..<n]"

definition flash_u32 :: "flash \<Rightarrow> u32 \<Rightarrow> u32" where
  "flash_u32 fl a = mem_u32 (flash_bytes fl a 4)"

text \<open>The packed metadata structure at an address: 4 words, the signature, 2 words, the flag.\<close>

definition read_metadata :: "flash \<Rightarrow> u32 \<Rightarrow> BootMetadata" where
  "read_metadata fl a = \<lparr>magic = flash_u32 fl a, version = flash_u32 fl (a + 4), meta_size = flash_u32 fl (a + 8),
     crc32 = flash_u32 fl (a + 12), signature = flash_bytes fl (a + 16) 256,
     build_timestamp = flash_u32 fl (a + 272), meta_boot_count = flash_u32 fl (a + 276), valid = fl (a + 280)\<rparr>"

record boot_env =
  calculate_crc32 :: "bytes \<Rightarrow> u32"
  verify_dilithium_signature :: "bytes \<Rightarrow> bytes \<Rightarrow> bool"

section \<open>Boot computations\<close>

text \<open>
  \<open>Start sp pc\<close>: the stack pointer is set and control passes to the reset handler of an image.
  \<open>Enter a\<close>: control passes to the code at address \<open>a\<close>.
\<close>

datatype boot_exit = Start u32 u32 | Enter u32 | SystemReset | SafeMode

type_synonym 'a boot = "BootConfig \<Rightarrow> (boot_exit + 'a) \<times> BootConfig"

definition bret :: "'a \<Rightarrow> 'a boot" where
  "bret a = (\<lambda>c. (Inr a, c))"

definition bexit :: "boot_exit \<Rightarrow> 'a boot" where
  "bexit e = (\<lambda>c. (Inl e, c))"

definition bbind :: "'a boot \<Rightarrow> ('a \<Rightarrow> 'b boot) \<Rightarrow> 'b boot" where
  "bbind m f = (\<lambda>c. case m c of (Inl e, c') \<Rightarrow> (Inl e, c') | (Inr a, c') \<Rightarrow> f a c')"

definition bseq :: "unit boot \<Rightarrow> 'b boot \<Rightarrow> 'b boot" where
  "bseq m n = bbind m (\<lambda>_. n)"

definition bget :: "(BootConfig \<Rightarrow> 'a) \<Rightarrow> 'a boot" where
  "bget f = (\<lambda>c. (Inr (f c), c))"

definition bput :: "(BootConfig \<Rightarrow> BootConfig) \<Rightarrow> unit boot" where
  "bput f = (\<lambda>c. (Inr (), f c))"

definition bwhen :: "bool \<Rightarrow> unit boot \<Rightarrow> unit boot" where
  "bwhen b m = (if b then m else bret ())"

named_theorems boot_simps \<open>execution of boot computations\<close>

lemma boot_exec [boot_simps]:
  "bret a c = (Inr a, c)" "bexit e c = (Inl e, c)" "bget f c = (Inr (f c), c)" "bput g c = (Inr (), g c)"
  "bwhen True m = m" "bwhen False m = bret ()"
  by (simp_all add: bret_def bexit_def bget_def bput_def bwhen_def)

lemma bbind_exec [boot_simps]:
  "m c = (Inr a, c') \<Longrightarrow> bbind m f c = f a c'" "m c = (Inl e, c') \<Longrightarrow> bbind m f c = (Inl e, c')"
  by (simp_all add: bbind_def)

lemma bseq_exec [boot_simps]:
  "m c = (Inr (), c') \<Longrightarrow> bseq m n c = n c'" "m c = (Inl e, c') \<Longrightarrow> bseq m n c = (Inl e, c')"
  by (simp_all add: bseq_def bbind_def)

text \<open>Every write to the configuration is followed by \<^verbatim>\<open>cfg->crc = calculate_crc32(...)\<close>.\<close>

definition seal :: "boot_env \<Rightarrow> BootConfig \<Rightarrow> BootConfig" where
  "seal E c = c\<lparr>cfg_crc := calculate_crc32 E (config_bytes c)\<rparr>"

definition sealed :: "boot_env \<Rightarrow> BootConfig \<Rightarrow> bool" where
  "sealed E c \<longleftrightarrow> calculate_crc32 E (config_bytes c) = cfg_crc c"

lemma seal_simps [simp]:
  "stage2_active (seal E c) = stage2_active c" "stage2_boot_cnt_a (seal E c) = stage2_boot_cnt_a c"
  "stage2_boot_cnt_b (seal E c) = stage2_boot_cnt_b c" "app_active (seal E c) = app_active c"
  "app_boot_cnt_a (seal E c) = app_boot_cnt_a c" "app_boot_cnt_b (seal E c) = app_boot_cnt_b c"
  "ota_pending (seal E c) = ota_pending c" "cfg_reserved (seal E c) = cfg_reserved c" "sealed E (seal E c)"
  by (simp_all add: seal_def sealed_def config_bytes_def)

section \<open>A/B booting as a contract\<close>

text \<open>
  One boot attempt either starts the image of the active bank or resets the system. The image
  started is a good one; a reset leaves the other bank active with a fresh attempt counter; a fresh
  good bank is started. Then a good image is started within three boots, and no bad one ever.
\<close>

locale ab_boot =
  fixes boot :: "'c \<Rightarrow> 'r option \<times> 'c"
    and active :: "'c \<Rightarrow> BootBank"
    and fresh :: "'c \<Rightarrow> bool"
    and good :: "BootBank \<Rightarrow> bool"
    and image :: "BootBank \<Rightarrow> 'r"
  assumes two_banks: "active c \<noteq> BANK_INVALID"
    and starts_good: "boot c = (Some r, c') \<Longrightarrow> good (active c) \<and> r = image (active c)"
    and resets_to_other: "boot c = (None, c') \<Longrightarrow> active c' = other_bank (active c) \<and> fresh c'"
    and fresh_starts: "fresh c \<Longrightarrow> good (active c) \<Longrightarrow> fst (boot c) \<noteq> None"
begin

fun boots :: "nat \<Rightarrow> 'c \<Rightarrow> 'r option" where
  "boots 0 c = None"
| "boots (Suc n) c = (case boot c of (Some r, c') \<Rightarrow> Some r | (None, c') \<Rightarrow> boots n c')"

lemma boots_safe: "boots n c = Some r \<Longrightarrow> \<exists>b. b \<noteq> BANK_INVALID \<and> good b \<and> r = image b"
proof (induction n arbitrary: c)
  case (Suc n)
  obtain o1 c1 where b: "boot c = (o1, c1)" by (cases "boot c")
  show ?case
  proof (cases o1)
    case None
    with b Suc show ?thesis by simp
  next
    case (Some x)
    with b Suc.prems starts_good [of c x c1] have "good (active c)" "r = image (active c)"
      by auto
    with two_banks show ?thesis by blast
  qed
qed simp

lemma boots_dead: "\<not> good BANK_A \<Longrightarrow> \<not> good BANK_B \<Longrightarrow> boots n c = None"
  using boots_safe [of n c] by (cases "boots n c") (metis BootBank.exhaust option.discI)+

lemma fresh_boots:
  assumes "fresh c" "good (active c)"
  shows "boots (Suc n) c \<noteq> None"
  using fresh_starts [OF assms] by (cases "boot c") auto

lemma boots_live:
  assumes "good BANK_A \<or> good BANK_B"
  shows "boots 3 c \<noteq> None"
proof (cases "boot c")
  case (Pair r c1)
  show ?thesis
  proof (cases r)
    case None
    with Pair have c1: "active c1 = other_bank (active c)" "fresh c1"
      using resets_to_other by auto
    obtain r2 c2 where b2: "boot c1 = (r2, c2)" by (cases "boot c1")
    show ?thesis
    proof (cases r2)
      case None
      with b2 have c2: "active c2 = other_bank (active c1)" "fresh c2"
        using resets_to_other by auto
      have "\<not> good (active c1)"
        using fresh_starts [OF c1(2)] b2 None by auto
      then have "good (active c2)"
        using assms two_banks [of c1] c2(1) by (cases "active c1") auto
      then have "boots (Suc 0) c2 \<noteq> None"
        by (rule fresh_boots [OF c2(2)])
      with Pair b2 None \<open>r = None\<close> show ?thesis
        by (simp add: numeral_3_eq_3)
    qed (use Pair b2 None in \<open>simp add: numeral_3_eq_3\<close>)
  qed (use Pair in \<open>simp add: numeral_3_eq_3\<close>)
qed

end

section \<open>A/B booting with a distrusted configuration\<close>

text \<open>
  The weaker contract of the stages that check the configuration's CRC and fall back to bank A when
  it is wrong (\<open>tried\<close>), and whose switch to the other bank can leave a wrong CRC behind: the
  configuration is known to be trusted after a reset only if the counter that was cleared was clear
  already. \<open>clear b c\<close>: bank \<open>b\<close>'s counter is 0. \<open>ready c\<close>: no update is pending.
\<close>

locale ab_boot_stale =
  fixes boot :: "'c \<Rightarrow> 'r option \<times> 'c"
    and active :: "'c \<Rightarrow> BootBank"
    and trusted :: "'c \<Rightarrow> bool"
    and tried :: "'c \<Rightarrow> BootBank"
    and clear :: "BootBank \<Rightarrow> 'c \<Rightarrow> bool"
    and ready :: "'c \<Rightarrow> bool"
    and good :: "BootBank \<Rightarrow> bool"
    and image :: "BootBank \<Rightarrow> 'r"
  assumes two_banks: "active c = BANK_A \<or> active c = BANK_B"
    and tried_bank: "tried c = (if trusted c then active c else BANK_A)"
    and starts_good: "boot c = (Some r, c') \<Longrightarrow> good (tried c) \<and> r = image (tried c)"
    and clear_starts: "ready c \<Longrightarrow> good (tried c) \<Longrightarrow> clear (tried c) c \<Longrightarrow> fst (boot c) \<noteq> None"
    and reset_active: "boot c = (None, c') \<Longrightarrow> active c' = other_bank (active c)"
    and reset_clear: "boot c = (None, c') \<Longrightarrow> clear (active c') c'"
    and reset_keeps: "boot c = (None, c') \<Longrightarrow> tried c \<noteq> active c \<Longrightarrow> clear (active c) c \<Longrightarrow> clear (active c) c'"
    and reset_trusted: "boot c = (None, c') \<Longrightarrow> tried c = active c \<Longrightarrow> clear (other_bank (active c)) c \<Longrightarrow> trusted c'"
    and reset_ready: "boot c = (None, c') \<Longrightarrow> ready c'"
begin

fun boots :: "nat \<Rightarrow> 'c \<Rightarrow> 'r option" where
  "boots 0 c = None"
| "boots (Suc n) c = (case boot c of (Some r, c') \<Rightarrow> Some r | (None, c') \<Rightarrow> boots n c')"

lemma boots_step: "boots (Suc n) c \<noteq> None \<longleftrightarrow> fst (boot c) \<noteq> None \<or> boots n (snd (boot c)) \<noteq> None"
  by (cases "boot c"; cases "fst (boot c)") auto

lemma boots_mono: "boots n c \<noteq> None \<Longrightarrow> boots (Suc n) c \<noteq> None"
proof (induction n arbitrary: c)
  case (Suc n)
  then show ?case
    using boots_step [of "Suc n" c] boots_step [of n c] by blast
qed simp

lemma boots_mono_add: "boots n c \<noteq> None \<Longrightarrow> boots (k + n) c \<noteq> None"
  using boots_mono by (induction k) auto

lemma start_or_reset:
  obtains (starts) "fst (boot c) \<noteq> None"
  | (resets) c' where "boot c = (None, c')" "snd (boot c) = c'"
  by (cases "boot c"; cases "fst (boot c)") auto

lemma tried_A: "active c = BANK_A \<Longrightarrow> tried c = BANK_A"
  by (simp add: tried_bank)

lemma boots_safe: "boots n c = Some r \<Longrightarrow> \<exists>b. b \<noteq> BANK_INVALID \<and> good b \<and> r = image b"
proof (induction n arbitrary: c)
  case (Suc n)
  show ?case
  proof (cases rule: start_or_reset [of c])
    case starts
    then obtain c' where "boot c = (Some r, c')"
      using Suc.prems by (cases "boot c"; cases "fst (boot c)") auto
    from starts_good [OF this] have "good (tried c)" "r = image (tried c)" by auto
    moreover have "tried c \<noteq> BANK_INVALID"
      using two_banks [of c] by (auto simp: tried_bank)
    ultimately show ?thesis by blast
  next
    case (resets c')
    with Suc show ?thesis by simp
  qed
qed simp

lemma live_active_A:
  assumes "good BANK_A" "active c = BANK_A" "clear BANK_A c" "ready c"
  shows "boots (Suc n) c \<noteq> None"
  using clear_starts [OF assms(4)] assms(1-3) tried_A [of c] unfolding boots_step by simp

lemma live_good_A:
  assumes "good BANK_A"
  shows "boots (Suc (Suc (Suc n))) c \<noteq> None"
proof -
  have two: "boots (Suc (Suc n)) d \<noteq> None" if "active d = BANK_B" for d n
  proof (cases rule: start_or_reset [of d])
    case (resets d')
    then have "active d' = BANK_A" "clear BANK_A d'" "ready d'"
      using reset_active [OF resets(1)] reset_clear [OF resets(1)] reset_ready [OF resets(1)] that by simp_all
    from live_active_A [OF assms this] resets(2) show ?thesis
      unfolding boots_step [of "Suc n" d] by simp
  qed (use boots_step [of "Suc n" d] in blast)
  show ?thesis
  proof (cases rule: start_or_reset [of c])
    case (resets c')
    from two_banks [of c'] have "boots (Suc (Suc n)) c' \<noteq> None"
    proof
      assume "active c' = BANK_A"
      with reset_clear [OF resets(1)] reset_ready [OF resets(1)] show ?thesis
        by (intro live_active_A assms) simp_all
    qed (rule two)
    with resets(2) show ?thesis
      unfolding boots_step [of "Suc (Suc n)" c] by simp
  qed (use boots_step [of "Suc (Suc n)" c] in blast)
qed

text \<open>
  With only bank B good: from an active bank A whose rival's counter is clear it takes two boots,
  from any active bank A at most four, from any state at most five.
\<close>

lemma bad_resets: "\<not> good b \<Longrightarrow> tried c = b \<Longrightarrow> boot c = (None, snd (boot c))"
  using starts_good [of c] by (cases "boot c"; cases "fst (boot c)") auto

lemma live_trusted_B:
  assumes "good BANK_B" "active d = BANK_B" "trusted d" "clear BANK_B d" "ready d"
  shows "boots (Suc n) d \<noteq> None"
  using clear_starts [OF assms(5)] assms boots_step [of n d] by (simp add: tried_bank)

lemma live_B_from_A:
  assumes "good BANK_B" "\<not> good BANK_A" "active d = BANK_A" "clear BANK_B d"
  shows "boots (Suc (Suc n)) d \<noteq> None"
proof -
  note r = bad_resets [OF assms(2) tried_A [OF assms(3)]]
  have "active (snd (boot d)) = BANK_B" "trusted (snd (boot d))" "clear BANK_B (snd (boot d))" "ready (snd (boot d))"
    using reset_active [OF r] reset_clear [OF r] reset_trusted [OF r] reset_ready [OF r] assms(3,4)
      tried_A [OF assms(3)] by simp_all
  from live_trusted_B [OF assms(1) this] show ?thesis
    using boots_step [of "Suc n" d] by blast
qed

lemma live_B_from_B:
  assumes "good BANK_B" "\<not> good BANK_A" "active d = BANK_B" "clear BANK_B d" "ready d"
  shows "boots (Suc (Suc (Suc n))) d \<noteq> None"
proof (cases "trusted d")
  case True
  then show ?thesis
    by (rule live_trusted_B [OF assms(1,3) _ assms(4,5)])
next
  case False
  then have t: "tried d = BANK_A"
    by (simp add: tried_bank)
  note r = bad_resets [OF assms(2) t]
  have "active (snd (boot d)) = BANK_A" "clear BANK_B (snd (boot d))"
    using reset_active [OF r] reset_keeps [OF r] assms(3,4) t by simp_all
  from live_B_from_A [OF assms(1,2) this] show ?thesis
    using boots_step [of "Suc (Suc n)" d] by blast
qed

lemma live_good_B:
  assumes "good BANK_B" "\<not> good BANK_A"
  shows "boots (Suc (Suc (Suc (Suc (Suc n))))) c \<noteq> None"
proof -
  have any_A: "boots (Suc (Suc (Suc (Suc n)))) d \<noteq> None" if "active d = BANK_A" for d
  proof -
    note r = bad_resets [OF assms(2) tried_A [OF that]]
    have "active (snd (boot d)) = BANK_B" "clear BANK_B (snd (boot d))" "ready (snd (boot d))"
      using reset_active [OF r] reset_clear [OF r] reset_ready [OF r] that by simp_all
    from live_B_from_B [OF assms this] show ?thesis
      using boots_step [of "Suc (Suc (Suc n))" d] by blast
  qed
  show ?thesis
  proof (cases rule: start_or_reset [of c])
    case starts
    then show ?thesis using boots_step [of "Suc (Suc (Suc (Suc n)))" c] by blast
  next
    case (resets c')
    have "boots (Suc (Suc (Suc (Suc n)))) c' \<noteq> None"
      using two_banks [of c']
    proof
      assume "active c' = BANK_B"
      with reset_clear [OF resets(1)] reset_ready [OF resets(1)] show ?thesis
        by (intro live_B_from_B assms) simp_all
    qed (rule any_A)
    with resets(2) show ?thesis using boots_step [of "Suc (Suc (Suc (Suc n)))" c] by blast
  qed
qed

lemma boots_live: "good BANK_A \<or> good BANK_B \<Longrightarrow> boots 5 c \<noteq> None"
  using live_good_A [of "Suc (Suc 0)" c] live_good_B [of 0 c]
  by (cases "good BANK_A") (simp_all add: numeral_eq_Suc del: boots.simps)

end

section \<open>The configuration as the stages see it\<close>

lemmas boot_defs = bbind_def bseq_def bget_def bput_def bwhen_def bret_def bexit_def

definition app_bank :: "BootConfig \<Rightarrow> BootBank" where
  "app_bank c = (if app_active c = 0 then BANK_A else BANK_B)"

definition app_count :: "BootConfig \<Rightarrow> u8" where
  "app_count c = (if app_active c = 0 then app_boot_cnt_a c else app_boot_cnt_b c)"

definition app_base :: "BootBank \<Rightarrow> u32" where
  "app_base b = (if b = BANK_A then REGION_A_APP_START else REGION_B_APP_START)"

text \<open>Starting an application: the stack pointer and the reset handler are its vector table's first words.\<close>

definition app_start :: "flash \<Rightarrow> BootBank \<Rightarrow> boot_exit" where
  "app_start fl b = Start (flash_u32 fl (app_base b)) (flash_u32 fl (app_base b + 4))"

definition set_app_count :: "u8 \<Rightarrow> BootConfig \<Rightarrow> BootConfig" where
  "set_app_count n c = (if app_active c = 0 then c\<lparr>app_boot_cnt_a := n\<rparr> else c\<lparr>app_boot_cnt_b := n\<rparr>)"

definition toggle_app :: "BootConfig \<Rightarrow> BootConfig" where
  "toggle_app c = c\<lparr>app_active := (if app_active c = 0 then 1 else 0)\<rparr>"

lemma app_bank_cases: "app_bank c \<noteq> BANK_INVALID" "app_bank (toggle_app c) = other_bank (app_bank c)"
  "app_bank (seal E c) = app_bank c" "app_bank (set_app_count n c) = app_bank c"
  by (simp_all add: app_bank_def toggle_app_def set_app_count_def)

lemma app_count_simps: "app_count (set_app_count n c) = n" "app_count (seal E c) = app_count c"
  by (simp_all add: app_count_def set_app_count_def)

lemma seal_update_cnt [simp]:
  "seal E (c\<lparr>cfg_crc := x\<rparr>) = seal E c"
  "seal E (seal E c) = seal E c"
  "seal E ((seal E c)\<lparr>app_boot_cnt_a := n\<rparr>) = seal E (c\<lparr>app_boot_cnt_a := n\<rparr>)"
  "seal E ((seal E c)\<lparr>app_boot_cnt_b := n\<rparr>) = seal E (c\<lparr>app_boot_cnt_b := n\<rparr>)"
  by (simp_all add: seal_def config_bytes_def)

lemma max_attempts_gt [simp]: "\<not> MAX_BOOT_ATTEMPTS \<le> (1 :: u8)" "\<not> MAX_BOOT_ATTEMPTS \<le> (2 :: u8)"
  by (simp_all add: word_le_nat_alt)

definition stage2_meta :: "BootBank \<Rightarrow> u32" where
  "stage2_meta b = (if b = BANK_A then REGION_A_BOOT_META else REGION_B_BOOT_META)"

definition stage2_base :: "BootBank \<Rightarrow> u32" where
  "stage2_base b = (if b = BANK_A then REGION_A_BOOT_START else REGION_B_BOOT_START)"

definition stage2_start :: "flash \<Rightarrow> BootBank \<Rightarrow> boot_exit" where
  "stage2_start fl b = Start (flash_u32 fl (stage2_base b)) (flash_u32 fl (stage2_base b + 4))"

definition active_stage2 :: "BootConfig \<Rightarrow> BootBank" where
  "active_stage2 c = (if stage2_active c = 0 then BANK_A else BANK_B)"

text \<open>The bank a boot tries: the active one, but bank A when the configuration's CRC is wrong.\<close>

definition tried_bank :: "boot_env \<Rightarrow> BootConfig \<Rightarrow> BootBank" where
  "tried_bank E c = (if sealed E c then active_stage2 c else BANK_A)"

definition count2 :: "BootBank \<Rightarrow> BootConfig \<Rightarrow> u8" where
  "count2 b c = (if b = BANK_A then stage2_boot_cnt_a c else stage2_boot_cnt_b c)"

definition set_count2 :: "BootBank \<Rightarrow> u8 \<Rightarrow> BootConfig \<Rightarrow> BootConfig" where
  "set_count2 b n c = (if b = BANK_A then c\<lparr>stage2_boot_cnt_a := n\<rparr> else c\<lparr>stage2_boot_cnt_b := n\<rparr>)"

definition toggle_stage2 :: "BootConfig \<Rightarrow> BootConfig" where
  "toggle_stage2 c = c\<lparr>stage2_active := (if stage2_active c = 0 then 1 else 0)\<rparr>"
lemma stage2_bank_simps [simp]:
  "active_stage2 (seal E c) = active_stage2 c" "active_stage2 (set_count2 b n c) = active_stage2 c"
  "active_stage2 (toggle_stage2 c) = other_bank (active_stage2 c)"
  "count2 b (seal E c) = count2 b c" "count2 b (toggle_stage2 c) = count2 b c"
  by (simp_all add: active_stage2_def set_count2_def toggle_stage2_def count2_def)

lemma count2_set: "count2 b (set_count2 b n c) = n" "b \<noteq> BANK_INVALID \<Longrightarrow> b' \<noteq> BANK_INVALID \<Longrightarrow> b \<noteq> b' \<Longrightarrow>
    count2 b' (set_count2 b n c) = count2 b' c"
  by (cases b; cases b'; simp add: count2_def set_count2_def)+

lemma active_stage2_valid [simp]: "active_stage2 c \<noteq> BANK_INVALID" "tried_bank E c \<noteq> BANK_INVALID"
    "other_bank b \<noteq> BANK_INVALID" "b \<noteq> BANK_INVALID \<Longrightarrow> other_bank b \<noteq> b"
    "b \<noteq> BANK_INVALID \<Longrightarrow> b \<noteq> other_bank b"
  by (simp_all add: active_stage2_def tried_bank_def) (cases b; simp)+


section \<open>A concrete environment\<close>

text \<open>
  A concrete environment for the witnesses: a CRC that is always 0, every signature valid, and a
  flash that is empty but for the magic number and the valid flag of the metadata at given addresses.
\<close>

definition demo_env :: boot_env where
  "demo_env = \<lparr>calculate_crc32 = (\<lambda>_. 0), verify_dilithium_signature = (\<lambda>_ _. True)\<rparr>"

definition demo_flash :: "u32 list \<Rightarrow> flash" where
  "demo_flash metas a = (if \<exists>m \<in> set metas. a - m < 4 then 0xA5 else if \<exists>m \<in> set metas. a = m + 280 then 1 else 0)"

definition demo_config :: BootConfig where
  "demo_config = \<lparr>stage2_active = 0, stage2_boot_cnt_a = 0, stage2_boot_cnt_b = 0, app_active = 0,
     app_boot_cnt_a = 0, app_boot_cnt_b = 0, ota_pending = 0, cfg_reserved = replicate 9 0, cfg_crc = 0\<rparr>"


end
