(* ===== verification/EndNode_Boot.thy ===== *)
theory EndNode_Boot
  imports Boot_Common
begin

text \<open>
  The end-node ECU's bootloaders: \<^verbatim>\<open>end_node_ecu/tc375/bootloader/ssw/ssw_main.c\<close> (stage 1, which
  selects stage 2) and \<^verbatim>\<open>bootloader/stage2/stage2_main.c\<close> (which selects the application). The two
  files under \<^verbatim>\<open>tc375_bootloader/\<close> are byte-identical copies. The hardware initialisations are
  empty functions or only print.
\<close>

section \<open>Stage 1\<close>

definition stage1_read_active_stage2 :: "boot_env \<Rightarrow> BootBank boot" where
  "stage1_read_active_stage2 E = bget (\<lambda>cfg.
     let calc_crc = calculate_crc32 E (config_bytes cfg)
     in if calc_crc \<noteq> cfg_crc cfg then BANK_A
        else if stage2_active cfg = 0 then BANK_A else BANK_B)"

definition stage1_increment_boot_count :: "boot_env \<Rightarrow> BootBank \<Rightarrow> unit boot" where
  "stage1_increment_boot_count E bank = bput (\<lambda>cfg.
     seal E (if bank = BANK_A then cfg\<lparr>stage2_boot_cnt_a := stage2_boot_cnt_a cfg + 1\<rparr>
             else cfg\<lparr>stage2_boot_cnt_b := stage2_boot_cnt_b cfg + 1\<rparr>))"

definition stage1_reset_boot_count :: "boot_env \<Rightarrow> BootBank \<Rightarrow> unit boot" where
  "stage1_reset_boot_count E bank = bput (\<lambda>cfg.
     seal E (if bank = BANK_A then cfg\<lparr>stage2_boot_cnt_a := 0\<rparr> else cfg\<lparr>stage2_boot_cnt_b := 0\<rparr>))"

definition stage1_get_boot_count :: "BootBank \<Rightarrow> u8 boot" where
  "stage1_get_boot_count bank =
     bget (\<lambda>cfg. if bank = BANK_A then stage2_boot_cnt_a cfg else stage2_boot_cnt_b cfg)"

text \<open>The CRC is computed before the fallback bank's counter is cleared, as in the source.\<close>

definition stage1_switch_to_fallback :: "boot_env \<Rightarrow> unit boot" where
  "stage1_switch_to_fallback E =
     bseq (bput (\<lambda>cfg. cfg\<lparr>stage2_active := (if stage2_active cfg = 0 then 1 else 0)\<rparr>))
    (bseq (bput (seal E))
    (bseq (bput (\<lambda>cfg. if stage2_active cfg = 0 then cfg\<lparr>stage2_boot_cnt_a := 0\<rparr>
                       else cfg\<lparr>stage2_boot_cnt_b := 0\<rparr>))
     (bexit SystemReset)))"

definition stage1_jump_to_stage2 :: "flash \<Rightarrow> u32 \<Rightarrow> unit boot" where
  "stage1_jump_to_stage2 fl stage2_addr =
     (let stack_pointer = flash_u32 fl stage2_addr;
          reset_handler = flash_u32 fl (stage2_addr + 4)
      in bexit (Start stack_pointer reset_handler))"

definition stage1_main :: "boot_env \<Rightarrow> flash \<Rightarrow> unit boot" where
  "stage1_main E fl =
     bbind (stage1_read_active_stage2 E) (\<lambda>active_stage2.
       let active_meta = read_metadata fl (if active_stage2 = BANK_A then REGION_A_BOOT_META else REGION_B_BOOT_META);
           active_addr = (if active_stage2 = BANK_A then REGION_A_BOOT_START else REGION_B_BOOT_START)
       in
       bseq (stage1_increment_boot_count E active_stage2)
      (bbind (stage1_get_boot_count active_stage2) (\<lambda>boot_cnt.
       bseq (bwhen (MAX_BOOT_ATTEMPTS \<le> boot_cnt) (stage1_switch_to_fallback E))
      (bseq (bwhen (magic active_meta \<noteq> MAGIC_NUMBER) (stage1_switch_to_fallback E))
      (bseq (bwhen (calculate_crc32 E (flash_bytes fl active_addr (unat (meta_size active_meta))) \<noteq> crc32 active_meta)
               (stage1_switch_to_fallback E))
      (bseq (stage1_reset_boot_count E active_stage2)
       (stage1_jump_to_stage2 fl active_addr)))))))"

section \<open>Stage 2\<close>

definition stage2_read_active_app :: "BootBank boot" where
  "stage2_read_active_app = bget (\<lambda>cfg. if app_active cfg = 0 then BANK_A else BANK_B)"

definition stage2_increment_app_boot_count :: "boot_env \<Rightarrow> BootBank \<Rightarrow> unit boot" where
  "stage2_increment_app_boot_count E bank = bput (\<lambda>cfg.
     seal E (if bank = BANK_A then cfg\<lparr>app_boot_cnt_a := app_boot_cnt_a cfg + 1\<rparr>
             else cfg\<lparr>app_boot_cnt_b := app_boot_cnt_b cfg + 1\<rparr>))"

definition stage2_reset_app_boot_count :: "boot_env \<Rightarrow> BootBank \<Rightarrow> unit boot" where
  "stage2_reset_app_boot_count E bank = bput (\<lambda>cfg.
     seal E (if bank = BANK_A then cfg\<lparr>app_boot_cnt_a := 0\<rparr> else cfg\<lparr>app_boot_cnt_b := 0\<rparr>))"

definition stage2_get_app_boot_count :: "BootBank \<Rightarrow> u8 boot" where
  "stage2_get_app_boot_count bank =
     bget (\<lambda>cfg. if bank = BANK_A then app_boot_cnt_a cfg else app_boot_cnt_b cfg)"

definition stage2_switch_to_fallback_app :: "boot_env \<Rightarrow> unit boot" where
  "stage2_switch_to_fallback_app E =
     bseq (bput (\<lambda>cfg. cfg\<lparr>app_active := (if app_active cfg = 0 then 1 else 0)\<rparr>))
    (bseq (bput (\<lambda>cfg. if app_active cfg = 0 then cfg\<lparr>app_boot_cnt_a := 0\<rparr> else cfg\<lparr>app_boot_cnt_b := 0\<rparr>))
    (bseq (bput (seal E))
     (bexit SystemReset)))"

definition stage2_verify_application :: "boot_env \<Rightarrow> flash \<Rightarrow> BootBank \<Rightarrow> bool" where
  "stage2_verify_application E fl bank =
     (let meta = read_metadata fl (if bank = BANK_A then REGION_A_APP_META else REGION_B_APP_META);
          app_start = (if bank = BANK_A then REGION_A_APP_START else REGION_B_APP_START);
          image = flash_bytes fl app_start (unat (meta_size meta))
      in if magic meta \<noteq> MAGIC_NUMBER then False
         else if valid meta \<noteq> 1 then False
         else if calculate_crc32 E image \<noteq> crc32 meta then False
         else if \<not> verify_dilithium_signature E image (signature meta) then False
         else True)"

definition stage2_jump_to_application :: "flash \<Rightarrow> u32 \<Rightarrow> unit boot" where
  "stage2_jump_to_application fl app_addr =
     (let sp = flash_u32 fl app_addr; pc = flash_u32 fl (app_addr + 4) in bexit (Start sp pc))"

definition stage2_main :: "boot_env \<Rightarrow> flash \<Rightarrow> unit boot" where
  "stage2_main E fl =
     bbind stage2_read_active_app (\<lambda>active_app.
       let active_addr = (if active_app = BANK_A then REGION_A_APP_START else REGION_B_APP_START)
       in
       bseq (stage2_increment_app_boot_count E active_app)
      (bbind (stage2_get_app_boot_count active_app) (\<lambda>boot_cnt.
       bseq (bwhen (MAX_BOOT_ATTEMPTS \<le> boot_cnt) (stage2_switch_to_fallback_app E))
      (bseq (bwhen (\<not> stage2_verify_application E fl active_app) (stage2_switch_to_fallback_app E))
      (bseq (stage2_reset_app_boot_count E active_app)
       (stage2_jump_to_application fl active_addr))))))"

section \<open>One stage-2 boot\<close>

lemma stage2_main_run:
  "stage2_main E fl c =
    (let c1 = seal E (set_app_count (app_count c + 1) c)
     in if MAX_BOOT_ATTEMPTS \<le> app_count c + 1 \<or> \<not> stage2_verify_application E fl (app_bank c)
        then (Inl SystemReset, seal E (set_app_count 0 (toggle_app c1)))
        else (Inl (app_start fl (app_bank c)), seal E (set_app_count 0 c1)))"
  by (simp add: stage2_main_def stage2_read_active_app_def stage2_increment_app_boot_count_def
      stage2_get_app_boot_count_def stage2_reset_app_boot_count_def stage2_switch_to_fallback_app_def
      stage2_jump_to_application_def app_bank_def app_count_def app_base_def app_start_def set_app_count_def
      toggle_app_def boot_defs Let_def)

text \<open>One boot as the application chosen, \<open>None\<close> when the boot ends in a reset.\<close>

definition stage2_boot :: "boot_env \<Rightarrow> flash \<Rightarrow> BootConfig \<Rightarrow> boot_exit option \<times> BootConfig" where
  "stage2_boot E fl c = (case stage2_main E fl c of
     (Inl (Start sp pc), c') \<Rightarrow> (Some (Start sp pc), c') | (_, c') \<Rightarrow> (None, c'))"

lemma stage2_boot_run:
  "stage2_boot E fl c =
    (let c1 = seal E (set_app_count (app_count c + 1) c)
     in if MAX_BOOT_ATTEMPTS \<le> app_count c + 1 \<or> \<not> stage2_verify_application E fl (app_bank c)
        then (None, seal E (set_app_count 0 (toggle_app c1)))
        else (Some (app_start fl (app_bank c)), seal E (set_app_count 0 c1)))"
  by (simp add: stage2_boot_def stage2_main_run Let_def app_start_def)

interpretation endnode_app: ab_boot "stage2_boot E fl" app_bank "\<lambda>c. app_count c = 0"
  "stage2_verify_application E fl" "app_start fl" for E fl
  by unfold_locales
    (auto simp: stage2_boot_run Let_def app_bank_cases app_count_simps split: if_splits)

text \<open>A sequence of boots with the configuration kept in between: the first image started within \<open>n\<close> boots.\<close>

fun stage2_boots :: "boot_env \<Rightarrow> flash \<Rightarrow> nat \<Rightarrow> BootConfig \<Rightarrow> boot_exit option" where
  "stage2_boots E fl 0 c = None"
| "stage2_boots E fl (Suc n) c =
     (case stage2_boot E fl c of (Some r, c') \<Rightarrow> Some r | (None, c') \<Rightarrow> stage2_boots E fl n c')"

lemma stage2_boots_eq: "stage2_boots E fl n c = endnode_app.boots E fl n c"
  by (induction n arbitrary: c) (auto split: prod.splits option.splits)

text \<open>
  C6. Only a verified application runs. If stage 2 starts code, it is the active bank's
  application, at the stack pointer and reset handler of its vector table, and that application has
  the magic number, the valid flag, the CRC of its metadata and a verified signature. In every
  other case the boot ends in a system reset.
\<close>
theorem stage2_starts_only_verified:
  "fst (stage2_main E fl c) = Inl (if stage2_verify_application E fl (app_bank c) \<and> app_count c + 1 < MAX_BOOT_ATTEMPTS
       then app_start fl (app_bank c) else SystemReset)
   \<and> (stage2_verify_application E fl (app_bank c) \<longleftrightarrow>
      (let meta = read_metadata fl (if app_bank c = BANK_A then REGION_A_APP_META else REGION_B_APP_META);
           img = flash_bytes fl (app_base (app_bank c)) (unat (meta_size meta))
       in magic meta = MAGIC_NUMBER \<and> valid meta = 1 \<and> calculate_crc32 E img = crc32 meta
          \<and> verify_dilithium_signature E img (signature meta)))"
  by (auto simp: stage2_main_run stage2_verify_application_def app_base_def Let_def not_le)

text \<open>
  C7. A good application is reached. Whatever the configuration in data flash holds, if one of the
  two applications verifies, one is started within three boots; if none does, the ECU resets for
  ever and never starts any.
\<close>
theorem stage2_reaches_good_application:
  "(stage2_verify_application E fl BANK_A \<or> stage2_verify_application E fl BANK_B \<longrightarrow>
      (\<exists>b. stage2_verify_application E fl b \<and> stage2_boots E fl 3 c = Some (app_start fl b)))
   \<and> (\<not> stage2_verify_application E fl BANK_A \<and> \<not> stage2_verify_application E fl BANK_B \<longrightarrow>
      stage2_boots E fl n c = None)"
proof -
  have "\<exists>b. stage2_verify_application E fl b \<and> stage2_boots E fl 3 c = Some (app_start fl b)"
    if "stage2_verify_application E fl BANK_A \<or> stage2_verify_application E fl BANK_B"
    using endnode_app.boots_live [OF that, of c] endnode_app.boots_safe [of E fl 3 c]
    by (auto simp: stage2_boots_eq)
  then show ?thesis
    using endnode_app.boots_dead [of E fl n c] by (auto simp: stage2_boots_eq)
qed

text \<open>
  The boot counter cannot see a crashing application. With a verified active application whose
  counter is below two, every boot starts it and leaves its counter at 0, so however often the
  application crashes and resets, the ECU never falls back to the other bank.
\<close>
theorem stage2_crash_loop_never_falls_back:
  assumes "stage2_verify_application E fl (app_bank c)" "app_count c < 2"
  shows "\<exists>c'. stage2_boot E fl c = (Some (app_start fl (app_bank c)), c')
    \<and> app_bank c' = app_bank c \<and> app_count c' = 0"
proof -
  have "unat (app_count c) < 2"
    using assms(2) by (simp add: word_less_nat_alt)
  then have "unat (app_count c + 1) = unat (app_count c) + 1"
    by (subst unat_add_no_wrap) auto
  then have "\<not> MAX_BOOT_ATTEMPTS \<le> app_count c + 1"
    using \<open>unat (app_count c) < 2\<close> by (simp add: word_le_nat_alt)
  with assms(1) show ?thesis
    by (simp add: stage2_boot_run Let_def app_bank_cases app_count_simps)
qed


lemma demo_app_b: "stage2_verify_application demo_env (demo_flash [REGION_B_APP_META]) BANK_B"
  by code_simp

lemma demo_app_a: "stage2_verify_application demo_env (demo_flash [REGION_A_APP_META]) BANK_A"
  by code_simp

theorem stage2_reaches_good_application_witness:
  "\<exists>b. stage2_boots demo_env (demo_flash [REGION_B_APP_META]) 3 demo_config
    = Some (app_start (demo_flash [REGION_B_APP_META]) b)"
  using stage2_reaches_good_application [of demo_env "demo_flash [REGION_B_APP_META]" demo_config 3] demo_app_b
  by auto

theorem stage2_crash_loop_never_falls_back_witness:
  "\<exists>c'. stage2_boot demo_env (demo_flash [REGION_A_APP_META]) demo_config
    = (Some (app_start (demo_flash [REGION_A_APP_META]) BANK_A), c') \<and> app_count c' = 0"
  using stage2_crash_loop_never_falls_back [of demo_env "demo_flash [REGION_A_APP_META]" demo_config] demo_app_a
  by (auto simp: app_bank_def app_count_def demo_config_def)

section \<open>One stage-1 boot\<close>

text \<open>What stage 1 checks of a stage-2 image: the magic number and the CRC.\<close>

definition stage2_good :: "boot_env \<Rightarrow> flash \<Rightarrow> BootBank \<Rightarrow> bool" where
  "stage2_good E fl b = (let meta = read_metadata fl (stage2_meta b) in magic meta = MAGIC_NUMBER
     \<and> calculate_crc32 E (flash_bytes fl (stage2_base b) (unat (meta_size meta))) = crc32 meta)"


definition fallback_config :: "boot_env \<Rightarrow> BootConfig \<Rightarrow> BootConfig" where
  "fallback_config E c = (let c' = seal E (toggle_stage2 c) in set_count2 (active_stage2 c') 0 c')"

lemma stage1_main_run:
  "stage1_main E fl c =
    (let b = tried_bank E c; c1 = seal E (set_count2 b (count2 b c + 1) c)
     in if MAX_BOOT_ATTEMPTS \<le> count2 b c + 1 \<or> \<not> stage2_good E fl b
        then (Inl SystemReset, fallback_config E c1)
        else (Inl (stage2_start fl b), seal E (set_count2 b 0 c1)))"
  by (simp add: stage1_main_def stage1_read_active_stage2_def stage1_increment_boot_count_def
      stage1_get_boot_count_def stage1_reset_boot_count_def stage1_switch_to_fallback_def
      stage1_jump_to_stage2_def boot_defs Let_def tried_bank_def sealed_def active_stage2_def count2_def
      set_count2_def toggle_stage2_def fallback_config_def stage2_good_def stage2_start_def
      stage2_meta_def stage2_base_def)

definition stage1_boot :: "boot_env \<Rightarrow> flash \<Rightarrow> BootConfig \<Rightarrow> boot_exit option \<times> BootConfig" where
  "stage1_boot E fl c = (case stage1_main E fl c of
     (Inl (Start sp pc), c') \<Rightarrow> (Some (Start sp pc), c') | (_, c') \<Rightarrow> (None, c'))"

fun stage1_boots :: "boot_env \<Rightarrow> flash \<Rightarrow> nat \<Rightarrow> BootConfig \<Rightarrow> boot_exit option" where
  "stage1_boots E fl 0 c = None"
| "stage1_boots E fl (Suc n) c =
     (case stage1_boot E fl c of (Some r, c') \<Rightarrow> Some r | (None, c') \<Rightarrow> stage1_boots E fl n c')"

lemma stage1_boot_run:
  "stage1_boot E fl c =
    (let b = tried_bank E c; c1 = seal E (set_count2 b (count2 b c + 1) c)
     in if MAX_BOOT_ATTEMPTS \<le> count2 b c + 1 \<or> \<not> stage2_good E fl b
        then (None, fallback_config E c1)
        else (Some (stage2_start fl b), seal E (set_count2 b 0 c1)))"
  by (simp add: stage1_boot_def stage1_main_run Let_def stage2_start_def)

text \<open>What a reset leaves behind.\<close>

lemma stage1_reset:
  assumes "stage1_boot E fl c = (None, c')"
  shows "active_stage2 c' = other_bank (active_stage2 c)"
    and "count2 (active_stage2 c') c' = 0"
    and "tried_bank E c \<noteq> active_stage2 c \<Longrightarrow> count2 (active_stage2 c) c' = count2 (active_stage2 c) c"
    and "tried_bank E c = active_stage2 c \<Longrightarrow> count2 (active_stage2 c') c = 0 \<Longrightarrow> sealed E c'"
proof -
  let ?b = "tried_bank E c" and ?a = "active_stage2 c"
  let ?c1 = "seal E (set_count2 ?b (count2 ?b c + 1) c)"
  have c': "c' = set_count2 (other_bank ?a) 0 (seal E (toggle_stage2 ?c1))"
    using assms by (auto simp: stage1_boot_run Let_def fallback_config_def split: if_splits)
  show "active_stage2 c' = other_bank ?a" "count2 (active_stage2 c') c' = 0"
    by (simp_all add: c' count2_set)
  show "count2 ?a c' = count2 ?a c" if "?b \<noteq> ?a"
    using that by (simp add: c' count2_set)
  show "sealed E c'" if "?b = ?a" "count2 (active_stage2 c') c = 0"
  proof -
    have "count2 (other_bank ?a) (seal E (toggle_stage2 ?c1)) = 0"
      using that by (simp add: c' count2_set)
    then have "set_count2 (other_bank ?a) 0 (seal E (toggle_stage2 ?c1)) = seal E (toggle_stage2 ?c1)"
      by (auto simp: set_count2_def count2_def)
    then show ?thesis by (simp add: c')
  qed
qed

interpretation endnode_stage2: ab_boot_stale "stage1_boot E fl" active_stage2 "sealed E" "tried_bank E"
  "\<lambda>b c. count2 b c = 0" "\<lambda>_. True" "stage2_good E fl" "stage2_start fl" for E fl
proof unfold_locales
  show "active_stage2 c = BANK_A \<or> active_stage2 c = BANK_B" for c
    by (simp add: active_stage2_def)
  show "tried_bank E c = (if sealed E c then active_stage2 c else BANK_A)" for c
    by (simp add: tried_bank_def)
  show "stage2_good E fl (tried_bank E c) \<and> r = stage2_start fl (tried_bank E c)"
    if "stage1_boot E fl c = (Some r, c')" for c r c'
    using that by (auto simp: stage1_boot_run Let_def split: if_splits)
  show "fst (stage1_boot E fl c) \<noteq> None"
    if "stage2_good E fl (tried_bank E c)" "count2 (tried_bank E c) c = 0" for c
    using that by (simp add: stage1_boot_run Let_def)
qed (use stage1_reset in auto)

lemma stage1_boots_eq: "stage1_boots E fl n c = endnode_stage2.boots E fl n c"
  by (induction n arbitrary: c) (auto split: prod.splits option.splits)

text \<open>
  A good stage 2 is reached. Whatever the configuration in data flash holds, a corrupted one
  included, and whatever the CRC function, stage 1 starts a stage-2 image with the magic number and
  the right CRC within five boots if there is one, and never starts any other.
\<close>
theorem stage1_reaches_good_stage2:
  "(stage2_good E fl BANK_A \<or> stage2_good E fl BANK_B \<longrightarrow> stage1_boots E fl 5 c \<noteq> None)
   \<and> (\<forall>r. stage1_boots E fl n c = Some r \<longrightarrow>
        (\<exists>b. b \<noteq> BANK_INVALID \<and> stage2_good E fl b \<and> r = stage2_start fl b))"
  using endnode_stage2.boots_live [of E fl c] endnode_stage2.boots_safe [of E fl n c]
  by (auto simp: stage1_boots_eq)

theorem stage1_reaches_good_stage2_witness:
  "stage1_boots demo_env (demo_flash [REGION_B_BOOT_META]) 5 demo_config \<noteq> None"
proof -
  have "stage2_good demo_env (demo_flash [REGION_B_BOOT_META]) BANK_B"
    by code_simp
  with stage1_reaches_good_stage2 [of demo_env "demo_flash [REGION_B_BOOT_META]" demo_config 5] show ?thesis
    by blast
qed

text \<open>
  The fallback of stage 1 can be lost. When stage 1 gives up on bank A and switches to bank B,
  it seals the configuration before it clears bank B's counter. If that counter was not 0 and the
  CRC detects a change of a single byte, as CRC-32 does, the next boot finds a wrong CRC and tries bank A again,
  although the configuration says bank B.
\<close>
theorem stage1_fallback_stale_crc:
  assumes "stage1_main E fl c = (Inl SystemReset, c')" "sealed E c" "stage2_active c = 0"
    "\<And>x i v. i < length x \<Longrightarrow> calculate_crc32 E (x[i := v]) = calculate_crc32 E x \<Longrightarrow> x ! i = v"
    "stage2_boot_cnt_b c \<noteq> 0"
  shows "active_stage2 c' = BANK_B \<and> \<not> sealed E c' \<and> tried_bank E c' = BANK_A"
proof -
  have act: "active_stage2 c = BANK_A" "tried_bank E c = BANK_A"
    using assms(2,3) by (simp_all add: active_stage2_def tried_bank_def)
  let ?c1 = "seal E (set_count2 BANK_A (count2 BANK_A c + 1) c)"
  let ?c2 = "seal E (toggle_stage2 ?c1)"
  have c': "c' = set_count2 BANK_B 0 ?c2"
    using assms(1) by (auto simp: stage1_main_run act Let_def fallback_config_def stage2_start_def split: if_splits)
  have cnt: "stage2_boot_cnt_b ?c2 \<noteq> 0"
    using assms(5) by (simp add: set_count2_def toggle_stage2_def)
  have "\<not> sealed E c'"
  proof
    assume "sealed E c'"
    then have "calculate_crc32 E (config_bytes c') = calculate_crc32 E (config_bytes ?c2)"
      by (simp add: c' sealed_def seal_def set_count2_def config_bytes_def)
    moreover have "config_bytes c' = (config_bytes ?c2)[2 := 0]"
      by (simp add: c' config_bytes_def set_count2_def numeral_2_eq_2)
    ultimately have "config_bytes ?c2 ! 2 = 0"
      using assms(4) [of 2 "config_bytes ?c2" 0] by (simp add: config_bytes_def)
    then show False
      using cnt by (simp add: config_bytes_def)
  qed
  then show ?thesis
    using act by (simp add: tried_bank_def c')
qed

text \<open>A checksum that detects every single-byte change, for the witness: the sum of the bytes.\<close>

fun byte_sum :: "bytes \<Rightarrow> u32" where
  "byte_sum [] = 0"
| "byte_sum (b # bs) = ucast b + byte_sum bs"

lemma byte_sum_update: "i < length x \<Longrightarrow> byte_sum (x[i := v]) = byte_sum x - ucast (x ! i) + ucast v"
  by (induction x arbitrary: i) (auto split: nat.split simp: nth_Cons)

lemma byte_sum_detects:
  assumes "i < length x" "byte_sum (x[i := v]) = byte_sum x"
  shows "x ! i = v"
proof -
  have eq: "(ucast v :: u32) = ucast (x ! i)"
    using assms byte_sum_update [OF assms(1), of v] by (simp add: algebra_simps)
  show ?thesis
  proof (rule bit_word_eqI)
    fix n :: nat
    assume "n < LENGTH(8)"
    moreover have "bit (ucast v :: u32) n = bit (ucast (x ! i) :: u32) n"
      by (simp only: eq)
    ultimately show "bit (x ! i) n = bit v n"
      by (simp add: bit_unsigned_iff)
  qed
qed

theorem stage1_fallback_stale_crc_witness:
  "\<exists>c'. active_stage2 c' = BANK_B \<and> tried_bank \<lparr>calculate_crc32 = byte_sum, verify_dilithium_signature = (\<lambda>_ _. True)\<rparr> c' = BANK_A"
proof -
  let ?E = "\<lparr>calculate_crc32 = byte_sum, verify_dilithium_signature = (\<lambda>_ _. True)\<rparr>"
  let ?c = "seal ?E (demo_config\<lparr>stage2_boot_cnt_b := 1\<rparr>)"
  have "\<not> stage2_good ?E (\<lambda>_. 0) BANK_A"
    by code_simp
  then have "stage1_main ?E (\<lambda>_. 0) ?c = (Inl SystemReset, snd (stage1_main ?E (\<lambda>_. 0) ?c))"
    by (simp add: stage1_main_run tried_bank_def active_stage2_def demo_config_def Let_def)
  from stage1_fallback_stale_crc [OF this] show ?thesis
    by (auto simp: demo_config_def dest: byte_sum_detects)
qed

end
