(* ===== verification/Zonal_Boot.thy ===== *)
theory Zonal_Boot
  imports Boot_Common
begin

text \<open>
  The zonal gateway's bootloaders: \<^verbatim>\<open>zonal_gateway/tc375/bootloader/ssw/ssw_main.c\<close> (the startup
  software) and \<^verbatim>\<open>bootloader/stage2/stage2_main.c\<close> (OTA check and application selection). The
  definitions carry the prefix \<open>zonal_\<close>, as the C names are those of the end-node's bootloaders. The
  signature checks are commented out in the source, so the signature function is not used.
\<close>

section \<open>Startup software\<close>

definition zonal_stage1_read_active_stage2 :: "boot_env \<Rightarrow> BootBank boot" where
  "zonal_stage1_read_active_stage2 E = bget (\<lambda>cfg.
     let calc_crc = calculate_crc32 E (config_bytes cfg)
     in if calc_crc \<noteq> cfg_crc cfg then BANK_A
        else if stage2_active cfg = 0 then BANK_A else BANK_B)"

definition zonal_stage1_increment_boot_count :: "boot_env \<Rightarrow> BootBank \<Rightarrow> unit boot" where
  "zonal_stage1_increment_boot_count E bank = bput (\<lambda>cfg.
     seal E (if bank = BANK_A then cfg\<lparr>stage2_boot_cnt_a := stage2_boot_cnt_a cfg + 1\<rparr>
             else cfg\<lparr>stage2_boot_cnt_b := stage2_boot_cnt_b cfg + 1\<rparr>))"

definition zonal_stage1_check_boot_limit :: "BootBank \<Rightarrow> bool boot" where
  "zonal_stage1_check_boot_limit bank = bget (\<lambda>cfg.
     if bank = BANK_A then stage2_boot_cnt_a cfg < MAX_BOOT_ATTEMPTS
     else stage2_boot_cnt_b cfg < MAX_BOOT_ATTEMPTS)"

definition zonal_stage1_reset_boot_count :: "boot_env \<Rightarrow> BootBank \<Rightarrow> unit boot" where
  "zonal_stage1_reset_boot_count E bank = bput (\<lambda>cfg.
     seal E (if bank = BANK_A then cfg\<lparr>stage2_boot_cnt_a := 0\<rparr> else cfg\<lparr>stage2_boot_cnt_b := 0\<rparr>))"

definition zonal_stage1_verify_stage2 :: "boot_env \<Rightarrow> flash \<Rightarrow> u32 \<Rightarrow> bool" where
  "zonal_stage1_verify_stage2 E fl stage2_addr =
     (let meta = read_metadata fl stage2_addr;
          code_start = stage2_addr + 0x1000
      in if magic meta \<noteq> MAGIC_NUMBER then False
         else if valid meta \<noteq> 1 then False
         else if calculate_crc32 E (flash_bytes fl code_start (unat (meta_size meta))) \<noteq> crc32 meta then False
         else True)"

definition zonal_stage1_jump_to_stage2 :: "u32 \<Rightarrow> unit boot" where
  "zonal_stage1_jump_to_stage2 stage2_addr = (let entry_point = stage2_addr + 0x1000 in bexit (Enter entry_point))"

definition zonal_stage1_fallback :: "unit boot" where
  "zonal_stage1_fallback = bexit SafeMode"

definition zonal_start :: "boot_env \<Rightarrow> flash \<Rightarrow> unit boot" where
  "zonal_start E fl =
     bbind (zonal_stage1_read_active_stage2 E) (\<lambda>active0.
     bbind (zonal_stage1_check_boot_limit active0) (\<lambda>ok.
       let active_bank = (if \<not> ok then (if active0 = BANK_A then BANK_B else BANK_A) else active0) in
       bseq (bwhen (\<not> ok) (zonal_stage1_reset_boot_count E active_bank))
      (bseq (zonal_stage1_increment_boot_count E active_bank)
       (let stage2_addr = (if active_bank = BANK_A then REGION_A_BOOT_META else REGION_B_BOOT_META)
        in if zonal_stage1_verify_stage2 E fl stage2_addr
           then zonal_stage1_jump_to_stage2 stage2_addr
           else
             let backup_bank = (if active_bank = BANK_A then BANK_B else BANK_A);
                 backup_addr = (if backup_bank = BANK_A then REGION_A_BOOT_META else REGION_B_BOOT_META)
             in if zonal_stage1_verify_stage2 E fl backup_addr
                then zonal_stage1_jump_to_stage2 backup_addr
                else zonal_stage1_fallback))))"

section \<open>Stage 2\<close>

definition zonal_stage2_read_active_app :: "boot_env \<Rightarrow> BootBank boot" where
  "zonal_stage2_read_active_app E = bget (\<lambda>cfg.
     let calc_crc = calculate_crc32 E (config_bytes cfg)
     in if calc_crc \<noteq> cfg_crc cfg then BANK_A
        else if app_active cfg = 0 then BANK_A else BANK_B)"

definition zonal_stage2_increment_app_boot_count :: "boot_env \<Rightarrow> BootBank \<Rightarrow> unit boot" where
  "zonal_stage2_increment_app_boot_count E bank = bput (\<lambda>cfg.
     seal E (if bank = BANK_A then cfg\<lparr>app_boot_cnt_a := app_boot_cnt_a cfg + 1\<rparr>
             else cfg\<lparr>app_boot_cnt_b := app_boot_cnt_b cfg + 1\<rparr>))"

definition zonal_stage2_reset_app_boot_count :: "boot_env \<Rightarrow> BootBank \<Rightarrow> unit boot" where
  "zonal_stage2_reset_app_boot_count E bank = bput (\<lambda>cfg.
     seal E (if bank = BANK_A then cfg\<lparr>app_boot_cnt_a := 0\<rparr> else cfg\<lparr>app_boot_cnt_b := 0\<rparr>))"

definition zonal_stage2_get_app_boot_count :: "BootBank \<Rightarrow> u8 boot" where
  "zonal_stage2_get_app_boot_count bank =
     bget (\<lambda>cfg. if bank = BANK_A then app_boot_cnt_a cfg else app_boot_cnt_b cfg)"

definition zonal_stage2_check_ota_pending :: "bool boot" where
  "zonal_stage2_check_ota_pending = bget (\<lambda>cfg. ota_pending cfg = 1)"

definition zonal_stage2_clear_ota_pending :: "boot_env \<Rightarrow> unit boot" where
  "zonal_stage2_clear_ota_pending E = bput (\<lambda>cfg. seal E (cfg\<lparr>ota_pending := 0\<rparr>))"

text \<open>As in stage 1 of the end node, the CRC is computed before the new bank's counter is cleared.\<close>

definition zonal_stage2_switch_app :: "boot_env \<Rightarrow> unit boot" where
  "zonal_stage2_switch_app E =
     bseq (bput (\<lambda>cfg. seal E (cfg\<lparr>app_active := (if app_active cfg = 0 then 1 else 0)\<rparr>)))
          (bput (\<lambda>cfg. if app_active cfg = 0 then cfg\<lparr>app_boot_cnt_a := 0\<rparr> else cfg\<lparr>app_boot_cnt_b := 0\<rparr>))"

definition zonal_stage2_verify_app :: "boot_env \<Rightarrow> flash \<Rightarrow> u32 \<Rightarrow> bool" where
  "zonal_stage2_verify_app E fl app_meta_addr =
     (let meta = read_metadata fl app_meta_addr
      in if magic meta \<noteq> MAGIC_NUMBER then False
         else if valid meta \<noteq> 1 then False
         else
           let app_start = app_meta_addr + 0x1000
           in if calculate_crc32 E (flash_bytes fl app_start (unat (meta_size meta))) \<noteq> crc32 meta then False
              else True)"

definition zonal_stage2_jump_to_app :: "flash \<Rightarrow> u32 \<Rightarrow> unit boot" where
  "zonal_stage2_jump_to_app fl app_addr =
     (let stack_pointer = flash_u32 fl app_addr; reset_handler = flash_u32 fl (app_addr + 4)
      in bexit (Start stack_pointer reset_handler))"

text \<open>
  The OTA handler: erasing and writing the flash and its metadata are commented out in the source,
  so what remains is the switch, the cleared flag and the reset.
\<close>

definition zonal_stage2_process_ota :: "boot_env \<Rightarrow> unit boot" where
  "zonal_stage2_process_ota E =
     bbind (zonal_stage2_read_active_app E) (\<lambda>active.
     bseq (zonal_stage2_switch_app E)
    (bseq (zonal_stage2_clear_ota_pending E)
     (bexit SystemReset)))"

definition zonal_stage2_main :: "boot_env \<Rightarrow> flash \<Rightarrow> unit boot" where
  "zonal_stage2_main E fl =
     bbind zonal_stage2_check_ota_pending (\<lambda>ota.
     bseq (bwhen ota (zonal_stage2_process_ota E))
    (bbind (zonal_stage2_read_active_app E) (\<lambda>active_app.
       let active_meta = (if active_app = BANK_A then REGION_A_APP_META else REGION_B_APP_META);
           active_addr = (if active_app = BANK_A then REGION_A_APP_START else REGION_B_APP_START)
       in
       bseq (zonal_stage2_increment_app_boot_count E active_app)
      (bbind (zonal_stage2_get_app_boot_count active_app) (\<lambda>boot_cnt.
       bseq (bwhen (MAX_BOOT_ATTEMPTS \<le> boot_cnt) (bseq (zonal_stage2_switch_app E) (bexit SystemReset)))
      (bseq (bwhen (\<not> zonal_stage2_verify_app E fl active_meta) (bseq (zonal_stage2_switch_app E) (bexit SystemReset)))
      (bseq (zonal_stage2_reset_app_boot_count E active_app)
       (zonal_stage2_jump_to_app fl active_addr))))))))"

section \<open>One run of the startup software\<close>

definition zonal_good2 :: "boot_env \<Rightarrow> flash \<Rightarrow> BootBank \<Rightarrow> bool" where
  "zonal_good2 E fl b = zonal_stage1_verify_stage2 E fl (stage2_meta b)"

definition over_limit :: "boot_env \<Rightarrow> BootConfig \<Rightarrow> bool" where
  "over_limit E c \<longleftrightarrow> MAX_BOOT_ATTEMPTS \<le> count2 (tried_bank E c) c"

text \<open>The bank tried first: the other one when the configured bank has used up its attempts.\<close>

definition first_bank :: "boot_env \<Rightarrow> BootConfig \<Rightarrow> BootBank" where
  "first_bank E c = (if over_limit E c then other_bank (tried_bank E c) else tried_bank E c)"

definition zonal_start_config :: "boot_env \<Rightarrow> BootConfig \<Rightarrow> BootConfig" where
  "zonal_start_config E c =
     (let b = first_bank E c; c1 = (if over_limit E c then seal E (set_count2 b 0 c) else c)
      in seal E (set_count2 b (count2 b c1 + 1) c1))"

lemma zonal_start_run:
  "zonal_start E fl c = (Inl (if zonal_good2 E fl (first_bank E c) then Enter (stage2_base (first_bank E c))
      else if zonal_good2 E fl (other_bank (first_bank E c)) then Enter (stage2_base (other_bank (first_bank E c)))
      else SafeMode), zonal_start_config E c)"
proof -
  have read: "zonal_stage1_read_active_stage2 E c = (Inr (tried_bank E c), c)" for c
    by (simp add: zonal_stage1_read_active_stage2_def bget_def tried_bank_def sealed_def active_stage2_def Let_def)
  have limit: "zonal_stage1_check_boot_limit b c = (Inr (\<not> MAX_BOOT_ATTEMPTS \<le> count2 b c), c)" for b c
    by (simp add: zonal_stage1_check_boot_limit_def bget_def count2_def not_le)
  have reset: "zonal_stage1_reset_boot_count E b c = (Inr (), seal E (set_count2 b 0 c))" for b c
    by (simp add: zonal_stage1_reset_boot_count_def bput_def set_count2_def)
  have incr: "zonal_stage1_increment_boot_count E b c = (Inr (), seal E (set_count2 b (count2 b c + 1) c))" for b c
    by (simp add: zonal_stage1_increment_boot_count_def bput_def set_count2_def count2_def)
  have jump: "zonal_stage1_jump_to_stage2 (stage2_meta b) c = (Inl (Enter (stage2_base b)), c)" for b c
    by (simp add: zonal_stage1_jump_to_stage2_def bexit_def stage2_meta_def stage2_base_def)
  have other: "(if b = BANK_A then BANK_B else BANK_A) = other_bank b" for b
    by (cases b) simp_all
  note run = zonal_start_def bbind_def bseq_def read limit prod.case sum.case incr other
    stage2_meta_def [symmetric] Let_def zonal_good2_def
  show ?thesis
  proof (cases "over_limit E c")
    case True
    then show ?thesis
      by (simp add: run reset jump first_bank_def zonal_start_config_def over_limit_def bwhen_def
          zonal_stage1_fallback_def bexit_def)
  next
    case False
    then show ?thesis
      by (simp add: run jump first_bank_def zonal_start_config_def over_limit_def bwhen_def bret_def
          zonal_stage1_fallback_def bexit_def)
  qed
qed

text \<open>
  The startup software of the gateway decides at once. It tries the configured bank first, the
  other one when the configured bank has used up its three attempts; it enters the first of the two
  images with the magic number, the valid flag and the right CRC, and stays in safe mode when
  neither is such. The start is counted for the bank tried first, whichever bank is entered.
\<close>
theorem zonal_ssw_starts_good_stage2:
  "zonal_start E fl c =
    (let b = first_bank E c; c' = (if over_limit E c then seal E (set_count2 b 0 c) else c)
     in (Inl (if zonal_stage1_verify_stage2 E fl (stage2_meta b) then Enter (stage2_meta b + 0x1000)
         else if zonal_stage1_verify_stage2 E fl (stage2_meta (other_bank b)) then Enter (stage2_meta (other_bank b) + 0x1000)
         else SafeMode),
         seal E (set_count2 b (count2 b c' + 1) c')))"
proof -
  have base: "stage2_meta b + 0x1000 = stage2_base b" for b
    by (simp add: stage2_meta_def stage2_base_def)
  show ?thesis
    unfolding zonal_start_run base zonal_good2_def [symmetric] Let_def
    by (simp add: zonal_start_config_def Let_def)
qed

text \<open>Repeated starts with the configuration kept: the exits of the first \<open>n\<close> boots.\<close>

fun zonal_starts :: "boot_env \<Rightarrow> flash \<Rightarrow> nat \<Rightarrow> BootConfig \<Rightarrow> boot_exit list" where
  "zonal_starts E fl 0 c = []"
| "zonal_starts E fl (Suc n) c =
     (case zonal_start E fl c of (Inl e, c') \<Rightarrow> e # zonal_starts E fl n c' | (Inr _, c') \<Rightarrow> zonal_starts E fl n c')"

lemma zonal_starts_step: "zonal_starts E fl (Suc n) c =
  (if zonal_good2 E fl (first_bank E c) then Enter (stage2_base (first_bank E c))
      else if zonal_good2 E fl (other_bank (first_bank E c)) then Enter (stage2_base (other_bank (first_bank E c)))
      else SafeMode) # zonal_starts E fl n (zonal_start_config E c)"
  by (simp add: zonal_start_run)

lemma start_config_A:
  assumes "sealed E c" "active_stage2 c = BANK_A"
  shows "sealed E (zonal_start_config E c)" "active_stage2 (zonal_start_config E c) = BANK_A"
    "\<not> MAX_BOOT_ATTEMPTS \<le> count2 BANK_A c \<Longrightarrow> first_bank E c = BANK_A
      \<and> count2 BANK_A (zonal_start_config E c) = count2 BANK_A c + 1"
    "MAX_BOOT_ATTEMPTS \<le> count2 BANK_A c \<Longrightarrow> first_bank E c = BANK_B
      \<and> count2 BANK_A (zonal_start_config E c) = count2 BANK_A c"
  using assms by (simp_all add: zonal_start_config_def Let_def first_bank_def over_limit_def tried_bank_def count2_set)

text \<open>
  A healthy bank is abandoned. The startup software counts every start of stage 2 and nothing
  in it takes a successful start back: from a configuration with bank A active and its counter at
  0, with both images good, it enters bank A for three boots and bank B in every boot after them.
\<close>
theorem zonal_ssw_abandons_healthy_bank:
  assumes "sealed E c" "stage2_active c = 0" "stage2_boot_cnt_a c = 0"
    "zonal_good2 E fl BANK_A" "zonal_good2 E fl BANK_B"
  shows "zonal_starts E fl (3 + n) c
    = replicate 3 (Enter REGION_A_BOOT_START) @ replicate n (Enter REGION_B_BOOT_START)"
proof -
  have tail: "zonal_starts E fl n d = replicate n (Enter REGION_B_BOOT_START)"
    if "sealed E d" "active_stage2 d = BANK_A" "count2 BANK_A d = 3" for d n
    using that
  proof (induction n arbitrary: d)
    case (Suc n)
    then show ?case
      using start_config_A [OF Suc.prems(1,2)] assms(5)
      by (simp only: zonal_starts_step) (simp add: stage2_base_def del: zonal_starts.simps)
  qed simp
  let ?c1 = "zonal_start_config E c" and ?c2 = "zonal_start_config E (zonal_start_config E c)"
  have c0: "active_stage2 c = BANK_A" "count2 BANK_A c = 0"
    using assms by (simp_all add: active_stage2_def count2_def)
  have c1: "sealed E ?c1" "active_stage2 ?c1 = BANK_A" "count2 BANK_A ?c1 = 1" "first_bank E c = BANK_A"
    using start_config_A [OF assms(1) c0(1)] c0 by (simp_all add: word_le_nat_alt)
  have c2: "sealed E ?c2" "active_stage2 ?c2 = BANK_A" "count2 BANK_A ?c2 = 2" "first_bank E ?c1 = BANK_A"
    using start_config_A [OF c1(1,2)] c1(3) by simp_all
  have c3: "sealed E (zonal_start_config E ?c2)" "active_stage2 (zonal_start_config E ?c2) = BANK_A"
    "count2 BANK_A (zonal_start_config E ?c2) = 3" "first_bank E ?c2 = BANK_A"
    using start_config_A [OF c2(1,2)] c2(3) by simp_all
  have "zonal_starts E fl (Suc (Suc (Suc n))) c
    = [Enter REGION_A_BOOT_START, Enter REGION_A_BOOT_START, Enter REGION_A_BOOT_START]
      @ zonal_starts E fl n (zonal_start_config E ?c2)"
    using c1(4) c2(4) c3(4) assms(4) by (simp only: zonal_starts_step) (simp add: stage2_base_def)
  then show ?thesis
    using tail [OF c3(1-3), of n] by (simp add: numeral_eq_Suc del: zonal_starts.simps)
qed

theorem zonal_ssw_abandons_healthy_bank_witness:
  "zonal_starts demo_env (demo_flash [REGION_A_BOOT_META, REGION_B_BOOT_META]) 4 demo_config
    = [Enter REGION_A_BOOT_START, Enter REGION_A_BOOT_START, Enter REGION_A_BOOT_START, Enter REGION_B_BOOT_START]"
proof -
  have "zonal_good2 demo_env (demo_flash [REGION_A_BOOT_META, REGION_B_BOOT_META]) BANK_A"
    "zonal_good2 demo_env (demo_flash [REGION_A_BOOT_META, REGION_B_BOOT_META]) BANK_B"
    by code_simp+
  from zonal_ssw_abandons_healthy_bank [OF _ _ _ this, of demo_config 1] show ?thesis
    by (simp add: sealed_def demo_config_def demo_env_def numeral_eq_Suc del: zonal_starts.simps)
qed

section \<open>One stage-2 boot of the gateway\<close>

definition app_meta :: "BootBank \<Rightarrow> u32" where
  "app_meta b = (if b = BANK_A then REGION_A_APP_META else REGION_B_APP_META)"

definition zonal_app_good :: "boot_env \<Rightarrow> flash \<Rightarrow> BootBank \<Rightarrow> bool" where
  "zonal_app_good E fl b = zonal_stage2_verify_app E fl (app_meta b)"

definition tried_app :: "boot_env \<Rightarrow> BootConfig \<Rightarrow> BootBank" where
  "tried_app E c = (if sealed E c then app_bank c else BANK_A)"

definition count_app :: "BootBank \<Rightarrow> BootConfig \<Rightarrow> u8" where
  "count_app b c = (if b = BANK_A then app_boot_cnt_a c else app_boot_cnt_b c)"

definition set_count_app :: "BootBank \<Rightarrow> u8 \<Rightarrow> BootConfig \<Rightarrow> BootConfig" where
  "set_count_app b n c = (if b = BANK_A then c\<lparr>app_boot_cnt_a := n\<rparr> else c\<lparr>app_boot_cnt_b := n\<rparr>)"

definition switch_app :: "boot_env \<Rightarrow> BootConfig \<Rightarrow> BootConfig" where
  "switch_app E c = (let c' = seal E (toggle_app c) in set_count_app (app_bank c') 0 c')"

lemma app_simps [simp]:
  "app_bank (set_count_app b n c) = app_bank c" "app_bank (seal E c) = app_bank c"
  "app_bank (toggle_app c) = other_bank (app_bank c)" "app_bank (switch_app E c) = other_bank (app_bank c)"
  "count_app b (seal E c) = count_app b c" "count_app b (toggle_app c) = count_app b c"
  "app_bank c \<noteq> BANK_INVALID" "tried_app E c \<noteq> BANK_INVALID" "app_bank (c\<lparr>ota_pending := x\<rparr>) = app_bank c"
  "count_app b (c\<lparr>ota_pending := x\<rparr>) = count_app b c" "ota_pending (set_count_app b n c) = ota_pending c"
  "ota_pending (switch_app E c) = ota_pending c"
  by (simp_all add: app_bank_def set_count_app_def toggle_app_def count_app_def switch_app_def tried_app_def Let_def)

lemma count_app_set: "count_app b (set_count_app b n c) = n" "b \<noteq> BANK_INVALID \<Longrightarrow> b' \<noteq> BANK_INVALID \<Longrightarrow> b \<noteq> b' \<Longrightarrow>
    count_app b' (set_count_app b n c) = count_app b' c"
  by (cases b; cases b'; simp add: count_app_def set_count_app_def)+

lemma count_switch: "count_app (other_bank (app_bank c)) (switch_app E c) = 0"
  "count_app (app_bank c) (switch_app E c) = count_app (app_bank c) c"
  by (simp_all add: switch_app_def Let_def count_app_set)

lemma zonal_stage2_main_run:
  "zonal_stage2_main E fl c =
    (if ota_pending c = 1 then (Inl SystemReset, seal E ((switch_app E c)\<lparr>ota_pending := 0\<rparr>))
     else let b = tried_app E c; c1 = seal E (set_count_app b (count_app b c + 1) c)
       in if MAX_BOOT_ATTEMPTS \<le> count_app b c + 1 \<or> \<not> zonal_app_good E fl b then (Inl SystemReset, switch_app E c1)
          else (Inl (app_start fl b), seal E (set_count_app b 0 c1)))"
proof -
  have read: "zonal_stage2_read_active_app E c = (Inr (tried_app E c), c)" for c
    by (simp add: zonal_stage2_read_active_app_def bget_def tried_app_def sealed_def app_bank_def Let_def)
  have incr: "zonal_stage2_increment_app_boot_count E b c = (Inr (), seal E (set_count_app b (count_app b c + 1) c))" for b c
    by (simp add: zonal_stage2_increment_app_boot_count_def bput_def set_count_app_def count_app_def)
  have reset: "zonal_stage2_reset_app_boot_count E b c = (Inr (), seal E (set_count_app b 0 c))" for b c
    by (simp add: zonal_stage2_reset_app_boot_count_def bput_def set_count_app_def)
  have cnt: "zonal_stage2_get_app_boot_count b c = (Inr (count_app b c), c)" for b c
    by (simp add: zonal_stage2_get_app_boot_count_def bget_def count_app_def)
  have switch: "zonal_stage2_switch_app E c = (Inr (), switch_app E c)" for c
    by (simp add: zonal_stage2_switch_app_def bput_def bseq_def bbind_def switch_app_def Let_def set_count_app_def
        app_bank_def toggle_app_def)
  have ota: "zonal_stage2_process_ota E c = (Inl SystemReset, seal E ((switch_app E c)\<lparr>ota_pending := 0\<rparr>))" for c
    by (simp add: zonal_stage2_process_ota_def zonal_stage2_clear_ota_pending_def bbind_def bseq_def read switch
        bput_def bexit_def)
  have jump: "zonal_stage2_jump_to_app fl (app_base b) c = (Inl (app_start fl b), c)" for b c
    by (simp add: zonal_stage2_jump_to_app_def bexit_def app_start_def Let_def)
  have check: "zonal_stage2_check_ota_pending c = (Inr (ota_pending c = 1), c)"
    by (simp add: zonal_stage2_check_ota_pending_def bget_def)
  note run = zonal_stage2_main_def check bbind_def bseq_def read prod.case sum.case incr cnt reset switch ota jump
    app_meta_def [symmetric] app_base_def [symmetric] zonal_app_good_def [symmetric] Let_def bwhen_def
  show ?thesis
    by (cases "ota_pending c = 1") (simp_all add: run bret_def bexit_def count_app_set)
qed

definition zonal_app_boot :: "boot_env \<Rightarrow> flash \<Rightarrow> BootConfig \<Rightarrow> boot_exit option \<times> BootConfig" where
  "zonal_app_boot E fl c = (case zonal_stage2_main E fl c of
     (Inl (Start sp pc), c') \<Rightarrow> (Some (Start sp pc), c') | (_, c') \<Rightarrow> (None, c'))"

lemma zonal_app_boot_run:
  "zonal_app_boot E fl c =
    (if ota_pending c = 1 then (None, seal E ((switch_app E c)\<lparr>ota_pending := 0\<rparr>))
     else let b = tried_app E c; c1 = seal E (set_count_app b (count_app b c + 1) c)
       in if MAX_BOOT_ATTEMPTS \<le> count_app b c + 1 \<or> \<not> zonal_app_good E fl b then (None, switch_app E c1)
          else (Some (app_start fl b), seal E (set_count_app b 0 c1)))"
  by (simp add: zonal_app_boot_def zonal_stage2_main_run Let_def app_start_def)

fun zonal_app_boots :: "boot_env \<Rightarrow> flash \<Rightarrow> nat \<Rightarrow> BootConfig \<Rightarrow> boot_exit option" where
  "zonal_app_boots E fl 0 c = None"
| "zonal_app_boots E fl (Suc n) c =
     (case zonal_app_boot E fl c of (Some r, c') \<Rightarrow> Some r | (None, c') \<Rightarrow> zonal_app_boots E fl n c')"

text \<open>A switch leaves a valid CRC when the counter it clears was clear.\<close>

lemma switch_sealed:
  assumes "count_app (other_bank (app_bank c)) c = 0"
  shows "sealed E (switch_app E c)"
proof -
  have "set_count_app (other_bank (app_bank c)) 0 (seal E (toggle_app c)) = seal E (toggle_app c)"
    using assms by (auto simp: set_count_app_def count_app_def toggle_app_def)
  then show ?thesis by (simp add: switch_app_def Let_def)
qed

lemma zonal_app_reset:
  assumes "zonal_app_boot E fl c = (None, c')"
  shows "app_bank c' = other_bank (app_bank c)" "count_app (app_bank c') c' = 0" "ota_pending c' \<noteq> 1"
    "tried_app E c \<noteq> app_bank c \<Longrightarrow> count_app (app_bank c) c' = count_app (app_bank c) c"
    "tried_app E c = app_bank c \<Longrightarrow> count_app (other_bank (app_bank c)) c = 0 \<Longrightarrow> sealed E c'"
proof -
  let ?b = "tried_app E c"
  let ?c1 = "seal E (set_count_app ?b (count_app ?b c + 1) c)"
  have c': "c' = seal E ((switch_app E c)\<lparr>ota_pending := 0\<rparr>) \<or> ota_pending c \<noteq> 1 \<and> c' = switch_app E ?c1"
    using assms by (auto simp: zonal_app_boot_run Let_def split: if_splits)
  show "app_bank c' = other_bank (app_bank c)" "ota_pending c' \<noteq> 1"
    using c' by auto
  show "count_app (app_bank c') c' = 0"
    using c' count_switch [of c E] count_switch [of ?c1 E] by auto
  show "count_app (app_bank c) c' = count_app (app_bank c) c" if "?b \<noteq> app_bank c"
    using c' count_switch [of c E] count_switch(2) [of ?c1 E] that by (auto simp: count_app_set)
  show "sealed E c'" if "?b = app_bank c" "count_app (other_bank (app_bank c)) c = 0"
    using c'
  proof
    assume "ota_pending c \<noteq> 1 \<and> c' = switch_app E ?c1"
    with that show ?thesis by (auto intro!: switch_sealed simp: count_app_set)
  qed simp
qed

interpretation zonal_app: ab_boot_stale "zonal_app_boot E fl" app_bank "sealed E" "tried_app E"
  "\<lambda>b c. count_app b c = 0" "\<lambda>c. ota_pending c \<noteq> 1" "zonal_app_good E fl" "app_start fl" for E fl
proof unfold_locales
  show "app_bank c = BANK_A \<or> app_bank c = BANK_B" for c
    by (simp add: app_bank_def)
  show "tried_app E c = (if sealed E c then app_bank c else BANK_A)" for c
    by (simp add: tried_app_def)
  show "zonal_app_good E fl (tried_app E c) \<and> r = app_start fl (tried_app E c)"
    if "zonal_app_boot E fl c = (Some r, c')" for c r c'
    using that by (auto simp: zonal_app_boot_run Let_def split: if_splits)
  show "fst (zonal_app_boot E fl c) \<noteq> None"
    if "ota_pending c \<noteq> 1" "zonal_app_good E fl (tried_app E c)" "count_app (tried_app E c) c = 0" for c
    using that by (simp add: zonal_app_boot_run Let_def)
qed (use zonal_app_reset in auto)

lemma zonal_app_boots_eq: "zonal_app_boots E fl n c = zonal_app.boots E fl n c"
  by (induction n arbitrary: c) (auto split: prod.splits option.splits)

text \<open>
  C25. The gateway reaches a good application. Whatever the configuration holds, a pending update or
  a wrong CRC included, stage 2 starts an application with the magic number, the valid flag and the
  right CRC within five boots if there is one, and never starts any other.
\<close>
theorem zonal_stage2_reaches_good_application:
  "(zonal_app_good E fl BANK_A \<or> zonal_app_good E fl BANK_B \<longrightarrow> zonal_app_boots E fl 5 c \<noteq> None)
   \<and> (\<forall>r. zonal_app_boots E fl n c = Some r \<longrightarrow>
        (\<exists>b. b \<noteq> BANK_INVALID \<and> zonal_app_good E fl b \<and> r = app_start fl b))"
  using zonal_app.boots_live [of E fl c] zonal_app.boots_safe [of E fl n c]
  by (auto simp: zonal_app_boots_eq)

theorem zonal_stage2_reaches_good_application_witness:
  "zonal_app_boots demo_env (demo_flash [REGION_B_APP_META]) 5 demo_config \<noteq> None"
proof -
  have "zonal_app_good demo_env (demo_flash [REGION_B_APP_META]) BANK_B"
    by code_simp
  with zonal_stage2_reaches_good_application [of demo_env "demo_flash [REGION_B_APP_META]" demo_config 5] show ?thesis
    by blast
qed

text \<open>
  A pending update only switches banks. Whatever is in flash, a boot with the update flag set
  makes the other bank active, clears the flag and its counter, seals the configuration and resets.
  The next boot starts what the other bank already held if that verifies, and otherwise switches
  back.
\<close>
theorem zonal_ota_only_switches:
  assumes "ota_pending c = 1"
  shows "\<exists>c'. zonal_stage2_main E fl c = (Inl SystemReset, c')
    \<and> app_bank c' = other_bank (app_bank c) \<and> ota_pending c' = 0 \<and> sealed E c'
    \<and> (let b = other_bank (app_bank c) in
       if zonal_app_good E fl b then fst (zonal_stage2_main E fl c') = Inl (app_start fl b)
       else fst (zonal_stage2_main E fl c') = Inl SystemReset
         \<and> app_bank (snd (zonal_stage2_main E fl c')) = app_bank c)"
proof -
  let ?c = "seal E ((switch_app E c)\<lparr>ota_pending := 0\<rparr>)"
  have c: "app_bank ?c = other_bank (app_bank c)" "ota_pending ?c = 0" "sealed E ?c"
      "count_app (other_bank (app_bank c)) ?c = 0"
    using count_switch(1) [of c E] by simp_all
  moreover have "tried_app E ?c = other_bank (app_bank c)"
    using c by (simp add: tried_app_def)
  moreover have "other_bank (other_bank (app_bank c)) = app_bank c"
    by (simp add: app_bank_def)
  ultimately show ?thesis
    using assms by (simp add: zonal_stage2_main_run Let_def)
qed

theorem zonal_ota_only_switches_witness:
  "\<exists>c'. zonal_stage2_main demo_env (demo_flash []) (demo_config\<lparr>ota_pending := 1\<rparr>) = (Inl SystemReset, c')
    \<and> app_bank c' = BANK_B \<and> ota_pending c' = 0"
proof -
  have c: "ota_pending (demo_config\<lparr>ota_pending := 1\<rparr>) = 1" "app_bank (demo_config\<lparr>ota_pending := 1\<rparr>) = BANK_A"
    by (simp_all add: app_bank_def demo_config_def)
  from zonal_ota_only_switches [OF c(1), of demo_env "demo_flash []"] c(2) show ?thesis
    by auto
qed

end
