(* ===== verification/DoIP_Message.thy ===== *)
theory DoIP_Message
  imports C_Prelude
begin

text \<open>
  DoIP (ISO 13400) message framing: \<^verbatim>\<open>tc375_bootloader/common/doip_message.h\<close> and \<^verbatim>\<open>doip_message.c\<close>.
  Every builder and parser, over byte buffers with checked access and in the code's 32-bit
  arithmetic. A pointer into the input is its offset; an out-parameter is passed as its old
  value (\<open>None\<close> for a null pointer) and returned updated.
\<close>

section \<open>Constants\<close>

abbreviation DOIP_PROTOCOL_VERSION :: u8 where "DOIP_PROTOCOL_VERSION \<equiv> 0x02"
abbreviation DOIP_INVERSE_PROTOCOL_VERSION :: u8 where "DOIP_INVERSE_PROTOCOL_VERSION \<equiv> 0xFD"
abbreviation DOIP_HEADER_SIZE :: u32 where "DOIP_HEADER_SIZE \<equiv> 8"
abbreviation DOIP_VEHICLE_IDENTIFICATION_REQ :: u16 where "DOIP_VEHICLE_IDENTIFICATION_REQ \<equiv> 0x0001"
abbreviation DOIP_VEHICLE_IDENTIFICATION_RES :: u16 where "DOIP_VEHICLE_IDENTIFICATION_RES \<equiv> 0x0004"
abbreviation DOIP_ROUTING_ACTIVATION_REQ :: u16 where "DOIP_ROUTING_ACTIVATION_REQ \<equiv> 0x0005"
abbreviation DOIP_ROUTING_ACTIVATION_RES :: u16 where "DOIP_ROUTING_ACTIVATION_RES \<equiv> 0x0006"
abbreviation DOIP_ALIVE_CHECK_RES :: u16 where "DOIP_ALIVE_CHECK_RES \<equiv> 0x0008"
abbreviation DOIP_DIAGNOSTIC_MESSAGE :: u16 where "DOIP_DIAGNOSTIC_MESSAGE \<equiv> 0x8001"
abbreviation DOIP_DIAGNOSTIC_MESSAGE_POS_ACK :: u16 where "DOIP_DIAGNOSTIC_MESSAGE_POS_ACK \<equiv> 0x8002"
abbreviation DOIP_DIAGNOSTIC_MESSAGE_NEG_ACK :: u16 where "DOIP_DIAGNOSTIC_MESSAGE_NEG_ACK \<equiv> 0x8003"
abbreviation DOIP_RA_RES_SUCCESS :: u8 where "DOIP_RA_RES_SUCCESS \<equiv> 0x10"
abbreviation DOIP_VIN_LENGTH :: nat where "DOIP_VIN_LENGTH \<equiv> 17"
abbreviation DOIP_EID_LENGTH :: nat where "DOIP_EID_LENGTH \<equiv> 6"
abbreviation DOIP_GID_LENGTH :: nat where "DOIP_GID_LENGTH \<equiv> 6"

section \<open>Data\<close>

record DoIPHeader =
  protocol_version :: u8
  inverse_protocol_version :: u8
  payload_type :: u16
  payload_length :: u32

record DoIPRoutingActivationRes =
  tester_address :: u16
  entity_address :: u16
  response_code :: u8
  reserved :: u32
  oem_specific :: u32

record DoIPVehicleIdRes =
  vin :: bytes
  logical_address :: u16
  eid :: bytes
  gid :: bytes
  further_action_required :: u8
  vin_gid_sync_status :: u8

definition doip_htons :: "u16 \<Rightarrow> u16" where
  "doip_htons x = drop_bit 8 x OR push_bit 8 x"

definition doip_htonl :: "u32 \<Rightarrow> u32" where
  "doip_htonl x = drop_bit 24 x OR drop_bit 8 (x AND 0x00FF0000) OR push_bit 8 (x AND 0x0000FF00)
     OR push_bit 24 x"

abbreviation doip_ntohs :: "u16 \<Rightarrow> u16" where "doip_ntohs \<equiv> doip_htons"
abbreviation doip_ntohl :: "u32 \<Rightarrow> u32" where "doip_ntohl \<equiv> doip_htonl"

section \<open>Building and parsing a message\<close>

text \<open>
  \<open>8 + payload_len\<close> is computed in 32 bits, as in C (\<open>8U + uint32_t\<close>): it wraps.
\<close>

definition doip_build_message ::
  "u16 \<Rightarrow> bytes option \<Rightarrow> u32 \<Rightarrow> bytes option \<Rightarrow> size_t \<Rightarrow> (size_t \<times> bytes option) cexec" where
  "doip_build_message ptype payload payload_len out_buf out_cap =
     (case out_buf of
        None \<Rightarrow> Ret (0, None)
      | Some out0 \<Rightarrow>
          if out_cap < DOIP_HEADER_SIZE + payload_len then Ret (0, Some out0)
          else
            cbind (buf_put out0 0 DOIP_PROTOCOL_VERSION) (\<lambda>out1.
            cbind (buf_put out1 1 DOIP_INVERSE_PROTOCOL_VERSION) (\<lambda>out2.
            cbind (buf_write out2 2 (u16_mem (doip_htons ptype))) (\<lambda>out3.
            cbind (buf_write out3 4 (u32_mem (doip_htonl payload_len))) (\<lambda>out4.
            cbind (if 0 < payload_len
                   then (case payload of
                           None \<Rightarrow> Ret out4
                         | Some p \<Rightarrow> cbind (buf_slice p 0 (unat payload_len)) (buf_write out4 8))
                   else Ret out4) (\<lambda>out5.
            Ret (DOIP_HEADER_SIZE + payload_len, Some out5)))))))"

definition doip_parse_message ::
  "bytes option \<Rightarrow> size_t \<Rightarrow> DoIPHeader option \<Rightarrow> nat option option
     \<Rightarrow> (int \<times> DoIPHeader option \<times> nat option option) cexec" where
  "doip_parse_message buf buf_len header payload_out =
     (case (buf, header) of
        (Some b, Some h0) \<Rightarrow>
          if buf_len < DOIP_HEADER_SIZE then Ret (-1, header, payload_out)
          else
            cbind (buf_get b 0) (\<lambda>v.
            cbind (buf_get b 1) (\<lambda>iv.
            cbind (buf_slice b 2 2) (\<lambda>pt_be.
            cbind (buf_slice b 4 4) (\<lambda>len_be.
              let h = \<lparr>protocol_version = v, inverse_protocol_version = iv,
                       payload_type = doip_ntohs (mem_u16 pt_be),
                       payload_length = doip_ntohl (mem_u32 len_be)\<rparr>
              in if protocol_version h \<noteq> DOIP_PROTOCOL_VERSION
                    \<or> inverse_protocol_version h \<noteq> DOIP_INVERSE_PROTOCOL_VERSION
                 then Ret (-2, Some h, payload_out)
                 else if buf_len < DOIP_HEADER_SIZE + payload_length h
                 then Ret (-1, Some h, payload_out)
                 else Ret (0, Some h,
                   map_option (\<lambda>_. if 0 < payload_length h then Some 8 else None) payload_out)))))
      | _ \<Rightarrow> Ret (-1, header, payload_out))"

definition doip_validate_header :: "DoIPHeader option \<Rightarrow> bool" where
  "doip_validate_header header =
     (case header of
        None \<Rightarrow> False
      | Some h \<Rightarrow> protocol_version h = DOIP_PROTOCOL_VERSION
          \<and> inverse_protocol_version h = DOIP_INVERSE_PROTOCOL_VERSION)"

section \<open>The typed messages\<close>

definition doip_build_routing_activation_req ::
  "u16 \<Rightarrow> u8 \<Rightarrow> bytes option \<Rightarrow> size_t \<Rightarrow> (size_t \<times> bytes option) cexec" where
  "doip_build_routing_activation_req source_address activation_type out_buf out_cap =
     (let payload = u16_mem (doip_htons source_address) @ [activation_type] @ replicate 4 0
      in doip_build_message DOIP_ROUTING_ACTIVATION_REQ (Some payload) 7 out_buf out_cap)"

definition doip_parse_routing_activation_res ::
  "bytes option \<Rightarrow> size_t \<Rightarrow> DoIPRoutingActivationRes option
     \<Rightarrow> (int \<times> DoIPRoutingActivationRes option) cexec" where
  "doip_parse_routing_activation_res payload payload_len response =
     (case (payload, response) of
        (Some p, Some r0) \<Rightarrow>
          if payload_len < 9 then Ret (-1, response)
          else
            cbind (buf_slice p 0 2) (\<lambda>tester_be.
            cbind (buf_slice p 2 2) (\<lambda>entity_be.
            cbind (buf_get p 4) (\<lambda>code.
            cbind (buf_slice p 5 4) (\<lambda>res_be.
            cbind (if 13 \<le> payload_len
                   then cbind (buf_slice p 9 4) (\<lambda>oem_be. Ret (doip_ntohl (mem_u32 oem_be)))
                   else Ret 0) (\<lambda>oem.
            Ret (0, Some \<lparr>tester_address = doip_ntohs (mem_u16 tester_be),
                          entity_address = doip_ntohs (mem_u16 entity_be),
                          response_code = code,
                          reserved = doip_ntohl (mem_u32 res_be),
                          oem_specific = oem\<rparr>))))))
      | _ \<Rightarrow> Ret (-1, response))"

text \<open>
  The diagnostic payload is assembled in place, at offset 8 of the output buffer, and
  \<open>doip_build_message\<close> then copies that payload onto itself. The header writes before that copy
  touch bytes 0 to 7 only, so the copied bytes are those assembled here.
\<close>

definition doip_build_diagnostic_message ::
  "u16 \<Rightarrow> u16 \<Rightarrow> bytes option \<Rightarrow> size_t \<Rightarrow> bytes option \<Rightarrow> size_t \<Rightarrow> (size_t \<times> bytes option) cexec"
where
  "doip_build_diagnostic_message source_address target_address uds_data uds_len out_buf out_cap =
     (let payload_len = 4 + uds_len in
      case out_buf of
        None \<Rightarrow> Ret (0, None)
      | Some out0 \<Rightarrow>
          if out_cap < DOIP_HEADER_SIZE + payload_len then Ret (0, Some out0)
          else
            cbind (buf_write out0 8 (u16_mem (doip_htons source_address))) (\<lambda>out1.
            cbind (buf_write out1 10 (u16_mem (doip_htons target_address))) (\<lambda>out2.
            cbind (if 0 < uds_len
                   then (case uds_data of
                           None \<Rightarrow> Ret out2
                         | Some d \<Rightarrow> cbind (buf_slice d 0 (unat uds_len)) (buf_write out2 12))
                   else Ret out2) (\<lambda>out3.
            doip_build_message DOIP_DIAGNOSTIC_MESSAGE (Some (drop 8 out3)) payload_len (Some out3)
              out_cap))))"

definition doip_parse_diagnostic_message ::
  "bytes option \<Rightarrow> size_t \<Rightarrow> u16 option \<Rightarrow> u16 option \<Rightarrow> nat option option \<Rightarrow> size_t option
     \<Rightarrow> (int \<times> u16 option \<times> u16 option \<times> nat option option \<times> size_t option) cexec" where
  "doip_parse_diagnostic_message payload payload_len source_address target_address uds_data_out
      uds_len_out =
     (case payload of
        None \<Rightarrow> Ret (-1, source_address, target_address, uds_data_out, uds_len_out)
      | Some p \<Rightarrow>
          if payload_len < 4 then Ret (-1, source_address, target_address, uds_data_out, uds_len_out)
          else
            cbind (buf_slice p 0 2) (\<lambda>sa_be.
            cbind (buf_slice p 2 2) (\<lambda>ta_be.
              let uds_len = payload_len - 4
              in Ret (0, map_option (\<lambda>_. doip_ntohs (mem_u16 sa_be)) source_address,
                   map_option (\<lambda>_. doip_ntohs (mem_u16 ta_be)) target_address,
                   map_option (\<lambda>_. if 0 < uds_len then Some 4 else None) uds_data_out,
                   map_option (\<lambda>_. uds_len) uds_len_out))))"

definition doip_build_vehicle_id_req ::
  "bytes option \<Rightarrow> size_t \<Rightarrow> (size_t \<times> bytes option) cexec" where
  "doip_build_vehicle_id_req out_buf out_cap =
     doip_build_message DOIP_VEHICLE_IDENTIFICATION_REQ None 0 out_buf out_cap"

definition doip_parse_vehicle_id_res ::
  "bytes option \<Rightarrow> size_t \<Rightarrow> DoIPVehicleIdRes option \<Rightarrow> (int \<times> DoIPVehicleIdRes option) cexec" where
  "doip_parse_vehicle_id_res payload payload_len response =
     (case (payload, response) of
        (Some p, Some r0) \<Rightarrow>
          if payload_len < 33 then Ret (-1, response)
          else
            cbind (buf_slice p 0 DOIP_VIN_LENGTH) (\<lambda>vin_b.
            cbind (buf_slice p 17 2) (\<lambda>addr_be.
            cbind (buf_slice p 19 DOIP_EID_LENGTH) (\<lambda>eid_b.
            cbind (buf_slice p 25 DOIP_GID_LENGTH) (\<lambda>gid_b.
            cbind (buf_get p 31) (\<lambda>far.
            cbind (if 33 \<le> payload_len then buf_get p 32 else Ret 0) (\<lambda>sync.
            Ret (0, Some \<lparr>vin = vin_b, logical_address = doip_ntohs (mem_u16 addr_be),
                          eid = eid_b, gid = gid_b, further_action_required = far,
                          vin_gid_sync_status = sync\<rparr>)))))))
      | _ \<Rightarrow> Ret (-1, response))"

section \<open>Byte order\<close>

lemma u16_mem_htons [wire_simps]: "u16_mem (doip_htons x) = be16 x"
  by (auto simp: u16_mem_def doip_htons_def be16_def bit_simps intro!: bit_eqI)

lemma doip_htons_htons [wire_simps]: "doip_htons (doip_htons x) = x"
proof (rule bit_word_eqI)
  fix n :: nat
  assume "n < LENGTH(16)"
  then show "bit (doip_htons (doip_htons x)) n = bit x n"
    by (cases "n < 8") (auto simp: doip_htons_def bit_simps)
qed

lemma ntohs_mem_u16 [wire_simps]: "doip_htons (mem_u16 [a, b]) = be16_val a b"
proof (rule bit_word_eqI)
  fix n :: nat
  assume "n < LENGTH(16)"
  then show "bit (doip_htons (mem_u16 [a, b])) n = bit (be16_val a b) n"
    by (cases "n < 8") (auto simp: doip_htons_def mem_u16_def be16_val_def bit_simps)
qed

lemma bit_masks_u32: 
  "bit (0x00FF0000 :: u32) n \<longleftrightarrow> 16 \<le> n \<and> n < 24"
  "bit (0x0000FF00 :: u32) n \<longleftrightarrow> 8 \<le> n \<and> n < 16"
proof -
  have 1: "(0x00FF0000 :: u32) = push_bit 16 (mask 8)" by (simp add: mask_numeral push_bit_eq_mult)
  have 2: "(0x0000FF00 :: u32) = push_bit 8 (mask 8)" by (simp add: mask_numeral push_bit_eq_mult)
  show "bit (0x00FF0000 :: u32) n \<longleftrightarrow> 16 \<le> n \<and> n < 24"
    unfolding 1 by (auto simp: bit_simps)
  show "bit (0x0000FF00 :: u32) n \<longleftrightarrow> 8 \<le> n \<and> n < 16"
    unfolding 2 by (auto simp: bit_simps)
qed

lemma bit_htonl: "n < 32 \<Longrightarrow> bit (doip_htonl x) n \<longleftrightarrow>
  (if n < 8 then bit x (n + 24) else if n < 16 then bit x (n + 8)
   else if n < 24 then bit x (n - 8) else bit x (n - 24))"
  unfolding doip_htonl_def bit_or_iff bit_and_iff bit_drop_bit_eq bit_push_bit_iff bit_masks_u32 o_def
  by (auto simp add: add.commute possible_bit_def dest: bit_imp_le_length)

lemma u32_mem_htonl [wire_simps]: "u32_mem (doip_htonl x) = be32 x"
  by (auto simp: u32_mem_def be32_def bit_simps bit_htonl add.commute intro!: bit_eqI)

lemma doip_htonl_htonl [wire_simps]: "doip_htonl (doip_htonl x) = x"
  by (rule bit_word_eqI) (auto simp: bit_htonl)

lemma ntohl_mem_u32 [wire_simps]: "doip_htonl (mem_u32 [a, b, c, d]) = be32_val a b c d"
proof (rule bit_word_eqI)
  fix n :: nat
  assume "n < LENGTH(32)"
  then consider "n < 8" | "8 \<le> n \<and> n < 16" | "16 \<le> n \<and> n < 24" | "24 \<le> n \<and> n < 32"
    by fastforce
  then show "bit (doip_htonl (mem_u32 [a, b, c, d])) n = bit (be32_val a b c d) n"
    by cases (auto simp: bit_htonl mem_u32_def be32_val_def bit_simps)
qed

section \<open>The wire format as a specification\<close>

text \<open>
  \<open>doip_frame\<close> is the message ISO 13400 prescribes: version, inverse version, big-endian payload
  type and length, payload. \<open>doip_header_of\<close> reads the eight header bytes in network order.
\<close>

definition doip_frame :: "u16 \<Rightarrow> bytes \<Rightarrow> bytes" where
  "doip_frame ptype d = [DOIP_PROTOCOL_VERSION, DOIP_INVERSE_PROTOCOL_VERSION] @ be16 ptype
     @ be32 (of_nat (length d)) @ d"

lemma length_doip_frame [simp]: "length (doip_frame t d) = 8 + length d"
  by (simp add: doip_frame_def)

lemma drop_doip_frame [simp]: "drop 8 (doip_frame t d) = d" "drop 12 (doip_frame t d) = drop 4 d"
  by (simp_all add: doip_frame_def be16_def be32_def eval_nat_numeral)

definition payload_bytes :: "bytes option \<Rightarrow> nat \<Rightarrow> bytes \<Rightarrow> bytes" where
  "payload_bytes p n old = (case p of None \<Rightarrow> take n old | Some d \<Rightarrow> take n d)"

lemma build_header_steps:
  assumes "8 \<le> length out"
  shows "cbind (buf_put out 0 DOIP_PROTOCOL_VERSION) (\<lambda>out1.
         cbind (buf_put out1 1 DOIP_INVERSE_PROTOCOL_VERSION) (\<lambda>out2.
         cbind (buf_write out2 2 (u16_mem (doip_htons t))) (\<lambda>out3.
         cbind (buf_write out3 4 (u32_mem (doip_htonl n))) f)))
       = f ([DOIP_PROTOCOL_VERSION, DOIP_INVERSE_PROTOCOL_VERSION] @ be16 t @ be32 n @ drop 8 out)"
proof -
  obtain x0 x1 x2 x3 x4 x5 x6 x7 r where "out = [x0, x1, x2, x3, x4, x5, x6, x7] @ r"
    using assms by (rule length_ge_8E)
  then show ?thesis
    by (simp add: wire_simps cexec_simps buf_put_def buf_write_def be16_def be32_def)
qed

lemma doip_build_message_ok:
  assumes "8 + unat n < 2 ^ 32" "8 + unat n \<le> unat cap" "unat cap \<le> length out"
    and "\<And>d. p = Some d \<Longrightarrow> unat n \<le> length d"
  shows "doip_build_message t p n (Some out) cap
     = Ret (8 + n, Some (doip_frame t (payload_bytes p (unat n) (drop 8 out)) @ drop (unat n) (drop 8 out)))"
proof -
  have sum: "unat (8 + n) = 8 + unat n"
    using assms(1) by (subst unat_add_no_wrap) auto
  have cap: "\<not> cap < 8 + n"
    using assms(2) by (simp add: word_less_nat_alt sum)
  have len: "8 \<le> length out" "unat n \<le> length (drop 8 out)"
    using assms by auto
  let ?h = "[DOIP_PROTOCOL_VERSION, DOIP_INVERSE_PROTOCOL_VERSION] @ be16 t @ be32 n"
  let ?r = "drop 8 out"
  have "doip_build_message t p n (Some out) cap =
     cbind (if 0 < n then (case p of None \<Rightarrow> Ret (?h @ ?r)
              | Some p \<Rightarrow> cbind (buf_slice p 0 (unat n)) (buf_write (?h @ ?r) 8)) else Ret (?h @ ?r))
       (\<lambda>out5. Ret (8 + n, Some out5))"
    by (simp only: doip_build_message_def option.case cap if_False build_header_steps [OF len(1)] append_assoc)
  also have "\<dots> = Ret (8 + n,
      Some (doip_frame t (payload_bytes p (unat n) ?r) @ drop (unat n) ?r))"
  proof (cases "n = 0")
    case True
    then show ?thesis by (cases p) (simp_all add: doip_frame_def payload_bytes_def)
  next
    case False
    have "buf_write (?h @ ?r) 8 d = Ret (?h @ d @ drop (length d) ?r)" if "length d = unat n" for d
      using that len(2) by (intro buf_write_prefix) simp_all
    with False show ?thesis
      using assms(4) len(2)
      by (cases p) (simp add: doip_frame_def payload_bytes_def del: drop_drop,
          simp add: doip_frame_def payload_bytes_def word_gt_0 buf_slice_def min_def
          del: append.simps append_assoc drop_drop)
  qed
  finally show ?thesis .
qed

definition doip_header_of :: "bytes \<Rightarrow> DoIPHeader" where
  "doip_header_of b = \<lparr>protocol_version = b ! 0, inverse_protocol_version = b ! 1,
     payload_type = be16_val (b ! 2) (b ! 3),
     payload_length = be32_val (b ! 4) (b ! 5) (b ! 6) (b ! 7)\<rparr>"

lemma doip_parse_message_eq:
  assumes "unat buf_len \<le> length b"
  shows "doip_parse_message (Some b) buf_len (Some h0) po =
    (if buf_len < 8 then Ret (-1, Some h0, po)
     else if protocol_version (doip_header_of b) \<noteq> DOIP_PROTOCOL_VERSION
         \<or> inverse_protocol_version (doip_header_of b) \<noteq> DOIP_INVERSE_PROTOCOL_VERSION
     then Ret (-2, Some (doip_header_of b), po)
     else if buf_len < 8 + payload_length (doip_header_of b) then Ret (-1, Some (doip_header_of b), po)
     else Ret (0, Some (doip_header_of b),
        map_option (\<lambda>_. if 0 < payload_length (doip_header_of b) then Some 8 else None) po))"
proof (cases "buf_len < 8")
  case True
  then show ?thesis by (simp add: doip_parse_message_def)
next
  case False
  then have "8 \<le> length b"
    using assms by (simp add: word_less_nat_alt)
  then obtain x0 x1 x2 x3 x4 x5 x6 x7 r where "b = [x0, x1, x2, x3, x4, x5, x6, x7] @ r"
    by (rule length_ge_8E)
  with False show ?thesis
    by (simp add: doip_parse_message_def doip_header_of_def buf_get_def buf_slice_def wire_simps Let_def)
qed

lemma doip_header_of_frame:
  "doip_header_of (doip_frame t d @ r) = \<lparr>protocol_version = DOIP_PROTOCOL_VERSION,
     inverse_protocol_version = DOIP_INVERSE_PROTOCOL_VERSION, payload_type = t,
     payload_length = of_nat (length d)\<rparr>"
  by (simp add: doip_header_of_def doip_frame_def be16_def be32_def wire_simps)

lemma doip_build_diagnostic_message_ok:
  assumes "12 + unat n < 2 ^ 32" "12 + unat n \<le> unat cap" "unat cap \<le> length out" "unat n \<le> length d"
  shows "doip_build_diagnostic_message sa ta (Some d) n (Some out) cap
     = Ret (12 + n, Some (doip_frame DOIP_DIAGNOSTIC_MESSAGE (be16 sa @ be16 ta @ take (unat n) d)
         @ drop (12 + unat n) out))"
proof -
  have n4: "unat (4 + n) = 4 + unat n"
    using assms(1) by (subst unat_add_no_wrap) auto
  have n12: "unat (8 + (4 + n)) = 12 + unat n"
    using assms(1) n4 by (subst unat_add_no_wrap) auto
  have cap: "\<not> cap < 8 + (4 + n)"
    using assms(2) by (simp only: word_less_nat_alt n12)
  let ?h = "take 8 out" and ?r = "drop 8 out"
  have len: "length ?h = 8" "unat n + 4 \<le> length ?r" "out = ?h @ ?r"
    using assms by auto
  have w1: "buf_write out 8 (be16 sa) = Ret (?h @ be16 sa @ drop 2 ?r)"
    using len(1,2) by (subst len(3), subst buf_write_prefix) auto
  have w2: "buf_write (?h @ be16 sa @ drop 2 ?r) 10 (be16 ta) = Ret (?h @ be16 sa @ be16 ta @ drop 4 ?r)"
    using len(1,2) buf_write_prefix [of "?h @ be16 sa" 10 "be16 ta" "drop 2 ?r"] by simp
  have w3: "buf_write (?h @ be16 sa @ be16 ta @ drop 4 ?r) 12 (take (unat n) d)
      = Ret (?h @ be16 sa @ be16 ta @ take (unat n) d @ drop (4 + unat n) ?r)"
    using len(1,2) assms(4)
      buf_write_prefix [of "?h @ be16 sa @ be16 ta" 12 "take (unat n) d" "drop 4 ?r"]
    by (simp add: min_def add.commute add.left_commute)
  let ?o = "?h @ be16 sa @ be16 ta @ take (unat n) d @ drop (4 + unat n) ?r"
  have o_len: "length ?o = length out"
    using assms len by auto
  have step3: "(if 0 < n then cbind (buf_slice d 0 (unat n)) (buf_write (?h @ be16 sa @ be16 ta @ drop 4 ?r) 12)
      else Ret (?h @ be16 sa @ be16 ta @ drop 4 ?r)) = Ret ?o"
    using assms(4) w3 by (cases "n = 0") (simp_all add: buf_slice_def word_gt_0)
  have "doip_build_diagnostic_message sa ta (Some d) n (Some out) cap
     = doip_build_message DOIP_DIAGNOSTIC_MESSAGE (Some (drop 8 ?o)) (4 + n) (Some ?o) cap"
    using cap by (simp only: doip_build_diagnostic_message_def Let_def option.case if_False
        u16_mem_htons w1 w2 cbind.simps step3)
  also have "\<dots> = Ret (8 + (4 + n), Some (doip_frame DOIP_DIAGNOSTIC_MESSAGE
       (payload_bytes (Some (drop 8 ?o)) (unat (4 + n)) (drop 8 ?o)) @ drop (unat (4 + n)) (drop 8 ?o)))"
    using assms n4 o_len by (intro doip_build_message_ok) auto
  also have "drop 8 ?o = be16 sa @ be16 ta @ take (unat n) d @ drop (4 + unat n) ?r"
    using len(1) by simp
  also have "8 + (4 + n) = 12 + n"
    by simp
  finally show ?thesis
    using assms(4) unfolding payload_bytes_def n4 by (simp add: add.commute)
qed

lemma doip_parse_diagnostic_message_eq:
  assumes "unat n \<le> length p" 
  shows "doip_parse_diagnostic_message (Some p) n (Some sa) (Some ta) (Some u) (Some l) =
    (if n < 4 then Ret (-1, Some sa, Some ta, Some u, Some l)
     else Ret (0, Some (be16_val (p ! 0) (p ! 1)), Some (be16_val (p ! 2) (p ! 3)),
        Some (if 4 < n then Some 4 else None), Some (n - 4)))"
proof (cases "n < 4")
  case False
  then have "4 \<le> length p"
    using assms by (simp add: word_less_nat_alt)
  then have "0 < n - 4 \<longleftrightarrow> 4 < n"
    using False by (auto simp: word_less_nat_alt unat_sub word_le_nat_alt)
  with \<open>4 \<le> length p\<close> False show ?thesis
    by (simp add: doip_parse_diagnostic_message_def buf_slice_def take2_drop [of 0, simplified]
        take2_drop [of 2, simplified] wire_simps Let_def)
qed (simp add: doip_parse_diagnostic_message_def)

lemma doip_parse_message_total:
  assumes "unat buf_len \<le> length b"
  shows "\<exists>r h po'. doip_parse_message (Some b) buf_len (Some h0) po = Ret (r, Some h, po') \<and> r \<in> {0, -1, -2}"
  using assms by (simp add: doip_parse_message_eq)

lemma doip_frame_of_header:
  assumes "8 + unat (payload_length (doip_header_of b)) \<le> length b"
    "protocol_version (doip_header_of b) = DOIP_PROTOCOL_VERSION"
    "inverse_protocol_version (doip_header_of b) = DOIP_INVERSE_PROTOCOL_VERSION"
  shows "take (8 + unat (payload_length (doip_header_of b))) b
    = doip_frame (payload_type (doip_header_of b))
        (take (unat (payload_length (doip_header_of b))) (drop 8 b))"
proof -
  obtain x0 x1 x2 x3 x4 x5 x6 x7 r where b: "b = [x0, x1, x2, x3, x4, x5, x6, x7] @ r"
    using assms(1) by (auto intro: length_ge_8E [of b])
  have "take (8 + k) b = [x0, x1, x2, x3, x4, x5, x6, x7] @ take k r" for k
    unfolding b by (simp add: eval_nat_numeral)
  moreover have "drop 8 b = r"
    unfolding b by simp
  ultimately show ?thesis
    using assms by (simp add: b doip_header_of_def doip_frame_def wire_simps)
qed

section \<open>Properties\<close>

text \<open>
  C8. Round trip. Building a message whose payload fits the buffer writes exactly the frame of
  ISO 13400 (version bytes, big-endian type and length, payload), leaves the rest of the buffer
  alone, and parsing the result returns the type, the length and the payload position.
\<close>
theorem doip_message_roundtrip:
  assumes "8 + unat n < 2 ^ 32" "8 + unat n \<le> unat cap" "unat cap \<le> length out" "unat n \<le> length d"
  shows "returns (doip_build_message t (Some d) n (Some out) cap) (\<lambda>(len, out').
    unat len = 8 + unat n
    \<and> map_option (take (unat len)) out' = Some (doip_frame t (take (unat n) d))
    \<and> map_option (drop (unat len)) out' = Some (drop (unat len) out)
    \<and> doip_parse_message out' len (Some h0) (Some p0) = Ret (0,
        Some \<lparr>protocol_version = DOIP_PROTOCOL_VERSION,
              inverse_protocol_version = DOIP_INVERSE_PROTOCOL_VERSION,
              payload_type = t, payload_length = n\<rparr>,
        Some (if 0 < n then Some 8 else None)))"
proof -
  have sum: "unat (8 + n) = 8 + unat n"
    using assms(1) by (subst unat_add_no_wrap) auto
  have not8: "\<not> 8 + n < 8"
    by (simp only: word_less_nat_alt sum) simp
  have len_take: "length (take (unat n) d) = unat n"
    using assms(4) by simp
  let ?f = "doip_frame t (take (unat n) d)" and ?r = "drop (unat n) (drop 8 out)"
  have parse: "doip_parse_message (Some (?f @ ?r)) (8 + n) (Some h0) (Some p0) = Ret (0,
        Some \<lparr>protocol_version = DOIP_PROTOCOL_VERSION,
              inverse_protocol_version = DOIP_INVERSE_PROTOCOL_VERSION,
              payload_type = t, payload_length = n\<rparr>,
        Some (if 0 < n then Some 8 else None))"
    using len_take assms(2,3)
    by (subst doip_parse_message_eq) (simp_all add: doip_header_of_frame not8 sum min_def)
  have build: "doip_build_message t (Some d) n (Some out) cap = Ret (8 + n, Some (?f @ ?r))"
    using assms by (subst doip_build_message_ok) (simp_all add: payload_bytes_def)
  have ac: "drop (8 + unat n) out = drop (unat n + 8) out"
    by (simp only: add.commute)
  show ?thesis
    unfolding build using parse len_take by (simp add: sum ac)
qed

theorem doip_message_roundtrip_witness:
  "returns (doip_build_message 0x8001 (Some [1, 2, 3]) 3 (Some (replicate 12 0xFF)) 12) (\<lambda>(len, out').
     unat len = 11 \<and> map_option (take (unat len)) out' = Some (doip_frame 0x8001 [1, 2, 3]))"
  by (rule returns_mono [OF doip_message_roundtrip]) auto

text \<open>
  A parsed message is a frame. When the parser accepts a buffer and the announced length does
  not overflow the 32-bit bounds check, the whole message lies inside the received bytes and they
  are the frame of its type and payload.
\<close>
theorem doip_parse_accepts_frames:
  assumes "doip_parse_message (Some b) len (Some h0) po = Ret (0, Some h, po')"
    "unat len \<le> length b" "payload_length h \<le> 0xFFFFFFF7"
  shows "8 + unat (payload_length h) \<le> unat len
    \<and> take (8 + unat (payload_length h)) b
       = doip_frame (payload_type h) (take (unat (payload_length h)) (drop 8 b))
    \<and> (po = Some p0 \<longrightarrow> po' = Some (if 0 < payload_length h then Some 8 else None))"
proof -
  note eq = assms(1) [unfolded doip_parse_message_eq [OF assms(2)]]
  have h: "h = doip_header_of b" and v: "protocol_version h = DOIP_PROTOCOL_VERSION"
      "inverse_protocol_version h = DOIP_INVERSE_PROTOCOL_VERSION"
    and le: "8 + payload_length h \<le> len"
    and po: "po' = map_option (\<lambda>_. if 0 < payload_length h then Some 8 else None) po"
    using eq by (auto split: if_splits simp: not_less)
  have "unat (payload_length h) \<le> 0xFFFFFFF7"
    using assms(3) by (simp add: word_le_nat_alt)
  then have "unat (8 + payload_length h) = 8 + unat (payload_length h)"
    by (subst unat_add_no_wrap) auto
  with le have "8 + unat (payload_length h) \<le> unat len"
    by (simp only: word_le_nat_alt)
  with v po assms(2) show ?thesis
    by (simp add: h doip_frame_of_header)
qed

theorem doip_parse_accepts_frames_witness:
  "take 10 [0x02, 0xFD, 0x80, 0x01, 0, 0, 0, 2, 7, 9, 5] = doip_frame 0x8001 [7, 9]"
proof -
  let ?h = "\<lparr>protocol_version = 2, inverse_protocol_version = 0xFD, payload_type = 0x8001, payload_length = 2\<rparr>"
  have "doip_parse_message (Some [0x02, 0xFD, 0x80, 0x01, 0, 0, 0, 2, 7, 9, 5]) 11 (Some ?h) None
      = Ret (0, Some ?h, None)"
    by code_simp
  from doip_parse_accepts_frames [OF this] show ?thesis
    by simp
qed

text \<open>
  The bounds check wraps. For each of the eight largest announced lengths, the sum
  \<open>8 + payload_length\<close> overflows and the parser accepts a bare 8-byte header as a complete
  message with a payload of almost 4 GiB behind it.
\<close>
theorem doip_parse_accepts_wrapped_length:
  assumes "0xFFFFFFF8 \<le> plen"
  shows "doip_parse_message (Some ([0x02, 0xFD] @ be16 t @ be32 plen)) 8 (Some h0) (Some p0)
    = Ret (0, Some \<lparr>protocol_version = 0x02, inverse_protocol_version = 0xFD, payload_type = t,
                    payload_length = plen\<rparr>, Some (Some 8))"
proof -
  have "unat plen < 2 ^ 32" using unsigned_less [of plen] by simp
  moreover have "0xFFFFFFF8 \<le> unat plen" using assms by (simp add: word_le_nat_alt)
  ultimately have "(8 + unat plen) mod 4294967296 = 8 + unat plen - 4294967296" "8 + unat plen \<le> 4294967303"
    by (simp_all add: le_mod_geq)
  then have "unat (8 + plen) \<le> 7"
    by (simp add: unat_word_ariths)
  then have "\<not> 8 < 8 + plen" "0 < plen"
    using \<open>0xFFFFFFF8 \<le> unat plen\<close> by (simp_all only: word_less_nat_alt) simp_all
  then show ?thesis
    by (simp add: doip_parse_message_eq doip_header_of_def be16_def be32_def wire_simps)
qed

theorem doip_parse_accepts_wrapped_length_witness:
  "doip_parse_message (Some ([0x02, 0xFD] @ be16 0x8001 @ be32 0xFFFFFFFF)) 8
     (Some (doip_header_of [])) (Some None)
   = Ret (0, Some \<lparr>protocol_version = 0x02, inverse_protocol_version = 0xFD, payload_type = 0x8001,
                   payload_length = 0xFFFFFFFF\<rparr>, Some (Some 8))"
  by (rule doip_parse_accepts_wrapped_length) simp

text \<open>
  Diagnostic round trip. A diagnostic message carries source address, target address and UDS
  bytes; building it and taking it apart again with the message parser and the diagnostic parser
  returns the same addresses and locates exactly the UDS bytes.
\<close>
theorem doip_diagnostic_roundtrip:
  assumes "12 + unat n < 2 ^ 32" "12 + unat n \<le> unat cap" "unat cap \<le> length out" "unat n \<le> length d"
  shows "returns (doip_build_diagnostic_message sa ta (Some d) n (Some out) cap) (\<lambda>(len, out').
    unat len = 12 + unat n \<and>
    (\<exists>frame. out' = Some frame \<and>
      returns (doip_parse_message (Some frame) len (Some h0) (Some None)) (\<lambda>(r, h, pos).
        r = 0 \<and> map_option payload_type h = Some DOIP_DIAGNOSTIC_MESSAGE \<and> pos = Some (Some 8) \<and>
        map_option payload_length h = Some (4 + n)) \<and>
      doip_parse_diagnostic_message (Some (drop 8 frame)) (4 + n) (Some a) (Some b) (Some None) (Some 0)
        = Ret (0, Some sa, Some ta, Some (if 0 < n then Some 4 else None), Some n) \<and>
      take (unat n) (drop 4 (drop 8 frame)) = take (unat n) d))"
proof -
  have n4: "unat (4 + n) = 4 + unat n"
    using assms(1) by (subst unat_add_no_wrap) auto
  have n12: "unat (12 + n) = 12 + unat n"
    using assms(1) by (subst unat_add_no_wrap) auto
  have not: "\<not> 12 + n < 8" "\<not> 4 + n < 4" "0 < 4 + n" "(4 < 4 + n) = (0 < n)"
    by (simp_all only: word_less_nat_alt n12 n4) simp_all
  let ?p = "be16 sa @ be16 ta @ take (unat n) d" and ?r = "drop (12 + unat n) out"
  let ?f = "doip_frame DOIP_DIAGNOSTIC_MESSAGE ?p @ ?r"
  have len: "length ?p = 4 + unat n" "length ?f = length out"
    using assms by simp_all
  have hdr: "doip_header_of ?f = \<lparr>protocol_version = DOIP_PROTOCOL_VERSION,
     inverse_protocol_version = DOIP_INVERSE_PROTOCOL_VERSION, payload_type = DOIP_DIAGNOSTIC_MESSAGE,
     payload_length = 4 + n\<rparr>"
    using len(1) by (simp add: doip_header_of_frame)
  have parse: "doip_parse_message (Some ?f) (12 + n) (Some h0) (Some None)
      = Ret (0, Some (doip_header_of ?f), Some (Some 8))"
    using assms(2,3) len(2) not by (subst doip_parse_message_eq) (simp_all add: hdr n12 del: length_append)
  have drop8: "drop 8 ?f = ?p @ ?r"
    by (simp add: doip_frame_def)
  have diag: "doip_parse_diagnostic_message (Some (?p @ ?r)) (4 + n) (Some a) (Some b) (Some None) (Some 0)
      = Ret (0, Some sa, Some ta, Some (if 0 < n then Some 4 else None), Some n)"
    using not len(1) by (subst doip_parse_diagnostic_message_eq) (simp_all add: be16_def n4 wire_simps)
  show ?thesis
    unfolding doip_build_diagnostic_message_ok [OF assms] using diag assms(4)
    by (simp add: parse hdr n12)
qed

theorem doip_diagnostic_roundtrip_witness:
  "returns (doip_build_diagnostic_message 0x0E00 0x0100 (Some [0x22, 0xF1, 0x90]) 3 (Some (replicate 32 0)) 32)
    (\<lambda>(len, out'). unat len = 15)"
  by (rule returns_mono [OF doip_diagnostic_roundtrip]) auto

end
