(* ===== verification/DoIP_Socket.thy ===== *)
theory DoIP_Socket
  imports DoIP_Message
begin

text \<open>
  The socket interface of the DoIP client (declared in \<^verbatim>\<open>tc375_bootloader/common/doip_client.h\<close>)
  as a record over the network's state, its implementation over the socket library
  (\<^verbatim>\<open>doip_socket_lwip.c\<close>), and the contract the client relies on as a locale, interpreted on that
  implementation. The library itself (\<^verbatim>\<open>socket\<close>, \<^verbatim>\<open>connect\<close>, \<^verbatim>\<open>recv\<close>, ...) is the parameter \<open>px\<close>.
\<close>

section \<open>The socket library\<close>

text \<open>
  \<open>px_recv\<close> and \<open>px_recvfrom\<close> give the next bytes the peer sent (\<open>None\<close> for the result -1); as
  documented, the library copies at most the given capacity of them into the buffer and returns
  their number. \<open>px_would_block\<close> is \<^verbatim>\<open>errno == EAGAIN || errno == EWOULDBLOCK\<close> after a failed call.
\<close>

datatype sock_type = SOCK_STREAM | SOCK_DGRAM

datatype sock_option = SO_REUSEADDR | SO_BROADCAST | SO_RCVTIMEO u32 u32

record sockaddr_in =
  sin_addr :: u32
  sin_port :: u16

record 'w posix =
  px_socket :: "sock_type \<Rightarrow> 'w \<Rightarrow> int \<times> 'w"
  px_setsockopt :: "int \<Rightarrow> sock_option \<Rightarrow> 'w \<Rightarrow> 'w"
  px_connect :: "int \<Rightarrow> sockaddr_in \<Rightarrow> 'w \<Rightarrow> int \<times> 'w"
  px_send :: "int \<Rightarrow> bytes \<Rightarrow> 'w \<Rightarrow> int \<times> 'w"
  px_recv :: "int \<Rightarrow> size_t \<Rightarrow> 'w \<Rightarrow> bytes option \<times> 'w"
  px_sendto :: "int \<Rightarrow> bytes \<Rightarrow> sockaddr_in \<Rightarrow> 'w \<Rightarrow> int \<times> 'w"
  px_recvfrom :: "int \<Rightarrow> size_t \<Rightarrow> 'w \<Rightarrow> (bytes \<times> sockaddr_in) option \<times> 'w"
  px_would_block :: "'w \<Rightarrow> bool"
  px_close :: "int \<Rightarrow> 'w \<Rightarrow> 'w"
  px_inet_pton :: "bytes \<Rightarrow> u32 option"

section \<open>The DoIP socket interface and its implementation\<close>

abbreviation DOIP_INVALID_SOCKET :: int where "DOIP_INVALID_SOCKET \<equiv> -1"

record 'w doip_sockets =
  socket_tcp_create :: "'w \<Rightarrow> int \<times> 'w"
  socket_udp_create :: "'w \<Rightarrow> int \<times> 'w"
  socket_tcp_connect :: "int \<Rightarrow> u32 \<Rightarrow> u16 \<Rightarrow> 'w \<Rightarrow> int \<times> 'w"
  socket_tcp_send :: "int \<Rightarrow> bytes option \<Rightarrow> size_t \<Rightarrow> 'w \<Rightarrow> (int \<times> 'w) cexec"
  socket_tcp_recv :: "int \<Rightarrow> bytes option \<Rightarrow> size_t \<Rightarrow> u32 \<Rightarrow> 'w \<Rightarrow> (int \<times> bytes option \<times> 'w) cexec"
  socket_udp_broadcast :: "int \<Rightarrow> bytes option \<Rightarrow> size_t \<Rightarrow> u16 \<Rightarrow> 'w \<Rightarrow> (int \<times> 'w) cexec"
  socket_udp_recv :: "int \<Rightarrow> bytes option \<Rightarrow> size_t \<Rightarrow> u32 \<Rightarrow> u32 option \<Rightarrow> 'w
      \<Rightarrow> (int \<times> bytes option \<times> u32 option \<times> 'w) cexec"
  socket_close :: "int \<Rightarrow> 'w \<Rightarrow> 'w"
  ip_str_to_addr :: "bytes option \<Rightarrow> u32 option \<Rightarrow> int \<times> u32 option"

definition doip_socket_tcp_create :: "'w posix \<Rightarrow> 'w \<Rightarrow> int \<times> 'w" where
  "doip_socket_tcp_create px w =
     (let (sock, w1) = px_socket px SOCK_STREAM w
      in if sock < 0 then (DOIP_INVALID_SOCKET, w1) else (sock, px_setsockopt px sock SO_REUSEADDR w1))"

definition doip_socket_udp_create :: "'w posix \<Rightarrow> 'w \<Rightarrow> int \<times> 'w" where
  "doip_socket_udp_create px w =
     (let (sock, w1) = px_socket px SOCK_DGRAM w
      in if sock < 0 then (DOIP_INVALID_SOCKET, w1) else (sock, px_setsockopt px sock SO_BROADCAST w1))"

definition doip_socket_tcp_connect :: "'w posix \<Rightarrow> int \<Rightarrow> u32 \<Rightarrow> u16 \<Rightarrow> 'w \<Rightarrow> int \<times> 'w" where
  "doip_socket_tcp_connect px sock ip port w =
     (if sock = DOIP_INVALID_SOCKET then (-1, w)
      else
        let (r, w1) = px_connect px sock \<lparr>sin_addr = ip, sin_port = doip_htons port\<rparr> w
        in (if r < 0 then -1 else 0, w1))"

definition doip_socket_tcp_send ::
  "'w posix \<Rightarrow> int \<Rightarrow> bytes option \<Rightarrow> size_t \<Rightarrow> 'w \<Rightarrow> (int \<times> 'w) cexec" where
  "doip_socket_tcp_send px sock data len w =
     (case data of
        None \<Rightarrow> Ret (-1, w)
      | Some d \<Rightarrow>
          if sock = DOIP_INVALID_SOCKET then Ret (-1, w)
          else cbind (buf_slice d 0 (unat len)) (\<lambda>msg. Ret (px_send px sock msg w)))"

text \<open>The timeout in the two fields of \<^verbatim>\<open>struct timeval\<close>: seconds and microseconds.\<close>

definition rcv_timeout :: "u32 \<Rightarrow> sock_option" where
  "rcv_timeout timeout_ms = SO_RCVTIMEO (timeout_ms div 1000) ((timeout_ms mod 1000) * 1000)"

definition doip_socket_tcp_recv ::
  "'w posix \<Rightarrow> int \<Rightarrow> bytes option \<Rightarrow> size_t \<Rightarrow> u32 \<Rightarrow> 'w \<Rightarrow> (int \<times> bytes option \<times> 'w) cexec" where
  "doip_socket_tcp_recv px sock buf cap timeout_ms w =
     (case buf of
        None \<Rightarrow> Ret (-1, None, w)
      | Some b \<Rightarrow>
          if sock = DOIP_INVALID_SOCKET then Ret (-1, buf, w)
          else
            let w1 = px_setsockopt px sock (rcv_timeout timeout_ms) w;
                (got, w2) = px_recv px sock cap w1
            in case got of
                 None \<Rightarrow> Ret (if px_would_block px w2 then 0 else -1, buf, w2)
               | Some d \<Rightarrow>
                   cbind (buf_write b 0 (take (unat cap) d)) (\<lambda>b'.
                   Ret (int (length (take (unat cap) d)), Some b', w2)))"

definition doip_socket_udp_broadcast ::
  "'w posix \<Rightarrow> int \<Rightarrow> bytes option \<Rightarrow> size_t \<Rightarrow> u16 \<Rightarrow> 'w \<Rightarrow> (int \<times> 'w) cexec" where
  "doip_socket_udp_broadcast px sock data len port w =
     (case data of
        None \<Rightarrow> Ret (-1, w)
      | Some d \<Rightarrow>
          if sock = DOIP_INVALID_SOCKET then Ret (-1, w)
          else cbind (buf_slice d 0 (unat len)) (\<lambda>msg.
            Ret (px_sendto px sock msg \<lparr>sin_addr = doip_htonl 0xFFFFFFFF, sin_port = doip_htons port\<rparr> w)))"

definition doip_socket_udp_recv ::
  "'w posix \<Rightarrow> int \<Rightarrow> bytes option \<Rightarrow> size_t \<Rightarrow> u32 \<Rightarrow> u32 option \<Rightarrow> 'w
     \<Rightarrow> (int \<times> bytes option \<times> u32 option \<times> 'w) cexec" where
  "doip_socket_udp_recv px sock buf cap timeout_ms src_ip w =
     (case buf of
        None \<Rightarrow> Ret (-1, None, src_ip, w)
      | Some b \<Rightarrow>
          if sock = DOIP_INVALID_SOCKET then Ret (-1, buf, src_ip, w)
          else
            let w1 = px_setsockopt px sock (rcv_timeout timeout_ms) w;
                (got, w2) = px_recvfrom px sock cap w1
            in case got of
                 None \<Rightarrow> Ret (if px_would_block px w2 then 0 else -1, buf, src_ip, w2)
               | Some (d, src) \<Rightarrow>
                   cbind (buf_write b 0 (take (unat cap) d)) (\<lambda>b'.
                   Ret (int (length (take (unat cap) d)), Some b', map_option (\<lambda>_. sin_addr src) src_ip, w2)))"

definition doip_socket_close :: "'w posix \<Rightarrow> int \<Rightarrow> 'w \<Rightarrow> 'w" where
  "doip_socket_close px sock w = (if sock \<noteq> DOIP_INVALID_SOCKET then px_close px sock w else w)"

definition doip_ip_str_to_addr :: "'w posix \<Rightarrow> bytes option \<Rightarrow> u32 option \<Rightarrow> int \<times> u32 option" where
  "doip_ip_str_to_addr px ip_str ip_out =
     (case (ip_str, ip_out) of
        (Some s, Some _) \<Rightarrow> (case px_inet_pton px s of None \<Rightarrow> (-1, ip_out) | Some a \<Rightarrow> (0, Some a))
      | _ \<Rightarrow> (-1, ip_out))"

definition lwip_sockets :: "'w posix \<Rightarrow> 'w doip_sockets" where
  "lwip_sockets px = \<lparr>
     socket_tcp_create = doip_socket_tcp_create px,
     socket_udp_create = doip_socket_udp_create px,
     socket_tcp_connect = doip_socket_tcp_connect px,
     socket_tcp_send = doip_socket_tcp_send px,
     socket_tcp_recv = doip_socket_tcp_recv px,
     socket_udp_broadcast = doip_socket_udp_broadcast px,
     socket_udp_recv = doip_socket_udp_recv px,
     socket_close = doip_socket_close px,
     ip_str_to_addr = doip_ip_str_to_addr px\<rparr>"

lemma lwip_sockets_simps [simp]:
  "socket_tcp_create (lwip_sockets px) = doip_socket_tcp_create px"
  "socket_udp_create (lwip_sockets px) = doip_socket_udp_create px"
  "socket_tcp_connect (lwip_sockets px) = doip_socket_tcp_connect px"
  "socket_tcp_send (lwip_sockets px) = doip_socket_tcp_send px"
  "socket_tcp_recv (lwip_sockets px) = doip_socket_tcp_recv px"
  "socket_udp_broadcast (lwip_sockets px) = doip_socket_udp_broadcast px"
  "socket_udp_recv (lwip_sockets px) = doip_socket_udp_recv px"
  "socket_close (lwip_sockets px) = doip_socket_close px"
  "ip_str_to_addr (lwip_sockets px) = doip_ip_str_to_addr px"
  by (simp_all add: lwip_sockets_def)

section \<open>Contract\<close>

text \<open>
  What the client relies on. Sending reads only the announced bytes. Receiving returns, keeps the
  buffer's size, reports at most the capacity, and changes no byte behind the ones it reports.
\<close>

locale doip_socket_api =
  fixes S :: "'w doip_sockets"
  assumes send_returns: "unat n \<le> length d \<Longrightarrow> \<exists>r w'. socket_tcp_send S sock (Some d) n w = Ret (r, w')"
    and broadcast_returns: "unat n \<le> length d \<Longrightarrow> \<exists>r w'. socket_udp_broadcast S sock (Some d) n port w = Ret (r, w')"
    and recv_returns: "unat cap \<le> length b \<Longrightarrow> \<exists>r b' w'. socket_tcp_recv S sock (Some b) cap tmo w = Ret (r, Some b', w')
        \<and> length b' = length b \<and> nat r \<le> unat cap \<and> drop (nat r) b' = drop (nat r) b"
    and udp_recv_returns: "unat cap \<le> length b \<Longrightarrow>
        \<exists>r b' ip' w'. socket_udp_recv S sock (Some b) cap tmo ip w = Ret (r, Some b', ip', w')
        \<and> length b' = length b \<and> nat r \<le> unat cap \<and> drop (nat r) b' = drop (nat r) b"
    and create_valid: "fst (socket_tcp_create S w) \<noteq> DOIP_INVALID_SOCKET \<longrightarrow> 0 \<le> fst (socket_tcp_create S w)"
begin

text \<open>A positive receive count, as the \<open>size_t\<close> the client passes on, stays within the buffer.\<close>

lemma recv_count_in_buffer:
  assumes "socket_tcp_recv S sock (Some b) cap tmo w = Ret (r, b', w')" "unat cap \<le> length b" "0 < r"
  shows "unat (of_int r :: size_t) = nat r" "nat r \<le> length b"
proof -
  have r: "nat r \<le> unat cap"
    using recv_returns [OF assms(2), of sock tmo w] assms(1) by auto
  moreover have "unat cap < 2 ^ 32"
    using unsigned_less [of cap] by simp
  ultimately have "nat r < 2 ^ 32"
    using assms(3) by linarith
  then have "unat (of_nat (nat r) :: size_t) = nat r"
    by (intro unat_le_of_nat) simp
  moreover have "(of_int r :: size_t) = of_nat (nat r)"
    using assms(3) by (simp add: of_nat_nat)
  ultimately show "unat (of_int r :: size_t) = nat r"
    by simp
  show "nat r \<le> length b"
    using r assms(2) by linarith
qed

end

lemma buf_write_recv:
  "unat cap \<le> length b \<Longrightarrow>
    buf_write b 0 (take (unat cap) d) = Ret (take (unat cap) d @ drop (length (take (unat cap) d)) b)"
  by (simp add: buf_write_def)

interpretation lwip: doip_socket_api "lwip_sockets px" for px :: "'w posix"
  by unfold_locales
    (auto simp: doip_socket_tcp_send_def doip_socket_udp_broadcast_def doip_socket_tcp_recv_def
      doip_socket_udp_recv_def doip_socket_tcp_create_def buf_slice_def buf_write_recv Let_def split_def
      split: option.split)

end
