(* ===== verification/DoIP_Client.thy ===== *)
theory DoIP_Client
  imports DoIP_Socket
begin

text \<open>
  The DoIP client: \<^verbatim>\<open>tc375_bootloader/common/doip_client.h\<close> and \<^verbatim>\<open>doip_client.c\<close>. Every function,
  over the socket interface \<open>S\<close>. The client record is the C context; a \<open>NULL\<close> client is \<open>None\<close>.
\<close>

section \<open>State\<close>

abbreviation DOIP_DEFAULT_PORT :: u16 where "DOIP_DEFAULT_PORT \<equiv> 13400"
abbreviation DOIP_MAX_RESPONSE_SIZE :: nat where "DOIP_MAX_RESPONSE_SIZE \<equiv> 4096"
abbreviation DOIP_SOCKET_TIMEOUT_MS :: u32 where "DOIP_SOCKET_TIMEOUT_MS \<equiv> 5000"
abbreviation DOIP_ROUTING_TIMEOUT_MS :: u32 where "DOIP_ROUTING_TIMEOUT_MS \<equiv> 2000"
abbreviation client_buffer_size :: size_t where "client_buffer_size \<equiv> 4096"

record DoIPClient =
  tcp_socket :: int
  udp_socket :: int
  server_ip :: u32
  server_port :: u16
  source_address :: u16
  target_address :: u16
  is_connected :: bool
  routing_active :: bool
  client_vin :: bytes
  entity_addr :: u16
  tx_buffer :: bytes
  rx_buffer :: bytes

definition client_zero :: DoIPClient where
  "client_zero = \<lparr>tcp_socket = 0, udp_socket = 0, server_ip = 0, server_port = 0, source_address = 0,
     target_address = 0, is_connected = False, routing_active = False, client_vin = replicate 18 0,
     entity_addr = 0, tx_buffer = replicate DOIP_MAX_RESPONSE_SIZE 0,
     rx_buffer = replicate DOIP_MAX_RESPONSE_SIZE 0\<rparr>"

text \<open>
  The header variable of a caller before \<open>doip_parse_message\<close> fills it; it is read only after the
  parser has returned 0, which overwrites every field.
\<close>

definition header_var :: DoIPHeader where
  "header_var = \<lparr>protocol_version = 0, inverse_protocol_version = 0, payload_type = 0, payload_length = 0\<rparr>"

definition routing_res_var :: DoIPRoutingActivationRes where
  "routing_res_var = \<lparr>tester_address = 0, entity_address = 0, response_code = 0, reserved = 0, oem_specific = 0\<rparr>"

definition vehicle_res_var :: DoIPVehicleIdRes where
  "vehicle_res_var = \<lparr>vin = [], logical_address = 0, eid = [], gid = [], further_action_required = 0,
     vin_gid_sync_status = 0\<rparr>"

section \<open>Set-up and connection\<close>

definition doip_client_init ::
  "'w doip_sockets \<Rightarrow> DoIPClient option \<Rightarrow> bytes option \<Rightarrow> u16 \<Rightarrow> u16 \<Rightarrow> u16 \<Rightarrow> int \<times> DoIPClient option" where
  "doip_client_init S client srv_ip srv_port src tgt =
     (case (client, srv_ip) of
        (Some _, Some _) \<Rightarrow>
          let c0 = client_zero;
              (r, ip) = ip_str_to_addr S srv_ip (Some (server_ip c0));
              c1 = c0\<lparr>server_ip := (case ip of Some a \<Rightarrow> a | None \<Rightarrow> server_ip c0)\<rparr>
          in if r \<noteq> 0 then (-1, Some c1)
             else (0, Some (c1\<lparr>server_port := (if srv_port = 0 then DOIP_DEFAULT_PORT else srv_port),
                     source_address := src, target_address := tgt,
                     tcp_socket := DOIP_INVALID_SOCKET, udp_socket := DOIP_INVALID_SOCKET,
                     is_connected := False, routing_active := False\<rparr>))
      | _ \<Rightarrow> (-1, client))"

definition doip_client_connect ::
  "'w doip_sockets \<Rightarrow> DoIPClient option \<Rightarrow> 'w \<Rightarrow> int \<times> DoIPClient option \<times> 'w" where
  "doip_client_connect S client w =
     (case client of
        None \<Rightarrow> (-1, None, w)
      | Some c \<Rightarrow>
          if is_connected c then (-1, client, w)
          else
            let (sock, w1) = socket_tcp_create S w;
                c1 = c\<lparr>tcp_socket := sock\<rparr>
            in if tcp_socket c1 = DOIP_INVALID_SOCKET then (-1, Some c1, w1)
               else
                 let (r, w2) = socket_tcp_connect S (tcp_socket c1) (server_ip c1) (server_port c1) w1
                 in if r \<noteq> 0
                    then (-1, Some (c1\<lparr>tcp_socket := DOIP_INVALID_SOCKET\<rparr>), socket_close S (tcp_socket c1) w2)
                    else (0, Some (c1\<lparr>is_connected := True\<rparr>), w2))"

definition doip_client_disconnect ::
  "'w doip_sockets \<Rightarrow> DoIPClient option \<Rightarrow> 'w \<Rightarrow> DoIPClient option \<times> 'w" where
  "doip_client_disconnect S client w =
     (case client of
        None \<Rightarrow> (None, w)
      | Some c \<Rightarrow>
          let (c1, w1) = (if tcp_socket c \<noteq> DOIP_INVALID_SOCKET
                then (c\<lparr>tcp_socket := DOIP_INVALID_SOCKET\<rparr>, socket_close S (tcp_socket c) w) else (c, w));
              (c2, w2) = (if udp_socket c1 \<noteq> DOIP_INVALID_SOCKET
                then (c1\<lparr>udp_socket := DOIP_INVALID_SOCKET\<rparr>, socket_close S (udp_socket c1) w1) else (c1, w1))
          in (Some (c2\<lparr>is_connected := False, routing_active := False\<rparr>), w2))"

section \<open>Receiving a message\<close>

text \<open>
  The block \<^verbatim>\<open>recv; if (recv_len <= 0) return -1; if (doip_parse_message(...) != 0) return -1\<close> that
  the functions repeat; \<open>None\<close> stands for its early return. The payload is the offset in
  \<open>rx_buffer\<close> the parser's out-pointer refers to.
\<close>

definition parse_received ::
  "DoIPClient \<Rightarrow> int \<Rightarrow> ((DoIPHeader \<times> nat option) option) cexec" where
  "parse_received c recv_len =
     (if recv_len \<le> 0 then Ret None
      else
        cbind (doip_parse_message (Some (rx_buffer c)) (of_int recv_len) (Some header_var) (Some None))
          (\<lambda>(r, h, payload).
             if r \<noteq> 0 then Ret None
             else cbind (deref h) (\<lambda>h. cbind (deref payload) (\<lambda>p. Ret (Some (h, p))))))"

definition client_tcp_receive ::
  "'w doip_sockets \<Rightarrow> u32 \<Rightarrow> DoIPClient \<Rightarrow> 'w \<Rightarrow> ((DoIPHeader \<times> nat option) option \<times> DoIPClient \<times> 'w) cexec" where
  "client_tcp_receive S timeout c w =
     cbind (socket_tcp_recv S (tcp_socket c) (Some (rx_buffer c)) client_buffer_size timeout w)
       (\<lambda>(recv_len, rx, w1). cbind (deref rx) (\<lambda>rx1.
          let c1 = c\<lparr>rx_buffer := rx1\<rparr>
          in cbind (parse_received c1 recv_len) (\<lambda>m. Ret (m, c1, w1))))"

definition client_udp_receive ::
  "'w doip_sockets \<Rightarrow> u32 \<Rightarrow> DoIPClient \<Rightarrow> 'w \<Rightarrow> ((DoIPHeader \<times> nat option) option \<times> DoIPClient \<times> 'w) cexec" where
  "client_udp_receive S timeout c w =
     cbind (socket_udp_recv S (udp_socket c) (Some (rx_buffer c)) client_buffer_size timeout None w)
       (\<lambda>(recv_len, rx, src, w1). cbind (deref rx) (\<lambda>rx1.
          let c1 = c\<lparr>rx_buffer := rx1\<rparr>
          in cbind (parse_received c1 recv_len) (\<lambda>m. Ret (m, c1, w1))))"

definition payload_at :: "DoIPClient \<Rightarrow> nat option \<Rightarrow> bytes option" where
  "payload_at c p = map_option (\<lambda>off. drop off (rx_buffer c)) p"

section \<open>The exchanges\<close>

definition doip_client_vehicle_identification ::
  "'w doip_sockets \<Rightarrow> DoIPClient option \<Rightarrow> bytes option \<Rightarrow> 'w
     \<Rightarrow> (int \<times> DoIPClient option \<times> bytes option \<times> 'w) cexec" where
  "doip_client_vehicle_identification S client vin_out w =
     (case client of
        None \<Rightarrow> Ret (-1, None, vin_out, w)
      | Some c \<Rightarrow>
          let (c1, w1) = (if udp_socket c = DOIP_INVALID_SOCKET
                then let (sock, w1) = socket_udp_create S w in (c\<lparr>udp_socket := sock\<rparr>, w1) else (c, w))
          in if udp_socket c1 = DOIP_INVALID_SOCKET then Ret (-1, Some c1, vin_out, w1)
             else
               cbind (doip_build_vehicle_id_req (Some (tx_buffer c1)) client_buffer_size) (\<lambda>(msg_len, tx).
               cbind (deref tx) (\<lambda>tx1.
               let c2 = c1\<lparr>tx_buffer := tx1\<rparr>
               in if msg_len = 0 then Ret (-1, Some c2, vin_out, w1)
                  else
                    cbind (socket_udp_broadcast S (udp_socket c2) (Some (tx_buffer c2)) msg_len (server_port c2) w1)
                      (\<lambda>(sent, w2).
                    if sent < 0 then Ret (-1, Some c2, vin_out, w2)
                    else
                      cbind (client_udp_receive S DOIP_SOCKET_TIMEOUT_MS c2 w2) (\<lambda>(m, c3, w3).
                      case m of
                        None \<Rightarrow> Ret (-1, Some c3, vin_out, w3)
                      | Some (h, p) \<Rightarrow>
                          if payload_type h \<noteq> DOIP_VEHICLE_IDENTIFICATION_RES then Ret (-1, Some c3, vin_out, w3)
                          else
                            cbind (doip_parse_vehicle_id_res (payload_at c3 p) (payload_length h)
                                     (Some vehicle_res_var)) (\<lambda>(r, resp).
                            if r \<noteq> 0 then Ret (-1, Some c3, vin_out, w3)
                            else
                              cbind (deref resp) (\<lambda>res.
                              let c4 = c3\<lparr>client_vin := take DOIP_VIN_LENGTH (vin res) @ [0],
                                          entity_addr := logical_address res\<rparr>
                              in case vin_out of
                                   None \<Rightarrow> Ret (0, Some c4, None, w3)
                                 | Some v \<Rightarrow> cbind (buf_write v 0 (client_vin c4)) (\<lambda>v'.
                                     Ret (0, Some c4, Some v', w3)))))))))"

definition doip_client_routing_activation ::
  "'w doip_sockets \<Rightarrow> DoIPClient option \<Rightarrow> u8 \<Rightarrow> 'w \<Rightarrow> (int \<times> DoIPClient option \<times> 'w) cexec" where
  "doip_client_routing_activation S client activation_type w =
     (case client of
        None \<Rightarrow> Ret (-1, None, w)
      | Some c \<Rightarrow>
          if \<not> is_connected c then Ret (-1, client, w)
          else
            cbind (doip_build_routing_activation_req (source_address c) activation_type (Some (tx_buffer c))
                     client_buffer_size) (\<lambda>(msg_len, tx).
            cbind (deref tx) (\<lambda>tx1.
            let c1 = c\<lparr>tx_buffer := tx1\<rparr>
            in if msg_len = 0 then Ret (-1, Some c1, w)
               else
                 cbind (socket_tcp_send S (tcp_socket c1) (Some (tx_buffer c1)) msg_len w) (\<lambda>(sent, w1).
                 if sent < 0 then Ret (-1, Some c1, w1)
                 else
                   cbind (client_tcp_receive S DOIP_ROUTING_TIMEOUT_MS c1 w1) (\<lambda>(m, c2, w2).
                   case m of
                     None \<Rightarrow> Ret (-1, Some c2, w2)
                   | Some (h, p) \<Rightarrow>
                       if payload_type h \<noteq> DOIP_ROUTING_ACTIVATION_RES then Ret (-1, Some c2, w2)
                       else
                         cbind (doip_parse_routing_activation_res (payload_at c2 p) (payload_length h)
                                  (Some routing_res_var)) (\<lambda>(r, resp).
                         if r \<noteq> 0 then Ret (-1, Some c2, w2)
                         else
                           cbind (deref resp) (\<lambda>res.
                           if response_code res = DOIP_RA_RES_SUCCESS
                           then Ret (0, Some (c2\<lparr>routing_active := True\<rparr>), w2)
                           else Ret (-1, Some c2, w2))))))))"

text \<open>The part of \<open>doip_client_send_diagnostic\<close> after the last received message.\<close>

definition diagnostic_reply ::
  "DoIPClient \<Rightarrow> DoIPHeader \<Rightarrow> nat option \<Rightarrow> bytes \<Rightarrow> size_t \<Rightarrow> size_t option
     \<Rightarrow> (int \<times> bytes \<times> size_t option) cexec" where
  "diagnostic_reply c h p uds_response resp_cap resp_len_out =
     (if payload_type h \<noteq> DOIP_DIAGNOSTIC_MESSAGE then Ret (-1, uds_response, resp_len_out)
      else
        cbind (doip_parse_diagnostic_message (payload_at c p) (payload_length h) (Some 0) (Some 0) (Some None) (Some 0))
          (\<lambda>(r, sa, ta, data_ptr, len).
        if r \<noteq> 0 then Ret (-1, uds_response, resp_len_out)
        else
          cbind (deref sa) (\<lambda>source_addr. cbind (deref ta) (\<lambda>target_addr.
          cbind (deref data_ptr) (\<lambda>uds_data. cbind (deref len) (\<lambda>uds_len.
          if source_addr \<noteq> target_address c \<or> target_addr \<noteq> source_address c
          then Ret (-1, uds_response, resp_len_out)
          else if resp_cap < uds_len then Ret (-1, uds_response, resp_len_out)
          else
            cbind (case (uds_data, payload_at c p) of
                     (Some off, Some payload) \<Rightarrow>
                       if 0 < uds_len
                       then cbind (buf_slice payload off (unat uds_len)) (buf_write uds_response 0)
                       else Ret uds_response
                   | _ \<Rightarrow> Ret uds_response) (\<lambda>out.
            Ret (0, out, map_option (\<lambda>_. uds_len) resp_len_out))))))))"

definition doip_client_send_diagnostic ::
  "'w doip_sockets \<Rightarrow> DoIPClient option \<Rightarrow> bytes option \<Rightarrow> size_t \<Rightarrow> bytes option \<Rightarrow> size_t \<Rightarrow> size_t option \<Rightarrow> 'w
     \<Rightarrow> (int \<times> DoIPClient option \<times> bytes option \<times> size_t option \<times> 'w) cexec" where
  "doip_client_send_diagnostic S client uds_request req_len uds_response resp_cap resp_len_out w =
     (case (client, uds_request, uds_response) of
        (Some c, Some req, Some out) \<Rightarrow>
          if \<not> is_connected c \<or> \<not> routing_active c then Ret (-1, client, uds_response, resp_len_out, w)
          else
            cbind (doip_build_diagnostic_message (source_address c) (target_address c) uds_request req_len
                     (Some (tx_buffer c)) client_buffer_size) (\<lambda>(msg_len, tx).
            cbind (deref tx) (\<lambda>tx1.
            let c1 = c\<lparr>tx_buffer := tx1\<rparr>
            in if msg_len = 0 then Ret (-1, Some c1, uds_response, resp_len_out, w)
               else
                 cbind (socket_tcp_send S (tcp_socket c1) (Some (tx_buffer c1)) msg_len w) (\<lambda>(sent, w1).
                 if sent < 0 then Ret (-1, Some c1, uds_response, resp_len_out, w1)
                 else
                   cbind (client_tcp_receive S DOIP_SOCKET_TIMEOUT_MS c1 w1) (\<lambda>(m, c2, w2).
                   case m of
                     None \<Rightarrow> Ret (-1, Some c2, uds_response, resp_len_out, w2)
                   | Some (h, p) \<Rightarrow>
                       if payload_type h = DOIP_DIAGNOSTIC_MESSAGE_POS_ACK
                       then
                         cbind (client_tcp_receive S DOIP_SOCKET_TIMEOUT_MS c2 w2) (\<lambda>(m2, c3, w3).
                         case m2 of
                           None \<Rightarrow> Ret (-1, Some c3, uds_response, resp_len_out, w3)
                         | Some (h2, p2) \<Rightarrow>
                             cbind (diagnostic_reply c3 h2 p2 out resp_cap resp_len_out) (\<lambda>(r, out', len').
                             Ret (r, Some c3, Some out', len', w3)))
                       else if payload_type h = DOIP_DIAGNOSTIC_MESSAGE_NEG_ACK
                       then Ret (-1, Some c2, uds_response, resp_len_out, w2)
                       else
                         cbind (diagnostic_reply c2 h p out resp_cap resp_len_out) (\<lambda>(r, out', len').
                         Ret (r, Some c2, Some out', len', w2))))))
      | _ \<Rightarrow> Ret (-1, client, uds_response, resp_len_out, w))"

definition doip_client_alive_check_response ::
  "'w doip_sockets \<Rightarrow> DoIPClient option \<Rightarrow> u16 \<Rightarrow> 'w \<Rightarrow> (int \<times> DoIPClient option \<times> 'w) cexec" where
  "doip_client_alive_check_response S client src w =
     (case client of
        None \<Rightarrow> Ret (-1, None, w)
      | Some c \<Rightarrow>
          if \<not> is_connected c then Ret (-1, client, w)
          else
            cbind (doip_build_message DOIP_ALIVE_CHECK_RES (Some (u16_mem (doip_htons src))) 2 (Some (tx_buffer c))
                     client_buffer_size) (\<lambda>(msg_len, tx).
            cbind (deref tx) (\<lambda>tx1.
            let c1 = c\<lparr>tx_buffer := tx1\<rparr>
            in if msg_len = 0 then Ret (-1, Some c1, w)
               else
                 cbind (socket_tcp_send S (tcp_socket c1) (Some (tx_buffer c1)) msg_len w) (\<lambda>(sent, w1).
                 Ret (if sent < 0 then -1 else 0, Some c1, w1)))))"

section \<open>Well-formed clients\<close>

definition wf_client :: "DoIPClient \<Rightarrow> bool" where
  "wf_client c \<longleftrightarrow> length (tx_buffer c) = DOIP_MAX_RESPONSE_SIZE \<and> length (rx_buffer c) = DOIP_MAX_RESPONSE_SIZE
     \<and> length (client_vin c) = 18 \<and> (is_connected c \<longrightarrow> tcp_socket c \<noteq> DOIP_INVALID_SOCKET)
     \<and> (routing_active c \<longrightarrow> is_connected c)"

text \<open>The payload length does not overflow the parser's bounds check; such a message lies in the buffer.\<close>

definition received :: "DoIPClient \<Rightarrow> DoIPHeader \<Rightarrow> nat option \<Rightarrow> bool" where
  "received c h p \<longleftrightarrow> h = doip_header_of (rx_buffer c)
     \<and> protocol_version h = DOIP_PROTOCOL_VERSION \<and> inverse_protocol_version h = DOIP_INVERSE_PROTOCOL_VERSION
     \<and> p = (if 0 < payload_length h then Some 8 else None)
     \<and> (payload_length h \<le> 0xFFFFFFF7 \<longrightarrow> 8 + unat (payload_length h) \<le> DOIP_MAX_RESPONSE_SIZE)"

lemma parse_received_spec:
  assumes "length (rx_buffer c) = DOIP_MAX_RESPONSE_SIZE"
    "0 < r \<longrightarrow> unat (of_int r :: size_t) \<le> DOIP_MAX_RESPONSE_SIZE"
  shows "returns (parse_received c r) (\<lambda>m. \<forall>h p. m = Some (h, p) \<longrightarrow> received c h p)"
proof (cases "r \<le> 0")
  case False
  let ?h = "doip_header_of (rx_buffer c)"
  have le: "8 + unat (payload_length ?h) \<le> DOIP_MAX_RESPONSE_SIZE"
    if "\<not> (of_int r :: size_t) < 8 + payload_length ?h" "payload_length ?h \<le> 0xFFFFFFF7"
  proof -
    have "unat (payload_length ?h) \<le> 0xFFFFFFF7"
      using that(2) by (simp add: word_le_nat_alt)
    then have "unat (8 + payload_length ?h) = 8 + unat (payload_length ?h)"
      by (subst unat_add_no_wrap) auto
    then have "8 + unat (payload_length ?h) \<le> unat (of_int r :: size_t)"
      using that(1) by (simp only: word_less_nat_alt not_less)
    also have "\<dots> \<le> DOIP_MAX_RESPONSE_SIZE"
      using assms(2) False by simp
    finally show ?thesis .
  qed
  have "unat (of_int r :: size_t) \<le> length (rx_buffer c)"
    using assms False by simp
  from doip_parse_message_eq [OF this, of header_var "Some None"] le show ?thesis
    using False by (simp add: parse_received_def received_def)
qed (simp add: parse_received_def)

context doip_socket_api
begin

lemma udp_recv_count_in_buffer:
  assumes "socket_udp_recv S sock (Some b) cap tmo ip w = Ret (r, b', ip', w')" "unat cap \<le> length b" "0 < r"
  shows "unat (of_int r :: size_t) = nat r" "nat r \<le> length b"
proof -
  have r: "nat r \<le> unat cap"
    using udp_recv_returns [OF assms(2), of sock tmo ip w] assms(1) by auto
  moreover have "unat cap < 2 ^ 32"
    using unsigned_less [of cap] by simp
  ultimately have "nat r < 2 ^ 32"
    by linarith
  then have "unat (of_nat (nat r) :: size_t) = nat r"
    by (intro unat_le_of_nat) simp
  then show "unat (of_int r :: size_t) = nat r"
    using assms(3) by (simp add: of_nat_nat)
  show "nat r \<le> length b"
    using r assms(2) by linarith
qed

lemma tcp_receive_spec:
  assumes "wf_client c"
  shows "returns (client_tcp_receive S tmo c w) (\<lambda>(m, c1, w1). wf_client c1 \<and> c1 = c\<lparr>rx_buffer := rx_buffer c1\<rparr>
    \<and> (\<forall>h p. m = Some (h, p) \<longrightarrow> received c1 h p))"
proof -
  have cap: "unat client_buffer_size \<le> length (rx_buffer c)"
    using assms by (simp add: wf_client_def)
  then obtain r b' w' where rcv: "socket_tcp_recv S (tcp_socket c) (Some (rx_buffer c)) client_buffer_size tmo w
      = Ret (r, Some b', w')" "length b' = length (rx_buffer c)"
    using recv_returns [OF cap] by blast
  have "0 < r \<longrightarrow> unat (of_int r :: size_t) \<le> DOIP_MAX_RESPONSE_SIZE"
    using recv_count_in_buffer [OF rcv(1) cap] assms by (simp add: wf_client_def)
  then have "returns (parse_received (c\<lparr>rx_buffer := b'\<rparr>) r)
      (\<lambda>m. \<forall>h p. m = Some (h, p) \<longrightarrow> received (c\<lparr>rx_buffer := b'\<rparr>) h p)"
    using assms rcv(2) by (intro parse_received_spec) (simp_all add: wf_client_def)
  then show ?thesis
    using assms rcv(2) by (auto simp: client_tcp_receive_def rcv(1) Let_def returns_cbind wf_client_def
        elim!: returns_mono)
qed

lemma tcp_receiveE:
  assumes "wf_client c"
  obtains m c1 w1 where "client_tcp_receive S tmo c w = Ret (m, c1, w1)" "wf_client c1"
    "is_connected c1 = is_connected c" "routing_active c1 = routing_active c"
    "source_address c1 = source_address c" "target_address c1 = target_address c" "tx_buffer c1 = tx_buffer c"
    "\<And>h p. m = Some (h, p) \<Longrightarrow> received c1 h p"
proof -
  obtain m c1 w1 where r: "client_tcp_receive S tmo c w = Ret (m, c1, w1)" "wf_client c1"
      "c1 = c\<lparr>rx_buffer := rx_buffer c1\<rparr>" "\<And>h p. m = Some (h, p) \<Longrightarrow> received c1 h p"
    using tcp_receive_spec [OF assms, of tmo w] by (auto elim!: returnsE)
  from r(3) obtain rx where c1: "c1 = c\<lparr>rx_buffer := rx\<rparr>"
    by blast
  show thesis
    by (rule that [OF r(1,2)]) (use c1 r(4) in auto)
qed

lemma udp_receive_spec:
  assumes "wf_client c"
  shows "returns (client_udp_receive S tmo c w) (\<lambda>(m, c1, w1). wf_client c1 \<and> c1 = c\<lparr>rx_buffer := rx_buffer c1\<rparr>
    \<and> (\<forall>h p. m = Some (h, p) \<longrightarrow> received c1 h p))"
proof -
  have cap: "unat client_buffer_size \<le> length (rx_buffer c)"
    using assms by (simp add: wf_client_def)
  then obtain r b' ip' w' where rcv: "socket_udp_recv S (udp_socket c) (Some (rx_buffer c)) client_buffer_size tmo None w
      = Ret (r, Some b', ip', w')" "length b' = length (rx_buffer c)"
    using udp_recv_returns [OF cap] by blast
  have "0 < r \<longrightarrow> unat (of_int r :: size_t) \<le> DOIP_MAX_RESPONSE_SIZE"
    using udp_recv_count_in_buffer [OF rcv(1) cap] assms by (simp add: wf_client_def)
  then have "returns (parse_received (c\<lparr>rx_buffer := b'\<rparr>) r)
      (\<lambda>m. \<forall>h p. m = Some (h, p) \<longrightarrow> received (c\<lparr>rx_buffer := b'\<rparr>) h p)"
    using assms rcv(2) by (intro parse_received_spec) (simp_all add: wf_client_def)
  then show ?thesis
    using assms rcv(2) by (auto simp: client_udp_receive_def rcv(1) Let_def returns_cbind wf_client_def
        elim!: returns_mono)
qed

end

section \<open>Parsers on the client's buffers\<close>

lemma payload_parsers_return:
  assumes "wf_client c" "received c h p"
  shows "\<exists>r res. doip_parse_routing_activation_res (payload_at c p) (payload_length h) (Some x) = Ret (r, Some res)"
    "\<exists>r res. doip_parse_vehicle_id_res (payload_at c p) (payload_length h) (Some y) = Ret (r, Some res)
       \<and> (r = 0 \<longrightarrow> length (vin res) = DOIP_VIN_LENGTH)"
  using assms
  by (auto simp: payload_at_def received_def wf_client_def doip_parse_routing_activation_res_def
      doip_parse_vehicle_id_res_def buf_slice_def buf_get_def)

lemma diagnostic_reply_returns:
  assumes "wf_client c" "received c h p" "unat resp_cap \<le> length out" "unat resp_cap + 12 < 2 ^ 32"
  shows "returns (diagnostic_reply c h p out resp_cap rl) (\<lambda>(r, out', rl'). length out' = length out
    \<and> (r = -1 \<and> out' = out \<and> rl' = rl \<or>
       r = 0 \<and> payload_type h = DOIP_DIAGNOSTIC_MESSAGE \<and> 4 \<le> payload_length h \<and> unat (payload_length h) \<le> unat resp_cap + 4
       \<and> be16_val (rx_buffer c ! 8) (rx_buffer c ! 9) = target_address c
       \<and> be16_val (rx_buffer c ! 10) (rx_buffer c ! 11) = source_address c
       \<and> rl' = map_option (\<lambda>_. payload_length h - 4) rl
       \<and> take (unat (payload_length h) - 4) out' = take (unat (payload_length h) - 4) (drop 12 (rx_buffer c))))"
proof (cases "payload_type h \<noteq> DOIP_DIAGNOSTIC_MESSAGE \<or> payload_length h < 4")
  case True
  then show ?thesis
    using assms(1,2)
    by (cases p) (auto simp: diagnostic_reply_def doip_parse_diagnostic_message_def payload_at_def)
next
  case False
  let ?n = "payload_length h" and ?rx = "rx_buffer c"
  have n: "4 \<le> unat ?n" "unat (?n - 4) = unat ?n - 4" "0 < ?n"
    using False by (simp_all add: not_less word_le_nat_alt unat_sub word_less_nat_alt)
  have p: "p = Some 8" "length ?rx = 4096"
    using assms(1,2) n(3) by (auto simp: received_def wf_client_def)
  have slices: "buf_slice (drop 8 ?rx) 0 2 = Ret [?rx ! 8, ?rx ! 9]" "buf_slice (drop 8 ?rx) 2 2 = Ret [?rx ! 10, ?rx ! 11]"
    using p(2) take2_drop [of 8 ?rx] take2_drop [of 10 ?rx] by (simp_all add: buf_slice_def)
  have pos: "0 < ?n - 4 \<longleftrightarrow> 4 < unat ?n"
    using n by (auto simp: word_less_nat_alt)
  have data: "buf_slice (drop 8 ?rx) 4 (unat ?n - 4) = Ret (take (unat ?n - 4) (drop 12 ?rx))"
      "length (take (unat ?n - 4) (drop 12 ?rx)) = unat ?n - 4"
    if "\<not> resp_cap < ?n - 4"
  proof -
    have "unat ?n \<le> unat resp_cap + 4"
      using that n by (simp add: not_less word_le_nat_alt)
    then have "?n \<le> 0xFFFFFFF7"
      using assms(4) by (simp add: word_le_nat_alt)
    then have "8 + unat ?n \<le> 4096"
      using assms(2) unfolding received_def by blast
    then show "buf_slice (drop 8 ?rx) 4 (unat ?n - 4) = Ret (take (unat ?n - 4) (drop 12 ?rx))"
      "length (take (unat ?n - 4) (drop 12 ?rx)) = unat ?n - 4"
      using p(2) n(1) by (simp_all add: buf_slice_def)
  qed
  have le: "unat ?n \<le> unat resp_cap + 4" if "\<not> resp_cap < ?n - 4"
    using that n by (simp add: not_less word_le_nat_alt)
  show ?thesis
    using False p n pos slices data le assms(3)
    by (auto simp: diagnostic_reply_def doip_parse_diagnostic_message_def payload_at_def Let_def wire_simps
        buf_write_def not_less)
qed


section \<open>Builders in the client's buffer\<close>

lemma build_diagnostic_returns:
  assumes "12 + unat n < 2 ^ 32" "unat cap \<le> length out" "unat n \<le> length d"
  shows "returns (doip_build_diagnostic_message sa ta (Some d) n (Some out) cap) (\<lambda>(len, tx).
    \<exists>tx1. tx = Some tx1 \<and> length tx1 = length out \<and> unat len \<le> length out
      \<and> (len \<noteq> 0 \<longrightarrow> 12 + unat n \<le> unat cap \<and> len = 12 + n \<and>
           take (12 + unat n) tx1 = doip_frame DOIP_DIAGNOSTIC_MESSAGE (be16 sa @ be16 ta @ take (unat n) d)))"
proof (cases "12 + unat n \<le> unat cap")
  case True
  have "unat (12 + n) = 12 + unat n"
    using assms(1) by (subst unat_add_no_wrap) auto
  with True assms show ?thesis
    by (simp add: doip_build_diagnostic_message_ok)
next
  case False
  have "unat (4 + n) = 4 + unat n"
    using assms(1) by (subst unat_add_no_wrap) auto
  then have "unat (8 + (4 + n)) = 12 + unat n"
    using assms(1) by (subst unat_add_no_wrap) auto
  then have "cap < 8 + (4 + n)"
    using False by (simp only: word_less_nat_alt)
  then show ?thesis
    by (simp add: doip_build_diagnostic_message_def)
qed

lemma build_small_returns:
  assumes "length out = DOIP_MAX_RESPONSE_SIZE" "unat n \<le> 64" "\<And>d. p = Some d \<Longrightarrow> unat n \<le> length d"
  shows "\<exists>tx. doip_build_message t p n (Some out) client_buffer_size = Ret (8 + n, Some tx)
    \<and> length tx = DOIP_MAX_RESPONSE_SIZE \<and> unat (8 + n) = 8 + unat n"
proof -
  have "unat (8 + n) = 8 + unat n"
    using assms(2) by (subst unat_add_no_wrap) auto
  moreover have "doip_build_message t p n (Some out) client_buffer_size = Ret (8 + n,
      Some (doip_frame t (payload_bytes p (unat n) (drop 8 out)) @ drop (unat n) (drop 8 out)))"
    using assms by (intro doip_build_message_ok) auto
  moreover have "length (payload_bytes p (unat n) (drop 8 out)) = unat n"
    using assms by (auto simp: payload_bytes_def split: option.split)
  ultimately show ?thesis
    using assms(1,2) by auto
qed

lemma wf_client_update:
  "wf_client c \<Longrightarrow> length tx = DOIP_MAX_RESPONSE_SIZE \<Longrightarrow> wf_client (c\<lparr>tx_buffer := tx\<rparr>)"
  "wf_client c \<Longrightarrow> wf_client (c\<lparr>udp_socket := s\<rparr>)"
  "wf_client c \<Longrightarrow> is_connected c \<Longrightarrow> wf_client (c\<lparr>routing_active := True\<rparr>)"
  "wf_client c \<Longrightarrow> length v = 17 \<Longrightarrow> wf_client (c\<lparr>client_vin := v @ [0], entity_addr := e\<rparr>)"
  by (simp_all add: wf_client_def)

definition client_ok :: "int \<times> DoIPClient option \<times> 'w \<Rightarrow> bool" where
  "client_ok = (\<lambda>(r, c, w). r \<in> {0, -1} \<and> (\<exists>c1. c = Some c1 \<and> wf_client c1))"

lemma connect_ok: "wf_client c \<Longrightarrow> client_ok (doip_client_connect S (Some c) w)"
  by (auto simp: doip_client_connect_def client_ok_def wf_client_def Let_def split_def)

lemma disconnect_ok: "wf_client c \<Longrightarrow> \<exists>c1 w1. doip_client_disconnect S (Some c) w = (Some c1, w1) \<and> wf_client c1
    \<and> \<not> is_connected c1 \<and> tcp_socket c1 = DOIP_INVALID_SOCKET \<and> udp_socket c1 = DOIP_INVALID_SOCKET"
  by (auto simp: doip_client_disconnect_def wf_client_def Let_def)

context doip_socket_api
begin

lemma alive_check_ok:
  assumes "wf_client c"
  shows "returns (doip_client_alive_check_response S (Some c) src w) client_ok"
proof -
  have "\<exists>tx. doip_build_message DOIP_ALIVE_CHECK_RES (Some (u16_mem (doip_htons src))) 2 (Some (tx_buffer c))
      client_buffer_size = Ret (8 + 2, Some tx) \<and> length tx = DOIP_MAX_RESPONSE_SIZE \<and> unat (8 + 2 :: size_t) = 8 + unat (2 :: size_t)"
    by (rule build_small_returns) (use assms in \<open>auto simp: wf_client_def\<close>)
  then obtain tx where b: "doip_build_message DOIP_ALIVE_CHECK_RES (Some (u16_mem (doip_htons src))) 2 (Some (tx_buffer c))
      client_buffer_size = Ret (10, Some tx)" "length tx = DOIP_MAX_RESPONSE_SIZE"
    by auto
  have "unat (10 :: size_t) \<le> length tx"
    using b(2) by simp
  from send_returns [OF this, of "tcp_socket c" w] obtain r w1
    where "socket_tcp_send S (tcp_socket c) (Some tx) 10 w = Ret (r, w1)"
    by blast
  with b assms show ?thesis
    by (simp add: doip_client_alive_check_response_def client_ok_def wf_client_update)
qed

lemma routing_activation_ok:
  assumes "wf_client c"
  shows "returns (doip_client_routing_activation S (Some c) t w) client_ok"
proof (cases "is_connected c")
  case True
  have "\<exists>tx. doip_build_message DOIP_ROUTING_ACTIVATION_REQ (Some (u16_mem (doip_htons (source_address c)) @ [t] @ replicate 4 0))
      7 (Some (tx_buffer c)) client_buffer_size = Ret (8 + 7, Some tx) \<and> length tx = DOIP_MAX_RESPONSE_SIZE
      \<and> unat (8 + 7 :: size_t) = 8 + unat (7 :: size_t)"
    by (rule build_small_returns) (use assms in \<open>auto simp: wf_client_def\<close>)
  then obtain tx where b: "doip_build_routing_activation_req (source_address c) t (Some (tx_buffer c)) client_buffer_size
      = Ret (15, Some tx)" "length tx = DOIP_MAX_RESPONSE_SIZE"
    by (auto simp: doip_build_routing_activation_req_def Let_def)
  let ?c = "c\<lparr>tx_buffer := tx\<rparr>"
  have wf: "wf_client ?c" "is_connected ?c"
    using assms b(2) True by (simp_all add: wf_client_update)
  have "unat (15 :: size_t) \<le> length tx"
    using b(2) by simp
  from send_returns [OF this, of "tcp_socket c" w] obtain r w1
    where s: "socket_tcp_send S (tcp_socket c) (Some tx) 15 w = Ret (r, w1)"
    by blast
  obtain m c2 w2 where rcv: "client_tcp_receive S DOIP_ROUTING_TIMEOUT_MS ?c w1 = Ret (m, c2, w2)" "wf_client c2"
      "is_connected c2" "\<And>h p. m = Some (h, p) \<Longrightarrow> received c2 h p"
    by (rule tcp_receiveE [OF wf(1)]) (use wf(2) in auto)
  show ?thesis
  proof (cases m)
    case None
    with True b s rcv show ?thesis
      by (simp add: doip_client_routing_activation_def Let_def client_ok_def wf)
  next
    case (Some hp)
    obtain h p where hp: "hp = (h, p)" by (cases hp)
    obtain r' res where "doip_parse_routing_activation_res (payload_at c2 p) (payload_length h) (Some routing_res_var)
        = Ret (r', Some res)"
      using payload_parsers_return(1) [OF rcv(2) rcv(4)] Some hp by blast
    with True b s rcv Some hp show ?thesis
      by (simp add: doip_client_routing_activation_def Let_def client_ok_def wf wf_client_update)
  qed
qed (use assms in \<open>simp add: doip_client_routing_activation_def client_ok_def\<close>)


lemma udp_receiveE:
  assumes "wf_client c"
  obtains m c1 w1 where "client_udp_receive S tmo c w = Ret (m, c1, w1)" "wf_client c1"
    "\<And>h p. m = Some (h, p) \<Longrightarrow> received c1 h p"
  using udp_receive_spec [OF assms, of tmo w] by (auto elim!: returnsE)

lemma vehicle_identification_ok:
  assumes "wf_client c" "\<And>v. vin_out = Some v \<Longrightarrow> 18 \<le> length v"
  shows "returns (doip_client_vehicle_identification S (Some c) vin_out w) (\<lambda>(r, c', v', w'). client_ok (r, c', w'))"
proof -
  obtain s w1 where sw: "(if udp_socket c = DOIP_INVALID_SOCKET
      then let (sock, w1) = socket_udp_create S w in (c\<lparr>udp_socket := sock\<rparr>, w1) else (c, w)) = (c\<lparr>udp_socket := s\<rparr>, w1)"
    by (cases "socket_udp_create S w") (metis (no_types, lifting) DoIPClient.surjective DoIPClient.update_convs(2) case_prod_conv)
  let ?c1 = "c\<lparr>udp_socket := s\<rparr>"
  have wf1: "wf_client ?c1"
    using assms(1) by (simp add: wf_client_update)
  have "\<exists>tx. doip_build_message DOIP_VEHICLE_IDENTIFICATION_REQ None 0 (Some (tx_buffer c)) client_buffer_size
      = Ret (8 + 0, Some tx) \<and> length tx = DOIP_MAX_RESPONSE_SIZE \<and> unat (8 + 0 :: size_t) = 8 + unat (0 :: size_t)"
    by (rule build_small_returns) (use assms in \<open>auto simp: wf_client_def\<close>)
  then obtain tx where b: "doip_build_vehicle_id_req (Some (tx_buffer c)) client_buffer_size = Ret (8, Some tx)"
      "length tx = DOIP_MAX_RESPONSE_SIZE"
    by (auto simp: doip_build_vehicle_id_req_def)
  let ?c2 = "?c1\<lparr>tx_buffer := tx\<rparr>"
  have wf2: "wf_client ?c2"
    using wf1 b(2) by (rule wf_client_update)
  have "unat (8 :: size_t) \<le> length tx"
    using b(2) by simp
  from broadcast_returns [OF this, of s "server_port c" w1] obtain k w2
    where bc: "socket_udp_broadcast S s (Some tx) 8 (server_port c) w1 = Ret (k, w2)"
    by blast
  obtain m c3 w3 where rcv: "client_udp_receive S DOIP_SOCKET_TIMEOUT_MS ?c2 w2 = Ret (m, c3, w3)" "wf_client c3"
      "\<And>h p. m = Some (h, p) \<Longrightarrow> received c3 h p"
    by (rule udp_receiveE [OF wf2]) blast
  note run = doip_client_vehicle_identification_def option.case sw Let_def b bc
  show ?thesis
  proof (cases m)
    case None
    with rcv wf2 assms(1) show ?thesis
      by (simp add: run client_ok_def wf_client_update(2))
  next
    case (Some hp)
    obtain h p where hp: "hp = (h, p)" by (cases hp)
    obtain r res where v: "doip_parse_vehicle_id_res (payload_at c3 p) (payload_length h) (Some vehicle_res_var)
        = Ret (r, Some res)" "r = 0 \<longrightarrow> length (vin res) = DOIP_VIN_LENGTH"
      using payload_parsers_return(2) [OF rcv(2) rcv(3)] Some hp by blast
    have vin: "length (take DOIP_VIN_LENGTH (vin res) @ [0]) = 18" "r = 0 \<Longrightarrow> wf_client (c3\<lparr>client_vin := take DOIP_VIN_LENGTH (vin res) @ [0],
        entity_addr := logical_address res\<rparr>)" if "r = 0"
      using that v(2) rcv(2) by (simp_all add: wf_client_update)
    show ?thesis
      using rcv wf2 Some hp v vin assms
      by (cases vin_out) (simp_all add: run client_ok_def buf_write_def wf_client_update(2))
  qed
qed

lemma send_diagnostic_ok:
  assumes "wf_client c" "12 + unat n < 2 ^ 32" "unat n \<le> length req" "unat cap \<le> length out" "unat cap + 12 < 2 ^ 32"
  shows "returns (doip_client_send_diagnostic S (Some c) (Some req) n (Some out) cap rl w)
    (\<lambda>(r, c', out', rl', w'). client_ok (r, c', w') \<and> (\<exists>o1. out' = Some o1 \<and> length o1 = length out))"
proof (cases "is_connected c \<and> routing_active c")
  case True
  have cap: "unat client_buffer_size \<le> length (tx_buffer c)"
    using assms(1) by (simp add: wf_client_def)
  obtain k tx where b: "doip_build_diagnostic_message (source_address c) (target_address c) (Some req) n (Some (tx_buffer c))
      client_buffer_size = Ret (k, Some tx)" "length tx = length (tx_buffer c)" "unat k \<le> length (tx_buffer c)"
    using build_diagnostic_returns [OF assms(2) cap assms(3), of "source_address c" "target_address c"]
    by (auto elim!: returnsE)
  let ?c1 = "c\<lparr>tx_buffer := tx\<rparr>"
  have wf1: "wf_client ?c1"
    using assms(1) b(2) by (simp add: wf_client_def)
  obtain s w1 where snd: "socket_tcp_send S (tcp_socket c) (Some tx) k w = Ret (s, w1)"
    using send_returns [of k tx "tcp_socket c" w] b(2,3) by auto
  obtain m c2 w2 where r2: "client_tcp_receive S DOIP_SOCKET_TIMEOUT_MS ?c1 w1 = Ret (m, c2, w2)" "wf_client c2"
      "\<And>h p. m = Some (h, p) \<Longrightarrow> received c2 h p"
    by (rule tcp_receiveE [OF wf1]) blast
  obtain m3 c3 w3 where r3: "client_tcp_receive S DOIP_SOCKET_TIMEOUT_MS c2 w2 = Ret (m3, c3, w3)" "wf_client c3"
      "\<And>h p. m3 = Some (h, p) \<Longrightarrow> received c3 h p"
    by (rule tcp_receiveE [OF r2(2)]) blast
  have reply: "returns (diagnostic_reply c' h p out cap rl) (\<lambda>(r, out', rl'). r \<in> {0, -1} \<and> length out' = length out)"
    if "wf_client c'" "received c' h p" for c' h p
    using diagnostic_reply_returns [OF that assms(4,5), of rl] by (rule returns_mono) auto
  note run = doip_client_send_diagnostic_def option.case Let_def b(1) snd r2(1) r3(1)
  show ?thesis
    using True r2(2,3) r3(2,3) wf1 reply
    by (cases m; cases m3) (auto simp: run client_ok_def returns_cbind split_def elim!: returns_mono split: option.split)
qed (use assms(1) in \<open>auto simp: doip_client_send_diagnostic_def client_ok_def\<close>)

end

section \<open>Sequences of client operations\<close>

text \<open>Any use of the API on one client: the operations a caller can issue, and a run of a list of them.\<close>

datatype client_op = Connect | Disconnect | VehicleId | RoutingActivation u8
  | SendDiagnostic bytes nat | AliveCheck u16

fun client_op_fits :: "client_op \<Rightarrow> bool" where
  "client_op_fits (SendDiagnostic req cap) \<longleftrightarrow> length req + 12 < 2 ^ 32 \<and> cap + 12 < 2 ^ 32"
| "client_op_fits _ \<longleftrightarrow> True"

fun client_step :: "'w doip_sockets \<Rightarrow> client_op \<Rightarrow> DoIPClient \<Rightarrow> 'w \<Rightarrow> (int \<times> DoIPClient option \<times> 'w) cexec" where
  "client_step S Connect c w = Ret (doip_client_connect S (Some c) w)"
| "client_step S Disconnect c w = Ret (0, doip_client_disconnect S (Some c) w)"
| "client_step S VehicleId c w =
     cbind (doip_client_vehicle_identification S (Some c) (Some (replicate 18 0)) w) (\<lambda>(r, c', v, w'). Ret (r, c', w'))"
| "client_step S (RoutingActivation t) c w = doip_client_routing_activation S (Some c) t w"
| "client_step S (SendDiagnostic req cap) c w =
     cbind (doip_client_send_diagnostic S (Some c) (Some req) (of_nat (length req)) (Some (replicate cap 0)) (of_nat cap)
        (Some 0) w) (\<lambda>(r, c', out, len, w'). Ret (r, c', w'))"
| "client_step S (AliveCheck src) c w = doip_client_alive_check_response S (Some c) src w"

fun client_run :: "'w doip_sockets \<Rightarrow> client_op list \<Rightarrow> DoIPClient \<Rightarrow> 'w \<Rightarrow> (int list \<times> DoIPClient \<times> 'w) cexec" where
  "client_run S [] c w = Ret ([], c, w)"
| "client_run S (oper # ops) c w =
     cbind (client_step S oper c w) (\<lambda>(r, c', w'). cbind (deref c') (\<lambda>c'.
     cbind (client_run S ops c' w') (\<lambda>(rs, c'', w''). Ret (r # rs, c'', w''))))"

context doip_socket_api
begin

lemma client_step_ok:
  assumes "wf_client c" "client_op_fits oper"
  shows "returns (client_step S oper c w) client_ok"
proof (cases oper)
  case Disconnect
  then show ?thesis
    using disconnect_ok [OF assms(1), of S w] by (auto simp: client_ok_def)
next
  case VehicleId
  then show ?thesis
    using vehicle_identification_ok [OF assms(1), of "Some (replicate 18 0)" w]
    by (auto simp: returns_cbind split_def elim!: returns_mono)
next
  case (SendDiagnostic req cap)
  then have "unat (of_nat (length req) :: size_t) = length req" "unat (of_nat cap :: size_t) = cap"
    using assms(2) by (auto intro!: unat_le_of_nat)
  then show ?thesis
    using send_diagnostic_ok [OF assms(1), of "of_nat (length req)" req "of_nat cap" "replicate cap 0" "Some 0" w]
      SendDiagnostic assms(2)
    by (auto simp: returns_cbind split_def elim!: returns_mono)
qed (use assms in \<open>simp_all add: connect_ok alive_check_ok routing_activation_ok\<close>)

lemma client_run_ok:
  assumes "wf_client c" "list_all client_op_fits ops"
  shows "returns (client_run S ops c w) (\<lambda>(rs, c', w'). wf_client c' \<and> length rs = length ops \<and> set rs \<subseteq> {0, -1})"
  using assms
proof (induction ops arbitrary: c w)
  case (Cons oper ops)
  obtain r c1 w1 where s: "client_step S oper c w = Ret (r, Some c1, w1)" "wf_client c1" "r \<in> {0, -1}"
    using client_step_ok [OF Cons.prems(1), of oper w] Cons.prems(2) by (auto simp: client_ok_def elim!: returnsE)
  have "list_all client_op_fits ops"
    using Cons.prems(2) by simp
  from Cons.IH [OF s(2) this] s show ?case
    by (auto simp: returns_cbind split_def elim!: returns_mono)
qed simp

lemma send_diagnostic_sound:
  assumes "wf_client c" "12 + unat n < 2 ^ 32" "unat n \<le> length req" "unat cap \<le> length out" "unat cap + 12 < 2 ^ 32"
    "doip_client_send_diagnostic S (Some c) (Some req) n (Some out) cap (Some len) w = Ret (0, Some c', Some out', Some k, w')"
  shows "is_connected c \<and> routing_active c \<and> unat k \<le> unat cap
    \<and> take (12 + unat k) (rx_buffer c')
      = doip_frame DOIP_DIAGNOSTIC_MESSAGE (be16 (target_address c) @ be16 (source_address c) @ take (unat k) out')"
proof -
  have cr: "is_connected c \<and> routing_active c"
    using assms(6) by (auto simp: doip_client_send_diagnostic_def split: if_splits)
  have capc: "unat client_buffer_size \<le> length (tx_buffer c)"
    using assms(1) by (simp add: wf_client_def)
  obtain kk tx where b: "doip_build_diagnostic_message (source_address c) (target_address c) (Some req) n (Some (tx_buffer c))
      client_buffer_size = Ret (kk, Some tx)" "length tx = length (tx_buffer c)" "unat kk \<le> length (tx_buffer c)"
    using build_diagnostic_returns [OF assms(2) capc assms(3), of "source_address c" "target_address c"]
    by (auto elim!: returnsE)
  let ?c1 = "c\<lparr>tx_buffer := tx\<rparr>"
  have wf1: "wf_client ?c1"
    using assms(1) b(2) by (simp add: wf_client_def)
  obtain s w1 where snd: "socket_tcp_send S (tcp_socket c) (Some tx) kk w = Ret (s, w1)"
    using send_returns [of kk tx "tcp_socket c" w] b(2,3) by auto
  obtain m c2 w2 where r2: "client_tcp_receive S DOIP_SOCKET_TIMEOUT_MS ?c1 w1 = Ret (m, c2, w2)" "wf_client c2"
      "source_address c2 = source_address c" "target_address c2 = target_address c"
      "\<And>h p. m = Some (h, p) \<Longrightarrow> received c2 h p"
    by (rule tcp_receiveE [OF wf1]) auto
  obtain m3 c3 w3 where r3: "client_tcp_receive S DOIP_SOCKET_TIMEOUT_MS c2 w2 = Ret (m3, c3, w3)" "wf_client c3"
      "source_address c3 = source_address c2" "target_address c3 = target_address c2"
      "\<And>h p. m3 = Some (h, p) \<Longrightarrow> received c3 h p"
    by (rule tcp_receiveE [OF r2(2)]) auto
  note run = doip_client_send_diagnostic_def option.case Let_def b(1) snd r2(1) r3(1)
  obtain h p where reply: "diagnostic_reply c' h p out cap (Some len) = Ret (0, out', Some k)" "wf_client c'"
      "received c' h p" "source_address c' = source_address c" "target_address c' = target_address c"
    using assms(6) cr r2 r3 by (auto simp: run cbind_Ret_iff split: if_splits option.splits prod.splits)
  from diagnostic_reply_returns [OF reply(2,3) assms(4,5), of "Some len"] reply(1)
  have d: "payload_type h = DOIP_DIAGNOSTIC_MESSAGE" "4 \<le> payload_length h" "unat (payload_length h) \<le> unat cap + 4"
      "be16_val (rx_buffer c' ! 8) (rx_buffer c' ! 9) = target_address c'"
      "be16_val (rx_buffer c' ! 10) (rx_buffer c' ! 11) = source_address c'"
      "k = payload_length h - 4"
      "take (unat (payload_length h) - 4) out' = take (unat (payload_length h) - 4) (drop 12 (rx_buffer c'))"
    by auto
  have k: "unat (payload_length h) = 4 + unat k"
    using d(2,6) by (simp add: unat_sub word_le_nat_alt)
  have len: "8 + unat (payload_length h) \<le> DOIP_MAX_RESPONSE_SIZE" "length (rx_buffer c') = DOIP_MAX_RESPONSE_SIZE"
  proof -
    have "payload_length h \<le> 0xFFFFFFF7"
      using d(3) assms(5) by (simp add: word_le_nat_alt)
    then show "8 + unat (payload_length h) \<le> DOIP_MAX_RESPONSE_SIZE"
      using reply(3) unfolding received_def by blast
    show "length (rx_buffer c') = DOIP_MAX_RESPONSE_SIZE"
      using reply(2) by (simp add: wf_client_def)
  qed
  have "take (8 + unat (payload_length h)) (rx_buffer c')
      = doip_frame DOIP_DIAGNOSTIC_MESSAGE (take (unat (payload_length h)) (drop 8 (rx_buffer c')))"
    using doip_frame_of_header [of "rx_buffer c'"] reply(3) d(1) len unfolding received_def by auto
  moreover have "take (4 + unat k) (drop 8 (rx_buffer c'))
      = be16 (target_address c) @ be16 (source_address c) @ take (unat k) out'"
  proof -
    have "take (4 + unat k) (drop 8 (rx_buffer c')) = take 4 (drop 8 (rx_buffer c')) @ take (unat k) (drop 12 (rx_buffer c'))"
      by (simp add: take_add)
    also have "take 4 (drop 8 (rx_buffer c')) = be16 (target_address c') @ be16 (source_address c')"
      using take4_drop [of 8 "rx_buffer c'"] len(2) d(4,5) [symmetric] by (simp add: be16_be16_val)
    finally show ?thesis
      using d(7) k reply(4,5) by simp
  qed
  ultimately show ?thesis
    using cr d(3) k by (simp add: add.commute add.left_commute)
qed

end

text \<open>
  C9. Using the client is safe. After any sequence of client operations, with any replies of the
  network, no memory is accessed outside the client's buffers, every call returns 0 or -1, a
  connected client holds an open socket and routing is active only while connected.
\<close>
theorem client_operations_safe:
  assumes "wf_client c" "list_all client_op_fits ops"
  shows "returns (client_run (lwip_sockets px) ops c w) (\<lambda>(rs, c', w').
    length rs = length ops \<and> set rs \<subseteq> {0, -1}
    \<and> (is_connected c' \<longrightarrow> tcp_socket c' \<noteq> DOIP_INVALID_SOCKET) \<and> (routing_active c' \<longrightarrow> is_connected c')
    \<and> length (rx_buffer c') = DOIP_MAX_RESPONSE_SIZE \<and> length (tx_buffer c') = DOIP_MAX_RESPONSE_SIZE)"
  by (rule returns_mono [OF lwip.client_run_ok [OF assms]]) (auto simp: wf_client_def)

text \<open>
  A diagnostic answer is the server's. When \<open>doip_client_send_diagnostic\<close> succeeds, the client
  was connected with routing active, and the bytes handed back are the UDS part of a complete
  diagnostic frame received from the ECU address and addressed to this tester; it fits the buffer.
\<close>
theorem client_diagnostic_answer_is_framed:
  assumes "wf_client c" "12 + unat n < 2 ^ 32" "unat n \<le> length req" "unat cap \<le> length out" "unat cap + 12 < 2 ^ 32"
    "doip_client_send_diagnostic (lwip_sockets px) (Some c) (Some req) n (Some out) cap (Some len) w
      = Ret (0, Some c', Some out', Some k, w')"
  shows "is_connected c \<and> routing_active c \<and> unat k \<le> unat cap
    \<and> take (12 + unat k) (rx_buffer c')
      = doip_frame DOIP_DIAGNOSTIC_MESSAGE (be16 (target_address c) @ be16 (source_address c) @ take (unat k) out')"
  by (rule lwip.send_diagnostic_sound [OF assms])

section \<open>A complete exchange\<close>

lemma wf_client_rx:
  "wf_client c \<Longrightarrow> length rx = DOIP_MAX_RESPONSE_SIZE \<Longrightarrow> wf_client (c\<lparr>rx_buffer := rx\<rparr>)"
  by (simp add: wf_client_def)

lemma receive_frame:
  assumes "px_recv px (tcp_socket c) client_buffer_size (px_setsockopt px (tcp_socket c) (rcv_timeout tmo) w)
      = (Some (doip_frame t d), w')"
    "8 + length d \<le> DOIP_MAX_RESPONSE_SIZE" "wf_client c" "is_connected c"
  shows "client_tcp_receive (lwip_sockets px) tmo c w = Ret
    (Some (\<lparr>protocol_version = DOIP_PROTOCOL_VERSION, inverse_protocol_version = DOIP_INVERSE_PROTOCOL_VERSION,
       payload_type = t, payload_length = of_nat (length d)\<rparr>, if d = [] then None else Some 8),
     c\<lparr>rx_buffer := doip_frame t d @ drop (8 + length d) (rx_buffer c)\<rparr>, w')"
proof -
  let ?rx = "doip_frame t d @ drop (8 + length d) (rx_buffer c)"
  let ?c = "c\<lparr>rx_buffer := ?rx\<rparr>"
  have rx: "length (rx_buffer c) = DOIP_MAX_RESPONSE_SIZE" "tcp_socket c \<noteq> DOIP_INVALID_SOCKET"
    using assms(3,4) by (simp_all add: wf_client_def)
  have n: "unat (of_nat (8 + length d) :: size_t) = 8 + length d" "unat (of_nat (length d) :: u32) = length d"
    using assms(2) by (auto intro!: unat_le_of_nat simp del: of_nat_add)
  have sum: "unat (8 + of_nat (length d) :: u32) = 8 + length d"
    using n assms(2) by (subst unat_add_no_wrap) auto
  have cmp: "\<not> (of_nat (8 + length d) :: size_t) < 8" "\<not> (of_nat (8 + length d) :: size_t) < 8 + of_nat (length d)"
    by (simp_all only: word_less_nat_alt n sum) simp_all
  have pos: "(0 :: u32) < of_nat (length d) \<longleftrightarrow> d \<noteq> []"
    by (simp only: word_less_nat_alt n) simp
  have bound: "unat (of_nat (8 + length d) :: size_t) \<le> length ?rx"
    using n(1) by simp
  have recv: "doip_socket_tcp_recv px (tcp_socket c) (Some (rx_buffer c)) client_buffer_size tmo w
      = Ret (int (8 + length d), Some ?rx, w')"
    using rx assms(1,2) by (simp add: doip_socket_tcp_recv_def Let_def buf_write_def min_def)
  have "parse_received ?c (int (8 + length d)) = Ret (Some (\<lparr>protocol_version = DOIP_PROTOCOL_VERSION,
      inverse_protocol_version = DOIP_INVERSE_PROTOCOL_VERSION, payload_type = t, payload_length = of_nat (length d)\<rparr>,
      if d = [] then None else Some 8))"
    using doip_parse_message_eq [OF bound, of header_var "Some None"] cmp pos
    by (simp add: parse_received_def doip_header_of_frame)
  with recv show ?thesis
    by (simp add: client_tcp_receive_def Let_def)
qed

lemma diagnostic_reply_of_frame:
  assumes "wf_client c" "12 + length u \<le> DOIP_MAX_RESPONSE_SIZE" "length u \<le> unat cap" "unat cap \<le> length out"
    "rx_buffer c = doip_frame DOIP_DIAGNOSTIC_MESSAGE (be16 (target_address c) @ be16 (source_address c) @ u) @ r"
  shows "diagnostic_reply c \<lparr>protocol_version = DOIP_PROTOCOL_VERSION,
      inverse_protocol_version = DOIP_INVERSE_PROTOCOL_VERSION, payload_type = DOIP_DIAGNOSTIC_MESSAGE,
      payload_length = of_nat (4 + length u)\<rparr> (Some 8) out cap (Some len)
    = Ret (0, u @ drop (length u) out, Some (of_nat (length u)))"
proof -
  let ?p = "be16 (target_address c) @ be16 (source_address c) @ u @ r"
  have n: "unat (of_nat (length u) :: u32) = length u" "unat (of_nat (4 + length u) :: u32) = 4 + length u"
    using assms(2) by (auto intro!: unat_le_of_nat simp del: of_nat_add)
  have p: "payload_at c (Some 8) = Some ?p"
    using assms(5) by (simp add: payload_at_def)
  have "unat (of_nat (4 + length u) :: u32) \<le> length ?p"
    using n by simp
  note parse = doip_parse_diagnostic_message_eq [OF this, of 0 0 None 0]
  have cmp: "\<not> (of_nat (4 + length u) :: u32) < 4" "(4 < (of_nat (4 + length u) :: u32)) = (u \<noteq> [])"
      "(of_nat (4 + length u) :: u32) - 4 = of_nat (length u)" "\<not> cap < of_nat (length u)"
    using assms(3) by (simp_all only: word_less_nat_alt n) simp_all
  have pos: "(0 :: u32) < of_nat (length u) \<longleftrightarrow> u \<noteq> []"
    by (simp only: word_less_nat_alt n) simp
  have addr: "be16_val (?p ! 0) (?p ! 1) = target_address c" "be16_val (?p ! 2) (?p ! 3) = source_address c"
    by (simp_all add: be16_def wire_simps)
  have slice: "buf_slice ?p 4 (length u) = Ret u"
    by (simp add: buf_slice_def)
  have wr: "buf_write out 0 u = Ret (u @ drop (length u) out)"
    using assms(3,4) by (simp add: buf_write_def)
  show ?thesis
    using parse cmp addr slice wr n pos
    by (simp add: diagnostic_reply_def p del: of_nat_add append_assoc)
qed

lemma client_exchange_run:
  assumes "wf_client c" "is_connected c" "routing_active c"
    "unat n \<le> length req" "12 + unat n \<le> DOIP_MAX_RESPONSE_SIZE"
    "px_send px (tcp_socket c) (doip_frame DOIP_DIAGNOSTIC_MESSAGE
       (be16 (source_address c) @ be16 (target_address c) @ take (unat n) req)) w = (sent, w1)" "0 \<le> sent"
    "px_recv px (tcp_socket c) client_buffer_size (px_setsockopt px (tcp_socket c) (rcv_timeout DOIP_SOCKET_TIMEOUT_MS) w1)
       = (Some (doip_frame DOIP_DIAGNOSTIC_MESSAGE_POS_ACK ack), w2)" "8 + length ack \<le> DOIP_MAX_RESPONSE_SIZE"
    "px_recv px (tcp_socket c) client_buffer_size (px_setsockopt px (tcp_socket c) (rcv_timeout DOIP_SOCKET_TIMEOUT_MS) w2)
       = (Some (doip_frame DOIP_DIAGNOSTIC_MESSAGE (be16 (target_address c) @ be16 (source_address c) @ u)), w3)"
    "12 + length u \<le> DOIP_MAX_RESPONSE_SIZE" "length u \<le> unat cap" "unat cap \<le> length out"
  shows "\<exists>c'. doip_client_send_diagnostic (lwip_sockets px) (Some c) (Some req) n (Some out) cap (Some len) w
    = Ret (0, Some c', Some (u @ drop (length u) out), Some (of_nat (length u)), w3)"
proof -
  let ?f = "doip_frame DOIP_DIAGNOSTIC_MESSAGE (be16 (source_address c) @ be16 (target_address c) @ take (unat n) req)"
  have tx: "length (tx_buffer c) = DOIP_MAX_RESPONSE_SIZE" "tcp_socket c \<noteq> DOIP_INVALID_SOCKET"
    using assms(1,2) by (simp_all add: wf_client_def)
  have n12: "unat (12 + n) = 12 + unat n" "12 + n \<noteq> 0"
  proof -
    show "unat (12 + n) = 12 + unat n"
      using assms(5) by (subst unat_add_no_wrap) auto
    then show "12 + n \<noteq> 0"
      by (metis add_is_0 unat_0 zero_neq_numeral)
  qed
  let ?tx = "?f @ drop (12 + unat n) (tx_buffer c)"
  have build: "doip_build_diagnostic_message (source_address c) (target_address c) (Some req) n (Some (tx_buffer c))
      client_buffer_size = Ret (12 + n, Some ?tx)"
    using assms(4,5) tx by (intro doip_build_diagnostic_message_ok) auto
  have lf: "length ?f = 12 + unat n"
    using assms(4) by simp
  have send: "doip_socket_tcp_send px (tcp_socket c) (Some ?tx) (12 + n) w = Ret (sent, w1)"
    using assms(6) tx lf n12 by (simp add: doip_socket_tcp_send_def buf_slice_def del: length_doip_frame)
  let ?c1 = "c\<lparr>tx_buffer := ?tx\<rparr>"
  have wf1: "wf_client ?c1"
    using assms(1,5) tx lf by (simp add: wf_client_def del: length_doip_frame)
  let ?c2 = "?c1\<lparr>rx_buffer := doip_frame DOIP_DIAGNOSTIC_MESSAGE_POS_ACK ack @ drop (8 + length ack) (rx_buffer c)\<rparr>"
  have wf2: "wf_client ?c2"
    using wf1 assms(9) by (simp add: wf_client_def)
  let ?u = "be16 (target_address c) @ be16 (source_address c) @ u"
  let ?c3 = "?c2\<lparr>rx_buffer := doip_frame DOIP_DIAGNOSTIC_MESSAGE ?u @ drop (8 + length ?u) (rx_buffer ?c2)\<rparr>"
  have wf3: "wf_client ?c3"
  proof -
    have "length (rx_buffer ?c2) = DOIP_MAX_RESPONSE_SIZE" "length (doip_frame DOIP_DIAGNOSTIC_MESSAGE ?u) = 12 + length u"
      using wf2 by (simp_all add: wf_client_def)
    then have "length (doip_frame DOIP_DIAGNOSTIC_MESSAGE ?u @ drop (8 + length ?u) (rx_buffer ?c2)) = DOIP_MAX_RESPONSE_SIZE"
      using assms(11) by (simp only: length_append length_drop) simp
    then show ?thesis by (rule wf_client_rx [OF wf2])
  qed
  have r1: "client_tcp_receive (lwip_sockets px) DOIP_SOCKET_TIMEOUT_MS ?c1 w1 = Ret
    (Some (\<lparr>protocol_version = DOIP_PROTOCOL_VERSION, inverse_protocol_version = DOIP_INVERSE_PROTOCOL_VERSION,
       payload_type = DOIP_DIAGNOSTIC_MESSAGE_POS_ACK, payload_length = of_nat (length ack)\<rparr>,
       if ack = [] then None else Some 8), ?c2, w2)"
    using receive_frame [of px ?c1 _ w1] assms(2,8,9) wf1 by simp
  have r2: "client_tcp_receive (lwip_sockets px) DOIP_SOCKET_TIMEOUT_MS ?c2 w2 = Ret
    (Some (\<lparr>protocol_version = DOIP_PROTOCOL_VERSION, inverse_protocol_version = DOIP_INVERSE_PROTOCOL_VERSION,
       payload_type = DOIP_DIAGNOSTIC_MESSAGE, payload_length = of_nat (length ?u)\<rparr>,
       if ?u = [] then None else Some 8), ?c3, w3)"
    using assms(2,10,11) wf2 by (intro receive_frame) simp_all
  have u: "length ?u = 4 + length u" "?u \<noteq> []"
    by (simp_all add: be16_def)
  have r3: "diagnostic_reply ?c3 \<lparr>protocol_version = DOIP_PROTOCOL_VERSION,
      inverse_protocol_version = DOIP_INVERSE_PROTOCOL_VERSION, payload_type = DOIP_DIAGNOSTIC_MESSAGE,
      payload_length = of_nat (length ?u)\<rparr> (if ?u = [] then None else Some 8) out cap (Some len)
    = Ret (0, u @ drop (length u) out, Some (of_nat (length u)))"
  proof -
    have "rx_buffer ?c3 = doip_frame DOIP_DIAGNOSTIC_MESSAGE (be16 (target_address ?c3) @ be16 (source_address ?c3) @ u)
        @ drop (8 + length ?u) (rx_buffer ?c2)"
      by simp
    from diagnostic_reply_of_frame [OF wf3 assms(11-13) this, of len] show ?thesis
      by (simp only: u(1) if_not_P [OF u(2)])
  qed
  have sent: "(sent < 0) = False"
    using assms(7) by simp
  have sel: "tcp_socket ?c1 = tcp_socket c" "tx_buffer ?c1 = ?tx"
    by simp_all
  show ?thesis
    by (simp only: doip_client_send_diagnostic_def option.case prod.case assms(2,3) if_False if_True not_True_eq_False
        simp_thms build cbind.simps deref_simps Let_def n12(2) lwip_sockets_simps send sent sel
        DoIPHeader.simps r1 r2 r3) blast
qed

section \<open>A scripted network\<close>

text \<open>A concrete socket library for the witnesses: it accepts everything and plays a list of replies.\<close>

definition scripted :: "bytes list posix" where
  "scripted = \<lparr>px_socket = (\<lambda>t w. (3, w)), px_setsockopt = (\<lambda>s oo w. w), px_connect = (\<lambda>s a w. (0, w)),
     px_send = (\<lambda>s d w. (int (length d), w)),
     px_recv = (\<lambda>s cap w. case w of [] \<Rightarrow> (None, []) | d # w' \<Rightarrow> (Some d, w')),
     px_sendto = (\<lambda>s d a w. (int (length d), w)),
     px_recvfrom = (\<lambda>s cap w. case w of [] \<Rightarrow> (None, [])
       | d # w' \<Rightarrow> (Some (d, \<lparr>sin_addr = 0, sin_port = 0\<rparr>), w')),
     px_would_block = (\<lambda>w. True), px_close = (\<lambda>s w. w), px_inet_pton = (\<lambda>s. Some 0x0164A8C0)\<rparr>"

definition ready_client :: DoIPClient where
  "ready_client = client_zero\<lparr>tcp_socket := 3, is_connected := True, routing_active := True,
     source_address := 0x0E00, target_address := 0x0100\<rparr>"

lemma ready_client_simps: "wf_client ready_client" "is_connected ready_client" "routing_active ready_client"
  "source_address ready_client = 0x0E00" "target_address ready_client = 0x0100"
  by (simp_all add: ready_client_def client_zero_def wf_client_def)

lemma ready_exchange:
  "\<exists>c'. doip_client_send_diagnostic (lwip_sockets scripted) (Some ready_client) (Some [0x3E, 0]) 2 (Some [0, 0, 0, 0]) 4
      (Some 0) [doip_frame DOIP_DIAGNOSTIC_MESSAGE_POS_ACK [], doip_frame DOIP_DIAGNOSTIC_MESSAGE (be16 0x0100 @ be16 0x0E00 @ [0x7E, 0])]
    = Ret (0, Some c', Some [0x7E, 0, 0, 0], Some 2, [])"
  using client_exchange_run [OF ready_client_simps(1-3), of 2 "[0x3E, 0]" scripted
      "[doip_frame DOIP_DIAGNOSTIC_MESSAGE_POS_ACK [], doip_frame DOIP_DIAGNOSTIC_MESSAGE (be16 0x0100 @ be16 0x0E00 @ [0x7E, 0])]"
      14 _ "[]" _ "[0x7E, 0]" "[]" 4 "[0, 0, 0, 0]" 0]
  by (simp add: scripted_def ready_client_simps)

text \<open>
  A complete exchange succeeds. With routing active, when the network accepts the request frame
  and the server answers with a positive acknowledgement and then a diagnostic frame between the
  same two addresses, the caller gets exactly the server's UDS bytes and their number.
\<close>
theorem client_diagnostic_exchange:
  assumes "wf_client c" "is_connected c" "routing_active c"
    "unat n \<le> length req" "12 + unat n \<le> DOIP_MAX_RESPONSE_SIZE"
    "px_send px (tcp_socket c) (doip_frame DOIP_DIAGNOSTIC_MESSAGE
       (be16 (source_address c) @ be16 (target_address c) @ take (unat n) req)) w = (sent, w1)" "0 \<le> sent"
    "px_recv px (tcp_socket c) client_buffer_size (px_setsockopt px (tcp_socket c) (rcv_timeout DOIP_SOCKET_TIMEOUT_MS) w1)
       = (Some (doip_frame DOIP_DIAGNOSTIC_MESSAGE_POS_ACK ack), w2)" "8 + length ack \<le> DOIP_MAX_RESPONSE_SIZE"
    "px_recv px (tcp_socket c) client_buffer_size (px_setsockopt px (tcp_socket c) (rcv_timeout DOIP_SOCKET_TIMEOUT_MS) w2)
       = (Some (doip_frame DOIP_DIAGNOSTIC_MESSAGE (be16 (target_address c) @ be16 (source_address c) @ u)), w3)"
    "12 + length u \<le> DOIP_MAX_RESPONSE_SIZE" "length u \<le> unat cap" "unat cap \<le> length out"
  shows "returns (doip_client_send_diagnostic (lwip_sockets px) (Some c) (Some req) n (Some out) cap (Some len) w)
    (\<lambda>(r, c', out', len', w'). r = 0 \<and> out' = Some (u @ drop (length u) out) \<and> len' = Some (of_nat (length u)) \<and> w' = w3)"
  using client_exchange_run [OF assms, of len] by auto

theorem client_diagnostic_exchange_witness:
  "returns (doip_client_send_diagnostic (lwip_sockets scripted) (Some ready_client) (Some [0x3E, 0]) 2 (Some [0, 0, 0, 0]) 4
      (Some 0) [doip_frame DOIP_DIAGNOSTIC_MESSAGE_POS_ACK [], doip_frame DOIP_DIAGNOSTIC_MESSAGE (be16 0x0100 @ be16 0x0E00 @ [0x7E, 0])])
    (\<lambda>(r, c', out', len', w'). r = 0 \<and> out' = Some [0x7E, 0, 0, 0])"
  by (rule returns_mono [OF client_diagnostic_exchange [where u = "[0x7E, 0]" and ack = "[]" and sent = 14]])
    (auto simp: scripted_def ready_client_simps)

theorem client_diagnostic_answer_is_framed_witness:
  "\<exists>c' :: DoIPClient. take 14 (rx_buffer c') = doip_frame DOIP_DIAGNOSTIC_MESSAGE (be16 0x0100 @ be16 0x0E00 @ [0x7E, 0])"
proof -
  obtain c' where "doip_client_send_diagnostic (lwip_sockets scripted) (Some ready_client) (Some [0x3E, 0]) 2
      (Some [0, 0, 0, 0]) 4 (Some 0) [doip_frame DOIP_DIAGNOSTIC_MESSAGE_POS_ACK [],
        doip_frame DOIP_DIAGNOSTIC_MESSAGE (be16 0x0100 @ be16 0x0E00 @ [0x7E, 0])]
    = Ret (0, Some c', Some [0x7E, 0, 0, 0], Some 2, [])"
    using ready_exchange by blast
  from client_diagnostic_answer_is_framed [OF ready_client_simps(1) _ _ _ _ this]
  have "take 14 (rx_buffer c') = doip_frame DOIP_DIAGNOSTIC_MESSAGE (be16 0x0100 @ be16 0x0E00 @ [0x7E, 0])"
    by (simp add: ready_client_simps)
  then show ?thesis ..
qed

theorem client_operations_safe_witness:
  "returns (client_run (lwip_sockets scripted)
       [Connect, RoutingActivation 0, SendDiagnostic [0x3E, 0] 64, VehicleId, Disconnect] client_zero
       [doip_frame DOIP_ROUTING_ACTIVATION_RES (replicate 9 0), [0x02], replicate 5000 0xFF])
     (\<lambda>(rs, c', w'). length rs = 5)"
  by (rule returns_mono [OF client_operations_safe]) (auto simp: wf_client_def client_zero_def)

section \<open>The link a client holds\<close>

text \<open>What the operations do to the TCP socket and the two flags.\<close>

definition same_link :: "DoIPClient \<Rightarrow> DoIPClient \<Rightarrow> bool" where
  "same_link c c' \<longleftrightarrow> tcp_socket c' = tcp_socket c \<and> is_connected c' = is_connected c \<and> routing_active c' = routing_active c"

lemma same_link_simps [simp]:
  "same_link c c" "same_link c (c'\<lparr>tx_buffer := x\<rparr>) = same_link c c'" "same_link c (c'\<lparr>rx_buffer := x\<rparr>) = same_link c c'"
  "same_link c (c'\<lparr>udp_socket := s\<rparr>) = same_link c c'" "same_link c (c'\<lparr>client_vin := v\<rparr>) = same_link c c'"
  "same_link c (c'\<lparr>entity_addr := a\<rparr>) = same_link c c'"
  by (simp_all add: same_link_def)

lemma same_link_trans: "same_link a b \<Longrightarrow> same_link b c \<Longrightarrow> same_link a c"
  by (simp add: same_link_def)

lemma tcp_receive_link: "client_tcp_receive S tmo c w = Ret (m, c1, w1) \<Longrightarrow> same_link c c1"
  by (auto simp: client_tcp_receive_def cbind_Ret_iff Let_def)

lemma udp_receive_link: "client_udp_receive S tmo c w = Ret (m, c1, w1) \<Longrightarrow> same_link c c1"
  by (auto simp: client_udp_receive_def cbind_Ret_iff Let_def)

lemma tcp_receive_whenever: "client_tcp_receive S tmo c w = Ret x \<Longrightarrow> same_link c (fst (snd x))"
  by (cases x) (auto dest: tcp_receive_link)

lemma udp_receive_whenever: "client_udp_receive S tmo c w = Ret x \<Longrightarrow> same_link c (fst (snd x))"
  by (cases x) (auto dest: udp_receive_link)

lemma routing_activation_link:
  assumes "doip_client_routing_activation S (Some c) t w = Ret (r, Some c', w')"
  shows "if r = 0 then is_connected c \<and> same_link (c\<lparr>routing_active := True\<rparr>) c' else r = -1 \<and> same_link c c'"
proof -
  have "whenever (doip_client_routing_activation S (Some c) t w) (\<lambda>x. \<exists>c1. fst (snd x) = Some c1 \<and>
      (if fst x = 0 then is_connected c \<and> same_link (c\<lparr>routing_active := True\<rparr>) c1 else fst x = -1 \<and> same_link c c1))"
    by (simp add: doip_client_routing_activation_def Let_def split_def split: option.split cong: if_cong option.case_cong)
      (auto simp: whenever_def same_link_def dest!: tcp_receive_whenever split: option.split)
  with assms show ?thesis by (auto simp: whenever_def)
qed

lemma send_diagnostic_link:
  assumes "doip_client_send_diagnostic S (Some c) req n out cap len w = Ret (r, Some c', out', len', w')"
  shows "same_link c c'"
proof -
  have "whenever (doip_client_send_diagnostic S (Some c) req n out cap len w)
    (\<lambda>x. \<exists>c1. fst (snd x) = Some c1 \<and> same_link c c1)"
    by (simp add: doip_client_send_diagnostic_def Let_def split_def split: option.split cong: if_cong option.case_cong)
      (auto simp: whenever_def same_link_def dest!: tcp_receive_whenever split: option.split)
  with assms show ?thesis by (auto simp: whenever_def)
qed

lemma vehicle_identification_link:
  assumes "doip_client_vehicle_identification S (Some c) v w = Ret (r, Some c', v', w')"
  shows "same_link c c'"
proof -
  have "whenever (doip_client_vehicle_identification S (Some c) v w) (\<lambda>x. \<exists>c1. fst (snd x) = Some c1 \<and> same_link c c1)"
    by (simp add: doip_client_vehicle_identification_def Let_def split_def split: option.split cong: if_cong option.case_cong)
      (auto simp: whenever_def same_link_def dest!: udp_receive_whenever split: option.split)
  with assms show ?thesis by (auto simp: whenever_def)
qed

end
