(* ===== verification/UDS_Platform.thy ===== *)
theory UDS_Platform
  imports C_Prelude
begin

text \<open>
  The platform functions the UDS handler calls (declared at the end of \<^verbatim>\<open>uds_handler.h\<close>) as a
  record over the platform's state, their implementation for the TC375
  (\<^verbatim>\<open>tc375_bootloader/common/uds_platform_tc375.c\<close>), and the contract of the seed and key functions
  as a locale, interpreted on that implementation.
\<close>

section \<open>The interface\<close>

record 'p uds_platform =
  platform_ecu_reset :: "u8 \<Rightarrow> 'p \<Rightarrow> 'p cexec"
  platform_get_tick_ms :: "'p \<Rightarrow> u32 \<times> 'p"
  platform_generate_seed :: "'p \<Rightarrow> u32 \<times> 'p"
  platform_calculate_key :: "u32 \<Rightarrow> u32"
  platform_write_firmware :: "u32 \<Rightarrow> bytes \<Rightarrow> 'p \<Rightarrow> int \<times> 'p"

section \<open>The TC375 implementation\<close>

abbreviation UDS_RESET_HARD :: u8 where "UDS_RESET_HARD \<equiv> 0x01"
abbreviation UDS_RESET_SOFT :: u8 where "UDS_RESET_SOFT \<equiv> 0x03"
abbreviation SECURITY_KEY_CONSTANT :: u32 where "SECURITY_KEY_CONSTANT \<equiv> 0xABCD1234"

text \<open>The only state is the static counter behind the placeholder tick.\<close>

record tc375_state =
  dummy_tick :: u32

text \<open>Every branch of the reset switch is empty; the function ends in \<open>while (1)\<close>.\<close>

definition uds_platform_ecu_reset :: "u8 \<Rightarrow> tc375_state \<Rightarrow> tc375_state cexec" where
  "uds_platform_ecu_reset reset_type s = Hang"

definition uds_platform_get_tick_ms :: "tc375_state \<Rightarrow> u32 \<times> tc375_state" where
  "uds_platform_get_tick_ms s = (dummy_tick s, s\<lparr>dummy_tick := dummy_tick s + 1\<rparr>)"

definition uds_platform_generate_seed :: "tc375_state \<Rightarrow> u32 \<times> tc375_state" where
  "uds_platform_generate_seed s =
     (let (tick, s') = uds_platform_get_tick_ms s;
          seed = (tick * 1103515245 + 12345) AND 0x7FFFFFFF
      in (if seed = 0 then 0x12345678 else seed, s'))"

definition uds_platform_calculate_key :: "u32 \<Rightarrow> u32" where
  "uds_platform_calculate_key seed =
     (let key = seed XOR SECURITY_KEY_CONSTANT;
          key = push_bit 16 key OR drop_bit 16 key
      in key XOR 0x5A5A5A5A)"

definition uds_platform_write_firmware :: "u32 \<Rightarrow> bytes \<Rightarrow> tc375_state \<Rightarrow> int \<times> tc375_state" where
  "uds_platform_write_firmware address data s = (0, s)"

definition tc375_platform :: "tc375_state uds_platform" where
  "tc375_platform = \<lparr>
     platform_ecu_reset = uds_platform_ecu_reset,
     platform_get_tick_ms = uds_platform_get_tick_ms,
     platform_generate_seed = uds_platform_generate_seed,
     platform_calculate_key = uds_platform_calculate_key,
     platform_write_firmware = uds_platform_write_firmware\<rparr>"

lemma tc375_platform_simps [simp]:
  "platform_ecu_reset tc375_platform = uds_platform_ecu_reset"
  "platform_get_tick_ms tc375_platform = uds_platform_get_tick_ms"
  "platform_generate_seed tc375_platform = uds_platform_generate_seed"
  "platform_calculate_key tc375_platform = uds_platform_calculate_key"
  "platform_write_firmware tc375_platform = uds_platform_write_firmware"
  by (simp_all add: tc375_platform_def)

section \<open>Contract of seed and key\<close>

text \<open>
  What the comments of the source ask of the pair: a seed is never 0 (the handler answers 0 for
  ``already unlocked''), and the key tells the seeds apart, so that a key recorded for one seed is
  rejected for another.
\<close>

locale seed_key =
  fixes gen_seed :: "'p \<Rightarrow> u32 \<times> 'p"
    and calc_key :: "u32 \<Rightarrow> u32"
  assumes seed_nonzero: "fst (gen_seed s) \<noteq> 0"
    and key_inj: "calc_key x = calc_key y \<Longrightarrow> x = y"
begin

lemma stale_key_rejected: "x \<noteq> y \<Longrightarrow> calc_key x \<noteq> calc_key y"
  using key_inj by blast

lemma initial_key_not_for_a_seed: "calc_key (fst (gen_seed s)) \<noteq> calc_key 0"
  using seed_nonzero key_inj by blast

lemma key_bij: "bij calc_key"
  by (intro bijI finite_UNIV_inj_surj) (auto simp: inj_def intro: key_inj)

end

text \<open>The TC375 key is a rotation between two exclusive ors, each of which can be undone.\<close>

definition rot16 :: "u32 \<Rightarrow> u32" where
  "rot16 k = push_bit 16 k OR drop_bit 16 k"

lemma rot16_rot16: "rot16 (rot16 k) = k"
proof (rule bit_word_eqI)
  fix n :: nat
  assume "n < LENGTH(32)"
  then show "bit (rot16 (rot16 k)) n = bit k n"
    by (cases "n < 16") (auto simp: rot16_def bit_simps)
qed

lemma calculate_key_alt:
  "uds_platform_calculate_key seed = rot16 (seed XOR SECURITY_KEY_CONSTANT) XOR 0x5A5A5A5A"
  by (simp add: uds_platform_calculate_key_def rot16_def Let_def)

lemma xor_cancel: "(x XOR c) XOR c = (x :: u32)"
  by (simp add: xor.assoc)

lemma calculate_key_inj: "uds_platform_calculate_key x = uds_platform_calculate_key y \<Longrightarrow> x = y"
  unfolding calculate_key_alt by (metis rot16_rot16 xor_cancel)

lemma generate_seed_nonzero: "fst (uds_platform_generate_seed s) \<noteq> 0"
  by (simp add: uds_platform_generate_seed_def uds_platform_get_tick_ms_def Let_def)

interpretation tc375_sk: seed_key uds_platform_generate_seed uds_platform_calculate_key
  by unfold_locales (use generate_seed_nonzero calculate_key_inj in auto)

end
