(* ===== verification/UDS_Handler.thy ===== *)
theory UDS_Handler
  imports UDS_Platform
begin

text \<open>
  The UDS (ISO 14229) request handler: \<^verbatim>\<open>tc375_bootloader/common/uds_handler.h\<close> and
  \<^verbatim>\<open>uds_handler.c\<close>. The record \<open>UDSHandler\<close> is the C context, \<open>uds_ctx\<close> adds what a service
  writes through its pointers: the response buffer, its length cell and the platform's state.
  A service returns the C code's \<open>int\<close>: 0, or the negated response code.
\<close>

section \<open>Constants\<close>

abbreviation UDS_NRC_GENERAL_REJECT :: int where "UDS_NRC_GENERAL_REJECT \<equiv> 0x10"
abbreviation UDS_NRC_SERVICE_NOT_SUPPORTED :: u8 where "UDS_NRC_SERVICE_NOT_SUPPORTED \<equiv> 0x11"
abbreviation UDS_NRC_SUB_FUNCTION_NOT_SUPPORTED :: int where "UDS_NRC_SUB_FUNCTION_NOT_SUPPORTED \<equiv> 0x12"
abbreviation UDS_NRC_INCORRECT_MESSAGE_LENGTH :: int where "UDS_NRC_INCORRECT_MESSAGE_LENGTH \<equiv> 0x13"
abbreviation UDS_NRC_CONDITIONS_NOT_CORRECT :: int where "UDS_NRC_CONDITIONS_NOT_CORRECT \<equiv> 0x22"
abbreviation UDS_NRC_REQUEST_SEQUENCE_ERROR :: int where "UDS_NRC_REQUEST_SEQUENCE_ERROR \<equiv> 0x24"
abbreviation UDS_NRC_REQUEST_OUT_OF_RANGE :: int where "UDS_NRC_REQUEST_OUT_OF_RANGE \<equiv> 0x31"
abbreviation UDS_NRC_SECURITY_ACCESS_DENIED :: int where "UDS_NRC_SECURITY_ACCESS_DENIED \<equiv> 0x33"
abbreviation UDS_NRC_INVALID_KEY :: int where "UDS_NRC_INVALID_KEY \<equiv> 0x35"
abbreviation UDS_NRC_EXCEED_NUMBER_OF_ATTEMPTS :: int where "UDS_NRC_EXCEED_NUMBER_OF_ATTEMPTS \<equiv> 0x36"
abbreviation UDS_NRC_REQUIRED_TIME_DELAY_NOT_EXPIRED :: int where
  "UDS_NRC_REQUIRED_TIME_DELAY_NOT_EXPIRED \<equiv> 0x37"
abbreviation UDS_NRC_GENERAL_PROGRAMMING_FAILURE :: int where "UDS_NRC_GENERAL_PROGRAMMING_FAILURE \<equiv> 0x72"
abbreviation UDS_NRC_WRONG_BLOCK_SEQUENCE_COUNTER :: int where
  "UDS_NRC_WRONG_BLOCK_SEQUENCE_COUNTER \<equiv> 0x73"
abbreviation UDS_DID_VIN :: u16 where "UDS_DID_VIN \<equiv> 0xF190"
abbreviation UDS_MAX_RESPONSE_SIZE :: nat where "UDS_MAX_RESPONSE_SIZE \<equiv> 4095"
abbreviation UDS_SECURITY_ACCESS_ATTEMPTS :: u8 where "UDS_SECURITY_ACCESS_ATTEMPTS \<equiv> 3"
abbreviation UDS_SECURITY_ACCESS_DELAY_MS :: u32 where "UDS_SECURITY_ACCESS_DELAY_MS \<equiv> 10000"

section \<open>State\<close>

datatype UDSSessionState =
    UDS_SESSION_STATE_DEFAULT | UDS_SESSION_STATE_PROGRAMMING | UDS_SESSION_STATE_EXTENDED_DIAGNOSTIC

datatype UDSSecurityState = UDS_SECURITY_LOCKED | UDS_SECURITY_UNLOCKED

record UDSHandler =
  session :: UDSSessionState
  security :: UDSSecurityState
  seed :: u32
  security_attempts :: u8
  security_lockout_time :: u32
  transfer_active :: bool
  block_sequence_counter :: u8
  transfer_address :: u32
  transfer_size :: u32
  transfer_received :: u32
  response_buffer :: bytes
  response_length :: size_t

record 'p uds_ctx =
  handler :: UDSHandler
  response :: "bytes option"
  resp_len :: "size_t option"
  plat :: 'p

type_synonym 'p service = "bytes \<Rightarrow> size_t \<Rightarrow> size_t \<Rightarrow> 'p uds_ctx \<Rightarrow> (int \<times> 'p uds_ctx) cexec"

definition uds_handler_zero :: UDSHandler where
  "uds_handler_zero = \<lparr>session = UDS_SESSION_STATE_DEFAULT, security = UDS_SECURITY_LOCKED, seed = 0,
     security_attempts = 0, security_lockout_time = 0, transfer_active = False,
     block_sequence_counter = 0, transfer_address = 0, transfer_size = 0, transfer_received = 0,
     response_buffer = replicate UDS_MAX_RESPONSE_SIZE 0, response_length = 0\<rparr>"

definition uds_handler_init :: "UDSHandler option \<Rightarrow> UDSHandler option" where
  "uds_handler_init h = map_option (\<lambda>_. uds_handler_zero
     \<lparr>session := UDS_SESSION_STATE_DEFAULT, security := UDS_SECURITY_LOCKED\<rparr>) h"

section \<open>Responses\<close>

definition uds_build_positive_response ::
  "u8 \<Rightarrow> bytes option \<Rightarrow> size_t \<Rightarrow> bytes option \<Rightarrow> size_t \<Rightarrow> size_t option
     \<Rightarrow> (int \<times> bytes option \<times> size_t option) cexec" where
  "uds_build_positive_response sid data data_len resp resp_cap rlen =
     (case (resp, rlen) of
        (Some out0, Some _) \<Rightarrow>
          if resp_cap < 1 + data_len then Ret (-1, resp, rlen)
          else
            cbind (buf_put out0 0 (sid + 0x40)) (\<lambda>out1.
            cbind (case data of
                     None \<Rightarrow> Ret out1
                   | Some d \<Rightarrow> if 0 < data_len
                       then cbind (buf_slice d 0 (unat data_len)) (buf_write out1 1) else Ret out1) (\<lambda>out2.
            Ret (0, Some out2, Some (1 + data_len))))
      | _ \<Rightarrow> Ret (-1, resp, rlen))"

definition uds_build_negative_response ::
  "u8 \<Rightarrow> u8 \<Rightarrow> bytes option \<Rightarrow> size_t \<Rightarrow> size_t option
     \<Rightarrow> (int \<times> bytes option \<times> size_t option) cexec" where
  "uds_build_negative_response sid nrc resp resp_cap rlen =
     (case (resp, rlen) of
        (Some out0, Some _) \<Rightarrow>
          if resp_cap < 3 then Ret (-1, resp, rlen)
          else
            cbind (buf_put out0 0 0x7F) (\<lambda>out1.
            cbind (buf_put out1 1 sid) (\<lambda>out2.
            cbind (buf_put out2 2 nrc) (\<lambda>out3.
            Ret (0, Some out3, Some 3))))
      | _ \<Rightarrow> Ret (-1, resp, rlen))"

text \<open>
  The tail every service shares:
  \<^verbatim>\<open>return uds_build_positive_response(SID, data, n, response, resp_cap, resp_len) == 0 ? 0 : -UDS_NRC_GENERAL_REJECT\<close>.
\<close>

definition respond :: "u8 \<Rightarrow> bytes option \<Rightarrow> size_t \<Rightarrow> size_t \<Rightarrow> 'p uds_ctx \<Rightarrow> (int \<times> 'p uds_ctx) cexec" where
  "respond sid data data_len resp_cap c =
     cbind (uds_build_positive_response sid data data_len (response c) resp_cap (resp_len c))
       (\<lambda>(r, out, n). Ret (if r = 0 then 0 else - UDS_NRC_GENERAL_REJECT, c\<lparr>response := out, resp_len := n\<rparr>))"

section \<open>Services\<close>

definition uds_service_diagnostic_session_control :: "'p service" where
  "uds_service_diagnostic_session_control request req_len resp_cap c =
     (if req_len < 2 then Ret (- UDS_NRC_INCORRECT_MESSAGE_LENGTH, c)
      else
        cbind (buf_get request 1) (\<lambda>session_type.
          let h = handler c;
              reply = (\<lambda>h'. respond 0x10 (Some [session_type]) 1 resp_cap (c\<lparr>handler := h'\<rparr>))
          in if session_type = 0x01
             then reply (h\<lparr>session := UDS_SESSION_STATE_DEFAULT, security := UDS_SECURITY_LOCKED\<rparr>)
             else if session_type = 0x02
             then reply (h\<lparr>session := UDS_SESSION_STATE_PROGRAMMING, security := UDS_SECURITY_LOCKED\<rparr>)
             else if session_type = 0x03
             then reply (h\<lparr>session := UDS_SESSION_STATE_EXTENDED_DIAGNOSTIC\<rparr>)
             else Ret (- UDS_NRC_SUB_FUNCTION_NOT_SUPPORTED, c)))"

definition uds_service_ecu_reset :: "'p uds_platform \<Rightarrow> 'p service" where
  "uds_service_ecu_reset P request req_len resp_cap c =
     (if req_len < 2 then Ret (- UDS_NRC_INCORRECT_MESSAGE_LENGTH, c)
      else
        cbind (buf_get request 1) (\<lambda>reset_type.
          if reset_type < UDS_RESET_HARD \<or> UDS_RESET_SOFT < reset_type
          then Ret (- UDS_NRC_SUB_FUNCTION_NOT_SUPPORTED, c)
          else
            cbind (uds_build_positive_response 0x11 (Some [reset_type]) 1 (response c) resp_cap (resp_len c))
              (\<lambda>(result, out, n).
                 let c' = c\<lparr>response := out, resp_len := n\<rparr>
                 in if result = 0
                    then cbind (platform_ecu_reset P reset_type (plat c')) (\<lambda>p. Ret (0, c'\<lparr>plat := p\<rparr>))
                    else Ret (- UDS_NRC_GENERAL_REJECT, c'))))"

text \<open>
  Security access: the lockout test, then the two sub-functions. \<open>security_seed\<close> and
  \<open>security_key\<close> are the branches of the C function; they start after the lockout test.
\<close>

definition security_seed :: "'p uds_platform \<Rightarrow> u8 \<Rightarrow> size_t \<Rightarrow> 'p uds_ctx \<Rightarrow> (int \<times> 'p uds_ctx) cexec" where
  "security_seed P sub_function resp_cap c =
     (if security (handler c) = UDS_SECURITY_UNLOCKED
      then respond 0x27 (Some [sub_function, 0, 0, 0, 0]) 5 resp_cap c
      else
        let (s, p) = platform_generate_seed P (plat c);
            c' = c\<lparr>handler := (handler c)\<lparr>seed := s\<rparr>, plat := p\<rparr>
        in respond 0x27 (Some [sub_function, ucast (drop_bit 24 s), ucast (drop_bit 16 s),
             ucast (drop_bit 8 s), ucast s]) 5 resp_cap c')"

definition security_key ::
  "'p uds_platform \<Rightarrow> u8 \<Rightarrow> bytes \<Rightarrow> size_t \<Rightarrow> size_t \<Rightarrow> 'p uds_ctx \<Rightarrow> (int \<times> 'p uds_ctx) cexec" where
  "security_key P sub_function request req_len resp_cap c =
     (if req_len < 6 then Ret (- UDS_NRC_INCORRECT_MESSAGE_LENGTH, c)
      else
        cbind (buf_get request 2) (\<lambda>b2. cbind (buf_get request 3) (\<lambda>b3.
        cbind (buf_get request 4) (\<lambda>b4. cbind (buf_get request 5) (\<lambda>b5.
          let received_key = push_bit 24 (ucast b2) OR push_bit 16 (ucast b3) OR push_bit 8 (ucast b4)
                OR ucast b5;
              h = handler c
          in if received_key = platform_calculate_key P (seed h)
             then respond 0x27 (Some [sub_function]) 1 resp_cap
               (c\<lparr>handler := h\<lparr>security := UDS_SECURITY_UNLOCKED, security_attempts := 0\<rparr>\<rparr>)
             else
               let h' = h\<lparr>security_attempts := security_attempts h + 1\<rparr>
               in if UDS_SECURITY_ACCESS_ATTEMPTS \<le> security_attempts h'
                  then let (now, p) = platform_get_tick_ms P (plat c)
                       in Ret (- UDS_NRC_EXCEED_NUMBER_OF_ATTEMPTS,
                            c\<lparr>handler := h'\<lparr>security_lockout_time := now\<rparr>, plat := p\<rparr>)
                  else Ret (- UDS_NRC_INVALID_KEY, c\<lparr>handler := h'\<rparr>))))))"

definition security_subfunction ::
  "'p uds_platform \<Rightarrow> u8 \<Rightarrow> bytes \<Rightarrow> size_t \<Rightarrow> size_t \<Rightarrow> 'p uds_ctx \<Rightarrow> (int \<times> 'p uds_ctx) cexec" where
  "security_subfunction P sub_function request req_len resp_cap c =
     (if sub_function = 0x01 then security_seed P sub_function resp_cap c
      else if sub_function = 0x02 then security_key P sub_function request req_len resp_cap c
      else Ret (- UDS_NRC_SUB_FUNCTION_NOT_SUPPORTED, c))"

definition uds_service_security_access :: "'p uds_platform \<Rightarrow> 'p service" where
  "uds_service_security_access P request req_len resp_cap c =
     (if req_len < 2 then Ret (- UDS_NRC_INCORRECT_MESSAGE_LENGTH, c)
      else
        cbind (buf_get request 1) (\<lambda>sub_function.
          let h = handler c
          in if UDS_SECURITY_ACCESS_ATTEMPTS \<le> security_attempts h
             then let (now, p) = platform_get_tick_ms P (plat c)
                  in if now - security_lockout_time h < UDS_SECURITY_ACCESS_DELAY_MS
                     then Ret (- UDS_NRC_REQUIRED_TIME_DELAY_NOT_EXPIRED, c\<lparr>plat := p\<rparr>)
                     else security_subfunction P sub_function request req_len resp_cap
                       (c\<lparr>handler := h\<lparr>security_attempts := 0\<rparr>, plat := p\<rparr>)
             else security_subfunction P sub_function request req_len resp_cap c))"

definition uds_service_tester_present :: "'p service" where
  "uds_service_tester_present request req_len resp_cap c =
     (if req_len < 2 then Ret (- UDS_NRC_INCORRECT_MESSAGE_LENGTH, c)
      else cbind (buf_get request 1) (\<lambda>sub_function. respond 0x3E (Some [sub_function]) 1 resp_cap c))"

text \<open>The example VIN, \<^verbatim>\<open>"WBADT43452G296403"\<close>, as its character codes.\<close>

definition uds_vin :: bytes where
  "uds_vin = map of_char ''WBADT43452G296403''"

definition uds_service_read_data_by_id :: "'p service" where
  "uds_service_read_data_by_id request req_len resp_cap c =
     (if req_len < 3 then Ret (- UDS_NRC_INCORRECT_MESSAGE_LENGTH, c)
      else
        cbind (buf_get request 1) (\<lambda>b1. cbind (buf_get request 2) (\<lambda>b2.
          let did = push_bit 8 (ucast b1) OR ucast b2 :: u16
          in if did = UDS_DID_VIN
             then respond 0x22 (Some ([ucast (drop_bit 8 did), ucast did] @ uds_vin)) 19 resp_cap c
             else Ret (- UDS_NRC_REQUEST_OUT_OF_RANGE, c))))"

definition uds_service_write_data_by_id :: "'p service" where
  "uds_service_write_data_by_id request req_len resp_cap c =
     (if req_len < 4 then Ret (- UDS_NRC_INCORRECT_MESSAGE_LENGTH, c)
      else if security (handler c) \<noteq> UDS_SECURITY_UNLOCKED then Ret (- UDS_NRC_SECURITY_ACCESS_DENIED, c)
      else
        cbind (buf_get request 1) (\<lambda>b1. cbind (buf_get request 2) (\<lambda>b2.
          let did = push_bit 8 (ucast b1) OR ucast b2 :: u16
          in respond 0x2E (Some [ucast (drop_bit 8 did), ucast did]) 2 resp_cap c)))"

text \<open>The two loops \<^verbatim>\<open>x = (x << 8) | request[...]\<close> of the download request.\<close>

fun uds_read_be :: "bytes \<Rightarrow> nat \<Rightarrow> nat \<Rightarrow> u32 \<Rightarrow> u32 cexec" where
  "uds_read_be request off 0 acc = Ret acc"
| "uds_read_be request off (Suc n) acc =
     cbind (buf_get request off) (\<lambda>b. uds_read_be request (Suc off) n (push_bit 8 acc OR ucast b))"

definition uds_service_request_download :: "'p service" where
  "uds_service_request_download request req_len resp_cap c =
     (if req_len < 4 then Ret (- UDS_NRC_INCORRECT_MESSAGE_LENGTH, c)
      else if session (handler c) \<noteq> UDS_SESSION_STATE_PROGRAMMING
      then Ret (- UDS_NRC_CONDITIONS_NOT_CORRECT, c)
      else if security (handler c) \<noteq> UDS_SECURITY_UNLOCKED then Ret (- UDS_NRC_SECURITY_ACCESS_DENIED, c)
      else
        cbind (buf_get request 2) (\<lambda>addr_len_format.
          let addr_bytes = drop_bit 4 addr_len_format AND 0x0F;
              size_bytes = addr_len_format AND 0x0F
          in if req_len < 3 + ucast addr_bytes + ucast size_bytes
             then Ret (- UDS_NRC_INCORRECT_MESSAGE_LENGTH, c)
             else
               cbind (uds_read_be request 3 (unat addr_bytes) 0) (\<lambda>address.
               cbind (uds_read_be request (3 + unat addr_bytes) (unat size_bytes) 0) (\<lambda>size.
               respond 0x34 (Some [0x20, 0x04, 0x00]) 3 resp_cap
                 (c\<lparr>handler := (handler c)\<lparr>transfer_active := True, block_sequence_counter := 1,
                     transfer_address := address, transfer_size := size, transfer_received := 0\<rparr>\<rparr>)))))"

definition uds_service_transfer_data :: "'p uds_platform \<Rightarrow> 'p service" where
  "uds_service_transfer_data P request req_len resp_cap c =
     (let h = handler c in
      if req_len < 2 then Ret (- UDS_NRC_INCORRECT_MESSAGE_LENGTH, c)
      else if \<not> transfer_active h then Ret (- UDS_NRC_REQUEST_SEQUENCE_ERROR, c)
      else
        cbind (buf_get request 1) (\<lambda>block_seq.
          if block_seq \<noteq> block_sequence_counter h then Ret (- UDS_NRC_WRONG_BLOCK_SEQUENCE_COUNTER, c)
          else
            let data_len = req_len - 2 in
            cbind (buf_slice request 2 (unat data_len)) (\<lambda>data.
              let (w, p) = platform_write_firmware P (transfer_address h + transfer_received h) data (plat c)
              in if w \<noteq> 0 then Ret (- UDS_NRC_GENERAL_PROGRAMMING_FAILURE, c\<lparr>plat := p\<rparr>)
                 else
                   let cnt = block_sequence_counter h + 1;
                       h' = h\<lparr>transfer_received := transfer_received h + data_len,
                              block_sequence_counter := (if cnt = 0 then 1 else cnt)\<rparr>
                   in respond 0x36 (Some [block_seq]) 1 resp_cap (c\<lparr>handler := h', plat := p\<rparr>))))"

definition uds_service_request_transfer_exit :: "'p service" where
  "uds_service_request_transfer_exit request req_len resp_cap c =
     (let h = handler c in
      if \<not> transfer_active h then Ret (- UDS_NRC_REQUEST_SEQUENCE_ERROR, c)
      else if transfer_received h \<noteq> transfer_size h then Ret (- UDS_NRC_GENERAL_PROGRAMMING_FAILURE, c)
      else respond 0x37 None 0 resp_cap (c\<lparr>handler := h\<lparr>transfer_active := False\<rparr>\<rparr>))"

section \<open>Dispatch\<close>

definition service_table :: "'p uds_platform \<Rightarrow> (u8 \<times> 'p service) list" where
  "service_table P =
     [(0x10, uds_service_diagnostic_session_control),
      (0x11, uds_service_ecu_reset P),
      (0x27, uds_service_security_access P),
      (0x3E, uds_service_tester_present),
      (0x22, uds_service_read_data_by_id),
      (0x2E, uds_service_write_data_by_id),
      (0x34, uds_service_request_download),
      (0x36, uds_service_transfer_data P),
      (0x37, uds_service_request_transfer_exit)]"

definition find_service :: "'p uds_platform \<Rightarrow> u8 \<Rightarrow> 'p service option" where
  "find_service P sid = map_option snd (List.find (\<lambda>e. fst e = sid) (service_table P))"

definition reject :: "u8 \<Rightarrow> u8 \<Rightarrow> size_t \<Rightarrow> 'p uds_ctx \<Rightarrow> (int \<times> 'p uds_ctx) cexec" where
  "reject sid nrc resp_cap c =
     cbind (uds_build_negative_response sid nrc (response c) resp_cap (resp_len c))
       (\<lambda>(r, out, n). Ret (r, c\<lparr>response := out, resp_len := n\<rparr>))"

text \<open>The dispatch, after the null checks of \<open>uds_handler_process\<close>.\<close>

definition uds_dispatch :: "'p uds_platform \<Rightarrow> 'p service" where
  "uds_dispatch P request req_len resp_cap c =
     cbind (buf_get request 0) (\<lambda>sid.
       case find_service P sid of
         None \<Rightarrow> reject sid UDS_NRC_SERVICE_NOT_SUPPORTED resp_cap c
       | Some service \<Rightarrow>
           cbind (service request req_len resp_cap c) (\<lambda>(result, c').
             if result < 0 then reject sid (of_int (- result)) resp_cap c' else Ret (0, c')))"

definition uds_handler_process ::
  "'p uds_platform \<Rightarrow> UDSHandler option \<Rightarrow> bytes option \<Rightarrow> size_t \<Rightarrow> bytes option \<Rightarrow> size_t
     \<Rightarrow> size_t option \<Rightarrow> 'p \<Rightarrow> (int \<times> UDSHandler option \<times> bytes option \<times> size_t option \<times> 'p) cexec"
where
  "uds_handler_process P h request req_len resp resp_cap rlen p =
     (case (h, request, resp, rlen) of
        (Some h0, Some req, Some _, Some _) \<Rightarrow>
          if req_len = 0 then Ret (-1, h, resp, rlen, p)
          else
            cbind (uds_dispatch P req req_len resp_cap
                     \<lparr>handler = h0, response = resp, resp_len = rlen, plat = p\<rparr>)
              (\<lambda>(r, c). Ret (r, Some (handler c), response c, resp_len c, plat c))
      | _ \<Rightarrow> Ret (-1, h, resp, rlen, p))"

section \<open>Responses, proved\<close>

lemma respond_None: "respond sid None 0 cap c = respond sid (Some []) 0 cap c"
  by (auto simp: respond_def uds_build_positive_response_def split: option.splits)

lemma respond_ok:
  assumes "response c = Some out" "resp_len c = Some n0" "unat cap \<le> length out"
    "length d = unat dl" "length d < 32"
  shows "respond sid (Some d) dl cap c =
    (if cap < 1 + dl then Ret (- UDS_NRC_GENERAL_REJECT, c)
     else Ret (0, c\<lparr>response := Some ((sid + 0x40) # d @ drop (Suc (length d)) out),
                     resp_len := Some (1 + dl)\<rparr>))"
proof (cases "cap < 1 + dl")
  case True
  then show ?thesis
    using assms(1,2) by (simp add: respond_def uds_build_positive_response_def)
next
  case False
  have "unat (1 + dl) = 1 + length d"
    using assms(4,5) by (subst unat_add_no_wrap) auto
  with False have le: "Suc (length d) \<le> length out"
    using assms(3) by (simp add: word_less_nat_alt)
  then obtain x r where out: "out = x # r"
    by (cases out) auto
  have "buf_write ((sid + 0x40) # r) 1 d = Ret ((sid + 0x40) # d @ drop (length d) r)"
    using buf_write_prefix [of "[sid + 0x40]" 1 d r] le out by simp
  moreover have "dl = 0 \<longleftrightarrow> d = []"
    using assms(4) by (metis length_0_conv unat_eq_zero)
  ultimately show ?thesis
    using False assms(1,2) assms(4) [symmetric]
    by (auto simp: respond_def uds_build_positive_response_def out buf_put_def buf_slice_def word_gt_0)
qed

lemma respond_frame:
  "respond sid d n cap c = Ret (r, c') \<Longrightarrow> handler c' = handler c \<and> plat c' = plat c"
  by (auto simp: respond_def cbind_Ret_iff)

lemma respond_not_fault:
  assumes "response c = Some out" "resp_len c = Some n0" "unat cap \<le> length out"
    "length d = unat dl" "length d < 32"
  shows "\<exists>r c'. respond sid (Some d) dl cap c = Ret (r, c')"
  using respond_ok [OF assms] by simp

lemma reject_ok:
  assumes "response c = Some out" "resp_len c = Some n0" "unat cap \<le> length out" "3 \<le> unat cap"
  shows "reject sid nrc cap c =
    Ret (0, c\<lparr>response := Some ([0x7F, sid, nrc] @ drop 3 out), resp_len := Some 3\<rparr>)"
proof -
  obtain x y z r where "out = x # y # z # r"
    using assms(3,4) by (auto simp: numeral_eq_Suc Suc_le_length_iff dest!: order_trans [OF assms(4)])
  moreover have "\<not> cap < 3"
    using assms(4) by (simp add: word_less_nat_alt)
  ultimately show ?thesis
    using assms(1,2)
    by (simp add: reject_def uds_build_negative_response_def buf_put_def eval_nat_numeral)
qed

lemma reject_frame: "reject sid nrc cap c = Ret (r, c') \<Longrightarrow> handler c' = handler c \<and> plat c' = plat c"
  by (auto simp: reject_def cbind_Ret_iff)

section \<open>Every request is answered\<close>

text \<open>
  \<open>answerable cap L c\<close>: the response buffer is there, has \<open>L\<close> bytes, at least \<open>cap\<close> of them.
  \<open>answered\<close> is what a service leaves: an error code, or a positive response of its id.
\<close>

definition answerable :: "size_t \<Rightarrow> nat \<Rightarrow> 'p uds_ctx \<Rightarrow> bool" where
  "answerable cap L c \<longleftrightarrow> (\<exists>out n. response c = Some out \<and> resp_len c = Some n
     \<and> length out = L \<and> unat cap \<le> L)"

definition positive :: "u8 \<Rightarrow> size_t \<Rightarrow> 'p uds_ctx \<Rightarrow> bool" where
  "positive sid cap c \<longleftrightarrow> (\<exists>out n. response c = Some out \<and> resp_len c = Some n \<and> 1 \<le> n \<and> n \<le> cap
     \<and> hd out = sid + 0x40)"

definition nrc_codes :: "int set" where
  "nrc_codes = {0x10, 0x12, 0x13, 0x22, 0x24, 0x31, 0x33, 0x35, 0x36, 0x37, 0x72, 0x73}"

definition answered :: "u8 \<Rightarrow> size_t \<Rightarrow> nat \<Rightarrow> (int \<times> 'p uds_ctx) cexec \<Rightarrow> bool" where
  "answered sid cap L m = returns m (\<lambda>(r, c). answerable cap L c
     \<and> (r = 0 \<and> positive sid cap c \<or> - r \<in> nrc_codes))"

lemma answerable_update [simp]:
  "answerable cap L (c\<lparr>handler := h\<rparr>) = answerable cap L c"
  "answerable cap L (c\<lparr>plat := p\<rparr>) = answerable cap L c"
  by (simp_all add: answerable_def)

lemma positive_update [simp]: "positive sid cap (c\<lparr>plat := p\<rparr>) = positive sid cap c"
  by (simp add: positive_def)

lemma answered_nrc: "answerable cap L c \<Longrightarrow> e \<in> nrc_codes \<Longrightarrow> answered sid cap L (Ret (- e, c))"
  by (simp add: answered_def)

lemma answered_respond:
  assumes "answerable cap L c" "length d = unat dl" "length d < 32"
  shows "answered sid cap L (respond sid (Some d) dl cap c)"
proof -
  obtain out n where c: "response c = Some out" "resp_len c = Some n" "length out = L" "unat cap \<le> L"
    using assms(1) by (auto simp: answerable_def)
  have len: "unat (1 + dl) = 1 + length d"
    using assms(2,3) by (subst unat_add_no_wrap) auto
  have "answerable cap L (c\<lparr>response := Some ((sid + 0x40) # d @ drop (Suc (length d)) out),
      resp_len := Some (1 + dl)\<rparr>)" if "\<not> cap < 1 + dl"
    using that c len by (simp add: answerable_def word_less_nat_alt)
  moreover have "1 \<le> 1 + dl"
    using len by (simp add: word_le_nat_alt)
  ultimately show ?thesis
    using c assms by (subst respond_ok [OF c(1,2)])
      (auto simp: answered_def nrc_codes_def positive_def not_less)
qed


lemma answered_get:
  assumes "unat n \<le> length req" "i < unat n" "answered sid cap L (f (req ! i))"
  shows "answered sid cap L (cbind (buf_get req i) f)"
  using assms by (simp add: buf_get_def)

lemma nrc_in [simp]:
  "0x10 \<in> nrc_codes" "0x12 \<in> nrc_codes" "0x13 \<in> nrc_codes" "0x22 \<in> nrc_codes" "0x24 \<in> nrc_codes"
  "0x31 \<in> nrc_codes" "0x33 \<in> nrc_codes" "0x35 \<in> nrc_codes" "0x36 \<in> nrc_codes" "0x37 \<in> nrc_codes"
  "0x72 \<in> nrc_codes" "0x73 \<in> nrc_codes"
  by (simp_all add: nrc_codes_def)

lemmas answered_intros = answered_nrc answered_respond answered_get

lemma session_control_answered:
  assumes "answerable cap L c" "unat n \<le> length req"
  shows "answered 0x10 cap L (uds_service_diagnostic_session_control req n cap c)"
  using assms unfolding uds_service_diagnostic_session_control_def Let_def
  by (auto intro!: answered_intros simp: not_less word_le_nat_alt)

lemma tester_present_answered:
  assumes "answerable cap L c" "unat n \<le> length req"
  shows "answered 0x3E cap L (uds_service_tester_present req n cap c)"
  using assms unfolding uds_service_tester_present_def Let_def
  by (auto intro!: answered_intros simp: not_less word_le_nat_alt)

lemma length_uds_vin: "length uds_vin = 17"
  by (simp add: uds_vin_def)

lemma read_data_answered:
  assumes "answerable cap L c" "unat n \<le> length req"
  shows "answered 0x22 cap L (uds_service_read_data_by_id req n cap c)"
  using assms unfolding uds_service_read_data_by_id_def Let_def
  by (auto intro!: answered_intros simp: not_less word_le_nat_alt length_uds_vin)

lemma write_data_answered:
  assumes "answerable cap L c" "unat n \<le> length req"
  shows "answered 0x2E cap L (uds_service_write_data_by_id req n cap c)"
  using assms unfolding uds_service_write_data_by_id_def Let_def
  by (auto intro!: answered_intros simp: not_less word_le_nat_alt)

lemma transfer_data_answered:
  assumes "answerable cap L c" "unat n \<le> length req"
  shows "answered 0x36 cap L (uds_service_transfer_data P req n cap c)"
proof -
  have "unat (n - 2) + 2 = unat n" if "\<not> n < 2"
    using that by (simp add: not_less word_le_nat_alt unat_sub)
  then show ?thesis
    using assms unfolding uds_service_transfer_data_def Let_def
    by (auto intro!: answered_intros simp: not_less word_le_nat_alt buf_slice_def split: prod.split)
qed

lemma transfer_exit_answered:
  assumes "answerable cap L c"
  shows "answered 0x37 cap L (uds_service_request_transfer_exit req n cap c)"
  using assms unfolding uds_service_request_transfer_exit_def Let_def
  by (auto intro!: answered_intros simp: respond_None)

lemma read_be_ret: "off + n \<le> length req \<Longrightarrow> \<exists>v. uds_read_be req off n acc = Ret v"
  by (induction n arbitrary: off acc) (auto simp: buf_get_def)

lemma nibble_le: "unat (x AND 0x0F :: u8) \<le> 15"
proof -
  have "x AND 0x0F = x AND mask 4" by (simp add: mask_numeral)
  then have "x AND 0x0F \<le> mask 4"
    by (metis and_mask_less' mask_eq_exp_minus_1 word_and_le1)
  then show ?thesis by (simp add: word_le_nat_alt mask_numeral)
qed

lemma request_download_answered:
  assumes "answerable cap L c" "unat n \<le> length req"
  shows "answered 0x34 cap L (uds_service_request_download req n cap c)"
proof -
  define a where "a = drop_bit 4 (req ! 2) AND 0x0F"
  define s where "s = req ! 2 AND 0x0F"
  have small: "unat a \<le> 15" "unat s \<le> 15"
    by (simp_all add: a_def s_def nibble_le)
  have "unat (3 + ucast a + ucast s :: u32) = 3 + unat a + unat s"
    using small by (simp add: unat_word_ariths unsigned_ucast_eq take_bit_nat_eq_self)
  then have "3 + unat a + unat s \<le> length req" if "\<not> n < 3 + ucast a + ucast s"
    using that assms(2) by (simp add: not_less word_le_nat_alt)
  then obtain v w where "uds_read_be req 3 (unat a) 0 = Ret v"
      "uds_read_be req (3 + unat a) (unat s) 0 = Ret w" if "\<not> n < 3 + ucast a + ucast s"
    using read_be_ret by (metis (no_types, lifting) add_leD1)
  then show ?thesis
    using assms unfolding uds_service_request_download_def Let_def
    by (auto intro!: answered_intros simp: not_less word_le_nat_alt simp flip: a_def s_def)
qed


lemma security_seed_answered:
  assumes "answerable cap L c"
  shows "answered 0x27 cap L (security_seed P sf cap c)"
  using assms unfolding security_seed_def Let_def by (auto intro!: answered_respond split: prod.split)

lemma security_key_answered:
  assumes "answerable cap L c" "unat n \<le> length req"
  shows "answered 0x27 cap L (security_key P sf req n cap c)"
proof (cases "n < 6")
  case False
  then have "6 \<le> length req"
    using assms(2) by (simp add: not_less word_le_nat_alt)
  with False assms(1) show ?thesis
    unfolding security_key_def Let_def
    by (simp add: buf_get_def, intro conjI impI answered_respond)
      (auto intro!: answered_respond answered_nrc split: prod.split)
qed (use assms in \<open>simp add: security_key_def answered_nrc\<close>)

lemma security_access_answered:
  assumes "answerable cap L c" "unat n \<le> length req"
  shows "answered 0x27 cap L (uds_service_security_access P req n cap c)"
proof -
  have sub: "answered 0x27 cap L (security_subfunction P sf req n cap c')" if "answerable cap L c'" for sf c'
    using that assms(2)
    by (simp add: security_subfunction_def security_seed_answered security_key_answered answered_nrc)
  show ?thesis
    using assms unfolding uds_service_security_access_def Let_def
    by (cases "platform_get_tick_ms P (plat c)")
      (auto intro!: answered_nrc answered_get sub simp: not_less word_le_nat_alt)
qed

lemma ecu_reset_answered:
  assumes "answerable cap L c" "unat n \<le> length req" "\<And>t p. \<exists>p'. platform_ecu_reset P t p = Ret p'"
  shows "answered 0x11 cap L (uds_service_ecu_reset P req n cap c)"
proof -
  have split: "uds_service_ecu_reset P req n cap c =
    (if n < 2 then Ret (- UDS_NRC_INCORRECT_MESSAGE_LENGTH, c)
      else
        cbind (buf_get req 1) (\<lambda>t.
          if t < UDS_RESET_HARD \<or> UDS_RESET_SOFT < t then Ret (- UDS_NRC_SUB_FUNCTION_NOT_SUPPORTED, c)
          else cbind (respond 0x11 (Some [t]) 1 cap c) (\<lambda>(r, c').
            if r = 0 then cbind (platform_ecu_reset P t (plat c')) (\<lambda>p. Ret (0, c'\<lparr>plat := p\<rparr>))
            else Ret (- UDS_NRC_GENERAL_REJECT, c'))))"
    by (auto simp: uds_service_ecu_reset_def respond_def cbind_assoc Let_def split_def intro!: cbind_cong)
  have "answered 0x11 cap L (cbind (respond 0x11 (Some [t]) 1 cap c) (\<lambda>(r, c').
            if r = 0 then cbind (platform_ecu_reset P t (plat c')) (\<lambda>p. Ret (0, c'\<lparr>plat := p\<rparr>))
            else Ret (- UDS_NRC_GENERAL_REJECT, c')))" for t
  proof -
    have "answered 0x11 cap L (respond 0x11 (Some [t]) 1 cap c)"
      using assms(1) by (intro answered_respond) simp_all
    then obtain r c' where r: "respond 0x11 (Some [t]) 1 cap c = Ret (r, c')" "answerable cap L c'"
        "r = 0 \<and> positive 0x11 cap c' \<or> - r \<in> nrc_codes"
      by (auto simp: answered_def elim!: returnsE)
    moreover obtain p where "platform_ecu_reset P t (plat c') = Ret p"
      using assms(3) by blast
    ultimately show ?thesis
      by (auto simp: answered_def nrc_codes_def)
  qed
  then show ?thesis
    using assms(1,2) unfolding split
    by (auto intro!: answered_intros simp: not_less word_le_nat_alt)
qed

lemma find_service_cases:
  assumes "find_service P sid = Some s"
  shows "(sid, s) \<in> set (service_table P)"
proof -
  have "List.find (\<lambda>e. fst e = sid) xs = Some (t, s) \<Longrightarrow> (sid, s) \<in> set xs" for t and xs :: "(u8 \<times> 'a service) list"
    by (induction xs) (auto split: if_splits)
  then show ?thesis
    using assms by (auto simp: find_service_def)
qed

lemma service_answered:
  assumes "find_service P sid = Some s" "answerable cap L c" "unat n \<le> length req"
    "sid = 0x11 \<Longrightarrow> (\<And>t p. \<exists>p'. platform_ecu_reset P t p = Ret p')"
  shows "answered sid cap L (s req n cap c)"
  using find_service_cases [OF assms(1)] assms(2-4)
  by (auto simp: service_table_def intro: session_control_answered tester_present_answered
      read_data_answered write_data_answered transfer_data_answered transfer_exit_answered
      request_download_answered security_access_answered ecu_reset_answered)

lemma take3_reject: "take 3 ([0x7F, sid, nrc] @ r) = [0x7F, sid, nrc]"
  by simp

lemma of_int_nrc_nonzero: "e \<in> nrc_codes \<Longrightarrow> (of_int e :: u8) \<noteq> 0"
  by (auto simp: nrc_codes_def)

lemma nrc_pos: "e \<in> nrc_codes \<Longrightarrow> 0 < e"
  by (auto simp: nrc_codes_def)

lemma reject_answers:
  assumes "answerable cap L c" "3 \<le> unat cap" "nrc \<noteq> 0"
  shows "returns (reject sid nrc cap c) (\<lambda>(r, c'). r = 0 \<and> answerable cap L c' \<and>
    (\<exists>out nrc. response c' = Some out \<and> resp_len c' = Some 3 \<and> nrc \<noteq> 0 \<and> take 3 out = [0x7F, sid, nrc]))"
proof -
  obtain out n where c: "response c = Some out" "resp_len c = Some n" "length out = L" "unat cap \<le> L"
    using assms(1) by (auto simp: answerable_def)
  show ?thesis
    using c assms(2,3) by (subst reject_ok [OF c(1,2)]) (auto simp: answerable_def take3_reject)
qed

lemma dispatch_answers:
  assumes "answerable cap L c" "3 \<le> unat cap" "unat n \<le> length req" "0 < unat n"
    "req ! 0 = 0x11 \<Longrightarrow> (\<And>t p. \<exists>p'. platform_ecu_reset P t p = Ret p')"
  shows "returns (uds_dispatch P req n cap c) (\<lambda>(r, c'). r = 0 \<and> answerable cap L c' \<and>
    (positive (req ! 0) cap c' \<or>
     (\<exists>out nrc. response c' = Some out \<and> resp_len c' = Some 3 \<and> nrc \<noteq> 0 \<and> take 3 out = [0x7F, req ! 0, nrc])))"
proof (cases "find_service P (req ! 0)")
  case None
  with assms show ?thesis
    by (auto simp: uds_dispatch_def buf_get_def intro!: returns_mono [OF reject_answers])
next
  case (Some s)
  obtain r c' where rc: "s req n cap c = Ret (r, c')" "answerable cap L c'"
      "r = 0 \<and> positive (req ! 0) cap c' \<or> - r \<in> nrc_codes"
    using service_answered [OF Some assms(1,3,5)] by (auto simp: answered_def elim!: returnsE)
  have "returns (reject (req ! 0) (of_int (- r)) cap c') (\<lambda>(r, c'). r = 0 \<and> answerable cap L c' \<and>
    (\<exists>out nrc. response c' = Some out \<and> resp_len c' = Some 3 \<and> nrc \<noteq> 0 \<and> take 3 out = [0x7F, req ! 0, nrc]))"
    if "- r \<in> nrc_codes"
    using that by (intro reject_answers rc(2) assms(2) of_int_nrc_nonzero)
  with Some rc assms(3,4) show ?thesis
    by (auto simp: uds_dispatch_def buf_get_def dest: nrc_pos intro: returns_mono)
qed

section \<open>What a request does to the handler\<close>

lemma dispatch_effect:
  assumes "uds_dispatch P req n cap c = Ret (r, c')"
  obtains (none) "handler c' = handler c" "plat c' = plat c"
  | (service) s r1 c1 where "(req ! 0, s) \<in> set (service_table P)" "s req n cap c = Ret (r1, c1)"
      "handler c' = handler c1" "plat c' = plat c1"
proof -
  have "buf_get req 0 = Ret sid \<Longrightarrow> sid = req ! 0" for sid
    by (simp add: buf_get_def split: if_splits)
  note sid = this
  show thesis
  proof (cases "find_service P (req ! 0)")
    case None
    with assms show thesis
      by (intro none) (auto simp: uds_dispatch_def cbind_Ret_iff dest!: sid reject_frame)
  next
    case (Some s)
    with assms obtain r1 c1 where "s req n cap c = Ret (r1, c1)" "handler c' = handler c1" "plat c' = plat c1"
      by (auto simp: uds_dispatch_def cbind_Ret_iff split: if_splits dest!: sid reject_frame)
    then show thesis
      by (rule service [OF find_service_cases [OF Some]])
  qed
qed

lemma process_dispatch:
  assumes "uds_handler_process P (Some h) (Some req) n (Some out) cap (Some len) p
    = Ret (r, h', out', len', p')" "n \<noteq> 0"
  obtains c where "uds_dispatch P req n cap \<lparr>handler = h, response = Some out, resp_len = Some len, plat = p\<rparr>
      = Ret (r, c)" "h' = Some (handler c)" "p' = plat c"
  using assms by (auto simp: uds_handler_process_def cbind_Ret_iff)

lemma process_cases:
  assumes "uds_handler_process P (Some h) request n resp cap rlen p = Ret (r, h', out', len', p')"
  obtains (refused) "h' = Some h" "p' = p"
  | (service) req s r1 c c1 where "request = Some req" "(req ! 0, s) \<in> set (service_table P)"
      "s req n cap c = Ret (r1, c1)" "handler c = h" "plat c = p" "h' = Some (handler c1)" "p' = plat c1"
proof (cases "\<exists>req out len. request = Some req \<and> resp = Some out \<and> rlen = Some len \<and> n \<noteq> 0")
  case False
  then show thesis
    using assms by (intro refused) (auto simp: uds_handler_process_def split: option.splits if_splits)
next
  case True
  then obtain req out len where eq: "request = Some req" "resp = Some out" "rlen = Some len" "n \<noteq> 0"
    by blast
  let ?c = "\<lparr>handler = h, response = Some out, resp_len = Some len, plat = p\<rparr>"
  obtain c where d: "uds_dispatch P req n cap ?c = Ret (r, c)" "h' = Some (handler c)" "p' = plat c"
    by (rule process_dispatch [OF assms [unfolded eq(1-3)] eq(4)])
  from d(1) show thesis
  proof (cases rule: dispatch_effect)
    case none
    with d show thesis by (intro refused) simp_all
  next
    case (service s r1 c1)
    from eq(1) service(1,2) show thesis
      by (rule that(2)) (use d service in simp_all)
  qed
qed

text \<open>
  Effect of each service on the handler record and on the platform, field by field:
  \<open>same_access\<close>, \<open>same_transfer\<close> and \<open>same_buffers\<close> say which part stays.
\<close>

definition same_access :: "UDSHandler \<Rightarrow> UDSHandler \<Rightarrow> bool" where
  "same_access h h' \<longleftrightarrow> session h' = session h \<and> security h' = security h \<and> seed h' = seed h
     \<and> security_attempts h' = security_attempts h \<and> security_lockout_time h' = security_lockout_time h"

definition same_transfer :: "UDSHandler \<Rightarrow> UDSHandler \<Rightarrow> bool" where
  "same_transfer h h' \<longleftrightarrow> transfer_active h' = transfer_active h
     \<and> block_sequence_counter h' = block_sequence_counter h \<and> transfer_address h' = transfer_address h
     \<and> transfer_size h' = transfer_size h \<and> transfer_received h' = transfer_received h"

definition same_buffers :: "UDSHandler \<Rightarrow> UDSHandler \<Rightarrow> bool" where
  "same_buffers h h' \<longleftrightarrow> response_buffer h' = response_buffer h \<and> response_length h' = response_length h"

lemmas same_defs = same_access_def same_transfer_def same_buffers_def

lemma same_refl [simp]: "same_access h h" "same_transfer h h" "same_buffers h h"
  by (simp_all add: same_defs)

lemma session_control_effect:
  "uds_service_diagnostic_session_control req n cap c = Ret (r, c') \<Longrightarrow>
    plat c' = plat c \<and> same_transfer (handler c) (handler c') \<and> same_buffers (handler c) (handler c')
    \<and> security_attempts (handler c') = security_attempts (handler c)
    \<and> (security (handler c') = security (handler c) \<or> security (handler c') = UDS_SECURITY_LOCKED)"
  unfolding uds_service_diagnostic_session_control_def Let_def
  by (auto simp: cbind_Ret_iff same_defs split: if_splits dest!: respond_frame)

lemma ecu_reset_effect:
  "uds_service_ecu_reset P req n cap c = Ret (r, c') \<Longrightarrow> handler c' = handler c"
  unfolding uds_service_ecu_reset_def Let_def
  by (auto simp: cbind_Ret_iff split: if_splits)

lemma read_only_effect:
  "uds_service_tester_present req n cap c = Ret (r, c') \<Longrightarrow> handler c' = handler c \<and> plat c' = plat c"
  "uds_service_read_data_by_id req n cap c = Ret (r, c') \<Longrightarrow> handler c' = handler c \<and> plat c' = plat c"
  "uds_service_write_data_by_id req n cap c = Ret (r, c') \<Longrightarrow> handler c' = handler c \<and> plat c' = plat c"
  unfolding uds_service_tester_present_def uds_service_read_data_by_id_def
    uds_service_write_data_by_id_def Let_def
  by (auto simp: cbind_Ret_iff split: if_splits dest!: respond_frame)

lemma request_download_effect:
  "uds_service_request_download req n cap c = Ret (r, c') \<Longrightarrow>
    plat c' = plat c \<and> same_access (handler c) (handler c') \<and> same_buffers (handler c) (handler c')
    \<and> (same_transfer (handler c) (handler c')
       \<or> session (handler c) = UDS_SESSION_STATE_PROGRAMMING \<and> security (handler c) = UDS_SECURITY_UNLOCKED
         \<and> transfer_active (handler c') \<and> block_sequence_counter (handler c') = 1
         \<and> transfer_received (handler c') = 0)"
  unfolding uds_service_request_download_def Let_def
  by (auto simp: cbind_Ret_iff same_defs split: if_splits dest!: respond_frame)

definition next_block :: "u8 \<Rightarrow> u8" where
  "next_block b = (if b + 1 = 0 then 1 else b + 1)"

lemma next_block_nonzero [simp]: "next_block b \<noteq> 0"
  by (simp add: next_block_def)

lemma transfer_data_effect:
  assumes "uds_service_transfer_data P req n cap c = Ret (r, c')"
  shows "same_access (handler c) (handler c') \<and> same_buffers (handler c) (handler c')
    \<and> (same_transfer (handler c) (handler c')
       \<or> transfer_active (handler c) \<and> transfer_active (handler c')
         \<and> block_sequence_counter (handler c') = next_block (block_sequence_counter (handler c)))"
proof (cases "n < 2 \<or> \<not> transfer_active (handler c) \<or> buf_get req 1 \<noteq> Ret (block_sequence_counter (handler c))")
  case True
  then have "c' = c"
    using assms by (auto simp: uds_service_transfer_data_def Let_def cbind_Ret_iff split: if_splits)
  then show ?thesis by simp
next
  case False
  obtain d where d: "buf_slice req 2 (unat (n - 2)) = Ret d"
    using assms False by (auto simp: uds_service_transfer_data_def Let_def cbind_Ret_iff)
  obtain w p where "platform_write_firmware P (transfer_address (handler c) + transfer_received (handler c))
      d (plat c) = (w, p)"
    by fastforce
  with assms False d show ?thesis
    by (auto simp: uds_service_transfer_data_def Let_def next_block_def same_defs
        split: if_splits dest!: respond_frame)
qed

lemma transfer_exit_effect:
  "uds_service_request_transfer_exit req n cap c = Ret (r, c') \<Longrightarrow>
    plat c' = plat c \<and> same_access (handler c) (handler c') \<and> same_buffers (handler c) (handler c')
    \<and> (same_transfer (handler c) (handler c') \<or> \<not> transfer_active (handler c'))"
  unfolding uds_service_request_transfer_exit_def Let_def
  by (auto simp: same_defs split: if_splits dest!: respond_frame)

text \<open>The key bytes of a request are the key of the handler's seed.\<close>

definition key_message :: "'p uds_platform \<Rightarrow> UDSHandler \<Rightarrow> bytes \<Rightarrow> bool" where
  "key_message P h req \<longleftrightarrow> req ! 1 = 0x02
     \<and> be32_val (req ! 2) (req ! 3) (req ! 4) (req ! 5) = platform_calculate_key P (seed h)"

definition locked_out :: "'p uds_platform \<Rightarrow> UDSHandler \<Rightarrow> 'p \<Rightarrow> bool" where
  "locked_out P h p \<longleftrightarrow> UDS_SECURITY_ACCESS_ATTEMPTS \<le> security_attempts h
     \<and> fst (platform_get_tick_ms P p) - security_lockout_time h < UDS_SECURITY_ACCESS_DELAY_MS"

lemma buf_get_Ret: "buf_get b i = Ret v \<longleftrightarrow> i < length b \<and> v = b ! i"
  by (auto simp: buf_get_def)

lemma security_seed_effect:
  "security_seed P sf cap c = Ret (r, c') \<Longrightarrow>
    same_transfer (handler c) (handler c') \<and> same_buffers (handler c) (handler c')
    \<and> session (handler c') = session (handler c) \<and> security (handler c') = security (handler c)
    \<and> security_attempts (handler c') = security_attempts (handler c)"
  unfolding security_seed_def Let_def
  by (auto simp: split_def same_defs split: if_splits dest!: respond_frame)

lemma attempts_succ: "\<not> 3 \<le> (k :: u8) \<Longrightarrow> k + 1 \<le> 3"
proof -
  assume "\<not> 3 \<le> k"
  then have "unat k < 3"
    by (simp add: word_less_nat_alt not_le)
  then have "unat (k + 1) = unat k + 1"
    by (subst unat_add_no_wrap) auto
  then show ?thesis
    using \<open>unat k < 3\<close> by (simp add: word_le_nat_alt)
qed

lemma security_key_effect:
  "security_key P sf req n cap c = Ret (r, c') \<Longrightarrow> \<not> 3 \<le> security_attempts (handler c) \<Longrightarrow>
    same_transfer (handler c) (handler c') \<and> same_buffers (handler c) (handler c')
    \<and> session (handler c') = session (handler c) \<and> security_attempts (handler c') \<le> 3
    \<and> (security (handler c') = security (handler c) \<or>
       be32_val (req ! 2) (req ! 3) (req ! 4) (req ! 5) = platform_calculate_key P (seed (handler c)))"
  unfolding security_key_def Let_def be32_val_def
  by (auto simp: cbind_Ret_iff buf_get_Ret split_def same_defs split: if_splits
      dest!: respond_frame dest: attempts_succ)

lemma security_subfunction_effect:
  "security_subfunction P sf req n cap c = Ret (r, c') \<Longrightarrow> \<not> 3 \<le> security_attempts (handler c) \<Longrightarrow>
    same_transfer (handler c) (handler c') \<and> same_buffers (handler c) (handler c')
    \<and> session (handler c') = session (handler c) \<and> security_attempts (handler c') \<le> 3
    \<and> (security (handler c') = security (handler c) \<or>
       sf = 2 \<and> be32_val (req ! 2) (req ! 3) (req ! 4) (req ! 5) = platform_calculate_key P (seed (handler c)))"
  unfolding security_subfunction_def
  by (auto split: if_splits dest!: security_seed_effect security_key_effect)

lemma security_access_effect:
  assumes "uds_service_security_access P req n cap c = Ret (r, c')"
  shows "same_transfer (handler c) (handler c') \<and> same_buffers (handler c) (handler c')
    \<and> session (handler c') = session (handler c)
    \<and> (security_attempts (handler c) \<le> 3 \<longrightarrow> security_attempts (handler c') \<le> 3)
    \<and> (security (handler c') = security (handler c) \<or>
       key_message P (handler c) req \<and> \<not> locked_out P (handler c) (plat c))"
proof -
  let ?h = "handler c"
  obtain now p where tick: "platform_get_tick_ms P (plat c) = (now, p)"
    by (cases "platform_get_tick_ms P (plat c)")
  have "handler c' = ?h \<or>
    security_subfunction P (req ! 1) req n cap c = Ret (r, c') \<and> \<not> 3 \<le> security_attempts ?h \<or>
    security_subfunction P (req ! 1) req n cap (c\<lparr>handler := ?h\<lparr>security_attempts := 0\<rparr>, plat := p\<rparr>) = Ret (r, c')
      \<and> \<not> now - security_lockout_time ?h < UDS_SECURITY_ACCESS_DELAY_MS"
    using assms tick unfolding uds_service_security_access_def Let_def
    by (auto simp: cbind_Ret_iff buf_get_Ret split: if_splits)
  then consider (none) "handler c' = ?h"
    | (sub) "security_subfunction P (req ! 1) req n cap c = Ret (r, c')" "\<not> 3 \<le> security_attempts ?h"
    | (late) "security_subfunction P (req ! 1) req n cap (c\<lparr>handler := ?h\<lparr>security_attempts := 0\<rparr>, plat := p\<rparr>)
        = Ret (r, c')" "\<not> now - security_lockout_time ?h < UDS_SECURITY_ACCESS_DELAY_MS"
    by blast
  then show ?thesis
  proof cases
    case none
    then show ?thesis by simp
  next
    case sub
    then show ?thesis
      using security_subfunction_effect [OF sub] by (auto simp: key_message_def locked_out_def)
  next
    case late
    then show ?thesis
      using security_subfunction_effect [OF late(1)] tick
      by (auto simp: key_message_def locked_out_def same_defs)
  qed
qed

lemmas service_effects = session_control_effect ecu_reset_effect read_only_effect request_download_effect
  transfer_data_effect transfer_exit_effect security_access_effect


lemma process_safety:
  assumes "uds_handler_process P (Some h) request n resp cap rlen p = Ret (r, h', out', len', p')"
  shows "\<exists>h1. h' = Some h1 \<and> same_buffers h h1
    \<and> (security_attempts h \<le> 3 \<longrightarrow> security_attempts h1 \<le> 3)
    \<and> (security h1 = security h \<or> security h1 = UDS_SECURITY_LOCKED \<or>
       (\<exists>req. request = Some req \<and> req ! 0 = 0x27 \<and> key_message P h req \<and> \<not> locked_out P h p))
    \<and> (same_transfer h h1
       \<or> transfer_active h \<and> transfer_active h1 \<and> block_sequence_counter h1 \<noteq> 0
       \<or> \<not> transfer_active h1
       \<or> session h = UDS_SESSION_STATE_PROGRAMMING \<and> security h = UDS_SECURITY_UNLOCKED
         \<and> block_sequence_counter h1 \<noteq> 0)"
  using assms
proof (cases rule: process_cases)
  case refused
  then show ?thesis by simp
next
  case (service req s r1 c c1)
  from service(2,3) show ?thesis
    unfolding service(1) service(4) [symmetric] service(5) [symmetric] service(6)
    by (auto simp: service_table_def same_access_def dest!: service_effects)
qed

section \<open>Reachable handler states\<close>

text \<open>
  What an initialised handler becomes under any sequence of requests, buffers and platform states
  (time passes and the platform's state changes freely between two requests).
\<close>

inductive uds_reachable :: "'p uds_platform \<Rightarrow> UDSHandler \<Rightarrow> bool" for P where
  init: "uds_handler_init (Some h0) = Some h \<Longrightarrow> uds_reachable P h"
| request: "uds_reachable P h \<Longrightarrow>
    uds_handler_process P (Some h) req n resp cap rlen p = Ret (r, Some h', out', len', p') \<Longrightarrow>
    uds_reachable P h'"

inductive_cases uds_reachableE: "uds_reachable P h"



text \<open>
  C2. Unlocking needs the key. The one request that turns a locked handler into an unlocked one is
  a Security Access message 27 02 whose four key bytes, read big-endian, are the platform's key for
  the stored seed; and no request does it while the lockout delay runs.
\<close>
theorem uds_unlock_only_by_key:
  assumes "uds_handler_process P (Some h) (Some req) n resp cap rlen p = Ret (r, Some h', out', len', p')"
    "security h = UDS_SECURITY_LOCKED" "security h' = UDS_SECURITY_UNLOCKED"
  shows "req ! 0 = 0x27 \<and> req ! 1 = 0x02
    \<and> be32_val (req ! 2) (req ! 3) (req ! 4) (req ! 5) = platform_calculate_key P (seed h)
    \<and> \<not> locked_out P h p"
  using process_safety [OF assms(1)] assms(2,3) by (auto simp: key_message_def)

theorem uds_unlock_only_by_key_witness:
  "\<exists>r h' out' len' p'. uds_handler_process tc375_platform (Some uds_handler_zero)
       (Some [0x27, 0x02, 0x48, 0x6E, 0xF1, 0x97]) 6 (Some (replicate 8 0)) 8 (Some 0) \<lparr>dummy_tick = 0\<rparr>
     = Ret (r, Some h', out', len', p')
     \<and> be32_val 0x48 0x6E 0xF1 0x97 = uds_platform_calculate_key (seed uds_handler_zero)"
proof -
  let ?h = "uds_handler_zero\<lparr>security := UDS_SECURITY_UNLOCKED\<rparr>"
  have run: "uds_handler_process tc375_platform (Some uds_handler_zero)
       (Some [0x27, 0x02, 0x48, 0x6E, 0xF1, 0x97]) 6 (Some (replicate 8 0)) 8 (Some 0) \<lparr>dummy_tick = 0\<rparr>
     = Ret (0, Some ?h, Some [0x67, 0x02, 0, 0, 0, 0, 0, 0], Some 2, \<lparr>dummy_tick = 0\<rparr>)"
    by code_simp
  show ?thesis
    using run uds_unlock_only_by_key [OF run] by (simp add: uds_handler_zero_def)
qed

text \<open>
  The lockout holds. While three failed attempts are recorded and less than 10000 ms have
  passed on the 32-bit tick since the last of them, every Security Access request of at least two
  bytes is answered 7F 27 37; the handler does not change.
\<close>
theorem uds_lockout_refuses:
  assumes "locked_out P h p" "req ! 0 = 0x27" "2 \<le> n" "unat n \<le> length req"
    "3 \<le> cap" "unat cap \<le> length out"
  shows "uds_handler_process P (Some h) (Some req) n (Some out) cap (Some len) p
    = Ret (0, Some h, Some ([0x7F, 0x27, 0x37] @ drop 3 out), Some 3, snd (platform_get_tick_ms P p))"
proof -
  have n: "n \<noteq> 0" "\<not> n < 2" "2 \<le> length req" "3 \<le> unat cap"
    using assms(3-5) by (auto simp: not_less word_le_nat_alt)
  then obtain sf r where req: "req = 0x27 # sf # r"
    using assms(2) by (cases req; cases "tl req") auto
  show ?thesis
    using assms(1,6) n by (simp add: uds_handler_process_def uds_dispatch_def req buf_get_def find_service_def
        service_table_def uds_service_security_access_def locked_out_def split_def Let_def reject_ok)
qed

theorem uds_lockout_refuses_witness:
  "uds_handler_process tc375_platform (Some (uds_handler_zero\<lparr>security_attempts := 3\<rparr>)) (Some [0x27, 0x01]) 2
      (Some [0, 0, 0]) 3 (Some 0) \<lparr>dummy_tick = 5\<rparr>
    = Ret (0, Some (uds_handler_zero\<lparr>security_attempts := 3\<rparr>), Some [0x7F, 0x27, 0x37], Some 3, \<lparr>dummy_tick = 6\<rparr>)"
  using uds_lockout_refuses [of tc375_platform "uds_handler_zero\<lparr>security_attempts := 3\<rparr>" "\<lparr>dummy_tick = 5\<rparr>"
      "[0x27, 0x01]" 2 3 "[0, 0, 0]" 0]
  by (simp add: locked_out_def uds_handler_zero_def uds_platform_get_tick_ms_def)





section \<open>A whole firmware download\<close>

text \<open>
  The tester's side of a download: the TransferData requests with the block numbers 1 to 255 and
  again from 1, and the specification of what the flash then holds, block after block at
  consecutive addresses. \<open>uds_serve\<close> sends requests one by one, each with a fresh response buffer,
  and collects the responses.
\<close>

fun ota_blocks :: "u8 \<Rightarrow> bytes list \<Rightarrow> bytes list" where
  "ota_blocks k [] = []"
| "ota_blocks k (d # ds) = ([0x36, k] @ d) # ota_blocks (next_block k) ds"

fun ota_acks :: "u8 \<Rightarrow> bytes list \<Rightarrow> bytes list" where
  "ota_acks k [] = []"
| "ota_acks k (d # ds) = [0x76, k] # ota_acks (next_block k) ds"

fun flash_blocks :: "'p uds_platform \<Rightarrow> u32 \<Rightarrow> bytes list \<Rightarrow> 'p \<Rightarrow> 'p" where
  "flash_blocks P a [] p = p"
| "flash_blocks P a (d # ds) p = flash_blocks P (a + of_nat (length d)) ds (snd (platform_write_firmware P a d p))"

fun flash_accepts :: "'p uds_platform \<Rightarrow> u32 \<Rightarrow> bytes list \<Rightarrow> 'p \<Rightarrow> bool" where
  "flash_accepts P a [] p \<longleftrightarrow> True"
| "flash_accepts P a (d # ds) p \<longleftrightarrow> fst (platform_write_firmware P a d p) = 0
     \<and> flash_accepts P (a + of_nat (length d)) ds (snd (platform_write_firmware P a d p))"

fun uds_serve :: "'p uds_platform \<Rightarrow> size_t \<Rightarrow> bytes list \<Rightarrow> UDSHandler \<Rightarrow> 'p
    \<Rightarrow> (bytes list \<times> UDSHandler \<times> 'p) cexec" where
  "uds_serve P cap [] h p = Ret ([], h, p)"
| "uds_serve P cap (req # reqs) h p =
     cbind (uds_handler_process P (Some h) (Some req) (of_nat (length req)) (Some (replicate (unat cap) 0)) cap
              (Some 0) p) (\<lambda>(r, h', out', len', p').
     cbind (deref h') (\<lambda>h'. cbind (deref out') (\<lambda>out'. cbind (deref len') (\<lambda>len'.
     cbind (uds_serve P cap reqs h' p') (\<lambda>(rs, h'', p'').
     Ret (take (unat len') out' # rs, h'', p''))))))"

lemma uds_serve_append:
  "uds_serve P cap (xs @ ys) h p = cbind (uds_serve P cap xs h p) (\<lambda>(rs, h', p').
     cbind (uds_serve P cap ys h' p') (\<lambda>(rs', h'', p''). Ret (rs @ rs', h'', p'')))"
  by (induction xs arbitrary: h p) (auto simp: cbind_assoc split_def intro!: cbind_cong)

lemma serve_one:
  assumes "uds_dispatch P req (of_nat (length req)) cap
      \<lparr>handler = h, response = Some (replicate (unat cap) 0), resp_len = Some 0, plat = p\<rparr> = Ret (r, c)"
    "response c = Some out" "resp_len c = Some k" "(of_nat (length req) :: size_t) \<noteq> 0"
  shows "uds_serve P cap (req # reqs) h p = cbind (uds_serve P cap reqs (handler c) (plat c))
    (\<lambda>(rs, h'', p''). Ret (take (unat k) out # rs, h'', p''))"
  using assms by (simp add: uds_handler_process_def)

definition after_block :: "UDSHandler \<Rightarrow> nat \<Rightarrow> UDSHandler" where
  "after_block h n = h\<lparr>transfer_received := transfer_received h + of_nat n,
     block_sequence_counter := next_block (block_sequence_counter h)\<rparr>"

lemma length_req_size_t:
  assumes "length d + 2 < 2 ^ 32"
  shows "(of_nat (length d + 2) :: size_t) \<noteq> 0" "\<not> (of_nat (length d + 2) :: size_t) < 2"
    "(of_nat (length d + 2) :: size_t) - 2 = of_nat (length d)" "unat (of_nat (length d) :: size_t) = length d"
proof -
  have "unat (of_nat (length d + 2) :: size_t) = length d + 2"
    using assms by (intro unat_le_of_nat) simp
  then show "\<not> (of_nat (length d + 2) :: size_t) < 2"
    by (simp add: word_less_nat_alt)
  then show "(of_nat (length d + 2) :: size_t) \<noteq> 0"
    by (auto simp del: of_nat_add)
  show "(of_nat (length d + 2) :: size_t) - 2 = of_nat (length d)"
    by simp
  show "unat (of_nat (length d) :: size_t) = length d"
    using assms by (intro unat_le_of_nat) simp
qed

lemma serve_block:
  assumes "transfer_active h" "length d + 2 < 2 ^ 32" "3 \<le> cap"
    "platform_write_firmware P (transfer_address h + transfer_received h) d p = (0, p')"
  shows "uds_serve P cap (([0x36, block_sequence_counter h] @ d) # reqs) h p =
    cbind (uds_serve P cap reqs (after_block h (length d)) p')
      (\<lambda>(rs, h'', p''). Ret ([0x76, block_sequence_counter h] # rs, h'', p''))"
proof -
  let ?k = "block_sequence_counter h" and ?n = "of_nat (length d + 2) :: size_t"
  let ?c = "\<lparr>handler = h, response = Some (replicate (unat cap) 0), resp_len = Some 0, plat = p\<rparr>"
  let ?c1 = "?c\<lparr>handler := after_block h (length d), plat := p'\<rparr>"
  have cap: "\<not> cap < 2"
    using assms(3) by (simp add: word_less_nat_alt word_le_nat_alt)
  have len: "length ([0x36, ?k] @ d) = length d + 2"
    by simp
  have "uds_service_transfer_data P ([0x36, ?k] @ d) ?n cap ?c = respond 0x36 (Some [?k]) 1 cap ?c1"
    using assms(1,4) length_req_size_t [OF assms(2)]
    by (simp add: uds_service_transfer_data_def Let_def buf_get_def buf_slice_def after_block_def next_block_def)
  also have "\<dots> = Ret (0, ?c1\<lparr>response := Some (0x76 # [?k] @ drop 2 (replicate (unat cap) 0)),
      resp_len := Some 2\<rparr>)"
    using cap by (subst respond_ok [where out = "replicate (unat cap) 0"]) (simp_all add: numeral_2_eq_2)
  finally have "uds_dispatch P ([0x36, ?k] @ d) (of_nat (length ([0x36, ?k] @ d))) cap ?c
      = Ret (0, ?c1\<lparr>response := Some (0x76 # [?k] @ drop 2 (replicate (unat cap) 0)), resp_len := Some 2\<rparr>)"
    unfolding len by (simp add: uds_dispatch_def buf_get_def find_service_def service_table_def)
  from serve_one [OF this, of "0x76 # [?k] @ drop 2 (replicate (unat cap) 0)" 2 reqs] show ?thesis
    using length_req_size_t(1) [OF assms(2)] unfolding len by (simp del: uds_serve.simps)
qed

lemma serve_blocks:
  assumes "transfer_active h" "3 \<le> cap" "\<forall>d \<in> set ds. length d + 2 < 2 ^ 32"
    "flash_accepts P (transfer_address h + transfer_received h) ds p"
  shows "\<exists>k. uds_serve P cap (ota_blocks (block_sequence_counter h) ds) h p
    = Ret (ota_acks (block_sequence_counter h) ds,
        h\<lparr>transfer_received := transfer_received h + of_nat (sum_list (map length ds)),
          block_sequence_counter := k\<rparr>,
        flash_blocks P (transfer_address h + transfer_received h) ds p)"
  using assms
proof (induction ds arbitrary: h p)
  case Nil
  show ?case
    by (rule exI [of _ "block_sequence_counter h"]) simp
next
  case (Cons d ds)
  obtain p' where w: "platform_write_firmware P (transfer_address h + transfer_received h) d p = (0, p')"
    using Cons.prems(4) by (cases "platform_write_firmware P (transfer_address h + transfer_received h) d p") simp
  let ?h = "after_block h (length d)"
  have "\<exists>k. uds_serve P cap (ota_blocks (block_sequence_counter ?h) ds) ?h p'
    = Ret (ota_acks (block_sequence_counter ?h) ds,
        ?h\<lparr>transfer_received := transfer_received ?h + of_nat (sum_list (map length ds)),
          block_sequence_counter := k\<rparr>,
        flash_blocks P (transfer_address ?h + transfer_received ?h) ds p')"
    using Cons.prems w by (intro Cons.IH) (auto simp: after_block_def add.assoc)
  then obtain k where rest: "uds_serve P cap (ota_blocks (block_sequence_counter ?h) ds) ?h p'
    = Ret (ota_acks (block_sequence_counter ?h) ds,
        ?h\<lparr>transfer_received := transfer_received ?h + of_nat (sum_list (map length ds)),
          block_sequence_counter := k\<rparr>,
        flash_blocks P (transfer_address ?h + transfer_received ?h) ds p')"
    by blast
  have "block_sequence_counter ?h = next_block (block_sequence_counter h)"
    by (simp add: after_block_def)
  with rest Cons.prems w show ?case
    by (intro exI [of _ k])
      (simp only: ota_blocks.simps ota_acks.simps flash_blocks.simps serve_block cbind.simps
         list.set ball_simps snd_conv, simp add: after_block_def add.assoc)
qed


lemma read_be_4: "uds_read_be req off 4 acc =
  cbind (buf_get req off) (\<lambda>b0. cbind (buf_get req (off + 1)) (\<lambda>b1.
  cbind (buf_get req (off + 2)) (\<lambda>b2. cbind (buf_get req (off + 3)) (\<lambda>b3.
  Ret (push_bit 8 (push_bit 8 (push_bit 8 (push_bit 8 acc OR ucast b0) OR ucast b1) OR ucast b2) OR ucast b3)))))"
  by (simp add: numeral_eq_Suc)

lemma shift_in_be32: "push_bit 8 (push_bit 8 (push_bit 8 (push_bit 8 0 OR ucast a) OR ucast b) OR ucast c) OR ucast d
    = be32_val a b c d"
  unfolding be32_val_def by (rule bit_word_eqI) (auto simp: bit_simps)

lemma read_be_be32:
  assumes "req = pre @ be32 x @ post" "off = length pre"
  shows "uds_read_be req off 4 0 = Ret x"
  unfolding read_be_4 shift_in_be32 using assms
  by (simp add: buf_get_def nth_append be32_val_nth [unfolded One_nat_def] del: push_bit_of_0)

lemma serve_download:
  assumes "session h = UDS_SESSION_STATE_PROGRAMMING" "security h = UDS_SECURITY_UNLOCKED" "4 \<le> cap"
  shows "uds_serve P cap (([0x34, fmt, 0x44] @ be32 a @ be32 s) # reqs) h p =
    cbind (uds_serve P cap reqs (h\<lparr>transfer_active := True, block_sequence_counter := 1,
        transfer_address := a, transfer_size := s, transfer_received := 0\<rparr>) p)
      (\<lambda>(rs, h'', p''). Ret ([0x74, 0x20, 0x04, 0x00] # rs, h'', p''))"
proof -
  let ?req = "[0x34, fmt, 0x44] @ be32 a @ be32 s"
  let ?c = "\<lparr>handler = h, response = Some (replicate (unat cap) 0), resp_len = Some 0, plat = p\<rparr>"
  let ?h = "h\<lparr>transfer_active := True, block_sequence_counter := 1,
        transfer_address := a, transfer_size := s, transfer_received := 0\<rparr>"
  have cap: "\<not> cap < 4"
    using assms(3) by simp
  have rd: "uds_read_be ?req 3 4 0 = Ret a" "uds_read_be ?req 7 4 0 = Ret s"
    by (rule read_be_be32 [of _ "[0x34, fmt, 0x44]" _ "be32 s"], simp_all)
      (rule read_be_be32 [of _ "[0x34, fmt, 0x44] @ be32 a" _ "[]"], simp_all)
  have len: "length ?req = 11" "?req ! 2 = 0x44" "?req ! 0 = 0x34"
    by simp_all
  have "uds_service_request_download ?req 11 cap ?c = respond 0x34 (Some [0x20, 0x04, 0x00]) 3 cap (?c\<lparr>handler := ?h\<rparr>)"
    using assms rd len by (simp add: uds_service_request_download_def Let_def buf_get_def del: append.simps)
  also have "\<dots> = Ret (0, ?c\<lparr>handler := ?h, response := Some ([0x74, 0x20, 0x04, 0x00] @ drop 4 (replicate (unat cap) 0)),
      resp_len := Some 4\<rparr>)"
    using cap by (subst respond_ok [where out = "replicate (unat cap) 0"]) simp_all
  finally have "uds_dispatch P ?req (of_nat (length ?req)) cap ?c = Ret (0, ?c\<lparr>handler := ?h,
      response := Some ([0x74, 0x20, 0x04, 0x00] @ drop 4 (replicate (unat cap) 0)), resp_len := Some 4\<rparr>)"
    unfolding len(1) using len(3)
    by (simp add: uds_dispatch_def buf_get_def find_service_def service_table_def del: append.simps)
  from serve_one [OF this, of "[0x74, 0x20, 0x04, 0x00] @ drop 4 (replicate (unat cap) 0)" 4 reqs] show ?thesis
    by (simp del: uds_serve.simps)
qed

lemma serve_exit:
  assumes "transfer_active h" "transfer_received h = transfer_size h" "4 \<le> cap"
  shows "uds_serve P cap [[0x37]] h p = Ret ([[0x77]], h\<lparr>transfer_active := False\<rparr>, p)"
proof -
  let ?c = "\<lparr>handler = h, response = Some (replicate (unat cap) 0), resp_len = Some 0, plat = p\<rparr>"
  have cap: "\<not> cap < 1"
    using assms(3) by auto
  have "uds_service_request_transfer_exit [0x37] 1 cap ?c = Ret (0, ?c\<lparr>handler := h\<lparr>transfer_active := False\<rparr>,
      response := Some ([0x77] @ drop 1 (replicate (unat cap) 0)), resp_len := Some 1\<rparr>)"
    using assms cap unfolding uds_service_request_transfer_exit_def Let_def respond_None
    by (subst respond_ok [where out = "replicate (unat cap) 0"]) simp_all
  then have "uds_dispatch P [0x37] (of_nat (length [0x37 :: u8])) cap ?c = Ret (0, ?c\<lparr>handler := h\<lparr>transfer_active := False\<rparr>,
      response := Some ([0x77] @ drop 1 (replicate (unat cap) 0)), resp_len := Some 1\<rparr>)"
    by (simp add: uds_dispatch_def buf_get_def find_service_def service_table_def)
  from serve_one [OF this, of "[0x77] @ drop 1 (replicate (unat cap) 0)" 1 "[]"] show ?thesis
    by simp
qed

text \<open>
  C4. A whole firmware update. In the programming session, unlocked, with a flash that accepts the
  blocks, RequestDownload, the blocks numbered 1 to 255 and again from 1, and RequestTransferExit
  are all answered positively; the flash receives exactly the blocks, in order, at consecutive
  addresses from the announced one, and the transfer is closed.
\<close>
theorem uds_download_writes_image:
  assumes "session h = UDS_SESSION_STATE_PROGRAMMING" "security h = UDS_SECURITY_UNLOCKED" "4 \<le> cap"
    "\<forall>d \<in> set ds. length d + 2 < 2 ^ 32" "flash_accepts P a ds p"
  shows "\<exists>h'. uds_serve P cap ([[0x34, fmt, 0x44] @ be32 a @ be32 (of_nat (length (concat ds)))]
        @ ota_blocks 1 ds @ [[0x37]]) h p
      = Ret ([[0x74, 0x20, 0x04, 0x00]] @ ota_acks 1 ds @ [[0x77]], h', flash_blocks P a ds p)
    \<and> \<not> transfer_active h' \<and> transfer_received h' = of_nat (length (concat ds))"
proof -
  let ?s = "of_nat (length (concat ds)) :: u32"
  let ?h = "h\<lparr>transfer_active := True, block_sequence_counter := 1, transfer_address := a,
      transfer_size := ?s, transfer_received := 0\<rparr>"
  have "3 \<le> cap"
    using assms(3) by (simp add: word_le_nat_alt)
  then obtain k where "uds_serve P cap (ota_blocks 1 ds) ?h p
      = Ret (ota_acks 1 ds, ?h\<lparr>transfer_received := ?s, block_sequence_counter := k\<rparr>, flash_blocks P a ds p)"
    using serve_blocks [of ?h cap ds P p] assms(4,5) by (auto simp: length_concat)
  then have "uds_serve P cap (ota_blocks 1 ds @ [[0x37]]) ?h p = Ret (ota_acks 1 ds @ [[0x77]],
      ?h\<lparr>transfer_received := ?s, block_sequence_counter := k, transfer_active := False\<rparr>, flash_blocks P a ds p)"
    using assms(3) by (simp add: uds_serve_append serve_exit del: uds_serve.simps)
  with serve_download [OF assms(1-3), of P fmt a ?s "ota_blocks 1 ds @ [[0x37]]" p] show ?thesis
    by (simp del: uds_serve.simps)
qed


theorem uds_download_writes_image_witness:
  "\<exists>h'. uds_serve tc375_platform 16 [[0x34, 0, 0x44] @ be32 0x80400000 @ be32 3, [0x36, 1, 7, 8], [0x36, 2, 9], [0x37]]
      (uds_handler_zero\<lparr>session := UDS_SESSION_STATE_PROGRAMMING, security := UDS_SECURITY_UNLOCKED\<rparr>) \<lparr>dummy_tick = 0\<rparr>
    = Ret ([[0x74, 0x20, 4, 0], [0x76, 1], [0x76, 2], [0x77]], h', \<lparr>dummy_tick = 0\<rparr>) \<and> \<not> transfer_active h'"
  using uds_download_writes_image [where h = "uds_handler_zero\<lparr>session := UDS_SESSION_STATE_PROGRAMMING,
      security := UDS_SECURITY_UNLOCKED\<rparr>" and cap = 16 and ds = "[[7, 8], [9]]" and P = tc375_platform
      and a = "0x80400000" and p = "\<lparr>dummy_tick = 0\<rparr>" and fmt = 0]
  by (auto simp: uds_handler_zero_def uds_platform_write_firmware_def next_block_def simp del: uds_serve.simps)

text \<open>
  An open transfer outlives the authority that opened it. With a transfer active, returning to
  the default session (which locks the handler again) leaves the transfer open, and the next
  TransferData request still writes its bytes to flash and is answered positively, whatever the
  announced size was.
\<close>
theorem uds_transfer_survives_relock:
  assumes "transfer_active h" "length d + 2 < 2 ^ 32" "4 \<le> cap"
    "platform_write_firmware P (transfer_address h + transfer_received h) d p = (0, p')"
  shows "\<exists>h1 h2. uds_serve P cap [[0x10, 0x01]] h p = Ret ([[0x50, 0x01]], h1, p)
    \<and> session h1 = UDS_SESSION_STATE_DEFAULT \<and> security h1 = UDS_SECURITY_LOCKED
    \<and> uds_serve P cap [[0x36, block_sequence_counter h] @ d] h1 p
      = Ret ([[0x76, block_sequence_counter h]], h2, p')
    \<and> transfer_received h2 = transfer_received h + of_nat (length d)"
proof -
  let ?h1 = "h\<lparr>session := UDS_SESSION_STATE_DEFAULT, security := UDS_SECURITY_LOCKED\<rparr>"
  let ?c = "\<lparr>handler = h, response = Some (replicate (unat cap) 0), resp_len = Some 0, plat = p\<rparr>"
  have cap: "\<not> cap < 2" "3 \<le> cap"
    using assms(3) by (simp_all add: word_less_nat_alt word_le_nat_alt)
  have "uds_service_diagnostic_session_control [0x10, 0x01] 2 cap ?c = Ret (0, ?c\<lparr>handler := ?h1,
      response := Some ([0x50, 0x01] @ drop 2 (replicate (unat cap) 0)), resp_len := Some 2\<rparr>)"
    using cap by (simp add: uds_service_diagnostic_session_control_def buf_get_def Let_def)
      (subst respond_ok [where out = "replicate (unat cap) 0"], simp_all add: numeral_2_eq_2)
  then have "uds_dispatch P [0x10, 0x01] (of_nat (length [0x10, 0x01 :: u8])) cap ?c = Ret (0, ?c\<lparr>handler := ?h1,
      response := Some ([0x50, 0x01] @ drop 2 (replicate (unat cap) 0)), resp_len := Some 2\<rparr>)"
    by (simp add: uds_dispatch_def buf_get_def find_service_def service_table_def)
  from serve_one [OF this, of "[0x50, 0x01] @ drop 2 (replicate (unat cap) 0)" 2 "[]"]
  have relock: "uds_serve P cap [[0x10, 0x01]] h p = Ret ([[0x50, 0x01]], ?h1, p)"
    by simp
  have "uds_serve P cap [[0x36, block_sequence_counter ?h1] @ d] ?h1 p
      = Ret ([[0x76, block_sequence_counter ?h1]], after_block ?h1 (length d), p')"
    using assms cap by (subst serve_block) simp_all
  with relock show ?thesis
    by (intro exI [of _ ?h1] exI [of _ "after_block ?h1 (length d)"]) (simp add: after_block_def del: uds_serve.simps)
qed

theorem uds_transfer_survives_relock_witness:
  "\<exists>h1 h2. uds_serve tc375_platform 8 [[0x36, 1, 5]] h1 \<lparr>dummy_tick = 0\<rparr> = Ret ([[0x76, 1]], h2, \<lparr>dummy_tick = 0\<rparr>)
    \<and> security h1 = UDS_SECURITY_LOCKED"
  using uds_transfer_survives_relock [of "uds_handler_zero\<lparr>transfer_active := True, block_sequence_counter := 1\<rparr>"
      "[5]" 8 tc375_platform "\<lparr>dummy_tick = 0\<rparr>" "\<lparr>dummy_tick = 0\<rparr>"]
  by (auto simp: uds_platform_write_firmware_def simp del: uds_serve.simps)

text \<open>
  The TC375 handler can be unlocked without asking for a seed. The stored seed of a fresh
  handler is 0, no generated seed ever is, and the constant key 48 6E F1 97 unlocks the fresh
  handler with the first message it receives; on any fresh handler no other key does.
\<close>
theorem uds_tc375_unlock_without_seed:
  "uds_serve tc375_platform 8 [[0x27, 0x02, 0x48, 0x6E, 0xF1, 0x97]] uds_handler_zero \<lparr>dummy_tick = t\<rparr>
     = Ret ([[0x67, 0x02]], uds_handler_zero\<lparr>security := UDS_SECURITY_UNLOCKED\<rparr>, \<lparr>dummy_tick = t\<rparr>)
   \<and> fst (uds_platform_generate_seed s) \<noteq> 0
   \<and> uds_platform_calculate_key (fst (uds_platform_generate_seed s)) \<noteq> be32_val 0x48 0x6E 0xF1 0x97"
proof -
  have key: "uds_platform_calculate_key 0 = be32_val 0x48 0x6E 0xF1 0x97"
    by code_simp
  have "uds_serve tc375_platform 8 [[0x27, 0x02, 0x48, 0x6E, 0xF1, 0x97]] uds_handler_zero \<lparr>dummy_tick = t\<rparr>
     = Ret ([[0x67, 0x02]], uds_handler_zero\<lparr>security := UDS_SECURITY_UNLOCKED\<rparr>, \<lparr>dummy_tick = t\<rparr>)"
    by code_simp
  then show ?thesis
    using tc375_sk.initial_key_not_for_a_seed [of s] tc375_sk.seed_nonzero [of s] key by simp
qed

text \<open>
  An accepted ECU reset never answers on the TC375. The handler writes the positive response
  and then enters the platform's endless loop, so the caller that would send the response is never
  returned to.
\<close>
theorem uds_tc375_reset_hangs:
  assumes "t \<in> {1, 2, 3}" "2 \<le> cap" "unat cap \<le> length out"
  shows "uds_handler_process tc375_platform (Some h) (Some [0x11, t]) 2 (Some out) cap (Some len) s = Hang"
proof -
  have "\<not> cap < 2"
    using assms(2) by (simp add: not_less)
  have "2 \<le> length out"
    using assms(2,3) by (auto simp: word_le_nat_alt)
  then obtain x y r where "out = x # y # r"
    by (cases out; cases "tl out") auto
  with assms(1) \<open>\<not> cap < 2\<close> show ?thesis
    by (auto simp: uds_handler_process_def uds_dispatch_def buf_get_def find_service_def service_table_def
        uds_service_ecu_reset_def uds_build_positive_response_def buf_put_def buf_slice_def buf_write_def
        uds_platform_ecu_reset_def Let_def)
qed

theorem uds_tc375_reset_hangs_witness:
  "uds_handler_process tc375_platform (Some uds_handler_zero) (Some [0x11, 0x01]) 2 (Some [0, 0, 0, 0]) 4 (Some 0)
     \<lparr>dummy_tick = 0\<rparr> = Hang"
  by (rule uds_tc375_reset_hangs) simp_all

end
