(* ===== verification/Zonal_Gateway.thy ===== *)
theory Zonal_Gateway
  imports DoIP_Client UDS_Handler
begin

text \<open>
  The zonal gateway's application: \<^verbatim>\<open>zonal_gateway/tc375/src/zonal_gateway.c\<close>, its header and
  \<^verbatim>\<open>zonal_gateway_main.c\<close>. The gateway is a client of the vehicle gateway (VMG) and keeps a
  registry of the ECUs of its zone. Every function with a body is here but \<^verbatim>\<open>zg_print_zone_vci\<close>,
  which only prints. The header declares seven more functions that no source file defines.
\<close>

section \<open>State\<close>

abbreviation ZG_MAX_ECUS :: nat where "ZG_MAX_ECUS \<equiv> 8"

record ZoneECUInfo =
  zecu_id :: bytes
  zecu_address :: u16
  firmware_version :: bytes
  hardware_version :: bytes
  is_online :: bool
  last_heartbeat_time :: u32
  ota_capable :: bool
  delta_update_supported :: bool
  max_package_size :: u32

record ZoneVCIData =
  vci_zone_id :: u8
  vci_count :: u8
  vci_ecus :: "ZoneECUInfo list"
  total_storage_mb :: u32
  available_storage_mb :: u32
  average_battery_level :: u8

datatype ZGState = ZG_STATE_INIT | ZG_STATE_DISCOVERING | ZG_STATE_CONNECTING_VMG | ZG_STATE_READY
  | ZG_STATE_OTA_IN_PROGRESS | ZG_STATE_ERROR

record ZonalGateway =
  zone_id :: u8
  zg_id :: bytes
  zg_address :: u16
  zg_state :: ZGState
  doip_server_tcp_socket :: int
  doip_server_udp_socket :: int
  json_server_socket :: int
  zone_vci :: ZoneVCIData
  zg_uds_handler :: UDSHandler
  vmg_client :: DoIPClient
  vmg_connected :: bool
  server_rx_buffer :: bytes
  server_tx_buffer :: bytes

definition ecu_info_zero :: ZoneECUInfo where
  "ecu_info_zero = \<lparr>zecu_id = replicate 32 0, zecu_address = 0, firmware_version = replicate 16 0,
     hardware_version = replicate 32 0, is_online = False, last_heartbeat_time = 0, ota_capable = False,
     delta_update_supported = False, max_package_size = 0\<rparr>"

definition zg_zero :: ZonalGateway where
  "zg_zero = \<lparr>zone_id = 0, zg_id = replicate 32 0, zg_address = 0, zg_state = ZG_STATE_INIT,
     doip_server_tcp_socket = 0, doip_server_udp_socket = 0, json_server_socket = 0,
     zone_vci = \<lparr>vci_zone_id = 0, vci_count = 0, vci_ecus = replicate ZG_MAX_ECUS ecu_info_zero,
       total_storage_mb = 0, available_storage_mb = 0, average_battery_level = 0\<rparr>,
     zg_uds_handler = uds_handler_zero, vmg_client = client_zero, vmg_connected = False,
     server_rx_buffer = replicate 4096 0, server_tx_buffer = replicate 4096 0\<rparr>"

section \<open>Formatted names\<close>

text \<open>\<open>%d\<close> of a non-negative number, and \<^verbatim>\<open>snprintf\<close> of a text into an array: cut and terminated.\<close>

fun decimal :: "nat \<Rightarrow> bytes" where
  "decimal n = (if n < 10 then [48 + of_nat n] else decimal (n div 10) @ [48 + of_nat (n mod 10)])"

declare decimal.simps [simp del]

definition decimal3 :: "nat \<Rightarrow> bytes" where
  "decimal3 n = replicate (3 - length (decimal n)) 48 @ decimal n"

definition c_snprintf :: "bytes \<Rightarrow> bytes \<Rightarrow> bytes cexec" where
  "c_snprintf dst s = buf_write dst 0 (take (length dst - 1) s @ [0])"

definition zg_get_zone_name :: "u8 \<Rightarrow> bytes cexec" where
  "zg_get_zone_name zid = c_snprintf (replicate 32 0) (map of_char ''Zone_'' @ decimal (unat zid))"

section \<open>Life cycle\<close>

text \<open>The result of \<open>doip_client_init\<close> is ignored, as in the source.\<close>

definition zg_init ::
  "'w doip_sockets \<Rightarrow> ZonalGateway option \<Rightarrow> u8 \<Rightarrow> bytes option \<Rightarrow> u16 \<Rightarrow> (int \<times> ZonalGateway option) cexec" where
  "zg_init S zg zid vmg_ip vmg_port =
     (case zg of
        None \<Rightarrow> Ret (-1, None)
      | Some _ \<Rightarrow>
          let g0 = zg_zero\<lparr>zone_id := zid\<rparr> in
          cbind (c_snprintf (zg_id g0) (map of_char ''ZG-'' @ decimal3 (unat zid))) (\<lambda>name.
          let g1 = g0\<lparr>zg_id := name, zg_address := 0x0200 + ucast zid, zg_state := ZG_STATE_INIT\<rparr>;
              (r, client) = doip_client_init S (Some (vmg_client g1)) vmg_ip vmg_port (zg_address g1) 0x0100
          in cbind (deref client) (\<lambda>c. cbind (deref (uds_handler_init (Some (zg_uds_handler g1)))) (\<lambda>h.
             Ret (0, Some (g1\<lparr>vmg_client := c, zg_uds_handler := h,
                zone_vci := (zone_vci g1)\<lparr>vci_zone_id := zid, vci_count := 0\<rparr>\<rparr>))))))"

definition zg_start :: "ZonalGateway option \<Rightarrow> int \<times> ZonalGateway option" where
  "zg_start zg = (case zg of None \<Rightarrow> (-1, None) | Some g \<Rightarrow> (0, Some (g\<lparr>zg_state := ZG_STATE_READY\<rparr>)))"

definition zg_stop :: "'w doip_sockets \<Rightarrow> ZonalGateway option \<Rightarrow> 'w \<Rightarrow> (ZonalGateway option \<times> 'w) cexec" where
  "zg_stop S zg w =
     (case zg of
        None \<Rightarrow> Ret (None, w)
      | Some g \<Rightarrow>
          let (client, w1) = (if 0 \<le> tcp_socket (vmg_client g)
                then doip_client_disconnect S (Some (vmg_client g)) w else (Some (vmg_client g), w))
          in cbind (deref client) (\<lambda>c. Ret (Some (g\<lparr>vmg_client := c, zg_state := ZG_STATE_INIT\<rparr>), w1)))"

text \<open>The loop body is empty but for comments.\<close>

definition zg_run :: "ZonalGateway option \<Rightarrow> ZonalGateway option" where
  "zg_run zg = (case zg of None \<Rightarrow> None | Some g \<Rightarrow> Some g)"

section \<open>The client of the VMG\<close>

definition zg_connect_to_vmg ::
  "'w doip_sockets \<Rightarrow> ZonalGateway option \<Rightarrow> 'w \<Rightarrow> (int \<times> ZonalGateway option \<times> 'w) cexec" where
  "zg_connect_to_vmg S zg w =
     (case zg of
        None \<Rightarrow> Ret (-1, None, w)
      | Some g \<Rightarrow>
          let (r, client, w1) = doip_client_connect S (Some (vmg_client g)) w in
          cbind (deref client) (\<lambda>c1.
          let g1 = g\<lparr>vmg_client := c1\<rparr>
          in if r \<noteq> 0 then Ret (-1, Some g1, w1)
             else
               cbind (doip_client_routing_activation S (Some (vmg_client g1)) 0x00 w1) (\<lambda>(r2, client2, w2).
               cbind (deref client2) (\<lambda>c2.
               let g2 = g1\<lparr>vmg_client := c2\<rparr>
               in if r2 \<noteq> 0 then Ret (-1, Some g2, w2)
                  else Ret (0, Some (g2\<lparr>vmg_connected := True\<rparr>), w2)))))"

definition zg_send_zone_vci_to_vmg :: "ZonalGateway option \<Rightarrow> int" where
  "zg_send_zone_vci_to_vmg zg = (case zg of None \<Rightarrow> -1 | Some g \<Rightarrow> if \<not> vmg_connected g then -1 else 0)"

text \<open>The local response buffer and length are written by the client; their first contents are not read.\<close>

definition zg_send_heartbeat_to_vmg ::
  "'w doip_sockets \<Rightarrow> ZonalGateway option \<Rightarrow> 'w \<Rightarrow> (int \<times> ZonalGateway option \<times> 'w) cexec" where
  "zg_send_heartbeat_to_vmg S zg w =
     (case zg of
        None \<Rightarrow> Ret (-1, None, w)
      | Some g \<Rightarrow>
          if \<not> vmg_connected g then Ret (-1, zg, w)
          else
            cbind (doip_client_send_diagnostic S (Some (vmg_client g)) (Some [0x3E, 0x00]) 2
                     (Some (replicate 256 0)) 256 (Some 0) w) (\<lambda>(r, client, out, len, w1).
            cbind (deref client) (\<lambda>c. Ret (r, Some (g\<lparr>vmg_client := c\<rparr>), w1))))"

definition zg_send_zone_status_to_vmg :: "ZonalGateway option \<Rightarrow> int" where
  "zg_send_zone_status_to_vmg zg = (case zg of None \<Rightarrow> -1 | Some g \<Rightarrow> if \<not> vmg_connected g then -1 else 0)"

definition zg_report_ota_progress :: "ZonalGateway option \<Rightarrow> u8 \<Rightarrow> int" where
  "zg_report_ota_progress zg progress_percentage =
     (case zg of None \<Rightarrow> -1 | Some g \<Rightarrow> if \<not> vmg_connected g then -1 else 0)"

section \<open>The registry of the zone's ECUs\<close>

definition ecu_info_at :: "ZoneVCIData \<Rightarrow> nat \<Rightarrow> ZoneECUInfo cexec" where
  "ecu_info_at v i = (if i < length (vci_ecus v) then Ret (vci_ecus v ! i) else Fault)"

text \<open>The search with \<^verbatim>\<open>strcmp\<close>, from index \<open>i\<close> over \<open>n\<close> entries.\<close>

fun vci_find_from :: "ZoneVCIData \<Rightarrow> bytes \<Rightarrow> nat \<Rightarrow> nat \<Rightarrow> nat option cexec" where
  "vci_find_from v ident i 0 = Ret None"
| "vci_find_from v ident i (Suc n) =
     cbind (ecu_info_at v i) (\<lambda>e. cbind (cstr_of (zecu_id e)) (\<lambda>a. cbind (cstr_of ident) (\<lambda>b.
       if a = b then Ret (Some i) else vci_find_from v ident (Suc i) n)))"

definition zg_update_ecu_info ::
  "ZonalGateway option \<Rightarrow> bytes option \<Rightarrow> ZoneECUInfo option \<Rightarrow> (int \<times> ZonalGateway option) cexec" where
  "zg_update_ecu_info zg ident info =
     (case (zg, ident, info) of
        (Some g, Some name, Some e) \<Rightarrow>
          let v = zone_vci g;
              put = (\<lambda>v idx. if idx < length (vci_ecus v)
                then Ret (0, Some (g\<lparr>zone_vci := v\<lparr>vci_ecus := (vci_ecus v)[idx := e]\<rparr>\<rparr>)) else Fault)
          in cbind (vci_find_from v name 0 (unat (vci_count v))) (\<lambda>found.
             case found of
               Some idx \<Rightarrow> put v idx
             | None \<Rightarrow>
                 if ZG_MAX_ECUS \<le> unat (vci_count v) then Ret (-1, zg)
                 else put (v\<lparr>vci_count := vci_count v + 1\<rparr>) (unat (vci_count v)))
      | _ \<Rightarrow> Ret (-1, zg))"

fun all_online_from :: "ZoneVCIData \<Rightarrow> nat \<Rightarrow> nat \<Rightarrow> bool cexec" where
  "all_online_from v i 0 = Ret True"
| "all_online_from v i (Suc n) =
     cbind (ecu_info_at v i) (\<lambda>e. if \<not> is_online e then Ret False else all_online_from v (Suc i) n)"

definition zg_check_ota_readiness :: "ZonalGateway option \<Rightarrow> bytes option \<Rightarrow> bool cexec" where
  "zg_check_ota_readiness zg campaign_id =
     (case zg of
        None \<Rightarrow> Ret False
      | Some g \<Rightarrow>
          if average_battery_level (zone_vci g) < 50 then Ret False
          else if available_storage_mb (zone_vci g) < 100 then Ret False
          else all_online_from (zone_vci g) 0 (unat (vci_count (zone_vci g))))"

section \<open>The program\<close>

text \<open>
  \<^verbatim>\<open>main\<close> with its endless loop cut after \<open>n\<close> rounds; \<open>g0\<close> is the uninitialised local variable. Its
  exit code is \<open>-1\<close> when it returns and \<open>0\<close> stands for the running loop.
\<close>

definition zg_main :: "'w doip_sockets \<Rightarrow> ZonalGateway \<Rightarrow> nat \<Rightarrow> (int \<times> ZonalGateway option) cexec" where
  "zg_main S g0 n =
     cbind (zg_init S (Some g0) 1 (Some (map of_char ''192.168.1.1'' @ [0])) 13400) (\<lambda>(r, zg).
     if r \<noteq> 0 then Ret (-1, zg)
     else
       let (r1, zg1) = zg_start zg
       in if r1 \<noteq> 0 then Ret (-1, zg1) else Ret (0, (zg_run ^^ n) zg1))"

section \<open>A registry of reports as a contract\<close>

text \<open>
  A registry keeps one value per key, for at most \<open>cap\<close> keys. A report replaces the value of its key
  and leaves the others; it is refused exactly when its key is new and the registry is full. Then
  any history of reports with at most \<open>cap\<close> keys is accepted, and the last report of each key is
  what the registry holds.
\<close>

locale report_registry =
  fixes inv :: "'t \<Rightarrow> bool"
    and valid :: "'v \<Rightarrow> bool"
    and key :: "'v \<Rightarrow> 'k"
    and report :: "'t \<Rightarrow> 'v \<Rightarrow> 't option"
    and lookup :: "'t \<Rightarrow> 'k \<Rightarrow> 'v option"
    and cap :: nat
  assumes inv_report: "inv t \<Longrightarrow> valid v \<Longrightarrow> report t v = Some t' \<Longrightarrow> inv t'"
    and lookup_report: "inv t \<Longrightarrow> valid v \<Longrightarrow> report t v = Some t' \<Longrightarrow> lookup t' = (lookup t)(key v \<mapsto> v)"
    and report_refused: "inv t \<Longrightarrow> valid v \<Longrightarrow> report t v = None \<longleftrightarrow> lookup t (key v) = None \<and> cap \<le> card (dom (lookup t))"
    and finite_dom: "inv t \<Longrightarrow> finite (dom (lookup t))"
begin

fun report_all :: "'t \<Rightarrow> 'v list \<Rightarrow> 't option" where
  "report_all t [] = Some t"
| "report_all t (v # vs) = (case report t v of None \<Rightarrow> None | Some t' \<Rightarrow> report_all t' vs)"

lemma report_all_lookup:
  assumes "inv t" "list_all valid vs" "card (dom (lookup t) \<union> key ` set vs) \<le> cap"
  shows "\<exists>t'. report_all t vs = Some t' \<and> inv t' \<and> lookup t' = lookup t ++ map_of (rev (map (\<lambda>v. (key v, v)) vs))"
  using assms
proof (induction vs arbitrary: t)
  case (Cons v vs)
  have fin: "finite (dom (lookup t) \<union> key ` set (v # vs))"
    using finite_dom [OF Cons.prems(1)] by simp
  have "report t v \<noteq> None"
  proof
    assume "report t v = None"
    then have n: "lookup t (key v) = None" "cap \<le> card (dom (lookup t))"
      using report_refused [OF Cons.prems(1)] Cons.prems(2) by auto
    then have "dom (lookup t) \<subset> dom (lookup t) \<union> key ` set (v # vs)"
      by auto
    from psubset_card_mono [OF fin this] n(2) Cons.prems(3) show False by simp
  qed
  then obtain t1 where t1: "report t v = Some t1" by auto
  have l1: "lookup t1 = (lookup t)(key v \<mapsto> v)" "inv t1"
    using lookup_report inv_report t1 Cons.prems by auto
  have "dom (lookup t1) \<union> key ` set vs = dom (lookup t) \<union> key ` set (v # vs)"
    unfolding l1(1) by auto
  then have card: "card (dom (lookup t1) \<union> key ` set vs) \<le> cap"
    using Cons.prems(3) by (simp only:)
  obtain t' where t': "report_all t1 vs = Some t'" "inv t'" "lookup t' = lookup t1 ++ map_of (rev (map (\<lambda>v. (key v, v)) vs))"
    using Cons.IH [OF l1(2) _ card] Cons.prems(2) by auto
  have "(lookup t)(key v \<mapsto> v) = lookup t ++ [key v \<mapsto> v]"
    by simp
  then have "lookup t' = lookup t ++ map_of (rev (map (\<lambda>v. (key v, v)) (v # vs)))"
    unfolding t'(3) l1(1) by (simp del: map_add_upd)
  with t' t1 show ?case by auto
qed simp

end

section \<open>Well-formed gateways\<close>

definition c_str :: "bytes \<Rightarrow> bytes" where
  "c_str a = takeWhile (\<lambda>b. b \<noteq> 0) a"

definition ecu_key :: "ZoneECUInfo \<Rightarrow> bytes" where
  "ecu_key e = c_str (zecu_id e)"

definition valid_report :: "ZoneECUInfo \<Rightarrow> bool" where
  "valid_report e \<longleftrightarrow> 0 \<in> set (zecu_id e)"

definition zone_table :: "ZonalGateway \<Rightarrow> ZoneECUInfo list" where
  "zone_table g = take (unat (vci_count (zone_vci g))) (vci_ecus (zone_vci g))"

definition zone_lookup :: "ZonalGateway \<Rightarrow> bytes \<Rightarrow> ZoneECUInfo option" where
  "zone_lookup g k = List.find (\<lambda>e. ecu_key e = k) (zone_table g)"

definition wf_zone :: "ZonalGateway \<Rightarrow> bool" where
  "wf_zone g \<longleftrightarrow> length (vci_ecus (zone_vci g)) = ZG_MAX_ECUS \<and> unat (vci_count (zone_vci g)) \<le> ZG_MAX_ECUS
     \<and> list_all valid_report (zone_table g)"

definition wf_registry :: "ZonalGateway \<Rightarrow> bool" where
  "wf_registry g \<longleftrightarrow> wf_zone g \<and> distinct (map ecu_key (zone_table g))"

fun first_at :: "('a \<Rightarrow> bool) \<Rightarrow> nat \<Rightarrow> 'a list \<Rightarrow> nat option" where
  "first_at P i [] = None"
| "first_at P i (x # xs) = (if P x then Some i else first_at P (Suc i) xs)"

lemma first_at_None: "first_at P i xs = None \<longleftrightarrow> (\<forall>x \<in> set xs. \<not> P x)"
  by (induction xs arbitrary: i) auto

lemma first_at_Some: "first_at P i xs = Some j \<Longrightarrow> i \<le> j \<and> j - i < length xs \<and> P (xs ! (j - i)) \<and> (\<forall>l < j - i. \<not> P (xs ! l))"
proof (induction xs arbitrary: i)
  case (Cons x xs)
  show ?case
  proof (cases "P x")
    case False
    with Cons.prems have "first_at P (Suc i) xs = Some j" by simp
    from Cons.IH [OF this] have IH: "Suc i \<le> j" "j - Suc i < length xs" "P (xs ! (j - Suc i))"
      "\<forall>l < j - Suc i. \<not> P (xs ! l)" by auto
    have "j - i = Suc (j - Suc i)" using IH(1) by simp
    with IH False show ?thesis by (auto simp: nth_Cons' less_Suc_eq_0_disj)
  qed (use Cons.prems in auto)
qed simp

lemma find_update:
  "i < length xs \<Longrightarrow> f (xs ! i) = f e \<Longrightarrow> \<forall>j < i. f (xs ! j) \<noteq> f e \<Longrightarrow>
    List.find (\<lambda>x. f x = k) (xs[i := e]) = (if k = f e then Some e else List.find (\<lambda>x. f x = k) xs)"
proof (induction xs arbitrary: i)
  case (Cons x xs)
  show ?case
  proof (cases i)
    case (Suc j)
    have "\<forall>l < j. f (xs ! l) \<noteq> f e" "f x \<noteq> f e"
      using Cons.prems(3) Suc by auto
    with Cons.IH [of j] Cons.prems Suc show ?thesis by auto
  qed (use Cons.prems in auto)
qed simp

lemma find_dom: "dom (\<lambda>k. List.find (\<lambda>x. f x = k) xs) = f ` set xs"
  by (induction xs) (auto simp: dom_def)

lemma vci_find_from_eq:
  assumes "i + n \<le> length (vci_ecus v)" "list_all valid_report (take n (drop i (vci_ecus v)))" "0 \<in> set ident"
  shows "vci_find_from v ident i n = Ret (first_at (\<lambda>e. ecu_key e = c_str ident) i (take n (drop i (vci_ecus v))))"
  using assms(1,2)
proof (induction n arbitrary: i)
  case (Suc n)
  have at: "take (Suc n) (drop i (vci_ecus v)) = vci_ecus v ! i # take n (drop (Suc i) (vci_ecus v))"
    using Suc.prems(1) by (simp add: Cons_nth_drop_Suc [symmetric])
  have "0 \<in> set (zecu_id (vci_ecus v ! i))" "list_all valid_report (take n (drop (Suc i) (vci_ecus v)))"
    using Suc.prems(2) unfolding at by (auto simp: valid_report_def [of "vci_ecus v ! i"])
  with Suc.IH [of "Suc i"] Suc.prems(1) assms(3) show ?case
    unfolding at by (simp add: ecu_info_at_def cstr_of_def ecu_key_def c_str_def)
qed simp

lemma update_ecu_info:
  assumes "wf_zone g" "0 \<in> set ident" "valid_report e"
  shows "(zone_lookup g (c_str ident) = None \<and> length (zone_table g) = ZG_MAX_ECUS \<longrightarrow>
      zg_update_ecu_info (Some g) (Some ident) (Some e) = Ret (-1, Some g))
    \<and> (\<not> (zone_lookup g (c_str ident) = None \<and> length (zone_table g) = ZG_MAX_ECUS) \<longrightarrow>
      (\<exists>v'. zg_update_ecu_info (Some g) (Some ident) (Some e) = Ret (0, Some (g\<lparr>zone_vci := v'\<rparr>)) \<and> wf_zone (g\<lparr>zone_vci := v'\<rparr>)
        \<and> available_storage_mb v' = available_storage_mb (zone_vci g)
        \<and> average_battery_level v' = average_battery_level (zone_vci g)
        \<and> (case first_at (\<lambda>x. ecu_key x = c_str ident) 0 (zone_table g) of
             None \<Rightarrow> zone_table (g\<lparr>zone_vci := v'\<rparr>) = zone_table g @ [e]
           | Some i \<Rightarrow> zone_table (g\<lparr>zone_vci := v'\<rparr>) = (zone_table g)[i := e])))"
proof -
  let ?v = "zone_vci g" and ?n = "unat (vci_count (zone_vci g))"
  let ?f = "first_at (\<lambda>x. ecu_key x = c_str ident) 0 (zone_table g)"
  have wf: "length (vci_ecus ?v) = 8" "?n \<le> 8" "list_all valid_report (zone_table g)"
    using assms(1) by (simp_all add: wf_zone_def)
  have len: "length (zone_table g) = ?n"
    using wf by (simp add: zone_table_def)
  have found: "vci_find_from ?v ident 0 ?n = Ret ?f"
    using vci_find_from_eq [of 0 ?n ?v ident] wf assms(2) by (simp add: zone_table_def)
  have none: "?f = None \<longleftrightarrow> zone_lookup g (c_str ident) = None"
    by (auto simp: first_at_None zone_lookup_def find_None_iff)
  show ?thesis
  proof (cases ?f)
    case (Some i)
    then have i: "i < ?n"
      using first_at_Some [OF Some] len by simp
    let ?v' = "?v\<lparr>vci_ecus := (vci_ecus ?v)[i := e]\<rparr>"
    have tab: "zone_table (g\<lparr>zone_vci := ?v'\<rparr>) = (zone_table g)[i := e]"
      using i by (simp add: zone_table_def take_update_swap)
    have "list_all valid_report ((zone_table g)[i := e])"
      using wf(3) assms(3) by (auto simp: list_all_iff dest!: set_update_subset_insert [THEN subsetD])
    then have "wf_zone (g\<lparr>zone_vci := ?v'\<rparr>)"
      using wf tab by (simp add: wf_zone_def)
    then show ?thesis
      using Some i wf(1,2) none found tab
      by (intro conjI impI exI [of _ ?v']) (simp_all add: zg_update_ecu_info_def Let_def)
  next
    case None
    show ?thesis
    proof (cases "?n = 8")
      case True
      then show ?thesis
        using None none found len by (simp add: zg_update_ecu_info_def Let_def)
    next
      case False
      then have n: "?n < 8" using wf(2) by simp
      then have cnt: "unat (vci_count ?v + 1) = Suc ?n"
        by (subst unat_add_no_wrap) auto
      let ?v' = "?v\<lparr>vci_count := vci_count ?v + 1, vci_ecus := (vci_ecus ?v)[?n := e]\<rparr>"
      have tab: "zone_table (g\<lparr>zone_vci := ?v'\<rparr>) = zone_table g @ [e]"
        using n wf(1) cnt by (simp add: zone_table_def take_Suc_conv_app_nth)
      then have "wf_zone (g\<lparr>zone_vci := ?v'\<rparr>)"
        using wf n cnt assms(3) by (simp add: wf_zone_def)
      then show ?thesis
        using None n wf(1) none found len tab
        by (intro conjI impI exI [of _ ?v']) (simp_all add: zg_update_ecu_info_def Let_def)
    qed
  qed
qed

section \<open>The gateway as a registry\<close>

definition zone_report :: "ZonalGateway \<Rightarrow> ZoneECUInfo \<Rightarrow> ZonalGateway option" where
  "zone_report g e = (case zg_update_ecu_info (Some g) (Some (zecu_id e)) (Some e) of
     Ret (r, Some g') \<Rightarrow> if r = 0 then Some g' else None | _ \<Rightarrow> None)"

fun zone_report_all :: "ZonalGateway \<Rightarrow> ZoneECUInfo list \<Rightarrow> ZonalGateway option" where
  "zone_report_all g [] = Some g"
| "zone_report_all g (e # es) = (case zone_report g e of None \<Rightarrow> None | Some g' \<Rightarrow> zone_report_all g' es)"

lemma zone_dom: "dom (zone_lookup g) = ecu_key ` set (zone_table g)"
  unfolding zone_lookup_def by (rule find_dom)

lemma zone_card: "wf_registry g \<Longrightarrow> card (dom (zone_lookup g)) = length (zone_table g)"
  unfolding zone_dom using distinct_card [of "map ecu_key (zone_table g)"] by (simp add: wf_registry_def)

lemma zone_report_spec:
  assumes "wf_registry g" "valid_report e"
  shows "(zone_report g e = None \<longleftrightarrow> zone_lookup g (ecu_key e) = None \<and> ZG_MAX_ECUS \<le> card (dom (zone_lookup g)))
    \<and> (\<forall>g'. zone_report g e = Some g' \<longrightarrow> wf_registry g' \<and> zone_lookup g' = (zone_lookup g)(ecu_key e \<mapsto> e))"
proof -
  have wf: "wf_zone g" "distinct (map ecu_key (zone_table g))"
    using assms(1) by (simp_all add: wf_registry_def)
  have le: "length (zone_table g) \<le> 8"
    using wf(1) by (simp add: wf_zone_def zone_table_def)
  let ?full = "zone_lookup g (ecu_key e) = None \<and> length (zone_table g) = 8"
  have full: "?full \<longleftrightarrow> zone_lookup g (ecu_key e) = None \<and> ZG_MAX_ECUS \<le> card (dom (zone_lookup g))"
    using zone_card [OF assms(1)] le by auto
  note upd = update_ecu_info [OF wf(1) assms(2) [unfolded valid_report_def] assms(2)]
  show ?thesis
  proof (cases ?full)
    case True
    then have "zg_update_ecu_info (Some g) (Some (zecu_id e)) (Some e) = Ret (-1, Some g)"
      using upd by (simp add: ecu_key_def)
    with True full show ?thesis by (simp add: zone_report_def)
  next
    case False
    let ?f = "first_at (\<lambda>x. ecu_key x = ecu_key e) 0 (zone_table g)"
    obtain v' where v': "zg_update_ecu_info (Some g) (Some (zecu_id e)) (Some e) = Ret (0, Some (g\<lparr>zone_vci := v'\<rparr>))"
      "wf_zone (g\<lparr>zone_vci := v'\<rparr>)"
      "case ?f of None \<Rightarrow> zone_table (g\<lparr>zone_vci := v'\<rparr>) = zone_table g @ [e]
        | Some i \<Rightarrow> zone_table (g\<lparr>zone_vci := v'\<rparr>) = (zone_table g)[i := e]"
      using upd False unfolding ecu_key_def [symmetric] by blast
    let ?g = "g\<lparr>zone_vci := v'\<rparr>"
    have "distinct (map ecu_key (zone_table ?g)) \<and> zone_lookup ?g = (zone_lookup g)(ecu_key e \<mapsto> e)"
    proof (cases ?f)
      case None
      then have "\<forall>x \<in> set (zone_table g). ecu_key x \<noteq> ecu_key e"
        by (simp add: first_at_None)
      then have new: "ecu_key e \<notin> ecu_key ` set (zone_table g)" "zone_lookup g (ecu_key e) = None"
        by (auto simp: zone_lookup_def find_None_iff)
      have tab: "zone_table ?g = zone_table g @ [e]"
        using None v'(3) by simp
      have "zone_lookup ?g k = ((zone_lookup g)(ecu_key e \<mapsto> e)) k" for k
        using new(2) by (auto simp: zone_lookup_def tab find_append split: option.split)
      with tab wf(2) new(1) show ?thesis by auto
    next
      case (Some i)
      from first_at_Some [OF Some] have i: "i < length (zone_table g)" "ecu_key (zone_table g ! i) = ecu_key e"
        "\<forall>j < i. ecu_key (zone_table g ! j) \<noteq> ecu_key e" by auto
      have "map ecu_key ((zone_table g)[i := e]) = map ecu_key (zone_table g)"
        using i(1,2) by (metis list_update_id map_update nth_map)
      with Some v'(3) wf(2) find_update [OF i] show ?thesis
        by (auto simp: zone_lookup_def fun_eq_iff)
    qed
    with False full v'(1,2) show ?thesis
      by (simp add: zone_report_def wf_registry_def)
  qed
qed

interpretation zone_reg: report_registry wf_registry valid_report ecu_key zone_report zone_lookup ZG_MAX_ECUS
  by unfold_locales (use zone_report_spec in \<open>auto simp: zone_dom\<close>)

lemma zone_report_all_eq: "zone_report_all g es = zone_reg.report_all g es"
  by (induction es arbitrary: g) (auto split: option.splits)

section \<open>A fresh gateway\<close>

definition fresh_zone :: "ZonalGateway \<Rightarrow> bool" where
  "fresh_zone g \<longleftrightarrow> wf_registry g \<and> zone_table g = [] \<and> wf_client (vmg_client g)
     \<and> average_battery_level (zone_vci g) = 0 \<and> available_storage_mb (zone_vci g) = 0
     \<and> \<not> vmg_connected g \<and> \<not> is_connected (vmg_client g)"

lemma client_init_ok: "\<exists>r c. doip_client_init S (Some c0) ip port src tgt = (r, Some c) \<and> (c0 = client_zero \<longrightarrow> wf_client c \<and> \<not> is_connected c)"
  by (cases ip) (auto simp: doip_client_init_def Let_def split_def wf_client_def client_zero_def split: option.split)

lemma c_snprintf_ok: "0 < length dst \<Longrightarrow> \<exists>d. c_snprintf dst s = Ret d \<and> length d = length dst"
  unfolding c_snprintf_def by (rule exI, rule conjI, rule buf_write_ok) (cases dst; auto simp: min_def)+

lemma zg_init_ok: "\<exists>g. zg_init S (Some g0) zid ip port = Ret (0, Some g) \<and> fresh_zone g"
proof -
  obtain name where name: "c_snprintf (replicate 32 0) (map of_char ''ZG-'' @ decimal3 (unat zid)) = Ret name"
    using c_snprintf_ok [of "replicate 32 0"] by auto
  obtain r c where c: "doip_client_init S (Some client_zero) ip port (0x0200 + ucast zid) 0x0100 = (r, Some c)"
      "wf_client c" "\<not> is_connected c"
    using client_init_ok [of S client_zero] by blast
  from name c show ?thesis
    by (simp add: zg_init_def zg_zero_def Let_def uds_handler_init_def fresh_zone_def wf_registry_def wf_zone_def
        zone_table_def)
qed

text \<open>
  The registry holds the last reports. On an initialised gateway, any sequence of reports about
  at most eight different ECU ids (terminated strings, each report under its own id) is accepted,
  and afterwards looking an id up gives the last report about it, and nothing for an id never
  reported.
\<close>
theorem zg_registry_last_report:
  assumes "zg_init S (Some g0) zid ip port = Ret (0, Some g)" "list_all valid_report es"
    "card (ecu_key ` set es) \<le> ZG_MAX_ECUS"
  shows "\<exists>g'. zone_report_all g es = Some g' \<and> (\<forall>k. zone_lookup g' k = map_of (rev (map (\<lambda>e. (ecu_key e, e)) es)) k)"
proof -
  have g: "wf_registry g" "zone_lookup g = Map.empty"
    using zg_init_ok [of S g0 zid ip port] assms(1) by (auto simp: fresh_zone_def zone_lookup_def)
  with zone_reg.report_all_lookup [OF g(1) assms(2)] assms(3) show ?thesis
    by (auto simp: zone_report_all_eq)
qed

definition report_of :: "bytes \<Rightarrow> u16 \<Rightarrow> ZoneECUInfo" where
  "report_of name a = ecu_info_zero\<lparr>zecu_id := name @ replicate (32 - length name) 0, zecu_address := a, is_online := True\<rparr>"

theorem zg_registry_last_report_witness:
  "\<exists>g g'. zg_init (lwip_sockets scripted) (Some zg_zero) 1 None 13400 = Ret (0, Some g)
    \<and> zone_report_all g [report_of [0x41] 0x201, report_of [0x42] 0x202, report_of [0x41] 0x203] = Some g'
    \<and> zone_lookup g' [0x41] = Some (report_of [0x41] 0x203)"
proof -
  let ?es = "[report_of [0x41] 0x201, report_of [0x42] 0x202, report_of [0x41] 0x203]"
  obtain g where g: "zg_init (lwip_sockets scripted) (Some zg_zero) 1 None 13400 = Ret (0, Some g)"
    using zg_init_ok by blast
  have keys: "map ecu_key ?es = [[0x41], [0x42], [0x41]]"
    by (simp add: ecu_key_def report_of_def c_str_def takeWhile_append)
  then have "ecu_key ` set ?es = {[0x41], [0x42]}"
    by auto
  then have "card (ecu_key ` set ?es) \<le> ZG_MAX_ECUS"
    by (simp add: card_insert_if)
  moreover have "list_all valid_report ?es"
    by (simp add: valid_report_def report_of_def)
  ultimately show ?thesis
    using zg_registry_last_report [OF g, of ?es] g keys by fastforce
qed

section \<open>Running a gateway\<close>

datatype zg_op = ZgStart | ZgStop | ZgConnect | ZgHeartbeat | ZgVci | ZgStatus | ZgProgress u8
  | ZgUpdate bytes ZoneECUInfo

fun zg_op_ok :: "zg_op \<Rightarrow> bool" where
  "zg_op_ok (ZgUpdate ident e) \<longleftrightarrow> 0 \<in> set ident \<and> valid_report e"
| "zg_op_ok _ \<longleftrightarrow> True"

fun zg_step :: "'w doip_sockets \<Rightarrow> zg_op \<Rightarrow> ZonalGateway \<Rightarrow> 'w \<Rightarrow> (int \<times> ZonalGateway option \<times> 'w) cexec" where
  "zg_step S ZgStart g w = (let (r, g') = zg_start (Some g) in Ret (r, g', w))"
| "zg_step S ZgStop g w = cbind (zg_stop S (Some g) w) (\<lambda>(g', w'). Ret (0, g', w'))"
| "zg_step S ZgConnect g w = zg_connect_to_vmg S (Some g) w"
| "zg_step S ZgHeartbeat g w = zg_send_heartbeat_to_vmg S (Some g) w"
| "zg_step S ZgVci g w = Ret (zg_send_zone_vci_to_vmg (Some g), Some g, w)"
| "zg_step S ZgStatus g w = Ret (zg_send_zone_status_to_vmg (Some g), Some g, w)"
| "zg_step S (ZgProgress p) g w = Ret (zg_report_ota_progress (Some g) p, Some g, w)"
| "zg_step S (ZgUpdate ident e) g w =
     cbind (zg_update_ecu_info (Some g) (Some ident) (Some e)) (\<lambda>(r, g'). Ret (r, g', w))"

fun zg_serve :: "'w doip_sockets \<Rightarrow> zg_op list \<Rightarrow> ZonalGateway \<Rightarrow> 'w \<Rightarrow> (int list \<times> ZonalGateway \<times> 'w) cexec" where
  "zg_serve S [] g w = Ret ([], g, w)"
| "zg_serve S (oper # ops) g w =
     cbind (zg_step S oper g w) (\<lambda>(r, g', w'). cbind (deref g') (\<lambda>g'.
     cbind (zg_serve S ops g' w') (\<lambda>(rs, g'', w''). Ret (r # rs, g'', w''))))"

definition wf_gateway :: "ZonalGateway \<Rightarrow> bool" where
  "wf_gateway g \<longleftrightarrow> wf_zone g \<and> wf_client (vmg_client g)
     \<and> average_battery_level (zone_vci g) = 0 \<and> available_storage_mb (zone_vci g) = 0"

definition gateway_ok :: "int \<times> ZonalGateway option \<times> 'w \<Rightarrow> bool" where
  "gateway_ok = (\<lambda>(r, g, w). r \<in> {0, -1} \<and> (\<exists>g1. g = Some g1 \<and> wf_gateway g1))"

lemma wf_gateway_simps:
  "wf_gateway g \<Longrightarrow> wf_client c \<Longrightarrow> wf_gateway (g\<lparr>vmg_client := c\<rparr>)"
  "wf_gateway (g\<lparr>vmg_connected := b\<rparr>) = wf_gateway g" "wf_gateway (g\<lparr>zg_state := s\<rparr>) = wf_gateway g"
  by (simp_all add: wf_gateway_def wf_zone_def zone_table_def)

context doip_socket_api
begin

lemma zg_connect_ok:
  assumes "wf_gateway g"
  shows "returns (zg_connect_to_vmg S (Some g) w) gateway_ok"
proof -
  have wf: "wf_client (vmg_client g)"
    using assms by (simp add: wf_gateway_def)
  obtain r c1 w1 where c: "doip_client_connect S (Some (vmg_client g)) w = (r, Some c1, w1)" "wf_client c1" "r \<in> {0, -1}"
    using connect_ok [OF wf, of S w] by (cases "doip_client_connect S (Some (vmg_client g)) w") (auto simp: client_ok_def)
  obtain r2 c2 w2 where a: "doip_client_routing_activation S (Some c1) 0 w1 = Ret (r2, Some c2, w2)" "wf_client c2" "r2 \<in> {0, -1}"
    using routing_activation_ok [OF c(2), of 0 w1] by (auto simp: client_ok_def elim!: returnsE)
  show ?thesis
    using assms c a by (simp add: zg_connect_to_vmg_def gateway_ok_def wf_gateway_simps Let_def)
qed

lemma zg_heartbeat_ok:
  assumes "wf_gateway g"
  shows "returns (zg_send_heartbeat_to_vmg S (Some g) w) gateway_ok"
proof -
  have wf: "wf_client (vmg_client g)"
    using assms by (simp add: wf_gateway_def)
  have "returns (doip_client_send_diagnostic S (Some (vmg_client g)) (Some [0x3E, 0x00]) 2 (Some (replicate 256 0)) 256 (Some 0) w)
    (\<lambda>(r, c', out', rl', w'). client_ok (r, c', w') \<and> (\<exists>o1. out' = Some o1 \<and> length o1 = length (replicate 256 (0 :: u8))))"
    by (rule send_diagnostic_ok [OF wf]) simp_all
  then show ?thesis
    using assms by (auto simp: zg_send_heartbeat_to_vmg_def gateway_ok_def client_ok_def wf_gateway_simps elim!: returnsE)
qed

lemma zg_stop_ok:
  assumes "wf_gateway g"
  shows "\<exists>g' w'. zg_stop S (Some g) w = Ret (Some g', w') \<and> wf_gateway g'"
proof -
  have "wf_client (vmg_client g)"
    using assms by (simp add: wf_gateway_def)
  from disconnect_ok [OF this, of S w] show ?thesis
    using assms by (auto simp: zg_stop_def wf_gateway_simps Let_def)
qed

lemma zg_step_ok:
  assumes "wf_gateway g" "zg_op_ok oper"
  shows "returns (zg_step S oper g w) gateway_ok"
proof (cases oper)
  case ZgConnect
  with zg_connect_ok [OF assms(1)] show ?thesis by simp
next
  case ZgHeartbeat
  with zg_heartbeat_ok [OF assms(1)] show ?thesis by simp
next
  case ZgStop
  with zg_stop_ok [OF assms(1), of w] show ?thesis by (auto simp: gateway_ok_def)
next
  case (ZgUpdate ident e)
  have wf: "wf_zone g" "0 \<in> set ident" "valid_report e"
    using assms ZgUpdate by (simp_all add: wf_gateway_def)
  have g: "wf_client (vmg_client g)" "average_battery_level (zone_vci g) = 0" "available_storage_mb (zone_vci g) = 0"
    using assms by (simp_all add: wf_gateway_def)
  show ?thesis
  proof (cases "zone_lookup g (c_str ident) = None \<and> length (zone_table g) = ZG_MAX_ECUS")
    case True
    with update_ecu_info [OF wf] ZgUpdate assms(1) show ?thesis by (simp add: gateway_ok_def)
  next
    case False
    then obtain v' where "zg_update_ecu_info (Some g) (Some ident) (Some e) = Ret (0, Some (g\<lparr>zone_vci := v'\<rparr>))"
        "wf_zone (g\<lparr>zone_vci := v'\<rparr>)" "available_storage_mb v' = available_storage_mb (zone_vci g)"
        "average_battery_level v' = average_battery_level (zone_vci g)"
      using update_ecu_info [OF wf] by blast
    with g ZgUpdate show ?thesis by (simp add: gateway_ok_def wf_gateway_def)
  qed
qed (use assms(1) in \<open>simp_all add: gateway_ok_def zg_start_def wf_gateway_simps
       zg_send_zone_vci_to_vmg_def zg_send_zone_status_to_vmg_def zg_report_ota_progress_def\<close>)

lemma zg_serve_ok:
  assumes "wf_gateway g" "list_all zg_op_ok ops"
  shows "returns (zg_serve S ops g w) (\<lambda>(rs, g', w'). wf_gateway g' \<and> length rs = length ops \<and> set rs \<subseteq> {0, -1})"
  using assms
proof (induction ops arbitrary: g w)
  case (Cons oper ops)
  obtain r g1 w1 where s: "zg_step S oper g w = Ret (r, Some g1, w1)" "wf_gateway g1" "r \<in> {0, -1}"
    using zg_step_ok [OF Cons.prems(1), of oper w] Cons.prems(2) by (auto simp: gateway_ok_def elim!: returnsE)
  have "list_all zg_op_ok ops"
    using Cons.prems(2) by simp
  from Cons.IH [OF s(2) this] s show ?case
    by (auto simp: returns_cbind split_def elim!: returns_mono)
qed simp

end

lemma fresh_gateway: "fresh_zone g \<Longrightarrow> wf_gateway g"
  by (simp add: fresh_zone_def wf_gateway_def wf_registry_def)

text \<open>
  C35. Using the gateway is safe, and it never allows an update. After initialisation, whatever its
  result for the VMG client, any sequence of operations with any network replies runs without a
  memory fault; every result is 0 or -1; the registry holds at most eight ECUs. The readiness check
  answers false after all of them: no function ever writes the battery level and the storage it
  compares with 50 and 100.
\<close>
theorem zg_operations_safe:
  assumes "zg_init (lwip_sockets px) (Some g0) zid ip port = Ret (0, Some g)" "list_all zg_op_ok ops"
  shows "returns (zg_serve (lwip_sockets px) ops g w) (\<lambda>(rs, g', w').
    length rs = length ops \<and> set rs \<subseteq> {0, -1} \<and> unat (vci_count (zone_vci g')) \<le> ZG_MAX_ECUS
    \<and> (routing_active (vmg_client g') \<longrightarrow> is_connected (vmg_client g'))
    \<and> zg_check_ota_readiness (Some g') campaign = Ret False)"
proof -
  have "wf_gateway g"
    using zg_init_ok [of "lwip_sockets px" g0 zid ip port] assms(1) by (auto simp: fresh_gateway)
  from lwip.zg_serve_ok [OF this assms(2)] show ?thesis
    by (rule returns_mono) (auto simp: wf_gateway_def wf_zone_def wf_client_def zg_check_ota_readiness_def)
qed

theorem zg_operations_safe_witness:
  "\<exists>g. zg_init (lwip_sockets scripted) (Some zg_zero) 1 (Some (map of_char ''192.168.1.1'' @ [0])) 13400 = Ret (0, Some g)
    \<and> returns (zg_serve (lwip_sockets scripted) [ZgStart, ZgConnect, ZgUpdate [0x41, 0] (report_of [0x41] 0x201), ZgHeartbeat, ZgStop]
        g [[0x02, 0xFD]]) (\<lambda>(rs, g', w'). length rs = 5 \<and> zg_check_ota_readiness (Some g') None = Ret False)"
proof -
  obtain g where g: "zg_init (lwip_sockets scripted) (Some zg_zero) 1 (Some (map of_char ''192.168.1.1'' @ [0])) 13400 = Ret (0, Some g)"
    using zg_init_ok by blast
  have "list_all zg_op_ok [ZgStart, ZgConnect, ZgUpdate [0x41, 0] (report_of [0x41] 0x201), ZgHeartbeat, ZgStop]"
    by (simp add: valid_report_def report_of_def)
  from zg_operations_safe [OF g this, of "[[0x02, 0xFD]]" None] g show ?thesis
    by (auto elim!: returns_mono)
qed

section \<open>A failed routing activation\<close>

lemma connect_some: "\<exists>r c1 w1. doip_client_connect S (Some c) w = (r, Some c1, w1)"
  by (simp add: doip_client_connect_def Let_def split_def)

lemma connect_link:
  assumes "doip_client_connect (lwip_sockets px) (Some c) w = (r, Some c1, w1)" "\<not> is_connected c"
  shows "is_connected c1 = (r = 0) \<and> routing_active c1 = routing_active c \<and> (is_connected c1 \<longrightarrow> 0 \<le> tcp_socket c1)"
  using assms
  by (auto simp: doip_client_connect_def doip_socket_tcp_create_def Let_def split_def split: if_splits)

lemma zg_connect_idle: "is_connected (vmg_client g) \<Longrightarrow> zg_connect_to_vmg S (Some g) w = Ret (-1, Some g, w)"
  by (simp add: zg_connect_to_vmg_def doip_client_connect_def)

lemma zg_connect_retries:
  "is_connected (vmg_client g) \<Longrightarrow> zg_serve S (replicate n ZgConnect) g w = Ret (replicate n (-1), g, w)"
  by (induction n) (simp_all add: zg_connect_idle)

lemma zg_connect_link:
  assumes "zg_connect_to_vmg (lwip_sockets px) (Some g) w = Ret (r, Some g', w')" "\<not> is_connected (vmg_client g)"
  shows "(is_connected (vmg_client g') \<longrightarrow> 0 \<le> tcp_socket (vmg_client g'))
    \<and> (if r = 0 then vmg_connected g' \<and> is_connected (vmg_client g') \<and> routing_active (vmg_client g')
       else r = -1 \<and> vmg_connected g' = vmg_connected g)"
proof -
  obtain r1 c1 w1 where c: "doip_client_connect (lwip_sockets px) (Some (vmg_client g)) w = (r1, Some c1, w1)"
    using connect_some [of "lwip_sockets px" "vmg_client g" w] by blast
  note l = connect_link [OF c assms(2)]
  show ?thesis
  proof (cases "r1 = 0")
    case True
    with assms(1) c obtain r2 c2 where a: "doip_client_routing_activation (lwip_sockets px) (Some c1) 0 w1 = Ret (r2, Some c2, w')"
        "r = (if r2 = 0 then 0 else -1)" "g' = (if r2 = 0 then g\<lparr>vmg_client := c2, vmg_connected := True\<rparr> else g\<lparr>vmg_client := c2\<rparr>)"
      by (auto simp: zg_connect_to_vmg_def cbind_Ret_iff deref_def Let_def split: option.splits if_splits)
    from routing_activation_link [OF a(1)] a(2,3) l show ?thesis
      by (auto simp: same_link_def split: if_splits)
  next
    case False
    with assms(1) c l show ?thesis by (auto simp: zg_connect_to_vmg_def)
  qed
qed

text \<open>
  A refused routing activation locks the gateway out of the VMG. When connecting fails after the TCP
  connection was made, the client stays connected, so however often the gateway tries again it
  gets -1 without a single call to the network, until it is stopped: stopping makes the client
  disconnected again.
\<close>
theorem zg_failed_activation_locks_out:
  assumes "zg_connect_to_vmg (lwip_sockets px) (Some g) w = Ret (-1, Some g', w')"
    "\<not> is_connected (vmg_client g)" "is_connected (vmg_client g')"
  shows "zg_serve (lwip_sockets px) (replicate n ZgConnect) g' v = Ret (replicate n (-1), g', v)
    \<and> vmg_connected g' = vmg_connected g
    \<and> returns (zg_stop (lwip_sockets px) (Some g') v) (\<lambda>(g2, v2). \<exists>g3. g2 = Some g3 \<and> \<not> is_connected (vmg_client g3))"
  using zg_connect_link [OF assms(1,2)] assms(3) zg_connect_retries [OF assms(3)]
  by (simp add: zg_stop_def doip_client_disconnect_def Let_def split_def)

lemma zg_connect_refused:
  assumes "wf_client (vmg_client g)" "\<not> is_connected (vmg_client g)"
  shows "\<exists>g' w'. zg_connect_to_vmg (lwip_sockets scripted) (Some g) [] = Ret (-1, Some g', w') \<and> is_connected (vmg_client g')"
proof -
  let ?c = "vmg_client g\<lparr>tcp_socket := 3, is_connected := True\<rparr>"
  have wf: "wf_client ?c"
    using assms(1) by (simp add: wf_client_def)
  have c: "doip_client_connect (lwip_sockets scripted) (Some (vmg_client g)) [] = (0, Some ?c, [])"
    using assms(2) by (simp add: doip_client_connect_def doip_socket_tcp_create_def doip_socket_tcp_connect_def scripted_def Let_def)
  have "whenever (doip_client_routing_activation (lwip_sockets scripted) (Some ?c) 0 []) (\<lambda>x. fst x = -1)"
    by (simp add: doip_client_routing_activation_def client_tcp_receive_def doip_socket_tcp_send_def doip_socket_tcp_recv_def
        parse_received_def scripted_def Let_def split_def split: option.split cong: if_cong option.case_cong)
      (auto simp: whenever_def split: option.split)
  then obtain c2 w2 where a: "doip_client_routing_activation (lwip_sockets scripted) (Some ?c) 0 [] = Ret (-1, Some c2, w2)"
    using lwip.routing_activation_ok [OF wf, of scripted 0 "[]"]
    by (fastforce simp: client_ok_def whenever_def elim!: returnsE)
  have "is_connected c2"
    using routing_activation_link [OF a] by (simp add: same_link_def)
  with c a show ?thesis by (simp add: zg_connect_to_vmg_def Let_def)
qed

theorem zg_failed_activation_locks_out_witness:
  "\<exists>g'. zg_serve (lwip_sockets scripted) [ZgConnect, ZgConnect] g' [[0x02]] = Ret ([-1, -1], g', [[0x02]]) \<and> \<not> vmg_connected g'"
proof -
  have z: "wf_client (vmg_client zg_zero)" "\<not> is_connected (vmg_client zg_zero)"
    by (simp_all add: zg_zero_def client_zero_def wf_client_def)
  obtain g' w' where g': "zg_connect_to_vmg (lwip_sockets scripted) (Some zg_zero) [] = Ret (-1, Some g', w')"
      "is_connected (vmg_client g')"
    using zg_connect_refused [OF z] by blast
  from zg_failed_activation_locks_out [OF g'(1) z(2) g'(2), of 2 "[[0x02]]"] show ?thesis
    by (auto simp: numeral_eq_Suc zg_zero_def simp del: zg_serve.simps)
qed

end
