(* ===== verification/ECU_Node.thy ===== *)
theory ECU_Node
  imports DoIP_Client UDS_Handler
begin

text \<open>
  The end-node ECU's application: \<^verbatim>\<open>end_node_ecu/tc375/src/ecu_node.c\<close>, its header and
  \<^verbatim>\<open>ecu_main.c\<close>: a client of the zonal gateway with a heartbeat and a report timer. Printing is
  left out (\<^verbatim>\<open>ecu_print_info\<close> only prints). \<^verbatim>\<open>uds_handle_request\<close>, which \<^verbatim>\<open>ecu_node.c\<close> calls and no
  file defines, is a parameter.
\<close>

section \<open>State\<close>

abbreviation ECU_MAX_DIAG_BUFFER_SIZE :: nat where "ECU_MAX_DIAG_BUFFER_SIZE \<equiv> 4096"
abbreviation ECU_HEARTBEAT_INTERVAL_MS :: u32 where "ECU_HEARTBEAT_INTERVAL_MS \<equiv> 10000"
abbreviation ECU_VCI_UPDATE_INTERVAL_MS :: u32 where "ECU_VCI_UPDATE_INTERVAL_MS \<equiv> 60000"

datatype ECUState = ECU_STATE_INIT | ECU_STATE_DISCOVERING | ECU_STATE_CONNECTING | ECU_STATE_READY
  | ECU_STATE_OTA_IN_PROGRESS | ECU_STATE_ERROR

record ECUNode =
  node_id :: bytes
  node_address :: u16
  node_firmware_version :: bytes
  node_hardware_version :: bytes
  zg_ip :: bytes
  zg_port :: u16
  zg_client :: DoIPClient
  zg_connected :: bool
  node_state :: ECUState
  node_uds_handler :: UDSHandler
  node_ota_capable :: bool
  node_delta_update_supported :: bool
  node_max_package_size :: u32
  last_heartbeat_ms :: u32
  last_vci_update_ms :: u32
  node_rx_buffer :: bytes
  node_tx_buffer :: bytes

definition ecu_zero :: ECUNode where
  "ecu_zero = \<lparr>node_id = replicate 32 0, node_address = 0, node_firmware_version = replicate 16 0,
     node_hardware_version = replicate 32 0, zg_ip = replicate 16 0, zg_port = 0, zg_client = client_zero,
     zg_connected = False, node_state = ECU_STATE_INIT, node_uds_handler = uds_handler_zero,
     node_ota_capable = False, node_delta_update_supported = False, node_max_package_size = 0,
     last_heartbeat_ms = 0, last_vci_update_ms = 0,
     node_rx_buffer = replicate ECU_MAX_DIAG_BUFFER_SIZE 0, node_tx_buffer = replicate ECU_MAX_DIAG_BUFFER_SIZE 0\<rparr>"

section \<open>Life cycle and connection\<close>

text \<open>The result of \<open>doip_client_init\<close> is ignored, as in the source.\<close>

definition ecu_init ::
  "'w doip_sockets \<Rightarrow> ECUNode option \<Rightarrow> bytes option \<Rightarrow> u16 \<Rightarrow> bytes option \<Rightarrow> u16 \<Rightarrow> (int \<times> ECUNode option) cexec" where
  "ecu_init S ecu ident logical_addr ip port =
     (case (ecu, ident, ip) of
        (Some _, Some name, Some addr) \<Rightarrow>
          let e0 = ecu_zero in
          cbind (c_strncpy (node_id e0) name (length (node_id e0) - 1)) (\<lambda>name'.
          cbind (c_strncpy (node_firmware_version e0) (map of_char ''1.0.0'') (length (node_firmware_version e0) - 1)) (\<lambda>fw.
          cbind (c_strncpy (node_hardware_version e0) (map of_char ''TC375TP-LiteKit-v2.0'')
                   (length (node_hardware_version e0) - 1)) (\<lambda>hw.
          cbind (c_strncpy (zg_ip e0) addr (length (zg_ip e0) - 1)) (\<lambda>ip'.
          cbind (deref (snd (doip_client_init S (Some (zg_client e0)) ip port logical_addr 0x0200))) (\<lambda>c.
          cbind (deref (uds_handler_init (Some (node_uds_handler e0)))) (\<lambda>h.
          Ret (0, Some (e0\<lparr>node_id := name', node_address := logical_addr, node_firmware_version := fw,
             node_hardware_version := hw, zg_ip := ip', zg_port := port, zg_client := c, node_uds_handler := h,
             node_ota_capable := True, node_delta_update_supported := True, node_max_package_size := 10485760,
             node_state := ECU_STATE_INIT\<rparr>))))))))
      | _ \<Rightarrow> Ret (-1, ecu))"

definition ecu_connect_to_zg ::
  "'w doip_sockets \<Rightarrow> ECUNode option \<Rightarrow> 'w \<Rightarrow> (int \<times> ECUNode option \<times> 'w) cexec" where
  "ecu_connect_to_zg S ecu w =
     (case ecu of
        None \<Rightarrow> Ret (-1, None, w)
      | Some e \<Rightarrow>
          let (r, client, w1) = doip_client_connect S (Some (zg_client e)) w in
          cbind (deref client) (\<lambda>c1.
          let e1 = e\<lparr>zg_client := c1\<rparr>
          in if r \<noteq> 0 then Ret (-1, Some e1, w1)
             else
               cbind (doip_client_routing_activation S (Some (zg_client e1)) 0x00 w1) (\<lambda>(r2, client2, w2).
               cbind (deref client2) (\<lambda>c2.
               let e2 = e1\<lparr>zg_client := c2\<rparr>
               in if r2 \<noteq> 0
                  then
                    let (client3, w3) = doip_client_disconnect S (Some (zg_client e2)) w2
                    in cbind (deref client3) (\<lambda>c3. Ret (-1, Some (e2\<lparr>zg_client := c3\<rparr>), w3))
                  else Ret (0, Some (e2\<lparr>zg_connected := True\<rparr>), w2)))))"

definition ecu_start :: "'w doip_sockets \<Rightarrow> ECUNode option \<Rightarrow> 'w \<Rightarrow> (int \<times> ECUNode option \<times> 'w) cexec" where
  "ecu_start S ecu w =
     (case ecu of
        None \<Rightarrow> Ret (-1, None, w)
      | Some _ \<Rightarrow>
          cbind (ecu_connect_to_zg S ecu w) (\<lambda>(r, ecu1, w1).
          if r \<noteq> 0 then Ret (-1, ecu1, w1)
          else cbind (deref ecu1) (\<lambda>e. Ret (0, Some (e\<lparr>node_state := ECU_STATE_READY\<rparr>), w1))))"

definition ecu_stop :: "'w doip_sockets \<Rightarrow> ECUNode option \<Rightarrow> 'w \<Rightarrow> (ECUNode option \<times> 'w) cexec" where
  "ecu_stop S ecu w =
     (case ecu of
        None \<Rightarrow> Ret (None, w)
      | Some e \<Rightarrow>
          cbind (if zg_connected e
                 then let (client, w1) = doip_client_disconnect S (Some (zg_client e)) w
                      in cbind (deref client) (\<lambda>c. Ret (e\<lparr>zg_client := c, zg_connected := False\<rparr>, w1))
                 else Ret (e, w)) (\<lambda>(e1, w1). Ret (Some (e1\<lparr>node_state := ECU_STATE_INIT\<rparr>), w1)))"

section \<open>Messages to the gateway\<close>

definition ecu_discover_zone_gateway ::
  "'w doip_sockets \<Rightarrow> ECUNode option \<Rightarrow> 'w \<Rightarrow> (int \<times> ECUNode option \<times> 'w) cexec" where
  "ecu_discover_zone_gateway S ecu w =
     (case ecu of
        None \<Rightarrow> Ret (-1, None, w)
      | Some e \<Rightarrow>
          cbind (doip_client_vehicle_identification S (Some (zg_client e)) (Some (replicate 18 0)) w) (\<lambda>(r, client, vin, w1).
          cbind (deref client) (\<lambda>c. Ret (if r = 0 then 0 else -1, Some (e\<lparr>zg_client := c\<rparr>), w1))))"

text \<open>The local response buffer and length are written by the client; their first contents are not read.\<close>

definition ecu_send_heartbeat ::
  "'w doip_sockets \<Rightarrow> ECUNode option \<Rightarrow> 'w \<Rightarrow> (int \<times> ECUNode option \<times> 'w) cexec" where
  "ecu_send_heartbeat S ecu w =
     (case ecu of
        None \<Rightarrow> Ret (-1, None, w)
      | Some e \<Rightarrow>
          if \<not> zg_connected e then Ret (-1, ecu, w)
          else
            cbind (doip_client_send_diagnostic S (Some (zg_client e)) (Some [0x3E, 0x00]) 2
                     (Some (replicate 256 0)) 256 (Some 0) w) (\<lambda>(r, client, out, len, w1).
            cbind (deref client) (\<lambda>c. Ret (r, Some (e\<lparr>zg_client := c\<rparr>), w1))))"

definition ecu_send_vci_info :: "ECUNode option \<Rightarrow> int" where
  "ecu_send_vci_info ecu = (case ecu of None \<Rightarrow> -1 | Some e \<Rightarrow> if \<not> zg_connected e then -1 else 0)"

definition ecu_get_tick_ms :: u32 where
  "ecu_get_tick_ms = 0"

definition ecu_run :: "'w doip_sockets \<Rightarrow> ECUNode option \<Rightarrow> 'w \<Rightarrow> (ECUNode option \<times> 'w) cexec" where
  "ecu_run S ecu w =
     (case ecu of
        None \<Rightarrow> Ret (None, w)
      | Some e \<Rightarrow>
          let current_time = ecu_get_tick_ms in
          cbind (if ECU_HEARTBEAT_INTERVAL_MS \<le> current_time - last_heartbeat_ms e
                 then cbind (ecu_send_heartbeat S (Some e) w) (\<lambda>(r, ecu1, w1). cbind (deref ecu1) (\<lambda>e1.
                        Ret (e1\<lparr>last_heartbeat_ms := current_time\<rparr>, w1)))
                 else Ret (e, w)) (\<lambda>(e1, w1).
          let e2 = (if ECU_VCI_UPDATE_INTERVAL_MS \<le> current_time - last_vci_update_ms e1
                    then (let r = ecu_send_vci_info (Some e1) in e1\<lparr>last_vci_update_ms := current_time\<rparr>) else e1)
          in Ret (Some e2, w1)))"

section \<open>Requests and updates\<close>

text \<open>\<open>handle\<close> is the undefined \<^verbatim>\<open>uds_handle_request\<close>.\<close>

definition ecu_handle_uds_request ::
  "(UDSHandler \<Rightarrow> bytes \<Rightarrow> size_t \<Rightarrow> bytes \<Rightarrow> size_t \<Rightarrow> size_t \<Rightarrow> (int \<times> UDSHandler \<times> bytes \<times> size_t) cexec)
     \<Rightarrow> ECUNode option \<Rightarrow> bytes option \<Rightarrow> size_t \<Rightarrow> bytes option \<Rightarrow> size_t \<Rightarrow> size_t option
     \<Rightarrow> (int \<times> ECUNode option \<times> bytes option \<times> size_t option) cexec" where
  "ecu_handle_uds_request handle ecu request req_len resp resp_cap rlen =
     (case (ecu, request, resp, rlen) of
        (Some e, Some req, Some out, Some n) \<Rightarrow>
          cbind (handle (node_uds_handler e) req req_len out resp_cap n) (\<lambda>(r, h, out', n').
          Ret (r, Some (e\<lparr>node_uds_handler := h\<rparr>), Some out', Some n'))
      | _ \<Rightarrow> Ret (-1, ecu, resp, rlen))"

definition ecu_check_ota_readiness :: "ECUNode option \<Rightarrow> bool" where
  "ecu_check_ota_readiness ecu = (case ecu of None \<Rightarrow> False | Some _ \<Rightarrow> True)"

definition ecu_receive_ota_firmware :: "ECUNode option \<Rightarrow> bytes option \<Rightarrow> size_t \<Rightarrow> int \<times> ECUNode option" where
  "ecu_receive_ota_firmware ecu firmware_data firmware_size =
     (case (ecu, firmware_data) of
        (Some e, Some _) \<Rightarrow>
          if firmware_size = 0 then (-1, ecu) else (0, Some (e\<lparr>node_state := ECU_STATE_OTA_IN_PROGRESS\<rparr>))
      | _ \<Rightarrow> (-1, ecu))"

definition ecu_install_ota_firmware :: "ECUNode option \<Rightarrow> int" where
  "ecu_install_ota_firmware ecu = (case ecu of None \<Rightarrow> -1 | Some _ \<Rightarrow> 0)"

definition ecu_report_ota_result :: "ECUNode option \<Rightarrow> bool \<Rightarrow> int" where
  "ecu_report_ota_result ecu success = (case ecu of None \<Rightarrow> -1 | Some e \<Rightarrow> if \<not> zg_connected e then -1 else 0)"

section \<open>The program\<close>

text \<open>\<^verbatim>\<open>main\<close>, its endless loop cut after \<open>n\<close> rounds; the code returns -1 or keeps running (result 0).\<close>

fun ecu_rounds :: "'w doip_sockets \<Rightarrow> nat \<Rightarrow> ECUNode option \<Rightarrow> 'w \<Rightarrow> (ECUNode option \<times> 'w) cexec" where
  "ecu_rounds S 0 ecu w = Ret (ecu, w)"
| "ecu_rounds S (Suc n) ecu w = cbind (ecu_run S ecu w) (\<lambda>(ecu1, w1). ecu_rounds S n ecu1 w1)"

definition ecu_main :: "'w doip_sockets \<Rightarrow> nat \<Rightarrow> ECUNode \<Rightarrow> 'w \<Rightarrow> (int \<times> ECUNode option \<times> 'w) cexec" where
  "ecu_main S n e0 w =
     cbind (ecu_init S (Some e0) (Some (map of_char ''TC375-ECU-002-Zone1-ECU1'' @ [0])) 0x0201
              (Some (map of_char ''192.168.1.10'' @ [0])) 13400) (\<lambda>(r, ecu).
     if r \<noteq> 0 then Ret (-1, ecu, w)
     else
       cbind (ecu_start S ecu w) (\<lambda>(r1, ecu1, w1).
       if r1 \<noteq> 0 then Ret (-1, ecu1, w1)
       else cbind (ecu_rounds S n ecu1 w1) (\<lambda>(ecu2, w2). Ret (0, ecu2, w2))))"

section \<open>The link to the gateway\<close>

datatype ecu_op = EcuStart | EcuStop | EcuConnect | EcuDiscover | EcuHeartbeat | EcuVci | EcuRun
  | EcuReceive bytes | EcuInstall | EcuReport bool

fun ecu_step :: "'w doip_sockets \<Rightarrow> ecu_op \<Rightarrow> ECUNode \<Rightarrow> 'w \<Rightarrow> (int \<times> ECUNode option \<times> 'w) cexec" where
  "ecu_step S EcuStart e w = ecu_start S (Some e) w"
| "ecu_step S EcuStop e w = cbind (ecu_stop S (Some e) w) (\<lambda>(e', w'). Ret (0, e', w'))"
| "ecu_step S EcuConnect e w = ecu_connect_to_zg S (Some e) w"
| "ecu_step S EcuDiscover e w = ecu_discover_zone_gateway S (Some e) w"
| "ecu_step S EcuHeartbeat e w = ecu_send_heartbeat S (Some e) w"
| "ecu_step S EcuVci e w = Ret (ecu_send_vci_info (Some e), Some e, w)"
| "ecu_step S EcuRun e w = cbind (ecu_run S (Some e) w) (\<lambda>(e', w'). Ret (0, e', w'))"
| "ecu_step S (EcuReceive d) e w =
     (let (r, e') = ecu_receive_ota_firmware (Some e) (Some d) (of_nat (length d)) in Ret (r, e', w))"
| "ecu_step S EcuInstall e w = Ret (ecu_install_ota_firmware (Some e), Some e, w)"
| "ecu_step S (EcuReport b) e w = Ret (ecu_report_ota_result (Some e) b, Some e, w)"

fun ecu_serve :: "'w doip_sockets \<Rightarrow> ecu_op list \<Rightarrow> ECUNode \<Rightarrow> 'w \<Rightarrow> (int list \<times> ECUNode \<times> 'w) cexec" where
  "ecu_serve S [] e w = Ret ([], e, w)"
| "ecu_serve S (oper # ops) e w =
     cbind (ecu_step S oper e w) (\<lambda>(r, e', w'). cbind (deref e') (\<lambda>e'.
     cbind (ecu_serve S ops e' w') (\<lambda>(rs, e'', w''). Ret (r # rs, e'', w''))))"

definition linked :: "ECUNode \<Rightarrow> bool" where
  "linked e \<longleftrightarrow> wf_client (zg_client e) \<and> zg_connected e = is_connected (zg_client e)
     \<and> routing_active (zg_client e) = is_connected (zg_client e) \<and> last_heartbeat_ms e = 0 \<and> last_vci_update_ms e = 0"

definition node_ok :: "int \<times> ECUNode option \<times> 'w \<Rightarrow> bool" where
  "node_ok = (\<lambda>(r, e, w). r \<in> {0, -1} \<and> (\<exists>e1. e = Some e1 \<and> linked e1))"

lemma linked_simps:
  "linked (e\<lparr>node_state := s\<rparr>) = linked e"
  "linked e \<Longrightarrow> wf_client c \<Longrightarrow> same_link (zg_client e) c \<Longrightarrow> linked (e\<lparr>zg_client := c\<rparr>)"
  by (simp_all add: linked_def same_link_def)

lemma ecu_run_idle: "last_heartbeat_ms e = 0 \<Longrightarrow> last_vci_update_ms e = 0 \<Longrightarrow> ecu_run S (Some e) w = Ret (Some e, w)"
  by (simp add: ecu_run_def ecu_get_tick_ms_def)

lemma ecu_rounds_idle:
  "last_heartbeat_ms e = 0 \<Longrightarrow> last_vci_update_ms e = 0 \<Longrightarrow> ecu_rounds S n (Some e) w = Ret (Some e, w)"
  by (induction n) (simp_all add: ecu_run_idle)

lemma ecu_init_ok:
  "\<exists>e. ecu_init S (Some e0) (Some name) addr (Some ip) port = Ret (0, Some e) \<and> linked e"
proof -
  have "\<exists>r c. doip_client_init S (Some client_zero) (Some ip) port addr 0x0200 = (r, Some c) \<and> linked (ecu_zero\<lparr>zg_client := c\<rparr>)"
    by (auto simp: doip_client_init_def Let_def split_def wf_client_def client_zero_def linked_def ecu_zero_def split: option.split)
  then obtain r c where c: "doip_client_init S (Some client_zero) (Some ip) port addr 0x0200 = (r, Some c)"
    "linked (ecu_zero\<lparr>zg_client := c\<rparr>)" by blast
  then show ?thesis
    by (simp add: ecu_init_def ecu_zero_def uds_handler_init_def c_strncpy_ok Let_def linked_def)
qed

context doip_socket_api
begin

lemma ecu_connect_ok:
  assumes "linked e"
  shows "returns (ecu_connect_to_zg S (Some e) w) node_ok"
proof -
  have wf: "wf_client (zg_client e)"
    using assms by (simp add: linked_def)
  obtain r c1 w1 where c: "doip_client_connect S (Some (zg_client e)) w = (r, Some c1, w1)" "wf_client c1" "r \<in> {0, -1}"
    using connect_ok [OF wf, of S w] by (cases "doip_client_connect S (Some (zg_client e)) w") (auto simp: client_ok_def)
  have l: "if r = 0 then is_connected c1 \<and> \<not> is_connected (zg_client e) else same_flags"
    if "same_flags = (is_connected c1 = is_connected (zg_client e) \<and> routing_active c1 = routing_active (zg_client e))" for same_flags
    using c(1,3) that by (auto simp: doip_client_connect_def Let_def split_def split: if_splits)
  obtain r2 c2 w2 where a: "doip_client_routing_activation S (Some c1) 0 w1 = Ret (r2, Some c2, w2)" "wf_client c2" "r2 \<in> {0, -1}"
    using routing_activation_ok [OF c(2), of 0 w1] by (auto simp: client_ok_def elim!: returnsE)
  note ra = routing_activation_link [OF a(1)]
  obtain c3 w3 where d: "doip_client_disconnect S (Some c2) w2 = (Some c3, w3)" "wf_client c3" "\<not> is_connected c3"
    using disconnect_ok [OF a(2), of S w2] by blast
  then have d': "\<not> routing_active c3"
    by (simp add: wf_client_def)
  show ?thesis
  proof (cases "r = 0")
    case True
    with l have "is_connected c1" "\<not> is_connected (zg_client e)" by auto
    with True assms c a ra d d' show ?thesis
      by (auto simp: ecu_connect_to_zg_def node_ok_def linked_def same_link_def Let_def split: if_splits)
  next
    case False
    with l assms c show ?thesis
      by (auto simp: ecu_connect_to_zg_def node_ok_def linked_def Let_def)
  qed
qed

lemma ecu_heartbeat_ok:
  assumes "linked e"
  shows "returns (ecu_send_heartbeat S (Some e) w) node_ok"
proof -
  have wf: "wf_client (zg_client e)"
    using assms by (simp add: linked_def)
  have "returns (doip_client_send_diagnostic S (Some (zg_client e)) (Some [0x3E, 0x00]) 2 (Some (replicate 256 0)) 256 (Some 0) w)
    (\<lambda>(r, c', out', rl', w'). client_ok (r, c', w') \<and> (\<exists>o1. out' = Some o1 \<and> length o1 = length (replicate 256 (0 :: u8))))"
    by (rule send_diagnostic_ok [OF wf]) simp_all
  then show ?thesis
    using assms by (auto simp: ecu_send_heartbeat_def node_ok_def client_ok_def elim!: returnsE
        intro!: linked_simps(2) dest: send_diagnostic_link)
qed

lemma ecu_discover_ok:
  assumes "linked e"
  shows "returns (ecu_discover_zone_gateway S (Some e) w) node_ok"
proof -
  have wf: "wf_client (zg_client e)"
    using assms by (simp add: linked_def)
  have "returns (doip_client_vehicle_identification S (Some (zg_client e)) (Some (replicate 18 0)) w)
    (\<lambda>(r, c', v', w'). client_ok (r, c', w'))"
    by (rule vehicle_identification_ok [OF wf]) auto
  then show ?thesis
    using assms by (auto simp: ecu_discover_zone_gateway_def node_ok_def client_ok_def elim!: returnsE
        intro!: linked_simps(2) dest: vehicle_identification_link)
qed

lemma ecu_step_ok:
  assumes "linked e"
  shows "returns (ecu_step S oper e w) node_ok"
proof (cases oper)
  case EcuStart
  obtain r e1 w1 where "ecu_connect_to_zg S (Some e) w = Ret (r, Some e1, w1)" "linked e1"
    using ecu_connect_ok [OF assms, of w] by (auto simp: node_ok_def elim!: returnsE)
  with EcuStart show ?thesis by (simp add: ecu_start_def node_ok_def linked_simps)
next
  case EcuStop
  have "wf_client (zg_client e)"
    using assms by (simp add: linked_def)
  then obtain c w1 where "doip_client_disconnect S (Some (zg_client e)) w = (Some c, w1)" "wf_client c" "\<not> is_connected c"
    using disconnect_ok [of "zg_client e" S w] by blast
  with EcuStop assms show ?thesis
    by (cases "zg_connected e") (simp_all add: ecu_stop_def node_ok_def linked_def wf_client_def)
next
  case EcuRun
  with assms show ?thesis by (simp add: ecu_run_idle node_ok_def linked_def)
next
  case EcuConnect
  with ecu_connect_ok [OF assms] show ?thesis by simp
next
  case EcuDiscover
  with ecu_discover_ok [OF assms] show ?thesis by simp
next
  case EcuHeartbeat
  with ecu_heartbeat_ok [OF assms] show ?thesis by simp
qed (use assms in \<open>simp_all add: node_ok_def ecu_send_vci_info_def ecu_receive_ota_firmware_def ecu_install_ota_firmware_def
       ecu_report_ota_result_def linked_simps(1)\<close>)

lemma ecu_serve_ok:
  assumes "linked e"
  shows "returns (ecu_serve S ops e w) (\<lambda>(rs, e', w'). linked e' \<and> length rs = length ops \<and> set rs \<subseteq> {0, -1})"
  using assms
proof (induction ops arbitrary: e w)
  case (Cons oper ops)
  obtain r e1 w1 where s: "ecu_step S oper e w = Ret (r, Some e1, w1)" "linked e1" "r \<in> {0, -1}"
    using ecu_step_ok [OF Cons.prems, of oper w] by (auto simp: node_ok_def elim!: returnsE)
  from Cons.IH [OF s(2)] s show ?case
    by (auto simp: returns_cbind split_def elim!: returns_mono)
qed simp

end

text \<open>
  C34. The node's link is consistent. Whatever operations the node runs and whatever the network answers,
  nothing faults, every result is 0 or -1, and the node counts itself as connected exactly when its
  client holds a TCP connection with routing activated: a failed routing activation is taken back,
  so a later attempt can succeed.
\<close>
theorem ecu_link_invariant:
  assumes "ecu_init (lwip_sockets px) (Some e0) (Some name) addr (Some ip) port = Ret (0, Some e)"
  shows "returns (ecu_serve (lwip_sockets px) ops e w) (\<lambda>(rs, e', w'). length rs = length ops \<and> set rs \<subseteq> {0, -1}
    \<and> zg_connected e' = is_connected (zg_client e') \<and> routing_active (zg_client e') = is_connected (zg_client e')
    \<and> (is_connected (zg_client e') \<longrightarrow> tcp_socket (zg_client e') \<noteq> DOIP_INVALID_SOCKET))"
proof -
  have "linked e"
    using ecu_init_ok [of "lwip_sockets px" e0 name addr ip port] assms by auto
  from lwip.ecu_serve_ok [OF this] show ?thesis
    by (rule returns_mono) (auto simp: linked_def wf_client_def)
qed

theorem ecu_link_invariant_witness:
  "\<exists>e. ecu_init (lwip_sockets scripted) (Some ecu_zero) (Some [0x41]) 0x0201 (Some [0]) 13400 = Ret (0, Some e)
    \<and> returns (ecu_serve (lwip_sockets scripted) [EcuStart, EcuHeartbeat, EcuRun, EcuStop] e [[0x02, 0xFD]])
        (\<lambda>(rs, e', w'). zg_connected e' = is_connected (zg_client e'))"
proof -
  obtain e where e: "ecu_init (lwip_sockets scripted) (Some ecu_zero) (Some [0x41]) 0x0201 (Some [0]) 13400 = Ret (0, Some e)"
    using ecu_init_ok by blast
  have "returns (ecu_serve (lwip_sockets scripted) [EcuStart, EcuHeartbeat, EcuRun, EcuStop] e [[0x02, 0xFD]])
      (\<lambda>(rs, e', w'). zg_connected e' = is_connected (zg_client e'))"
    by (rule returns_mono [OF ecu_link_invariant [OF e]]) auto
  with e show ?thesis by blast
qed

definition idle :: "ECUNode \<Rightarrow> bool" where
  "idle e \<longleftrightarrow> last_heartbeat_ms e = 0 \<and> last_vci_update_ms e = 0"

lemma ecu_connect_idle:
  assumes "idle e"
  shows "whenever (ecu_connect_to_zg S (Some e) w) (\<lambda>x. \<exists>e1. fst (snd x) = Some e1 \<and> idle e1)"
  using assms
  by (simp add: ecu_connect_to_zg_def Let_def split_def cong: if_cong)
    (auto simp: whenever_def idle_def)

lemma ecu_start_idle:
  assumes "idle e"
  shows "whenever (ecu_start S (Some e) w) (\<lambda>x. \<exists>e1. fst (snd x) = Some e1 \<and> idle e1)"
  using ecu_connect_idle [OF assms, of S w]
  by (auto simp: ecu_start_def whenever_def idle_def split_def cbind_Ret_iff split: if_splits)

text \<open>
  The running node never reports. The tick function returns the constant 0 and the timers start at
  0, so neither the heartbeat nor the report interval ever passes: after any number of rounds of the
  main loop, node, network and exit code are what they were when the loop began.
\<close>
theorem ecu_main_never_reports: "ecu_main S n e0 w = ecu_main S 0 e0 w"
proof -
  obtain e where e: "ecu_init S (Some e0) (Some (map of_char ''TC375-ECU-002-Zone1-ECU1'' @ [0])) 0x0201
      (Some (map of_char ''192.168.1.10'' @ [0])) 13400 = Ret (0, Some e)" "linked e"
    using ecu_init_ok by blast
  then have "idle e"
    by (simp add: idle_def linked_def)
  show ?thesis
  proof (cases "ecu_start S (Some e) w")
    case (Ret x)
    then obtain r e1 w1 where x: "x = (r, Some e1, w1)" "idle e1"
      using ecu_start_idle [OF \<open>idle e\<close>, of S w] by (cases x) (auto simp: whenever_def)
    then have "ecu_rounds S k (Some e1) w1 = Ret (Some e1, w1)" for k
      by (intro ecu_rounds_idle) (simp_all add: idle_def)
    with e(1) Ret x show ?thesis by (simp add: ecu_main_def del: ecu_rounds.simps)
  qed (use e(1) in \<open>simp_all add: ecu_main_def\<close>)
qed

end
