(* ===== verification/Cpp_Exceptions.thy ===== *)
theory Cpp_Exceptions
  imports C_Prelude
begin

text \<open>
  C++ code that may throw: an exception is \<open>Inl\<close> with its text, a value \<open>Inr\<close>; an access outside an
  object stays a \<open>Fault\<close>.
\<close>

section \<open>Exceptions\<close>

type_synonym 'a throws = "(string + 'a) cexec"

definition throw :: "string \<Rightarrow> 'a throws" where
  "throw e = Ret (Inl e)"

definition ok :: "'a \<Rightarrow> 'a throws" where
  "ok a = Ret (Inr a)"

definition ebind :: "'a throws \<Rightarrow> ('a \<Rightarrow> 'b throws) \<Rightarrow> 'b throws" where
  "ebind m f = cbind m (\<lambda>r. case r of Inl e \<Rightarrow> Ret (Inl e) | Inr a \<Rightarrow> f a)"

lemma ebind_simps [simp]: "ebind (ok a) f = f a" "ebind (throw e) f = throw e" "ebind Fault f = Fault" "ebind Hang f = Hang"
  by (simp_all add: ebind_def ok_def throw_def)

lemma throws_distinct [simp]:
  "ok a \<noteq> throw e" "throw e \<noteq> ok a" "ok a \<noteq> Fault" "throw e \<noteq> Fault" "ok a = ok b \<longleftrightarrow> a = b" "throw e = throw e' \<longleftrightarrow> e = e'"
  by (simp_all add: ok_def throw_def)

lemma ebind_ok_iff: "ebind m f = ok b \<longleftrightarrow> (\<exists>a. m = ok a \<and> f a = ok b)"
  by (cases m) (auto simp: ebind_def ok_def split: sum.splits)

lemma ebind_Fault_iff: "ebind m f = Fault \<longleftrightarrow> m = Fault \<or> (\<exists>a. m = ok a \<and> f a = Fault)"
  by (cases m) (auto simp: ebind_def ok_def split: sum.splits)

end
