(* ===== verification/DoIP_Server.thy ===== *)
theory DoIP_Server
  imports DoIP_Message Cpp_Exceptions
begin

text \<open>
  The DoIP server of the vehicle gateway (VMG), a C++ class:
  \<^verbatim>\<open>vehicle_gateway/include/doip_server.hpp\<close> and \<^verbatim>\<open>src/doip_server.cpp\<close>. A \<^verbatim>\<open>std::vector\<close> is a
  byte list, a C++ exception is \<open>Inl\<close> with its text, a read or write outside an object is \<open>Fault\<close>.
  The byte order of the host is a parameter, because the serialiser depends on it. The threads'
  loop bodies are functions over an environment with the socket calls; logging is left out.
\<close>

section \<open>Messages\<close>

datatype byte_order = LITTLE_ENDIAN | BIG_ENDIAN

fun host_htons :: "byte_order \<Rightarrow> u16 \<Rightarrow> u16" where
  "host_htons LITTLE_ENDIAN x = be16_val (ucast x) (ucast (drop_bit 8 x))"
| "host_htons BIG_ENDIAN x = x"

fun host_htonl :: "byte_order \<Rightarrow> u32 \<Rightarrow> u32" where
  "host_htonl LITTLE_ENDIAN x =
     be32_val (ucast x) (ucast (drop_bit 8 x)) (ucast (drop_bit 16 x)) (ucast (drop_bit 24 x))"
| "host_htonl BIG_ENDIAN x = x"

abbreviation VehicleIdentificationReq :: u16 where "VehicleIdentificationReq \<equiv> 0x0001"
abbreviation VehicleIdentificationRes :: u16 where "VehicleIdentificationRes \<equiv> 0x0004"
abbreviation RoutingActivationReq :: u16 where "RoutingActivationReq \<equiv> 0x0005"
abbreviation RoutingActivationRes :: u16 where "RoutingActivationRes \<equiv> 0x0006"
abbreviation AliveCheckReq :: u16 where "AliveCheckReq \<equiv> 0x0007"
abbreviation AliveCheckRes :: u16 where "AliveCheckRes \<equiv> 0x0008"
abbreviation DiagnosticMessage :: u16 where "DiagnosticMessage \<equiv> 0x8001"
abbreviation DiagnosticMessagePosAck :: u16 where "DiagnosticMessagePosAck \<equiv> 0x8002"
abbreviation DiagnosticMessageNegAck :: u16 where "DiagnosticMessageNegAck \<equiv> 0x8003"

record VmgHeader =
  hdr_version :: u8
  hdr_inverse :: u8
  hdr_type :: u16
  hdr_length :: u32

record DoIPMessage =
  msg_header :: VmgHeader
  msg_payload :: bytes

definition mk_message :: "u16 \<Rightarrow> bytes \<Rightarrow> DoIPMessage" where
  "mk_message type payload =
     \<lparr>msg_header = \<lparr>hdr_version = 0x02, hdr_inverse = 0xFD, hdr_type = type, hdr_length = of_nat (length payload)\<rparr>,
      msg_payload = payload\<rparr>"

definition set_payload :: "bytes \<Rightarrow> DoIPMessage \<Rightarrow> DoIPMessage" where
  "set_payload payload m =
     m\<lparr>msg_header := (msg_header m)\<lparr>hdr_length := of_nat (length payload)\<rparr>, msg_payload := payload\<rparr>"

definition get_payload_type :: "DoIPMessage \<Rightarrow> u16" where
  "get_payload_type m = hdr_type (msg_header m)"

text \<open>The serialiser converts to network order and then takes the bytes from the most significant one.\<close>

definition to_bytes :: "byte_order \<Rightarrow> DoIPMessage \<Rightarrow> bytes" where
  "to_bytes bo m =
     (let pt_be = host_htons bo (hdr_type (msg_header m));
          len_be = host_htonl bo (hdr_length (msg_header m))
      in [hdr_version (msg_header m), hdr_inverse (msg_header m)]
         @ [ucast (drop_bit 8 pt_be), ucast pt_be]
         @ [ucast (drop_bit 24 len_be), ucast (drop_bit 16 len_be), ucast (drop_bit 8 len_be), ucast len_be]
         @ msg_payload m)"

text \<open>\<open>data\<close> is the memory behind the pointer, \<open>len\<close> the announced size; \<open>8 + payload_length\<close> is a \<^verbatim>\<open>uint32_t\<close>.\<close>

definition from_bytes :: "bytes \<Rightarrow> nat \<Rightarrow> DoIPMessage throws" where
  "from_bytes data len =
     (if len < 8 then throw ''Invalid DoIP message: too short''
      else
        cbind (buf_get data 0) (\<lambda>v. cbind (buf_get data 1) (\<lambda>iv.
        if v \<noteq> 0x02 \<or> iv \<noteq> 0xFD then throw ''Invalid DoIP protocol version''
        else
          cbind (buf_get data 2) (\<lambda>b2. cbind (buf_get data 3) (\<lambda>b3.
          cbind (buf_get data 4) (\<lambda>b4. cbind (buf_get data 5) (\<lambda>b5.
          cbind (buf_get data 6) (\<lambda>b6. cbind (buf_get data 7) (\<lambda>b7.
          let payload_type = be16_val b2 b3; payload_length = be32_val b4 b5 b6 b7
          in if len < unat (8 + payload_length) then throw ''Invalid DoIP message: payload truncated''
             else cbind (buf_slice data 8 (unat payload_length)) (\<lambda>payload. ok (mk_message payload_type payload)))))))))))"

section \<open>Server state\<close>

record DoIPServerConfig =
  cfg_port :: u16
  cfg_vin :: bytes
  cfg_logical_address :: u16
  cfg_eid :: bytes
  cfg_gid :: bytes
  cfg_max_clients :: nat

definition default_config :: DoIPServerConfig where
  "default_config = \<lparr>cfg_port = 13400, cfg_vin = map of_char ''WBADT43452G296403'', cfg_logical_address = 0x0100,
     cfg_eid = [0x11, 0x22, 0x33, 0x44, 0x55, 0x66], cfg_gid = [0xAA, 0xBB, 0xCC, 0xDD, 0xEE, 0xFF],
     cfg_max_clients = 10\<rparr>"

record DoIPClientSession =
  sess_socket :: int
  sess_routing_active :: bool
  sess_source_address :: u16

definition new_session :: "int \<Rightarrow> DoIPClientSession" where
  "new_session sock = \<lparr>sess_socket = sock, sess_routing_active = False, sess_source_address = 0\<rparr>"

text \<open>
  \<open>uds_fun\<close> is the registered handler with the state \<open>'u\<close> it captures: it answers or throws. The
  environment gives the socket calls, over a network state \<open>'w\<close>; a receive with \<^verbatim>\<open>MSG_WAITALL\<close>
  returns \<open>None\<close> on an error and fewer bytes than asked for only at the end of the stream; a failed
  \<^verbatim>\<open>accept\<close> or \<^verbatim>\<open>recvfrom\<close> says whether \<^verbatim>\<open>errno\<close> is \<^verbatim>\<open>EINTR\<close>.
\<close>

type_synonym 'u uds_fun = "bytes \<Rightarrow> 'u \<Rightarrow> (string + bytes) \<times> 'u"

record 'w server_net =
  net_socket :: "bool \<Rightarrow> 'w \<Rightarrow> int \<times> 'w"
  net_bind :: "int \<Rightarrow> u16 \<Rightarrow> 'w \<Rightarrow> int \<times> 'w"
  net_listen :: "int \<Rightarrow> nat \<Rightarrow> 'w \<Rightarrow> int \<times> 'w"
  net_recv :: "int \<Rightarrow> nat \<Rightarrow> 'w \<Rightarrow> bytes option \<times> 'w"
  net_send :: "int \<Rightarrow> bytes \<Rightarrow> 'w \<Rightarrow> int \<times> 'w"
  net_recvfrom :: "int \<Rightarrow> nat \<Rightarrow> 'w \<Rightarrow> (bool + bytes \<times> nat) \<times> 'w"
  net_sendto :: "int \<Rightarrow> bytes \<Rightarrow> nat \<Rightarrow> 'w \<Rightarrow> int \<times> 'w"
  net_accept :: "int \<Rightarrow> 'w \<Rightarrow> (bool + int) \<times> 'w"
  net_close :: "int \<Rightarrow> 'w \<Rightarrow> 'w"

text \<open>\<open>v_threads\<close> is \<^verbatim>\<open>client_threads_\<close>: the socket each started thread serves. \<open>v_sessions\<close> is the map
  from sockets to sessions as an association list with one entry per socket.\<close>

record ('u, 'w) vmg =
  v_order :: byte_order
  v_config :: DoIPServerConfig
  v_udp_socket :: int
  v_tcp_socket :: int
  v_running :: bool
  v_total_messages :: "64 word"
  v_threads :: "int list"
  v_sessions :: "(int \<times> DoIPClientSession) list"
  v_handler :: "'u uds_fun option"
  v_captured :: 'u
  v_world :: 'w

definition new_server :: "byte_order \<Rightarrow> DoIPServerConfig \<Rightarrow> 'u \<Rightarrow> 'w \<Rightarrow> ('u, 'w) vmg" where
  "new_server bo config u w = \<lparr>v_order = bo, v_config = config, v_udp_socket = -1, v_tcp_socket = -1, v_running = False,
     v_total_messages = 0, v_threads = [], v_sessions = [], v_handler = None, v_captured = u, v_world = w\<rparr>"

definition register_uds_handler :: "'u uds_fun option \<Rightarrow> ('u, 'w) vmg \<Rightarrow> ('u, 'w) vmg" where
  "register_uds_handler h s = s\<lparr>v_handler := h\<rparr>"

definition set_config_vin :: "bytes \<Rightarrow> ('u, 'w) vmg \<Rightarrow> ('u, 'w) vmg" where
  "set_config_vin x s = s\<lparr>v_config := (v_config s)\<lparr>cfg_vin := x\<rparr>\<rparr>"

definition set_logical_address :: "u16 \<Rightarrow> ('u, 'w) vmg \<Rightarrow> ('u, 'w) vmg" where
  "set_logical_address x s = s\<lparr>v_config := (v_config s)\<lparr>cfg_logical_address := x\<rparr>\<rparr>"

definition set_eid :: "bytes \<Rightarrow> ('u, 'w) vmg \<Rightarrow> ('u, 'w) vmg" where
  "set_eid x s = s\<lparr>v_config := (v_config s)\<lparr>cfg_eid := x\<rparr>\<rparr>"

definition set_gid :: "bytes \<Rightarrow> ('u, 'w) vmg \<Rightarrow> ('u, 'w) vmg" where
  "set_gid x s = s\<lparr>v_config := (v_config s)\<lparr>cfg_gid := x\<rparr>\<rparr>"

definition get_active_connections :: "('u, 'w) vmg \<Rightarrow> nat" where
  "get_active_connections s = length (v_sessions s)"

section \<open>Starting and stopping\<close>

definition create_udp_socket :: "'w server_net \<Rightarrow> ('u, 'w) vmg \<Rightarrow> int \<times> ('u, 'w) vmg" where
  "create_udp_socket N s =
     (let (sock, w) = net_socket N False (v_world s)
      in if sock < 0 then (-1, s\<lparr>v_world := w\<rparr>)
         else let (r, w) = net_bind N sock (cfg_port (v_config s)) w
              in if r < 0 then (-1, s\<lparr>v_world := net_close N sock w\<rparr>) else (sock, s\<lparr>v_world := w\<rparr>))"

definition create_tcp_socket :: "'w server_net \<Rightarrow> ('u, 'w) vmg \<Rightarrow> int \<times> ('u, 'w) vmg" where
  "create_tcp_socket N s =
     (let (sock, w) = net_socket N True (v_world s)
      in if sock < 0 then (-1, s\<lparr>v_world := w\<rparr>)
         else let (r, w) = net_bind N sock (cfg_port (v_config s)) w
              in if r < 0 then (-1, s\<lparr>v_world := net_close N sock w\<rparr>)
                 else let (r, w) = net_listen N sock (cfg_max_clients (v_config s)) w
                      in if r < 0 then (-1, s\<lparr>v_world := net_close N sock w\<rparr>) else (sock, s\<lparr>v_world := w\<rparr>))"

definition server_start :: "'w server_net \<Rightarrow> ('u, 'w) vmg \<Rightarrow> bool \<times> ('u, 'w) vmg" where
  "server_start N s =
     (if v_running s then (False, s)
      else
        let (u, s) = create_udp_socket N s; s = s\<lparr>v_udp_socket := u\<rparr>;
            (t, s) = create_tcp_socket N s; s = s\<lparr>v_tcp_socket := t\<rparr>
        in if u < 0 \<or> t < 0 then (False, s) else (True, s\<lparr>v_running := True\<rparr>))"

text \<open>Once the threads are joined, dropping the sessions closes their sockets, in the order of the map.\<close>

definition server_stop :: "'w server_net \<Rightarrow> ('u, 'w) vmg \<Rightarrow> ('u, 'w) vmg" where
  "server_stop N s =
     (if \<not> v_running s then s
      else
        let s = s\<lparr>v_running := False\<rparr>;
            s = (if v_udp_socket s \<ge> 0
                 then s\<lparr>v_world := net_close N (v_udp_socket s) (v_world s), v_udp_socket := -1\<rparr> else s);
            s = (if v_tcp_socket s \<ge> 0
                 then s\<lparr>v_world := net_close N (v_tcp_socket s) (v_world s), v_tcp_socket := -1\<rparr> else s)
        in s\<lparr>v_threads := [], v_sessions := [],
             v_world := fold (net_close N) (sort (map fst (v_sessions s))) (v_world s)\<rparr>)"

section \<open>Message handlers\<close>

definition send_message :: "'w server_net \<Rightarrow> int \<Rightarrow> DoIPMessage \<Rightarrow> ('u, 'w) vmg \<Rightarrow> bool \<times> ('u, 'w) vmg" where
  "send_message N sock m s =
     (let data = to_bytes (v_order s) m; (sent, w) = net_send N sock data (v_world s)
      in (sent = int (length data), s\<lparr>v_world := w\<rparr>))"

definition resize_to :: "nat \<Rightarrow> 'a \<Rightarrow> 'a list \<Rightarrow> 'a list" where
  "resize_to n x xs = take n xs @ replicate (n - length xs) x"

definition handle_vehicle_identification_req :: "('u, 'w) vmg \<Rightarrow> DoIPMessage" where
  "handle_vehicle_identification_req s =
     mk_message VehicleIdentificationRes
       (resize_to 17 0x20 (cfg_vin (v_config s))
        @ [ucast (drop_bit 8 (cfg_logical_address (v_config s))), ucast (cfg_logical_address (v_config s))]
        @ cfg_eid (v_config s) @ cfg_gid (v_config s) @ [0x00] @ [0x00])"

definition update_session :: "int \<Rightarrow> (DoIPClientSession \<Rightarrow> DoIPClientSession) \<Rightarrow> ('u, 'w) vmg \<Rightarrow> ('u, 'w) vmg" where
  "update_session sock f s =
     s\<lparr>v_sessions := map (\<lambda>(k, x). if k = sock then (k, f x) else (k, x)) (v_sessions s)\<rparr>"

definition handle_routing_activation_req ::
  "int \<Rightarrow> DoIPMessage \<Rightarrow> ('u, 'w) vmg \<Rightarrow> DoIPMessage \<times> ('u, 'w) vmg" where
  "handle_routing_activation_req sock m s =
     (let payload = msg_payload m
      in if length payload < 7 then (mk_message RoutingActivationRes [], s)
         else
           let source_address = be16_val (payload ! 0) (payload ! 1);
               s = update_session sock (\<lambda>x. x\<lparr>sess_source_address := source_address, sess_routing_active := True\<rparr>) s;
               la = cfg_logical_address (v_config s)
           in (mk_message RoutingActivationRes
                 ([ucast (drop_bit 8 source_address), ucast source_address] @ [ucast (drop_bit 8 la), ucast la]
                  @ [0x10] @ replicate 4 0x00), s))"

definition call_uds_handler :: "bytes \<Rightarrow> ('u, 'w) vmg \<Rightarrow> (string + bytes) \<times> ('u, 'w) vmg" where
  "call_uds_handler uds_request s =
     (case v_handler s of
        Some h \<Rightarrow> let (r, u) = h uds_request (v_captured s) in (r, s\<lparr>v_captured := u\<rparr>)
      | None \<Rightarrow> (Inr (case uds_request of [] \<Rightarrow> [] | sid # rest \<Rightarrow> (sid + 0x40) # rest), s))"

definition handle_diagnostic_message ::
  "'w server_net \<Rightarrow> int \<Rightarrow> DoIPMessage \<Rightarrow> ('u, 'w) vmg \<Rightarrow> (string + DoIPMessage) \<times> ('u, 'w) vmg" where
  "handle_diagnostic_message N sock m s =
     (let payload = msg_payload m
      in if length payload < 4 then (Inr (mk_message DiagnosticMessageNegAck []), s)
         else
           let source_address = be16_val (payload ! 0) (payload ! 1);
               target_address = be16_val (payload ! 2) (payload ! 3);
               uds_request = drop 4 payload;
               ack = mk_message DiagnosticMessagePosAck
                 ([ucast (drop_bit 8 source_address), ucast source_address,
                   ucast (drop_bit 8 target_address), ucast target_address] @ [0x00]);
               (_, s) = send_message N sock ack s;
               (r, s) = call_uds_handler uds_request s
           in case r of
                Inl e \<Rightarrow> (Inl e, s)
              | Inr uds_response \<Rightarrow>
                  (Inr (mk_message DiagnosticMessage
                     ([ucast (drop_bit 8 target_address), ucast target_address,
                       ucast (drop_bit 8 source_address), ucast source_address] @ uds_response)), s))"

definition handle_alive_check_req :: "DoIPMessage \<Rightarrow> DoIPMessage" where
  "handle_alive_check_req m =
     (if length (msg_payload m) < 2 then mk_message AliveCheckRes [] else mk_message AliveCheckRes (msg_payload m))"

text \<open>\<open>Inl\<close> is an exception that leaves the handler; what was sent before it stays sent.\<close>

definition handle_tcp_message ::
  "'w server_net \<Rightarrow> int \<Rightarrow> DoIPMessage \<Rightarrow> ('u, 'w) vmg \<Rightarrow> (string + unit) \<times> ('u, 'w) vmg" where
  "handle_tcp_message N sock m s =
     (let t = get_payload_type m
      in if t = RoutingActivationReq then
           let (r, s) = handle_routing_activation_req sock m s; (_, s) = send_message N sock r s in (Inr (), s)
         else if t = DiagnosticMessage then
           (case handle_diagnostic_message N sock m s of
              (Inl e, s) \<Rightarrow> (Inl e, s)
            | (Inr r, s) \<Rightarrow> let (_, s) = send_message N sock r s in (Inr (), s))
         else if t = AliveCheckReq then
           let (_, s) = send_message N sock (handle_alive_check_req m) s in (Inr (), s)
         else (Inr (), s))"

section \<open>Thread bodies\<close>

text \<open>One round of a thread's loop: it goes on (with its buffer) or leaves the loop.\<close>

datatype 'a round = Again 'a | Leave

definition count_message :: "('u, 'w) vmg \<Rightarrow> ('u, 'w) vmg" where
  "count_message s = s\<lparr>v_total_messages := v_total_messages s + 1\<rparr>"

definition udp_listener_round ::
  "'w server_net \<Rightarrow> bytes \<Rightarrow> ('u, 'w) vmg \<Rightarrow> (bytes round \<times> ('u, 'w) vmg) cexec" where
  "udp_listener_round N buffer s =
     (if \<not> v_running s then Ret (Leave, s)
      else
        let (r, w) = net_recvfrom N (v_udp_socket s) (length buffer) (v_world s); s = s\<lparr>v_world := w\<rparr>
        in case r of
             Inl eintr \<Rightarrow> Ret (if eintr \<or> \<not> v_running s then Leave else Again buffer, s)
           | Inr (data, addr) \<Rightarrow>
               cbind (buf_write buffer 0 data) (\<lambda>buffer.
               cbind (from_bytes buffer (length data)) (\<lambda>p. Ret (case p of
                 Inl e \<Rightarrow> (Again buffer, s)
               | Inr m \<Rightarrow>
                   let s = count_message s
                   in if get_payload_type m = VehicleIdentificationReq
                      then let response_data = to_bytes (v_order s) (handle_vehicle_identification_req s);
                               (_, w) = net_sendto N (v_udp_socket s) response_data addr (v_world s)
                           in (Again buffer, s\<lparr>v_world := w\<rparr>)
                      else (Again buffer, s)))))"

definition tcp_accept_round :: "'w server_net \<Rightarrow> ('u, 'w) vmg \<Rightarrow> unit round \<times> ('u, 'w) vmg" where
  "tcp_accept_round N s =
     (if \<not> v_running s then (Leave, s)
      else
        let (r, w) = net_accept N (v_tcp_socket s) (v_world s); s = s\<lparr>v_world := w\<rparr>
        in case r of
             Inl eintr \<Rightarrow> (if eintr \<or> \<not> v_running s then Leave else Again (), s)
           | Inr client_sock \<Rightarrow>
               (Again (), s\<lparr>v_sessions := (client_sock, new_session client_sock)
                                        # filter (\<lambda>(k, _). k \<noteq> client_sock) (v_sessions s),
                           v_threads := v_threads s @ [client_sock]\<rparr>))"

text \<open>
  The receiver of one client. \<^verbatim>\<open>8 + payload_length\<close> is computed in 32 bits, for the new size of the
  buffer as for the length given to the parser.
\<close>

definition client_process ::
  "'w server_net \<Rightarrow> int \<Rightarrow> u32 \<Rightarrow> bytes \<Rightarrow> ('u, 'w) vmg \<Rightarrow> (bytes round \<times> ('u, 'w) vmg) cexec" where
  "client_process N sock len buffer s =
     cbind (from_bytes buffer (unat (8 + len))) (\<lambda>p. Ret (case p of
       Inl e \<Rightarrow> (Again buffer, s)
     | Inr m \<Rightarrow>
         (case handle_tcp_message N sock m s of
            (Inl e, s) \<Rightarrow> (Again buffer, s)
          | (Inr _, s) \<Rightarrow> (Again buffer, count_message s))))"

definition client_handler_round ::
  "'w server_net \<Rightarrow> int \<Rightarrow> bytes \<Rightarrow> ('u, 'w) vmg \<Rightarrow> (bytes round \<times> ('u, 'w) vmg) cexec" where
  "client_handler_round N sock buffer s =
     (if \<not> v_running s then Ret (Leave, s)
      else
        let (r, w) = net_recv N sock 8 (v_world s); s = s\<lparr>v_world := w\<rparr>
        in case r of
             None \<Rightarrow> Ret (Leave, s)
           | Some hdr \<Rightarrow>
               cbind (buf_write buffer 0 hdr) (\<lambda>buffer.
               if length hdr < 8 then Ret (Leave, s)
               else
                 cbind (buf_get buffer 4) (\<lambda>b4. cbind (buf_get buffer 5) (\<lambda>b5.
                 cbind (buf_get buffer 6) (\<lambda>b6. cbind (buf_get buffer 7) (\<lambda>b7.
                 let payload_length = be32_val b4 b5 b6 b7;
                     buffer = (if unat payload_length > length buffer - 8
                               then resize_to (unat (8 + payload_length)) 0 buffer else buffer)
                 in if payload_length > 0
                    then let (r, w) = net_recv N sock (unat payload_length) (v_world s); s = s\<lparr>v_world := w\<rparr>
                         in case r of
                              None \<Rightarrow> Ret (Leave, s)
                            | Some d \<Rightarrow>
                                (if d = [] then Ret (Leave, s)
                                 else cbind (buf_write buffer 8 d) (\<lambda>buffer.
                                   if length d < unat payload_length then Ret (Leave, s) else client_process N sock payload_length buffer s))
                    else client_process N sock payload_length buffer s))))))"

definition client_handler_end :: "'w server_net \<Rightarrow> int \<Rightarrow> ('u, 'w) vmg \<Rightarrow> ('u, 'w) vmg" where
  "client_handler_end N sock s =
     s\<lparr>v_sessions := filter (\<lambda>(k, _). k \<noteq> sock) (v_sessions s), v_world := net_close N sock (v_world s)\<rparr>"

text \<open>A thread from its first round, for at most \<open>n\<close> rounds; \<open>True\<close> when it has left its loop.\<close>

fun client_handler_run ::
  "nat \<Rightarrow> 'w server_net \<Rightarrow> int \<Rightarrow> bytes \<Rightarrow> ('u, 'w) vmg \<Rightarrow> (bool \<times> ('u, 'w) vmg) cexec" where
  "client_handler_run 0 N sock buffer s = Ret (False, s)"
| "client_handler_run (Suc n) N sock buffer s =
     cbind (client_handler_round N sock buffer s) (\<lambda>(r, s). case r of
       Leave \<Rightarrow> Ret (True, client_handler_end N sock s)
     | Again buffer \<Rightarrow> client_handler_run n N sock buffer s)"

fun udp_listener_run :: "nat \<Rightarrow> 'w server_net \<Rightarrow> bytes \<Rightarrow> ('u, 'w) vmg \<Rightarrow> (bool \<times> ('u, 'w) vmg) cexec" where
  "udp_listener_run 0 N buffer s = Ret (False, s)"
| "udp_listener_run (Suc n) N buffer s =
     cbind (udp_listener_round N buffer s) (\<lambda>(r, s). case r of
       Leave \<Rightarrow> Ret (True, s)
     | Again buffer \<Rightarrow> udp_listener_run n N buffer s)"

definition client_handler_thread :: "nat \<Rightarrow> 'w server_net \<Rightarrow> int \<Rightarrow> ('u, 'w) vmg \<Rightarrow> (bool \<times> ('u, 'w) vmg) cexec" where
  "client_handler_thread n N sock s = client_handler_run n N sock (replicate 8192 0) s"

definition udp_listener_thread :: "nat \<Rightarrow> 'w server_net \<Rightarrow> ('u, 'w) vmg \<Rightarrow> (bool \<times> ('u, 'w) vmg) cexec" where
  "udp_listener_thread n N s = udp_listener_run n N (replicate 4096 0) s"

section \<open>What the parser accepts\<close>

lemma mk_message_simps [simp]:
  "hdr_type (msg_header (mk_message t p)) = t" "hdr_length (msg_header (mk_message t p)) = of_nat (length p)"
  "hdr_version (msg_header (mk_message t p)) = 0x02" "hdr_inverse (msg_header (mk_message t p)) = 0xFD"
  "msg_payload (mk_message t p) = p" "get_payload_type (mk_message t p) = t"
  by (simp_all add: mk_message_def get_payload_type_def)

text \<open>The announced length of a buffer, and the eight lengths whose sum with 8 wraps.\<close>

definition announced :: "bytes \<Rightarrow> u32" where
  "announced b = be32_val (b ! 4) (b ! 5) (b ! 6) (b ! 7)"

lemma announced_frame [simp]: "announced (doip_frame t d @ r) = of_nat (length d)"
  by (simp add: announced_def doip_frame_def be16_def be32_def wire_simps)

lemma unat_8_plus: "unat x \<le> 0xFFFFFFF7 \<Longrightarrow> unat (8 + x :: u32) = 8 + unat x"
  by (subst unat_add_no_wrap) auto

lemma unat_8_plus_wrapped: "0xFFFFFFF8 \<le> unat x \<Longrightarrow> unat (8 + x :: u32) = unat x - 0xFFFFFFF8"
proof -
  assume a: "0xFFFFFFF8 \<le> unat x"
  have "unat x < 2 ^ 32" using unsigned_less [of x] by simp
  with a have "(8 + unat x) mod 2 ^ 32 = unat x - 0xFFFFFFF8"
    by (simp add: mod_if)
  then show ?thesis by (simp add: unat_word_ariths)
qed

lemma from_bytes_eq:
  assumes "n \<le> length b"
  shows "from_bytes b n =
    (if n < 8 then throw ''Invalid DoIP message: too short''
     else if b ! 0 \<noteq> 0x02 \<or> b ! 1 \<noteq> 0xFD then throw ''Invalid DoIP protocol version''
     else if n < unat (8 + announced b) then throw ''Invalid DoIP message: payload truncated''
     else cbind (buf_slice b 8 (unat (announced b))) (\<lambda>p. ok (mk_message (be16_val (b ! 2) (b ! 3)) p)))"
proof (cases "n < 8")
  case False
  then have "8 \<le> length b" using assms by simp
  then obtain x0 x1 x2 x3 x4 x5 x6 x7 r where "b = [x0, x1, x2, x3, x4, x5, x6, x7] @ r"
    by (rule length_ge_8E)
  with False show ?thesis
    by (simp add: from_bytes_def announced_def buf_get_def Let_def)
qed (simp add: from_bytes_def)

lemma from_bytes_in_bounds:
  assumes "n \<le> length b" "unat (announced b) \<le> 0xFFFFFFF7"
  shows "\<exists>r. from_bytes b n = Ret r"
proof -
  have "\<exists>r. cbind (buf_slice b 8 (unat (announced b))) (\<lambda>p. ok (mk_message t p)) = Ret r"
    if "\<not> n < unat (8 + announced b)" for t
    using that assms by (simp add: unat_8_plus buf_slice_def ok_def)
  then show ?thesis
    using assms(1) by (simp add: from_bytes_eq throw_def)
qed

lemma from_bytes_wrapped:
  assumes "8 \<le> n" "n \<le> length b" "b ! 0 = 0x02" "b ! 1 = 0xFD" "0xFFFFFFF8 \<le> unat (announced b)" "length b < 2 ^ 32"
  shows "from_bytes b n = Fault"
proof -
  have "unat (announced b) < 2 ^ 32" using unsigned_less [of "announced b"] by simp
  with assms have "\<not> n < unat (8 + announced b)"
    by (simp add: unat_8_plus_wrapped)
  with assms show ?thesis
    by (simp add: from_bytes_eq buf_slice_def)
qed

lemma from_bytes_frame:
  assumes "length d \<le> 0xFFFFFFF7" "8 + length d \<le> n" "n \<le> 8 + length d + length r"
  shows "from_bytes (doip_frame t d @ r) n = ok (mk_message t d)"
proof -
  have u: "unat (of_nat (length d) :: u32) = length d"
    using assms by (intro unat_le_of_nat) simp
  then have a: "unat (announced (doip_frame t d @ r)) = length d"
    by simp
  have b: "(doip_frame t d @ r) ! 0 = 0x02" "(doip_frame t d @ r) ! 1 = 0xFD"
      "be16_val ((doip_frame t d @ r) ! 2) ((doip_frame t d @ r) ! 3) = t"
    by (simp_all add: doip_frame_def be16_def wire_simps)
  have s: "buf_slice (doip_frame t d @ r) 8 (length d) = Ret d"
    by (simp add: buf_slice_def)
  have "unat (8 + announced (doip_frame t d @ r)) = 8 + length d"
    using a assms by (subst unat_8_plus) simp_all
  then show ?thesis
    using a b s assms(2,3) by (simp add: from_bytes_eq del: announced_frame)
qed

lemma frame_of_bytes:
  assumes "8 \<le> length b" "b ! 0 = 0x02" "b ! 1 = 0xFD" "8 + unat (announced b) \<le> length b"
  shows "b = doip_frame (be16_val (b ! 2) (b ! 3)) (take (unat (announced b)) (drop 8 b)) @ drop (8 + unat (announced b)) b"
proof -
  obtain x0 x1 x2 x3 x4 x5 x6 x7 r where b: "b = [x0, x1, x2, x3, x4, x5, x6, x7] @ r"
    using assms(1) by (rule length_ge_8E)
  then have "announced b = be32_val x4 x5 x6 x7" "x0 = 2" "x1 = 0xFD"
    using assms(2,3) by (simp_all add: announced_def)
  moreover have "drop (8 + unat (announced b)) b = drop (unat (announced b)) (drop 8 b)"
    by (simp add: add.commute)
  ultimately show ?thesis
    using b assms(4) by (simp add: doip_frame_def wire_simps min_def)
qed

text \<open>
  The parser of the gateway is correct below the wrap-around. A buffer whose announced length
  is at most 0xFFFFFFF7 is accepted as the message \<open>m\<close> exactly when it starts with the ISO 13400
  frame of the type and payload of \<open>m\<close>; on every other such buffer it throws, and it never reads out of bounds.
\<close>
theorem vmg_from_bytes_accepts_frames:
  assumes "unat (announced b) \<le> 0xFFFFFFF7"
  shows "from_bytes b (length b) = ok m \<longleftrightarrow>
      (\<exists>t d r. m = mk_message t d \<and> length d \<le> 0xFFFFFFF7 \<and> b = doip_frame t d @ r)"
    and "\<exists>r. from_bytes b (length b) = Ret r"
proof -
  show "\<exists>r. from_bytes b (length b) = Ret r"
    using assms by (simp add: from_bytes_in_bounds)
  show "from_bytes b (length b) = ok m \<longleftrightarrow>
      (\<exists>t d r. m = mk_message t d \<and> length d \<le> 0xFFFFFFF7 \<and> b = doip_frame t d @ r)"
  proof
    assume a: "from_bytes b (length b) = ok m"
    then have h: "8 \<le> length b" "b ! 0 = 0x02" "b ! 1 = 0xFD" "8 + unat (announced b) \<le> length b"
      using assms by (auto simp: from_bytes_eq throw_def ok_def unat_8_plus not_less split: if_splits)
    then have "m = mk_message (be16_val (b ! 2) (b ! 3)) (take (unat (announced b)) (drop 8 b))"
      using a assms by (simp add: from_bytes_eq unat_8_plus buf_slice_def ok_def)
    moreover have "length (take (unat (announced b)) (drop 8 b)) \<le> 0xFFFFFFF7"
      using assms by simp
    ultimately show "\<exists>t d r. m = mk_message t d \<and> length d \<le> 0xFFFFFFF7 \<and> b = doip_frame t d @ r"
      using frame_of_bytes [OF h] by blast
  next
    assume "\<exists>t d r. m = mk_message t d \<and> length d \<le> 0xFFFFFFF7 \<and> b = doip_frame t d @ r"
    then show "from_bytes b (length b) = ok m"
      by (auto intro: from_bytes_frame)
  qed
qed

theorem vmg_from_bytes_accepts_frames_witness:
  "from_bytes (doip_frame 7 [1, 2] @ [9]) 11 = ok (mk_message 7 [1, 2])"
  using vmg_from_bytes_accepts_frames(1) [of "doip_frame 7 [1, 2] @ [9]" "mk_message 7 [1, 2]"]
  by (auto simp: mk_message_def)

section \<open>The byte order of what the server sends\<close>

lemma to_bytes_be: "to_bytes BIG_ENDIAN (mk_message t p) = doip_frame t p"
  by (simp add: to_bytes_def doip_frame_def be16_def be32_def Let_def)

lemma to_bytes_le: "to_bytes LITTLE_ENDIAN (mk_message t p)
    = [0x02, 0xFD] @ rev (be16 t) @ rev (be32 (of_nat (length p))) @ p"
proof -
  have "ucast (drop_bit 8 (be16_val a b)) = a \<and> ucast (be16_val a b) = b" for a b
    using be16_be16_val [of a b] by (simp add: be16_def)
  moreover have "ucast (drop_bit 24 (be32_val a b c d)) = a \<and> ucast (drop_bit 16 (be32_val a b c d)) = b
      \<and> ucast (drop_bit 8 (be32_val a b c d)) = c \<and> ucast (be32_val a b c d) = d" for a b c d
    using be32_be32_val [of a b c d] by (simp add: be32_def)
  ultimately show ?thesis
    by (simp add: to_bytes_def be16_def be32_def Let_def)
qed

lemma length_to_bytes [simp]: "length (to_bytes bo m) = 8 + length (msg_payload m)"
  by (simp add: to_bytes_def Let_def)

lemma high_half_zero:
  assumes "n \<le> 0xFFFF"
  shows "drop_bit 16 (of_nat n :: u32) = 0" "drop_bit 24 (of_nat n :: u32) = 0"
proof -
  have "unat (of_nat n :: u32) = n"
    using assms by (intro unat_le_of_nat) simp
  then have "unat (drop_bit 16 (of_nat n :: u32)) = 0" "unat (drop_bit 24 (of_nat n :: u32)) = 0"
    using assms by (simp_all add: drop_bit_eq_div unat_div)
  then show "drop_bit 16 (of_nat n :: u32) = 0" "drop_bit 24 (of_nat n :: u32) = 0"
    by (simp_all add: unat_eq_zero)
qed

lemma swapped_length:
  assumes "0 < n" "n \<le> 0xFFFF" "be32 (of_nat n) = [a, b, c, d]"
  shows "0x10000 \<le> unat (be32_val d c b a)" "unat (be32_val d c b a) \<le> 0xFFFF0000"
proof -
  have ab: "a = 0" "b = 0" and cd: "c = ucast (drop_bit 8 (of_nat n :: u32))" "d = ucast (of_nat n :: u32)"
    using assms(2,3) by (simp_all add: be32_def high_half_zero)
  have u: "unat (of_nat n :: u32) = n"
    using assms(2) by (intro unat_le_of_nat) simp
  have nz: "be16_val d c \<noteq> 0"
  proof
    assume "be16_val d c = 0"
    then have "[d, c] = be16 0"
      by (metis be16_be16_val)
    then have "be32 (of_nat n) = be32 0"
      using assms(3) ab by (simp add: be16_def be32_def)
    then show False
      using u assms(1) by (metis be32_inject neq0_conv unat_0)
  qed
  have e: "be32_val d c 0 0 = push_bit 16 (ucast (be16_val d c))"
    by (rule bit_word_eqI) (auto simp: be32_val_def be16_val_def bit_simps)
  have "unat (be16_val d c) < 2 ^ 16"
    using unsigned_less [of "be16_val d c"] by simp
  then have "unat (be32_val d c b a) = unat (be16_val d c) * 2 ^ 16"
    by (simp add: ab e push_bit_eq_mult unat_word_ariths unsigned_ucast_eq take_bit_nat_eq_self)
  moreover have "0 < unat (be16_val d c)"
    using nz by (simp add: unat_gt_0)
  ultimately show "0x10000 \<le> unat (be32_val d c b a)" "unat (be32_val d c b a) \<le> 0xFFFF0000"
    using \<open>unat (be16_val d c) < 2 ^ 16\<close> by simp_all
qed




section \<open>The listeners\<close>

text \<open>A received header whose length makes the 32-bit sum wrap.\<close>

definition wrapping_header :: "bytes \<Rightarrow> bool" where
  "wrapping_header d \<longleftrightarrow> 8 \<le> length d \<and> d ! 0 = 0x02 \<and> d ! 1 = 0xFD \<and> 0xFFFFFFF8 \<le> unat (announced d)"

lemma announced_append: "8 \<le> length d \<Longrightarrow> announced (d @ r) = announced d"
  by (simp add: announced_def nth_append)

lemma from_bytes_returns_iff:
  assumes "n \<le> length b" "length b < 2 ^ 32"
  shows "from_bytes b n = Fault \<longleftrightarrow> wrapping_header (take n b)" "from_bytes b n \<noteq> Hang"
proof -
  have t: "announced (take n b) = announced b" if "8 \<le> n"
    using that assms(1) announced_append [of "take n b" "drop n b"] by simp
  show "from_bytes b n = Fault \<longleftrightarrow> wrapping_header (take n b)"
  proof
    assume f: "from_bytes b n = Fault"
    with from_bytes_in_bounds [OF assms(1)] have "0xFFFFFFF8 \<le> unat (announced b)"
      by fastforce
    with f assms(1) t show "wrapping_header (take n b)"
      by (auto simp: from_bytes_eq throw_def wrapping_header_def split: if_splits)
  next
    assume "wrapping_header (take n b)"
    with assms t show "from_bytes b n = Fault"
      by (intro from_bytes_wrapped) (auto simp: wrapping_header_def)
  qed
  show "from_bytes b n \<noteq> Hang"
    using assms(1) by (auto simp: from_bytes_eq throw_def ok_def buf_slice_def)
qed

lemma udp_round_faults:
  assumes "v_running s" "net_recvfrom N (v_udp_socket s) (length buffer) (v_world s) = (Inr (d, addr), w)"
    "length d \<le> length buffer" "length buffer < 2 ^ 32"
  shows "udp_listener_round N buffer s = Fault \<longleftrightarrow> wrapping_header d"
    and "udp_listener_round N buffer s = Fault \<or>
      (\<exists>b' s'. udp_listener_round N buffer s = Ret (Again b', s') \<and> length b' = length buffer \<and> v_running s')"
proof -
  let ?b = "d @ drop (length d) buffer"
  have wr: "buf_write buffer 0 d = Ret ?b"
    using assms(3) by (simp add: buf_write_def)
  have "length d \<le> length ?b" "length ?b < 2 ^ 32"
    using assms(3,4) by simp_all
  note fb = from_bytes_returns_iff [OF this]
  then have f: "from_bytes ?b (length d) = Fault \<longleftrightarrow> wrapping_header d"
    by simp
  show "udp_listener_round N buffer s = Fault \<longleftrightarrow> wrapping_header d"
    using assms f by (simp add: udp_listener_round_def wr Let_def cbind_Fault_iff)
  show "udp_listener_round N buffer s = Fault \<or>
      (\<exists>b' s'. udp_listener_round N buffer s = Ret (Again b', s') \<and> length b' = length buffer \<and> v_running s')"
    using assms fb(2) by (cases "from_bytes ?b (length d)")
      (auto simp: udp_listener_round_def wr Let_def count_message_def split: sum.split prod.split)
qed

text \<open>
  C10. One datagram of eight bytes takes the gateway down. Whatever datagram arrives, its handling
  faults exactly when the datagram starts with a DoIP header of the right version announcing one of
  the eight largest lengths; in every other case the listener goes on with the next one.
\<close>
theorem vmg_udp_datagram_faults_iff:
  assumes "v_running s" "net_recvfrom N (v_udp_socket s) (length buffer) (v_world s) = (Inr (d, addr), w)"
    "length d \<le> length buffer" "length buffer < 2 ^ 32"
  shows "(udp_listener_round N buffer s = Fault \<longleftrightarrow> wrapping_header d)
    \<and> (udp_listener_round N buffer s = Fault \<or>
      (\<exists>b' s'. udp_listener_round N buffer s = Ret (Again b', s') \<and> length b' = length buffer \<and> v_running s'))"
  using udp_round_faults [OF assms] by blast


definition udp_only :: "(bytes \<times> nat) list server_net" where
  "udp_only = \<lparr>net_socket = (\<lambda>t w. (3, w)), net_bind = (\<lambda>s p w. (0, w)), net_listen = (\<lambda>s n w. (0, w)),
     net_recv = (\<lambda>s n w. (None, w)), net_send = (\<lambda>s d w. (int (length d), w)),
     net_recvfrom = (\<lambda>s n w. case w of [] \<Rightarrow> (Inl True, []) | (d, a) # w' \<Rightarrow> (Inr (take n d, a), w')),
     net_sendto = (\<lambda>s d a w. (int (length d), w)), net_accept = (\<lambda>s w. (Inl True, w)), net_close = (\<lambda>s w. w)\<rparr>"

theorem vmg_udp_datagram_faults_iff_witness:
  "udp_listener_round udp_only (replicate 4096 0)
     ((new_server LITTLE_ENDIAN default_config () [([0x02, 0xFD, 0, 1, 0xFF, 0xFF, 0xFF, 0xFF], 0)])\<lparr>v_running := True\<rparr>) = Fault"
proof -
  have "announced [0x02, 0xFD, 0, 1, 0xFF, 0xFF, 0xFF, 0xFF] = 0xFFFFFFFF"
    by (simp add: announced_def be32_val_def)
  then have "wrapping_header [0x02, 0xFD, 0, 1, 0xFF, 0xFF, 0xFF, 0xFF]"
    by (simp add: wrapping_header_def)
  then show ?thesis
    by (subst vmg_udp_datagram_faults_iff [where w = "[]" and addr = 0, THEN conjunct1])
      (simp_all add: udp_only_def new_server_def)
qed

text \<open>The bytes a round of a client's receiver reads from the connection: the header, then the payload.\<close>

lemma resize_to_ge: "length xs \<le> n \<Longrightarrow> resize_to n x xs = xs @ replicate (n - length xs) x"
  by (simp add: resize_to_def)

lemma length_resize_to [simp]: "length (resize_to n x xs) = n"
  by (simp add: resize_to_def)

lemma announced_take: "8 \<le> length d \<Longrightarrow> announced (take 8 d) = announced d"
  using announced_append [of "take 8 d" "drop 8 d"] by simp

lemma client_round_header:
  assumes "v_running s" "net_recv N sock 8 (v_world s) = (Some hdr, w)" "length hdr = 8" "8 \<le> length buffer"
  defines "b \<equiv> hdr @ drop 8 buffer"
  defines "b1 \<equiv> (if unat (announced hdr) > length b - 8 then resize_to (unat (8 + announced hdr)) 0 b else b)"
  shows "client_handler_round N sock buffer s =
    (if announced hdr = 0 then client_process N sock (announced hdr) b1 (s\<lparr>v_world := w\<rparr>)
     else case net_recv N sock (unat (announced hdr)) w of
        (None, w') \<Rightarrow> Ret (Leave, s\<lparr>v_world := w'\<rparr>)
      | (Some d, w') \<Rightarrow> if d = [] then Ret (Leave, s\<lparr>v_world := w'\<rparr>)
          else cbind (buf_write b1 8 d) (\<lambda>b2. if length d < unat (announced hdr) then Ret (Leave, s\<lparr>v_world := w'\<rparr>)
            else client_process N sock (announced hdr) b2 (s\<lparr>v_world := w'\<rparr>)))"
proof -
  have wr: "buf_write buffer 0 hdr = Ret b"
    using assms(3,4) by (simp add: buf_write_def b_def)
  have g: "buf_get b 4 = Ret (hdr ! 4)" "buf_get b 5 = Ret (hdr ! 5)" "buf_get b 6 = Ret (hdr ! 6)" "buf_get b 7 = Ret (hdr ! 7)"
    using assms(3) by (simp_all add: buf_get_def b_def nth_append)
  have L: "be32_val (hdr ! 4) (hdr ! 5) (hdr ! 6) (hdr ! 7) = announced hdr"
    by (simp add: announced_def)
  show ?thesis
    by (simp add: client_handler_round_def assms(1-3) wr g L b1_def Let_def word_gt_0
        cong: if_cong option.case_cong split: prod.split option.split)
qed

lemma client_process_returns:
  assumes "8 + unat L \<le> length b" "announced b = L" "unat L \<le> 0xFFFFFFF7"
  shows "\<exists>s'. client_process N sock L b s = Ret (Again b, s')"
proof -
  have "\<exists>r. from_bytes b (unat (8 + L)) = Ret r"
    using assms by (intro from_bytes_in_bounds) (simp_all add: unat_8_plus)
  then show ?thesis
    by (auto simp: client_process_def split: sum.split prod.split)
qed

lemma client_round_overflow:
  assumes "v_running s" "net_recv N sock 8 (v_world s) = (Some hdr, w)" "length hdr = 8"
    "\<And>n v d v'. net_recv N sock n v = (Some d, v') \<Longrightarrow> length d \<le> n"
    "8192 \<le> length buffer" "length buffer < 2 ^ 32"
  shows "client_handler_round N sock buffer s = Fault \<longleftrightarrow> 0xFFFFFFF8 \<le> unat (announced hdr)
      \<and> (\<exists>d w'. net_recv N sock (unat (announced hdr)) w = (Some d, w') \<and> d \<noteq> [])"
    and "unat (announced hdr) \<le> 0xFFFFFFF7 \<Longrightarrow> \<exists>r s'. client_handler_round N sock buffer s = Ret (r, s')
      \<and> (\<forall>b'. r = Again b' \<longrightarrow> 8192 \<le> length b' \<and> length b' < 2 ^ 32)"
proof -
  define L where "L = announced hdr"
  define b where "b = hdr @ drop 8 buffer"
  define b1 where "b1 = (if unat L > length b - 8 then resize_to (unat (8 + L)) 0 b else b)"
  have len: "length b = length buffer" "8 \<le> length buffer"
    using assms(3,5) by (simp_all add: b_def)
  note rnd = client_round_header [OF assms(1-3) len(2), folded L_def b_def, folded b1_def]
  have safe: "\<exists>r s'. client_handler_round N sock buffer s = Ret (r, s') \<and> (\<forall>b'. r = Again b' \<longrightarrow> 8192 \<le> length b' \<and> length b' < 2 ^ 32)"
    if L: "unat L \<le> 0xFFFFFFF7"
  proof -
    have "b1 = b @ replicate (8 + unat L - length b) 0"
      using len L assms(5) by (auto simp: b1_def unat_8_plus resize_to_ge)
    then obtain r where b1: "b1 = hdr @ r" "8 + unat L \<le> length b1" "8192 \<le> length b1" "length b1 < 2 ^ 32"
      using len assms(5,6) L by (auto simp: b_def)
    have pr: "\<exists>s'. client_process N sock L (hdr @ t) v = Ret (Again (hdr @ t), s')"
      if "8 + unat L \<le> length (hdr @ t)" for t v
      using that L assms(3) by (intro client_process_returns) (simp_all add: announced_append L_def)
    show ?thesis
    proof (cases "L = 0 \<or> net_recv N sock (unat L) w = (None, snd (net_recv N sock (unat L) w))")
      case True
      then show ?thesis
        using pr [of r "s\<lparr>v_world := w\<rparr>"] b1 by (auto simp: rnd split: prod.split option.split)
    next
      case False
      then obtain d w' where d: "net_recv N sock (unat L) w = (Some d, w')" "length d \<le> unat L"
        using assms(4) by (metis option.exhaust prod.collapse snd_conv)
      then have wr: "buf_write b1 8 d = Ret (hdr @ d @ drop (length d) r)"
        using b1 assms(3) by (auto simp: buf_write_def)
      then show ?thesis
        using pr [of "d @ drop (length d) r" "s\<lparr>v_world := w'\<rparr>"] b1 False d assms(3) by (auto simp: rnd)
    qed
  qed
  then show "unat (announced hdr) \<le> 0xFFFFFFF7 \<Longrightarrow> \<exists>r s'. client_handler_round N sock buffer s = Ret (r, s')
      \<and> (\<forall>b'. r = Again b' \<longrightarrow> 8192 \<le> length b' \<and> length b' < 2 ^ 32)"
    by (simp add: L_def)
  show "client_handler_round N sock buffer s = Fault \<longleftrightarrow> 0xFFFFFFF8 \<le> unat (announced hdr)
      \<and> (\<exists>d w'. net_recv N sock (unat (announced hdr)) w = (Some d, w') \<and> d \<noteq> [])"
  proof (cases "0xFFFFFFF8 \<le> unat L")
    case True
    have "unat L < 2 ^ 32"
      using unsigned_less [of L] by simp
    then have "unat (8 + L) < 8"
      using True by (simp add: unat_8_plus_wrapped)
    moreover have "length b - 8 < unat L"
      using True len assms(6) by simp
    ultimately have "length b1 < 8"
      by (simp add: b1_def)
    then have "d \<noteq> [] \<Longrightarrow> buf_write b1 8 d = Fault" for d
      by (simp add: buf_write_def)
    moreover have "L \<noteq> 0"
      using True by auto
    ultimately show ?thesis
      using True by (auto simp: rnd L_def [symmetric] split: prod.splits option.splits)
  next
    case False
    then show ?thesis
      using safe by (auto simp: L_def [symmetric])
  qed
qed


text \<open>A network whose connections deliver a byte stream, for the witnesses; what is sent is kept.\<close>

definition stream_net :: "(bytes \<times> bytes list) server_net" where
  "stream_net = \<lparr>net_socket = (\<lambda>t w. (3, w)), net_bind = (\<lambda>s p w. (0, w)), net_listen = (\<lambda>s n w. (0, w)),
     net_recv = (\<lambda>s n (i, out). (Some (take n i), (drop n i, out))),
     net_send = (\<lambda>s d (i, out). (int (length d), (i, out @ [d]))),
     net_recvfrom = (\<lambda>s n w. (Inl True, w)), net_sendto = (\<lambda>s d a (i, out). (int (length d), (i, out @ [d]))),
     net_accept = (\<lambda>s w. (Inr 4, w)), net_close = (\<lambda>s w. w)\<rparr>"

lemma stream_net_simps [simp]:
  "net_recv stream_net s n (i, out) = (Some (take n i), (drop n i, out))"
  "net_send stream_net s d (i, out) = (int (length d), (i, out @ [d]))"
  "net_close stream_net s w = w" "net_accept stream_net s w = (Inr 4, w)"
  "net_socket stream_net t w = (3, w)" "net_bind stream_net s p w = (0, w)" "net_listen stream_net s n w = (0, w)"
  by (simp_all add: stream_net_def)


section \<open>The server's state\<close>

text \<open>The actions of the server's owner and of its threads, each thread round being one action.\<close>

inductive vmg_reaches :: "'w server_net \<Rightarrow> ('u, 'w) vmg \<Rightarrow> ('u, 'w) vmg \<Rightarrow> bool" for N where
  init: "vmg_reaches N s s"
| starting: "vmg_reaches N s t \<Longrightarrow> vmg_reaches N s (snd (server_start N t))"
| stopping: "vmg_reaches N s t \<Longrightarrow> vmg_reaches N s (server_stop N t)"
| registering: "vmg_reaches N s t \<Longrightarrow> vmg_reaches N s (register_uds_handler h t)"
| setting_address: "vmg_reaches N s t \<Longrightarrow> vmg_reaches N s (set_logical_address a t)"
| setting_vin: "vmg_reaches N s t \<Longrightarrow> vmg_reaches N s (set_config_vin v t)"
| setting_eid: "vmg_reaches N s t \<Longrightarrow> vmg_reaches N s (set_eid v t)"
| setting_gid: "vmg_reaches N s t \<Longrightarrow> vmg_reaches N s (set_gid v t)"
| accepting: "vmg_reaches N s t \<Longrightarrow> vmg_reaches N s (snd (tcp_accept_round N t))"
| discovery: "vmg_reaches N s t \<Longrightarrow> udp_listener_round N b t = Ret (r, t') \<Longrightarrow> vmg_reaches N s t'"
| serving: "vmg_reaches N s t \<Longrightarrow> sock \<in> fst ` set (v_sessions t) \<Longrightarrow>
    client_handler_round N sock b t = Ret (Again b', t') \<Longrightarrow> vmg_reaches N s t'"
| disconnecting: "vmg_reaches N s t \<Longrightarrow> sock \<in> fst ` set (v_sessions t) \<Longrightarrow>
    client_handler_round N sock b t = Ret (Leave, t') \<Longrightarrow> vmg_reaches N s (client_handler_end N sock t')"

definition vmg_inv :: "('u, 'w) vmg \<Rightarrow> bool" where
  "vmg_inv s \<longleftrightarrow> distinct (map fst (v_sessions s)) \<and> (\<forall>(k, x) \<in> set (v_sessions s). sess_socket x = k)
     \<and> fst ` set (v_sessions s) \<subseteq> set (v_threads s)
     \<and> (v_running s \<longrightarrow> 0 \<le> v_udp_socket s \<and> 0 \<le> v_tcp_socket s)
     \<and> (\<not> v_running s \<longrightarrow> v_sessions s = [] \<and> v_threads s = [])"

text \<open>What a message may change: the network, the sessions' contents and the handler's own state.\<close>

definition same_server :: "('u, 'w) vmg \<Rightarrow> ('u, 'w) vmg \<Rightarrow> bool" where
  "same_server s t \<longleftrightarrow> v_running t = v_running s \<and> v_udp_socket t = v_udp_socket s \<and> v_tcp_socket t = v_tcp_socket s
     \<and> v_threads t = v_threads s \<and> map (\<lambda>(k, x). (k, sess_socket x)) (v_sessions t) = map (\<lambda>(k, x). (k, sess_socket x)) (v_sessions s)"

lemma same_server_refl [simp]: "same_server s s"
  by (simp add: same_server_def)

lemma same_server_update [simp]: "same_server s (t\<lparr>v_world := w\<rparr>) = same_server s t"
  "same_server s (t\<lparr>v_captured := u\<rparr>) = same_server s t" "same_server s (count_message t) = same_server s t"
  "same_server s (t\<lparr>v_handler := h\<rparr>) = same_server s t" "same_server s (t\<lparr>v_config := c\<rparr>) = same_server s t"
  by (simp_all add: same_server_def count_message_def)

lemma update_session_same [simp]: 
  "(\<And>x. sess_socket (f x) = sess_socket x) \<Longrightarrow> same_server s (update_session k f t) = same_server s t"
  by (simp add: same_server_def update_session_def comp_def split_def if_distrib cong: if_cong)

lemma send_message_same [simp]: "same_server s (snd (send_message N k m t)) = same_server s t"
  by (simp add: send_message_def Let_def split_def)

lemma call_uds_handler_same [simp]: "same_server s (snd (call_uds_handler d t)) = same_server s t"
  by (simp add: call_uds_handler_def Let_def split_def split: option.split)

lemma handle_tcp_message_same [simp]: "same_server s (snd (handle_tcp_message N k m t)) = same_server s t"
  by (simp add: handle_tcp_message_def handle_routing_activation_req_def handle_diagnostic_message_def Let_def split_def
      split: sum.split)

lemma same_server_inv:
  assumes "same_server s t" "vmg_inv s"
  shows "vmg_inv t"
proof -
  have m: "map (\<lambda>(k, x). (k, sess_socket x)) (v_sessions t) = map (\<lambda>(k, x). (k, sess_socket x)) (v_sessions s)"
    using assms(1) by (simp add: same_server_def)
  have f: "map fst xs = map fst (map (\<lambda>(k, x). (k, sess_socket x)) xs)"
    "(\<forall>(k, x) \<in> set xs. sess_socket x = k) \<longleftrightarrow> (\<forall>(k, x) \<in> set (map (\<lambda>(k, x). (k, sess_socket x)) xs). x = k)" for xs
    by (auto simp: comp_def split_def)
  have "map fst (v_sessions t) = map fst (v_sessions s)"
    by (subst (1 2) f(1)) (simp only: m)
  moreover have "(\<forall>(k, x) \<in> set (v_sessions t). sess_socket x = k) = (\<forall>(k, x) \<in> set (v_sessions s). sess_socket x = k)"
    by (subst (1 2) f(2)) (simp only: m)
  moreover have "fst ` set (v_sessions t) = fst ` set (v_sessions s)"
    using calculation(1) by (metis list.set_map)
  moreover have "v_sessions t = [] \<longleftrightarrow> v_sessions s = []"
    using m by (metis Nil_is_map_conv)
  ultimately show ?thesis
    using assms by (simp add: vmg_inv_def same_server_def)
qed


lemma client_process_same: "whenever (client_process N k L b t) (\<lambda>x. same_server s (snd x) = same_server s t)"
  by (simp add: client_process_def) (auto simp: whenever_def split_def split: sum.split)

lemma client_round_same: "whenever (client_handler_round N k b s) (\<lambda>x. same_server s (snd x))"
proof -
  have p: "whenever (client_process N k L b' (s\<lparr>v_world := w\<rparr>)) (\<lambda>x. same_server s (snd x))" for L b' w
    using client_process_same [of N k L b' "s\<lparr>v_world := w\<rparr>" s] by (auto simp: whenever_def)
  have any: "(\<And>a. whenever (f a) Q) \<Longrightarrow> whenever (cbind m f) Q" for m :: "'x cexec" and f :: "'x \<Rightarrow> 'y cexec" and Q
    by (auto simp: whenever_def cbind_Ret_iff)
  show ?thesis
    by (simp only: client_handler_round_def Let_def split_def)
      (auto simp: p simp del: whenever_cbind split: option.split intro!: any)
qed

lemma udp_round_same: "whenever (udp_listener_round N b s) (\<lambda>x. same_server s (snd x))"
  by (simp add: udp_listener_round_def Let_def split_def split: sum.split) (auto simp: whenever_def Let_def split: sum.split)

lemma accept_inv: "vmg_inv s \<Longrightarrow> vmg_inv (snd (tcp_accept_round N s))"
  by (auto simp: tcp_accept_round_def Let_def vmg_inv_def new_session_def split_def distinct_map inj_on_def
      split: sum.split)

lemma start_inv:
  assumes "vmg_inv s"
  shows "vmg_inv (snd (server_start N s))"
proof -
  have k: "same_server t (snd (create_udp_socket N t))" "same_server t (snd (create_tcp_socket N t))" for t
    by (simp_all add: create_udp_socket_def create_tcp_socket_def Let_def split_def)
  obtain u s1 where u: "create_udp_socket N s = (u, s1)" by (cases "create_udp_socket N s")
  obtain t s2 where t: "create_tcp_socket N (s1\<lparr>v_udp_socket := u\<rparr>) = (t, s2)"
    by (cases "create_tcp_socket N (s1\<lparr>v_udp_socket := u\<rparr>)")
  show ?thesis
  proof (cases "v_running s")
    case False
    then have "vmg_inv s1" "v_sessions s1 = []" "v_threads s1 = []" "\<not> v_running s1"
      using same_server_inv [of s s1] k(1) [of s] assms by (auto simp: u vmg_inv_def same_server_def)
    moreover have "same_server (s1\<lparr>v_udp_socket := u\<rparr>) s2"
      using k(2) [of "s1\<lparr>v_udp_socket := u\<rparr>"] by (simp add: t)
    ultimately show ?thesis
      using False by (auto simp: server_start_def u t Let_def vmg_inv_def same_server_def)
  qed (use assms in \<open>simp add: server_start_def\<close>)
qed

lemma stop_inv: "vmg_inv s \<Longrightarrow> vmg_inv (server_stop N s)"
  by (auto simp: server_stop_def Let_def vmg_inv_def)

lemma end_inv:
  assumes "vmg_inv s"
  shows "vmg_inv (client_handler_end N k s)"
  using assms by (auto simp: client_handler_end_def vmg_inv_def distinct_map inj_on_def split_def)

text \<open>
  C16. The server's tables stay consistent. Whatever the owner, the clients and the network do, as long
  as no thread faults: there is at most one session per socket, each session is filed under its own
  socket and has a started thread, a running server has both its sockets, and a stopped one has no session left.
\<close>
theorem vmg_server_invariant:
  assumes "vmg_reaches N (new_server bo config u w) s"
  shows "distinct (map fst (v_sessions s)) \<and> (\<forall>(k, x) \<in> set (v_sessions s). sess_socket x = k)
     \<and> fst ` set (v_sessions s) \<subseteq> set (v_threads s)
     \<and> (v_running s \<longrightarrow> 0 \<le> v_udp_socket s \<and> 0 \<le> v_tcp_socket s)
     \<and> (\<not> v_running s \<longrightarrow> v_sessions s = [] \<and> v_threads s = [])"
proof -
  have "vmg_inv s"
    using assms
  proof (induction "new_server bo config u w" s)
    case init
    then show ?case by (simp add: vmg_inv_def new_server_def)
  next
    case (serving t sock b b' t')
    then show ?case using client_round_same [of N sock b t] by (auto simp: whenever_def intro: same_server_inv)
  next
    case (disconnecting t sock b t')
    then show ?case using client_round_same [of N sock b t] by (auto simp: whenever_def intro: end_inv same_server_inv)
  next
    case (discovery t b r t')
    then show ?case using udp_round_same [of N b t] by (auto simp: whenever_def intro: same_server_inv)
  next
    case (starting t)
    then show ?case by (simp add: start_inv)
  next
    case (stopping t)
    then show ?case by (simp add: stop_inv)
  next
    case (accepting t)
    then show ?case by (simp add: accept_inv)
  qed (simp_all add: vmg_inv_def register_uds_handler_def set_logical_address_def
      set_config_vin_def set_eid_def set_gid_def)
  then show ?thesis
    by (simp add: vmg_inv_def)
qed

theorem vmg_server_invariant_witness:
  "\<exists>s :: (unit, bytes \<times> bytes list) vmg. vmg_reaches stream_net (new_server LITTLE_ENDIAN default_config () ([], [])) s
     \<and> map fst (v_sessions s) = [4] \<and> 4 \<in> set (v_threads s)"
proof -
  let ?s = "new_server LITTLE_ENDIAN default_config () ([], []) :: (unit, bytes \<times> bytes list) vmg"
  let ?t = "snd (tcp_accept_round stream_net (snd (server_start stream_net ?s)))"
  have r: "vmg_reaches stream_net ?s ?t"
    by (intro vmg_reaches.accepting vmg_reaches.starting vmg_reaches.init)
  moreover have "map fst (v_sessions ?t) = [4]"
    by (simp add: tcp_accept_round_def server_start_def create_udp_socket_def create_tcp_socket_def new_server_def Let_def)
  ultimately show ?thesis
    using vmg_server_invariant [OF r] by fastforce
qed

section \<open>The end of a client's thread\<close>

lemma stream_send_input [simp]: "fst (v_world (snd (send_message stream_net k m s))) = fst (v_world s)"
  by (cases "v_world s") (simp add: send_message_def Let_def)

lemma handle_tcp_message_input [simp]: "fst (v_world (snd (handle_tcp_message stream_net k m s))) = fst (v_world s)"
  by (simp add: handle_tcp_message_def handle_routing_activation_req_def handle_diagnostic_message_def
      call_uds_handler_def update_session_def Let_def split_def split: sum.split option.split)

lemma client_process_input:
  "whenever (client_process stream_net k L b s) (\<lambda>x. fst (v_world (snd x)) = fst (v_world s))"
  by (simp add: client_process_def) (auto simp: whenever_def split_def count_message_def split: sum.split)

lemma client_process_not_stuck: "client_process N k L b s \<noteq> Hang"
  by (auto simp: client_process_def from_bytes_def buf_get_def buf_slice_def throw_def ok_def Let_def cbind_Hang_iff
      split: if_splits)

text \<open>A round that goes on has taken a header from the stream.\<close>

lemma stream_round_consumes:
  assumes "v_world s = (i, out)" "8192 \<le> length b"
  shows "client_handler_round stream_net k b s = Ret (Again b', s') \<Longrightarrow>
    8 \<le> length i \<and> length (fst (v_world s')) \<le> length i - 8"
    and "client_handler_round stream_net k b s \<noteq> Hang"
proof -
  have r: "net_recv stream_net k 8 (v_world s) = (Some (take 8 i), (drop 8 i, out))"
    by (simp add: assms(1))
  have short: "client_handler_round stream_net k b s = Ret (Leave, s\<lparr>v_world := (drop 8 i, out)\<rparr>)"
    if "length i < 8" "v_running s"
    using that assms(2) by (simp add: client_handler_round_def r buf_write_def min_def)
  have len: "8 \<le> length b" "length (take 8 i) = 8" if "\<not> length i < 8"
    using that assms(2) by simp_all
  have proc: "length (fst (v_world s')) \<le> length i - 8"
    if "client_process stream_net k L b1 (s\<lparr>v_world := (drop n i, o1)\<rparr>) = Ret (x, s')" "8 \<le> n" for L b1 n o1 x
    using client_process_input [of k L b1 "s\<lparr>v_world := (drop n i, o1)\<rparr>"] that
    by (auto simp: whenever_def)
  have hang: "client_process stream_net k L b1 (s\<lparr>v_world := w\<rparr>) \<noteq> Hang" for L b1 w
    by (rule client_process_not_stuck)
  show "8 \<le> length i \<and> length (fst (v_world s')) \<le> length i - 8"
    if a: "client_handler_round stream_net k b s = Ret (Again b', s')"
  proof (cases "v_running s \<and> \<not> length i < 8")
    case True
    then show ?thesis
      using a client_round_header [OF _ r len(2) len(1)] proc
      by (auto simp: cbind_Ret_iff split: if_splits)
  next
    case False
    then show ?thesis
      using a short by (cases "v_running s") (auto simp: client_handler_round_def)
  qed
  show "client_handler_round stream_net k b s \<noteq> Hang"
  proof (cases "v_running s \<and> \<not> length i < 8")
    case True
    have "buf_write x n d \<noteq> Hang" for x n d
      by (simp add: buf_write_def)
    then show ?thesis
      using True hang client_round_header [OF _ r len(2) len(1)] by (simp add: cbind_Hang_iff)
  next
    case False
    then show ?thesis
      using short by (cases "v_running s") (auto simp: client_handler_round_def)
  qed
qed

lemma stream_round_buffer:
  assumes "v_world s = (i, out)" "8192 \<le> length b" "length b < 2 ^ 32"
    "client_handler_round stream_net k b s = Ret (Again b', s')"
  shows "8192 \<le> length b' \<and> length b' < 2 ^ 32"
proof -
  have run: "v_running s"
    using assms(4) by (auto simp: client_handler_round_def split: if_splits)
  have r: "net_recv stream_net k 8 (v_world s) = (Some (take 8 i), (drop 8 i, out))"
    by (simp add: assms(1))
  have rc: "net_recv stream_net k n v = (Some d, v') \<Longrightarrow> length d \<le> n" for n v d v'
    by (cases v) auto
  have "8 \<le> length i"
    using stream_round_consumes(1) [OF assms(1,2,4)] by simp
  then have l: "length (take 8 i) = 8"
    by simp
  have ov: "client_handler_round stream_net k b s = Fault \<longleftrightarrow> 0xFFFFFFF8 \<le> unat (announced (take 8 i))
      \<and> (\<exists>d w'. net_recv stream_net k (unat (announced (take 8 i))) (drop 8 i, out) = (Some d, w') \<and> d \<noteq> [])"
    by (rule client_round_overflow(1) [OF run r l _ assms(2,3)]) (rule rc)
  have safe: "unat (announced (take 8 i)) \<le> 0xFFFFFFF7 \<Longrightarrow> \<exists>r s'. client_handler_round stream_net k b s = Ret (r, s')
      \<and> (\<forall>b'. r = Again b' \<longrightarrow> 8192 \<le> length b' \<and> length b' < 2 ^ 32)"
    by (rule client_round_overflow(2) [OF run r l _ assms(2,3)]) (rule rc)
  show ?thesis
  proof (cases "unat (announced (take 8 i)) \<le> 0xFFFFFFF7")
    case True
    then show ?thesis
      using safe assms(4) by auto
  next
    case False
    then have "drop 8 i = []"
      using ov assms(4) by (auto simp: not_le)
    moreover have "announced (take 8 i) \<noteq> 0"
      using False by auto
    ultimately show ?thesis
      using client_round_header [OF run r l, of b] assms(2,4) by simp
  qed
qed



end
