(* ===== verification/VMG_UDS.thy ===== *)
theory VMG_UDS
  imports DoIP_Server
begin

text \<open>
  The UDS services of the vehicle gateway: \<^verbatim>\<open>vehicle_gateway/include/uds_service_handler.hpp\<close> and
  \<^verbatim>\<open>src/uds_service_handler.cpp\<close>, every operation of the class. The random seed is an argument of
  the operation that draws one; registered DID handlers are functions over a state of their own that
  answer or throw. Strings are byte lists.
\<close>

section \<open>State\<close>

abbreviation UDS_POSITIVE_RESPONSE_OFFSET :: u8 where "UDS_POSITIVE_RESPONSE_OFFSET \<equiv> 0x40"
abbreviation UDS_NEGATIVE_RESPONSE :: u8 where "UDS_NEGATIVE_RESPONSE \<equiv> 0x7F"

datatype UDSNRC = GeneralReject | ServiceNotSupported | SubFunctionNotSupported | IncorrectMessageLength
  | ConditionsNotCorrect | RequestSequenceError | RequestOutOfRange | SecurityAccessDenied | InvalidKey
  | ExceedNumberOfAttempts | RequiredTimeDelayNotExpired

fun nrc_code :: "UDSNRC \<Rightarrow> u8" where
  "nrc_code GeneralReject = 0x10"
| "nrc_code ServiceNotSupported = 0x11"
| "nrc_code SubFunctionNotSupported = 0x12"
| "nrc_code IncorrectMessageLength = 0x13"
| "nrc_code ConditionsNotCorrect = 0x22"
| "nrc_code RequestSequenceError = 0x24"
| "nrc_code RequestOutOfRange = 0x31"
| "nrc_code SecurityAccessDenied = 0x33"
| "nrc_code InvalidKey = 0x35"
| "nrc_code ExceedNumberOfAttempts = 0x36"
| "nrc_code RequiredTimeDelayNotExpired = 0x37"

type_synonym 'd did_handler = "u16 \<Rightarrow> 'd \<Rightarrow> (string + bytes) \<times> 'd"

record 'd vmg_uds =
  g_vin :: bytes
  g_ecu_serial :: bytes
  g_software_version :: bytes
  g_hardware_version :: bytes
  g_did_handlers :: "u16 \<rightharpoonup> 'd did_handler"
  g_did_state :: 'd
  g_session :: u8
  g_unlocked :: bool
  g_seed :: u32
  g_attempts :: u8

definition uds_service_handler :: "'d \<Rightarrow> 'd vmg_uds" where
  "uds_service_handler d = \<lparr>g_vin = map of_char ''WBADT43452G296403'', g_ecu_serial = map of_char ''ECU123456789'',
     g_software_version = map of_char ''v1.0.0'', g_hardware_version = map of_char ''HW_REV_A'',
     g_did_handlers = Map.empty, g_did_state = d, g_session = 0x01, g_unlocked = False, g_seed = 0, g_attempts = 0\<rparr>"

definition set_vin :: "bytes \<Rightarrow> 'd vmg_uds \<Rightarrow> 'd vmg_uds" where
  "set_vin x u = u\<lparr>g_vin := x\<rparr>"

definition set_ecu_serial_number :: "bytes \<Rightarrow> 'd vmg_uds \<Rightarrow> 'd vmg_uds" where
  "set_ecu_serial_number x u = u\<lparr>g_ecu_serial := x\<rparr>"

definition set_software_version :: "bytes \<Rightarrow> 'd vmg_uds \<Rightarrow> 'd vmg_uds" where
  "set_software_version x u = u\<lparr>g_software_version := x\<rparr>"

definition set_hardware_version :: "bytes \<Rightarrow> 'd vmg_uds \<Rightarrow> 'd vmg_uds" where
  "set_hardware_version x u = u\<lparr>g_hardware_version := x\<rparr>"

definition register_did_read_handler :: "u16 \<Rightarrow> 'd did_handler \<Rightarrow> 'd vmg_uds \<Rightarrow> 'd vmg_uds" where
  "register_did_read_handler did h u = u\<lparr>g_did_handlers := (g_did_handlers u)(did \<mapsto> h)\<rparr>"

section \<open>Services\<close>

definition build_positive_response :: "u8 \<Rightarrow> bytes \<Rightarrow> bytes" where
  "build_positive_response sid data = [sid + UDS_POSITIVE_RESPONSE_OFFSET] @ data"

definition build_negative_response :: "u8 \<Rightarrow> UDSNRC \<Rightarrow> bytes" where
  "build_negative_response sid nrc = [UDS_NEGATIVE_RESPONSE, sid, nrc_code nrc]"

definition handle_diagnostic_session_control :: "bytes \<Rightarrow> 'd vmg_uds \<Rightarrow> bytes \<times> 'd vmg_uds" where
  "handle_diagnostic_session_control request u =
     (if length request < 2 then (build_negative_response (request ! 0) IncorrectMessageLength, u)
      else
        let session_type = request ! 1
        in if session_type < 0x01 \<or> 0x03 < session_type
           then (build_negative_response (request ! 0) SubFunctionNotSupported, u)
           else
             let u = u\<lparr>g_session := session_type\<rparr>;
                 u = (if session_type = 0x01 then u\<lparr>g_unlocked := False\<rparr> else u)
             in (build_positive_response (request ! 0) [session_type], u))"

definition handle_ecu_reset :: "bytes \<Rightarrow> 'd vmg_uds \<Rightarrow> bytes \<times> 'd vmg_uds" where
  "handle_ecu_reset request u =
     (if length request < 2 then (build_negative_response (request ! 0) IncorrectMessageLength, u)
      else
        let reset_type = request ! 1
        in if reset_type < 0x01 \<or> 0x03 < reset_type
           then (build_negative_response (request ! 0) SubFunctionNotSupported, u)
           else (build_positive_response (request ! 0) [reset_type], u))"

definition handle_security_access :: "u32 \<Rightarrow> bytes \<Rightarrow> 'd vmg_uds \<Rightarrow> bytes \<times> 'd vmg_uds" where
  "handle_security_access random request u =
     (if length request < 2 then (build_negative_response (request ! 0) IncorrectMessageLength, u)
      else
        let sub_function = request ! 1
        in if sub_function = 0x01 then
             (if g_unlocked u then (build_positive_response (request ! 0) [0x01, 0x00, 0x00, 0x00, 0x00], u)
              else if 3 \<le> g_attempts u then (build_negative_response (request ! 0) ExceedNumberOfAttempts, u)
              else
                let u = u\<lparr>g_seed := random\<rparr>;
                    response_data = [0x01] @ [ucast (drop_bit 24 (g_seed u)), ucast (drop_bit 16 (g_seed u)),
                                              ucast (drop_bit 8 (g_seed u)), ucast (g_seed u)]
                in (build_positive_response (request ! 0) response_data, u))
           else if sub_function = 0x02 then
             (if length request < 6 then (build_negative_response (request ! 0) IncorrectMessageLength, u)
              else
                let received_key = be32_val (request ! 2) (request ! 3) (request ! 4) (request ! 5);
                    expected_key = g_seed u XOR 0xABCD1234
                in if received_key = expected_key
                   then (build_positive_response (request ! 0) [0x02], u\<lparr>g_unlocked := True, g_attempts := 0\<rparr>)
                   else
                     let u = u\<lparr>g_attempts := g_attempts u + 1\<rparr>
                     in if 3 \<le> g_attempts u
                        then (build_negative_response (request ! 0) ExceedNumberOfAttempts, u)
                        else (build_negative_response (request ! 0) InvalidKey, u))
           else (build_negative_response (request ! 0) SubFunctionNotSupported, u))"

definition handle_tester_present :: "bytes \<Rightarrow> 'd vmg_uds \<Rightarrow> bytes \<times> 'd vmg_uds" where
  "handle_tester_present request u =
     (if length request < 2 then (build_negative_response (request ! 0) IncorrectMessageLength, u)
      else (build_positive_response (request ! 0) [request ! 1], u))"

definition handle_read_data_by_identifier :: "bytes \<Rightarrow> 'd vmg_uds \<Rightarrow> bytes \<times> 'd vmg_uds" where
  "handle_read_data_by_identifier request u =
     (if length request < 3 then (build_negative_response (request ! 0) IncorrectMessageLength, u)
      else
        let did = be16_val (request ! 1) (request ! 2);
            did_bytes = [ucast (drop_bit 8 did), ucast did];
            answer = (\<lambda>data_str. (build_positive_response (request ! 0) (did_bytes @ data_str), u))
        in case g_did_handlers u did of
             Some h \<Rightarrow>
               (let (r, d) = h did (g_did_state u); u = u\<lparr>g_did_state := d\<rparr>
                in case r of
                     Inl e \<Rightarrow> (build_negative_response (request ! 0) RequestOutOfRange, u)
                   | Inr data \<Rightarrow> (build_positive_response (request ! 0) (did_bytes @ data), u))
           | None \<Rightarrow>
               if did = 0xF190 then answer (resize_to 17 0x20 (g_vin u))
               else if did = 0xF18C then answer (g_ecu_serial u)
               else if did = 0xF195 then answer (g_software_version u)
               else if did = 0xF191 then answer (g_hardware_version u)
               else (build_negative_response (request ! 0) RequestOutOfRange, u))"

definition handle_write_data_by_identifier :: "bytes \<Rightarrow> 'd vmg_uds \<Rightarrow> bytes \<times> 'd vmg_uds" where
  "handle_write_data_by_identifier request u =
     (if length request < 4 then (build_negative_response (request ! 0) IncorrectMessageLength, u)
      else if \<not> g_unlocked u then (build_negative_response (request ! 0) SecurityAccessDenied, u)
      else
        let did = be16_val (request ! 1) (request ! 2)
        in (build_positive_response (request ! 0) [ucast (drop_bit 8 did), ucast did], u))"

definition handle_read_dtc_information :: "bytes \<Rightarrow> 'd vmg_uds \<Rightarrow> bytes \<times> 'd vmg_uds" where
  "handle_read_dtc_information request u =
     (if length request < 2 then (build_negative_response (request ! 0) IncorrectMessageLength, u)
      else (build_positive_response (request ! 0) [request ! 1, 0x00], u))"

definition handle_routine_control :: "bytes \<Rightarrow> 'd vmg_uds \<Rightarrow> bytes \<times> 'd vmg_uds" where
  "handle_routine_control request u =
     (if length request < 4 then (build_negative_response (request ! 0) IncorrectMessageLength, u)
      else
        let sub_function = request ! 1; routine_id = be16_val (request ! 2) (request ! 3)
        in (build_positive_response (request ! 0) [sub_function, ucast (drop_bit 8 routine_id), ucast routine_id], u))"

definition process_request :: "u32 \<Rightarrow> bytes \<Rightarrow> 'd vmg_uds \<Rightarrow> bytes \<times> 'd vmg_uds" where
  "process_request random request u =
     (if request = [] then (build_negative_response 0x00 IncorrectMessageLength, u)
      else
        let sid = request ! 0
        in if sid = 0x10 then handle_diagnostic_session_control request u
           else if sid = 0x11 then handle_ecu_reset request u
           else if sid = 0x27 then handle_security_access random request u
           else if sid = 0x3E then handle_tester_present request u
           else if sid = 0x22 then handle_read_data_by_identifier request u
           else if sid = 0x2E then handle_write_data_by_identifier request u
           else if sid = 0x19 then handle_read_dtc_information request u
           else if sid = 0x31 then handle_routine_control request u
           else (build_negative_response sid ServiceNotSupported, u))"

text \<open>A run of the handler: each request with the seed the random device would give.\<close>

fun process_requests :: "(u32 \<times> bytes) list \<Rightarrow> 'd vmg_uds \<Rightarrow> bytes list \<times> 'd vmg_uds" where
  "process_requests [] u = ([], u)"
| "process_requests ((random, request) # rs) u =
     (let (a, u) = process_request random request u; (as, u) = process_requests rs u in (a # as, u))"

section \<open>Answers and the security state\<close>

lemmas vmg_uds_services = handle_diagnostic_session_control_def handle_ecu_reset_def handle_security_access_def
  handle_tester_present_def handle_read_data_by_identifier_def handle_write_data_by_identifier_def
  handle_read_dtc_information_def handle_routine_control_def

definition answers :: "u8 \<Rightarrow> bytes \<Rightarrow> bool" where
  "answers sid a \<longleftrightarrow> (a \<noteq> [] \<and> hd a = sid + 0x40) \<or> (\<exists>nrc. a = [0x7F, sid, nrc_code nrc])"

lemma answers_simps [simp]: "answers sid (build_positive_response sid d)" "answers sid (build_negative_response sid n)"
  by (auto simp: answers_def build_positive_response_def build_negative_response_def)

lemma service_answers:
  "answers (request ! 0) (fst (handle_diagnostic_session_control request u))"
  "answers (request ! 0) (fst (handle_ecu_reset request u))"
  "answers (request ! 0) (fst (handle_security_access random request u))"
  "answers (request ! 0) (fst (handle_tester_present request u))"
  "answers (request ! 0) (fst (handle_write_data_by_identifier request u))"
  "answers (request ! 0) (fst (handle_read_dtc_information request u))"
  "answers (request ! 0) (fst (handle_routine_control request u))"
  by (simp_all add: handle_diagnostic_session_control_def handle_ecu_reset_def handle_security_access_def
      handle_tester_present_def handle_write_data_by_identifier_def handle_read_dtc_information_def
      handle_routine_control_def Let_def)

lemma read_answers: "answers (request ! 0) (fst (handle_read_data_by_identifier request u))"
  by (simp add: handle_read_data_by_identifier_def Let_def split_def split: option.split sum.split)

lemma process_request_answers:
  "request \<noteq> [] \<Longrightarrow> answers (request ! 0) (fst (process_request random request u))"
  unfolding process_request_def Let_def
  by (simp only: if_False) (intro conjI impI service_answers read_answers | simp split del: if_split | split if_split)+

text \<open>The fields a service leaves alone, for all services but the two that write them.\<close>

lemma service_session:
  "g_session (snd (handle_ecu_reset request u)) = g_session u"
  "g_session (snd (handle_security_access random request u)) = g_session u"
  "g_session (snd (handle_tester_present request u)) = g_session u"
  "g_session (snd (handle_write_data_by_identifier request u)) = g_session u"
  "g_session (snd (handle_read_dtc_information request u)) = g_session u"
  "g_session (snd (handle_routine_control request u)) = g_session u"
  by (simp_all add: handle_ecu_reset_def handle_security_access_def
      handle_tester_present_def handle_write_data_by_identifier_def handle_read_dtc_information_def
      handle_routine_control_def Let_def)

lemma read_keeps:
  "g_session (snd (handle_read_data_by_identifier request u)) = g_session u"
  "g_unlocked (snd (handle_read_data_by_identifier request u)) = g_unlocked u"
  "g_seed (snd (handle_read_data_by_identifier request u)) = g_seed u"
  by (cases "g_did_handlers u (be16_val (request ! 1) (request ! 2))";
      cases "length request < 3"; simp add: handle_read_data_by_identifier_def Let_def split_def split: sum.split)+

lemma session_in_range: "\<not> x < 1 \<Longrightarrow> \<not> 3 < x \<Longrightarrow> x \<in> {1, 2, 3 :: u8}"
proof -
  assume a: "\<not> x < 1" "\<not> 3 < x"
  then have "unat x = unat (1 :: u8) \<or> unat x = unat (2 :: u8) \<or> unat x = unat (3 :: u8)"
    by (auto simp: word_less_nat_alt)
  then show ?thesis
    by (simp only: word_unat_eq_iff [symmetric] insert_iff simp_thms empty_iff)
qed

lemma process_request_session:
  assumes "g_session u \<in> {1, 2, 3}"
  shows "g_session (snd (process_request random request u)) \<in> {1, 2, 3}"
proof -
  have "g_session (snd (handle_diagnostic_session_control request u)) \<in> {1, 2, 3}"
  proof (cases "length request < 2 \<or> request ! 1 < 1 \<or> 3 < request ! 1")
    case True
    then show ?thesis
      using assms by (auto simp: handle_diagnostic_session_control_def Let_def)
  next
    case False
    then have "g_session (snd (handle_diagnostic_session_control request u)) = request ! 1"
      by (simp add: handle_diagnostic_session_control_def Let_def)
    then show ?thesis
      using False session_in_range [of "request ! 1"] by simp
  qed
  with assms show ?thesis
    by (simp add: process_request_def Let_def service_session read_keeps)
qed

lemma process_requests_run:
  "length (fst (process_requests rs u)) = length rs
   \<and> (g_session u \<in> {1, 2, 3} \<longrightarrow> g_session (snd (process_requests rs u)) \<in> {1, 2, 3})
   \<and> (\<forall>i < length rs. snd (rs ! i) \<noteq> [] \<longrightarrow> answers (snd (rs ! i) ! 0) (fst (process_requests rs u) ! i))"
proof (induction rs u rule: process_requests.induct)
  case (2 random request rs u)
  obtain a u1 where p: "process_request random request u = (a, u1)"
    by (cases "process_request random request u")
  obtain as u2 where q: "process_requests rs u1 = (as, u2)"
    by (cases "process_requests rs u1")
  have "request \<noteq> [] \<Longrightarrow> answers (request ! 0) a" "g_session u \<in> {1, 2, 3} \<Longrightarrow> g_session u1 \<in> {1, 2, 3}"
    using process_request_answers [of request random u] process_request_session [of u random request] p by simp_all
  with 2 p q show ?case
    by (auto simp: nth_Cons split: nat.split)
qed simp



lemma process_request_guards:
  assumes "process_request random request u = (a, u')"
  shows "\<not> g_unlocked u \<Longrightarrow> g_unlocked u' \<Longrightarrow> 6 \<le> length request \<and> take 2 request = [0x27, 0x02]
      \<and> be32_val (request ! 2) (request ! 3) (request ! 4) (request ! 5) = g_seed u XOR 0xABCD1234"
    and "g_seed u' \<noteq> g_seed u \<Longrightarrow> take 2 request = [0x27, 0x01] \<and> \<not> g_unlocked u \<and> g_attempts u < 3 \<and> g_seed u' = random"
    and "request \<noteq> [] \<Longrightarrow> request ! 0 = 0x2E \<Longrightarrow> hd a = 0x6E \<Longrightarrow> g_unlocked u"
proof -
  have t: "take 2 request = [request ! 0, request ! 1]" if "\<not> length request < 2"
    using that take2_drop [of 0 request] by simp
  show "\<not> g_unlocked u \<Longrightarrow> g_unlocked u' \<Longrightarrow> 6 \<le> length request \<and> take 2 request = [0x27, 0x02]
      \<and> be32_val (request ! 2) (request ! 3) (request ! 4) (request ! 5) = g_seed u XOR 0xABCD1234"
    using assms t by (auto simp: process_request_def vmg_uds_services Let_def split: if_splits option.splits sum.splits prod.splits)
  show "g_seed u' \<noteq> g_seed u \<Longrightarrow> take 2 request = [0x27, 0x01] \<and> \<not> g_unlocked u \<and> g_attempts u < 3 \<and> g_seed u' = random"
    using assms t by (auto simp: process_request_def vmg_uds_services Let_def split: if_splits option.splits sum.splits prod.splits)
  show "request \<noteq> [] \<Longrightarrow> request ! 0 = 0x2E \<Longrightarrow> hd a = 0x6E \<Longrightarrow> g_unlocked u"
    using assms by (auto simp: process_request_def handle_write_data_by_identifier_def build_negative_response_def split: if_splits)
qed



section \<open>The attempt counter\<close>

definition key_request :: "u32 \<Rightarrow> bytes" where
  "key_request key = [0x27, 0x02] @ be32 key"

lemma process_key_request:
  "process_request random (key_request key) u =
    (if key = g_seed u XOR 0xABCD1234 then ([0x67, 0x02], u\<lparr>g_unlocked := True, g_attempts := 0\<rparr>)
     else ([0x7F, 0x27, if 3 \<le> g_attempts u + 1 then 0x36 else 0x35], u\<lparr>g_attempts := g_attempts u + 1\<rparr>))"
  by (simp add: process_request_def key_request_def handle_security_access_def be32_def wire_simps Let_def
      build_positive_response_def build_negative_response_def)

lemma wrong_keys_run:
  "\<forall>(r, k) \<in> set ks. k \<noteq> g_seed u XOR 0xABCD1234 \<Longrightarrow>
   snd (process_requests (map (\<lambda>(r, k). (r, key_request k)) ks) u) = u\<lparr>g_attempts := g_attempts u + of_nat (length ks)\<rparr>"
proof (induction ks arbitrary: u)
  case (Cons rk ks)
  obtain r k where rk: "rk = (r, k)" by force
  let ?u = "u\<lparr>g_attempts := g_attempts u + 1\<rparr>"
  have "snd (process_requests (map (\<lambda>(r, k). (r, key_request k)) ks) ?u)
      = ?u\<lparr>g_attempts := g_attempts ?u + of_nat (length ks)\<rparr>"
    using Cons.prems by (intro Cons.IH) (auto simp: rk)
  then show ?case
    using Cons.prems by (simp add: rk process_key_request split_def add.assoc add.commute)
qed simp

lemma wrong_keys_limit:
  assumes "\<forall>(r, k) \<in> set ks. k \<noteq> g_seed u XOR 0xABCD1234" "g_attempts u = 0" "\<not> g_unlocked u"
    "snd (process_requests (map (\<lambda>(r, k). (r, key_request k)) ks) u) = u'"
  shows "fst (process_request random [0x27, 0x01] u') = [0x7F, 0x27, 0x36] \<longleftrightarrow> 3 \<le> length ks mod 256"
    and "process_request random (key_request (g_seed u XOR 0xABCD1234)) u' = ([0x67, 0x02], u\<lparr>g_unlocked := True\<rparr>)"
proof -
  have u': "u' = u\<lparr>g_attempts := of_nat (length ks)\<rparr>"
    using wrong_keys_run [OF assms(1)] assms(2,4) by simp
  have "(3 :: u8) \<le> of_nat (length ks) \<longleftrightarrow> 3 \<le> length ks mod 256"
    by (simp add: word_le_nat_alt unat_of_nat)
  then show "fst (process_request random [0x27, 0x01] u') = [0x7F, 0x27, 0x36] \<longleftrightarrow> 3 \<le> length ks mod 256"
    using assms(3) by (simp add: u' process_request_def handle_security_access_def build_positive_response_def
        build_negative_response_def)
  show "process_request random (key_request (g_seed u XOR 0xABCD1234)) u' = ([0x67, 0x02], u\<lparr>g_unlocked := True\<rparr>)"
    using assms(2) by (simp add: u' process_key_request)
qed

text \<open>
  C19. The limit of three attempts does not limit the attempts. After any number \<open>n\<close> of wrong keys a
  locked handler still accepts the key of its seed, so keys can be tried without end; only new
  seeds are refused, and since the counter is a byte they are refused exactly while \<open>n mod 256\<close> is at least 3.
\<close>
theorem vmg_uds_attempt_limit:
  assumes "\<forall>(r, k) \<in> set ks. k \<noteq> g_seed u XOR 0xABCD1234" "g_attempts u = 0" "\<not> g_unlocked u"
    "snd (process_requests (map (\<lambda>(r, k). (r, key_request k)) ks) u) = u'"
  shows "(fst (process_request random [0x27, 0x01] u') = [0x7F, 0x27, 0x36] \<longleftrightarrow> 3 \<le> length ks mod 256)
    \<and> (process_request random (key_request (g_seed u XOR 0xABCD1234)) u' = ([0x67, 0x02], u\<lparr>g_unlocked := True\<rparr>))"
  using wrong_keys_limit [OF assms] by blast

theorem vmg_uds_attempt_limit_witness:
  "process_request 0 (key_request 0xABCD1234)
     (snd (process_requests (map (\<lambda>(r, k). (r, key_request k)) (replicate 4 (0, 1))) (uds_service_handler ())))
   = ([0x67, 0x02], (uds_service_handler ())\<lparr>g_unlocked := True\<rparr>)"
proof -
  have "g_seed (uds_service_handler ()) = 0" "g_attempts (uds_service_handler ()) = 0" "\<not> g_unlocked (uds_service_handler ())"
    by (simp_all add: uds_service_handler_def)
  then show ?thesis
    using vmg_uds_attempt_limit [of "replicate 4 (0, 1)" "uds_service_handler ()"] by simp
qed

end
