(* ===== verification/Vehicle_Link.thy ===== *)
theory Vehicle_Link
  imports DoIP_Client VMG_UDS
begin

text \<open>
  The client of the microcontrollers (\<^verbatim>\<open>doip_client.c\<close>) against the server of the vehicle gateway
  (\<^verbatim>\<open>doip_server.cpp\<close> with the UDS services of \<^verbatim>\<open>uds_service_handler.cpp\<close>). The network between them
  is the socket library of the client: it hands each send to the gateway's receiver thread, which
  serves it in one round, and gives what the gateway sent back one message at a time.
\<close>

section \<open>One served message\<close>

lemma serve_frame:
  assumes "v_running v" "v_world v = (doip_frame t d, out)" "0 < length d" "length d \<le> 0xFFFF" "8192 \<le> length b"
  shows "\<exists>b'. 8192 \<le> length b' \<and> client_handler_round stream_net sock b v =
    Ret (case handle_tcp_message stream_net sock (mk_message t d) (v\<lparr>v_world := ([], out)\<rparr>) of
           (Inl e, s) \<Rightarrow> (Again b', s)
         | (Inr _, s) \<Rightarrow> (Again b', count_message s))"
proof -
  define hdr where "hdr = take 8 (doip_frame t d)"
  have f: "doip_frame t d = hdr @ d" "length hdr = 8"
    by (simp_all add: hdr_def doip_frame_def be16_def be32_def)
  have u: "unat (of_nat (length d) :: u32) = length d"
    using assms(4) by (intro unat_le_of_nat) simp
  have "announced (hdr @ d) = of_nat (length d)"
    using announced_frame [of t d "[]"] by (simp add: f)
  then have a: "announced hdr = of_nat (length d)"
    using announced_append [of hdr d] f(2) by simp
  have nz: "(of_nat (length d) :: u32) \<noteq> 0"
    using u assms(3) by (metis less_irrefl unat_0)
  define b0 where "b0 = hdr @ drop 8 b"
  define b1 where "b1 = (if unat (announced hdr) > length b0 - 8 then resize_to (unat (8 + announced hdr)) 0 b0 else b0)"
  have s8: "unat (8 + of_nat (length d) :: u32) = 8 + length d"
    using u assms(4) by (subst unat_8_plus) simp_all
  have "length b0 = length b"
    using assms(5) f(2) by (simp add: b0_def)
  then have "b1 = b0 @ replicate (8 + length d - length b0) 0"
    using assms(5) by (auto simp: b1_def a u s8 resize_to_ge)
  then obtain r where b1: "b1 = hdr @ r" "8 + length d \<le> length b1" "8192 \<le> length b1"
    using assms(5) \<open>length b0 = length b\<close> by (auto simp: b0_def)
  define b' where "b' = doip_frame t d @ drop (length d) r"
  have wr: "buf_write b1 8 d = Ret b'"
    using b1 f by (simp add: buf_write_def b'_def)
  have lb: "8 + length d \<le> length b'" "8192 \<le> length b'"
    using b1 f by (auto simp: b'_def)
  have fb: "from_bytes b' (unat (8 + of_nat (length d) :: u32)) = ok (mk_message t d)"
    unfolding s8 b'_def using assms(4) by (intro from_bytes_frame) simp_all
  have r8: "net_recv stream_net sock 8 (v_world v) = (Some hdr, (d, out))"
    by (simp add: assms(2) f)
  have "8 \<le> length b"
    using assms(5) by simp
  note rnd = client_round_header [OF assms(1) r8 f(2) this, folded b0_def, folded b1_def]
  have "client_handler_round stream_net sock b v = client_process stream_net sock (of_nat (length d)) b' (v\<lparr>v_world := ([], out)\<rparr>)"
    using assms(3) by (simp add: rnd a nz u wr)
  also have "\<dots> = Ret (case handle_tcp_message stream_net sock (mk_message t d) (v\<lparr>v_world := ([], out)\<rparr>) of
           (Inl e, s) \<Rightarrow> (Again b', s) | (Inr _, s) \<Rightarrow> (Again b', count_message s))"
    by (simp add: client_process_def fb ok_def)
  finally show ?thesis
    using lb by blast
qed

definition vmg_handler :: "u32 \<Rightarrow> 'd vmg_uds uds_fun" where
  "vmg_handler random request u = (let (a, u') = process_request random request u in (Inr a, u'))"

lemma mk_payload_bytes: "[ucast (drop_bit 8 x), ucast x] = be16 x"
  by (simp add: be16_def)

lemma serve_diagnostic:
  assumes "v_handler v = Some (vmg_handler random)" "v_world v = (i, out)" "process_request random uds (v_captured v) = (a, u')"
  shows "handle_tcp_message stream_net sock (mk_message DiagnosticMessage (be16 sa @ be16 ta @ uds)) v =
    (Inr (), v\<lparr>v_captured := u', v_world := (i, out
       @ [to_bytes (v_order v) (mk_message DiagnosticMessagePosAck (be16 sa @ be16 ta @ [0]))]
       @ [to_bytes (v_order v) (mk_message DiagnosticMessage (be16 ta @ be16 sa @ a))])\<rparr>)"
  using assms
  by (simp add: handle_tcp_message_def handle_diagnostic_message_def call_uds_handler_def vmg_handler_def send_message_def
      be16_def wire_simps Let_def)

section \<open>The network between the two\<close>

type_synonym 'd link = "bytes \<times> ('d vmg_uds, bytes \<times> bytes list) vmg"

definition link_send :: "bytes \<Rightarrow> 'd link \<Rightarrow> 'd link" where
  "link_send d = (\<lambda>(b, v). let (i, out) = v_world v
     in case client_handler_round stream_net 4 b (v\<lparr>v_world := (i @ d, out)\<rparr>) of
          Ret (Again b', v') \<Rightarrow> (b', v')
        | Ret (Leave, v') \<Rightarrow> (b, client_handler_end stream_net 4 v')
        | _ \<Rightarrow> (b, v\<lparr>v_running := False\<rparr>))"

definition link_recv :: "'d link \<Rightarrow> bytes option \<times> 'd link" where
  "link_recv = (\<lambda>(b, v). case v_world v of
     (i, []) \<Rightarrow> (None, (b, v))
   | (i, m # out) \<Rightarrow> (Some m, (b, v\<lparr>v_world := (i, out)\<rparr>)))"

definition link_px :: "'d link posix" where
  "link_px = \<lparr>px_socket = (\<lambda>t w. (3, w)), px_setsockopt = (\<lambda>s oo w. w), px_connect = (\<lambda>s a w. (0, w)),
     px_send = (\<lambda>s d w. (int (length d), link_send d w)), px_recv = (\<lambda>s cap w. link_recv w),
     px_sendto = (\<lambda>s d a w. (-1, w)), px_recvfrom = (\<lambda>s cap w. (None, w)),
     px_would_block = (\<lambda>w. True), px_close = (\<lambda>s w. w), px_inet_pton = (\<lambda>s. Some 0)\<rparr>"

lemma link_px_simps [simp]:
  "px_setsockopt link_px s oo w = w" "px_send link_px s d w = (int (length d), link_send d w)"
  "px_recv link_px s cap w = link_recv w" "px_would_block link_px w = True"
  by (simp_all add: link_px_def)

lemma link_send_diagnostic:
  assumes "v_running v" "v_handler v = Some (vmg_handler random)" "v_world v = ([], out)" "8192 \<le> length b"
    "process_request random uds (v_captured v) = (a, u')" "length uds \<le> 0xFFF0"
  shows "\<exists>b' v'. link_send (doip_frame DiagnosticMessage (be16 sa @ be16 ta @ uds)) (b, v) = (b', v')
     \<and> 8192 \<le> length b' \<and> v_captured v' = u' \<and> v_running v' \<and> v_order v' = v_order v \<and> v_handler v' = v_handler v
     \<and> v_world v' = ([], out
       @ [to_bytes (v_order v) (mk_message DiagnosticMessagePosAck (be16 sa @ be16 ta @ [0]))]
       @ [to_bytes (v_order v) (mk_message DiagnosticMessage (be16 ta @ be16 sa @ a))])"
proof -
  let ?d = "be16 sa @ be16 ta @ uds"
  let ?v = "v\<lparr>v_world := (doip_frame DiagnosticMessage ?d, out)\<rparr>"
  obtain b' where "8192 \<le> length b'" "client_handler_round stream_net 4 b ?v =
    Ret (case handle_tcp_message stream_net 4 (mk_message DiagnosticMessage ?d) (?v\<lparr>v_world := ([], out)\<rparr>) of
           (Inl e, s) \<Rightarrow> (Again b', s)
         | (Inr _, s) \<Rightarrow> (Again b', count_message s))"
    using serve_frame [of ?v DiagnosticMessage ?d out b 4] assms by auto
  then show ?thesis
    using serve_diagnostic [of "?v\<lparr>v_world := ([], out)\<rparr>" random "[]" out uds a u' 4 sa ta] assms
    by (simp add: link_send_def count_message_def)
qed

section \<open>The exchange\<close>

text \<open>A reply whose length field promises more than arrived is dropped by the client.\<close>

lemma receive_swapped:
  assumes "px_recv px (tcp_socket c) client_buffer_size (px_setsockopt px (tcp_socket c) (rcv_timeout tmo) w)
      = (Some (to_bytes LITTLE_ENDIAN (mk_message t d)), w')"
    "0 < length d" "8 + length d \<le> DOIP_MAX_RESPONSE_SIZE" "wf_client c" "is_connected c"
  shows "\<exists>rx. client_tcp_receive (lwip_sockets px) tmo c w = Ret (None, c\<lparr>rx_buffer := rx\<rparr>, w')"
proof -
  let ?m = "to_bytes LITTLE_ENDIAN (mk_message t d)"
  let ?rx = "?m @ drop (8 + length d) (rx_buffer c)"
  have rx: "length (rx_buffer c) = DOIP_MAX_RESPONSE_SIZE" "tcp_socket c \<noteq> DOIP_INVALID_SOCKET"
    using assms(4,5) by (simp_all add: wf_client_def)
  obtain e f g h where abcd: "be32 (of_nat (length d)) = [e, f, g, h]"
    by (simp add: be32_def)
  obtain x y where xy: "be16 t = [x, y]"
    by (simp add: be16_def)
  have m: "?m = [0x02, 0xFD, y, x, h, g, f, e] @ d"
    by (simp add: to_bytes_le abcd xy)
  have sw: "0x10000 \<le> unat (be32_val h g f e)" "unat (be32_val h g f e) \<le> 0xFFFF0000"
    using swapped_length [OF assms(2) _ abcd] assms(3) by simp_all
  then have s8: "unat (8 + be32_val h g f e) = 8 + unat (be32_val h g f e)"
    by (subst unat_8_plus) simp_all
  have n: "unat (of_nat (8 + length d) :: size_t) = 8 + length d"
    using assms(3) by (intro unat_le_of_nat) simp
  have cmp: "\<not> (of_nat (8 + length d) :: size_t) < 8" "(of_nat (8 + length d) :: size_t) < 8 + be32_val h g f e"
    using sw assms(3) by (simp_all only: word_less_nat_alt n s8) simp_all
  have hd: "doip_header_of ?rx = \<lparr>protocol_version = DOIP_PROTOCOL_VERSION,
      inverse_protocol_version = DOIP_INVERSE_PROTOCOL_VERSION, payload_type = be16_val y x,
      payload_length = be32_val h g f e\<rparr>"
    by (simp add: doip_header_of_def m)
  have bound: "unat (of_nat (8 + length d) :: size_t) \<le> length ?rx"
    using n by simp
  have "parse_received (c\<lparr>rx_buffer := ?rx\<rparr>) (int (8 + length d)) = Ret None"
    using doip_parse_message_eq [OF bound, of header_var "Some None"] cmp by (simp add: parse_received_def hd)
  moreover have "doip_socket_tcp_recv px (tcp_socket c) (Some (rx_buffer c)) client_buffer_size tmo w
      = Ret (int (8 + length d), Some ?rx, w')"
    using rx assms(1,3) by (simp add: doip_socket_tcp_recv_def Let_def buf_write_def min_def)
  ultimately show ?thesis
    by (auto simp: client_tcp_receive_def Let_def)
qed

lemma client_exchange_swapped:
  assumes "wf_client c" "is_connected c" "routing_active c"
    "unat n \<le> length req" "12 + unat n \<le> DOIP_MAX_RESPONSE_SIZE"
    "px_send px (tcp_socket c) (doip_frame DOIP_DIAGNOSTIC_MESSAGE
       (be16 (source_address c) @ be16 (target_address c) @ take (unat n) req)) w = (sent, w1)" "0 \<le> sent"
    "px_recv px (tcp_socket c) client_buffer_size (px_setsockopt px (tcp_socket c) (rcv_timeout DOIP_SOCKET_TIMEOUT_MS) w1)
       = (Some (to_bytes LITTLE_ENDIAN (mk_message t d)), w2)"
    "0 < length d" "8 + length d \<le> DOIP_MAX_RESPONSE_SIZE"
  shows "\<exists>c'. doip_client_send_diagnostic (lwip_sockets px) (Some c) (Some req) n (Some out) cap len w
    = Ret (-1, Some c', Some out, len, w2)"
proof -
  let ?f = "doip_frame DOIP_DIAGNOSTIC_MESSAGE (be16 (source_address c) @ be16 (target_address c) @ take (unat n) req)"
  have tx: "length (tx_buffer c) = DOIP_MAX_RESPONSE_SIZE" "tcp_socket c \<noteq> DOIP_INVALID_SOCKET"
    using assms(1,2) by (simp_all add: wf_client_def)
  have n12: "unat (12 + n) = 12 + unat n" "12 + n \<noteq> 0"
  proof -
    show "unat (12 + n) = 12 + unat n"
      using assms(5) by (subst unat_add_no_wrap) auto
    then show "12 + n \<noteq> 0"
      by (metis add_is_0 unat_0 zero_neq_numeral)
  qed
  let ?tx = "?f @ drop (12 + unat n) (tx_buffer c)"
  let ?c1 = "c\<lparr>tx_buffer := ?tx\<rparr>"
  have build: "doip_build_diagnostic_message (source_address c) (target_address c) (Some req) n (Some (tx_buffer c))
      client_buffer_size = Ret (12 + n, Some ?tx)"
    using assms(4,5) tx by (intro doip_build_diagnostic_message_ok) auto
  have lf: "length ?f = 12 + unat n"
    using assms(4) by simp
  have send: "doip_socket_tcp_send px (tcp_socket ?c1) (Some (tx_buffer ?c1)) (12 + n) w = Ret (sent, w1)"
    using assms(6) tx lf n12 by (simp add: doip_socket_tcp_send_def buf_slice_def del: length_doip_frame)
  have wf1: "wf_client ?c1" "is_connected ?c1"
    using assms(1,2,5) tx lf by (simp_all add: wf_client_def del: length_doip_frame)
  obtain rx where r1: "client_tcp_receive (lwip_sockets px) DOIP_SOCKET_TIMEOUT_MS ?c1 w1 = Ret (None, ?c1\<lparr>rx_buffer := rx\<rparr>, w2)"
    using receive_swapped [of px ?c1 DOIP_SOCKET_TIMEOUT_MS w1 t d w2] assms(8-10) wf1 by auto
  have sent: "(sent < 0) = False"
    using assms(7) by simp
  show ?thesis
    by (simp only: doip_client_send_diagnostic_def option.case prod.case assms(2,3) if_False if_True not_True_eq_False
        simp_thms build cbind.simps deref_simps Let_def n12(2) lwip_sockets_simps send sent r1) blast
qed


definition vmg_ready :: "byte_order \<Rightarrow> (unit vmg_uds, bytes \<times> bytes list) vmg" where
  "vmg_ready bo = (new_server bo default_config (uds_service_handler ()) ([], []))\<lparr>v_running := True, v_handler := Some (vmg_handler 0)\<rparr>"


end
