(* ===== verification/Sim_UDS.thy ===== *)
theory Sim_UDS
  imports C_Prelude
begin

text \<open>
  The UDS handler of the TC375 simulator: \<^verbatim>\<open>tc375_simulator/include/uds_handler.hpp\<close> and
  \<^verbatim>\<open>src/uds_handler.cpp\<close>, every operation of the classes. An exception is \<open>Inl\<close> with its text. The
  enums have a fixed underlying type, so any byte is a value of them. The random seed is an argument.
\<close>

section \<open>Messages and responses\<close>

record UdsMessage =
  um_service :: u8
  um_sub_function :: u8
  um_data :: bytes

record UdsResponse =
  ur_positive :: bool
  ur_service :: u8
  ur_nrc :: u8
  ur_data :: bytes

definition message_serialize :: "UdsMessage \<Rightarrow> bytes" where
  "message_serialize m =
     [um_service m] @ (if um_sub_function m \<noteq> 0 then [um_sub_function m] else []) @ um_data m"

definition message_deserialize :: "bytes \<Rightarrow> string + UdsMessage" where
  "message_deserialize raw =
     (if raw = [] then Inl ''Empty UDS message''
      else Inr \<lparr>um_service = raw ! 0, um_sub_function = (if 1 < length raw then raw ! 1 else 0),
                um_data = (if 2 < length raw then drop 2 raw else [])\<rparr>)"

definition response_serialize :: "UdsResponse \<Rightarrow> bytes" where
  "response_serialize r =
     (if ur_positive r then [0x40 + ur_service r] else [0x7F, ur_service r, ur_nrc r]) @ ur_data r"

text \<open>\<open>resp0\<close> is what the uninitialised response object holds; a short negative response keeps its fields.\<close>

definition response_deserialize :: "UdsResponse \<Rightarrow> bytes \<Rightarrow> string + UdsResponse" where
  "response_deserialize resp0 raw =
     (if raw = [] then Inl ''Empty UDS response''
      else
        let resp = resp0\<lparr>ur_data := []\<rparr>
        in Inr (if raw ! 0 = 0x7F then
             let resp = resp\<lparr>ur_positive := False\<rparr>;
                 resp = (if 3 \<le> length raw then resp\<lparr>ur_service := raw ! 1, ur_nrc := raw ! 2\<rparr> else resp)
             in if 3 < length raw then resp\<lparr>ur_data := drop 3 raw\<rparr> else resp
           else
             let resp = resp\<lparr>ur_positive := True, ur_service := raw ! 0 - 0x40, ur_nrc := 0x00\<rparr>
             in if 1 < length raw then resp\<lparr>ur_data := drop 1 raw\<rparr> else resp))"

section \<open>Handler state\<close>

datatype SecurityLevel = LOCKED | SEED_SENT | UNLOCKED
datatype DiagnosticSession = DEFAULT | PROGRAMMING | EXTENDED

fun session_code :: "DiagnosticSession \<Rightarrow> u8" where
  "session_code DEFAULT = 0x01"
| "session_code PROGRAMMING = 0x02"
| "session_code EXTENDED = 0x03"

record DownloadState =
  dl_active :: bool
  dl_address :: u32
  dl_size :: u32
  dl_block_counter :: u8

text \<open>What is registered for a service: one of the class's own handlers, or a function of the user.\<close>

datatype ServiceHandler = DiagnosticSessionHandler | EcuResetHandler | SecurityAccessHandler | TesterPresentHandler
  | ReadDataByIdHandler | RequestDownloadHandler | TransferDataHandler | RequestTransferExitHandler
  | UserHandler "UdsMessage \<Rightarrow> UdsResponse"

record sim_uds =
  s_handlers :: "u8 \<rightharpoonup> ServiceHandler"
  s_security :: SecurityLevel
  s_seed :: u32
  s_session :: DiagnosticSession
  s_download :: DownloadState

definition register_service_handler :: "u8 \<Rightarrow> ServiceHandler \<Rightarrow> sim_uds \<Rightarrow> sim_uds" where
  "register_service_handler service h s = s\<lparr>s_handlers := (s_handlers s)(service \<mapsto> h)\<rparr>"

text \<open>The address and size of a download are uninitialised at first and never read.\<close>

definition sim_uds_handler :: sim_uds where
  "sim_uds_handler =
     (let s = \<lparr>s_handlers = Map.empty, s_security = LOCKED, s_seed = 0, s_session = DEFAULT,
               s_download = \<lparr>dl_active = False, dl_address = 0, dl_size = 0, dl_block_counter = 0\<rparr>\<rparr>;
          s = register_service_handler 0x10 DiagnosticSessionHandler s;
          s = register_service_handler 0x11 EcuResetHandler s;
          s = register_service_handler 0x27 SecurityAccessHandler s;
          s = register_service_handler 0x3E TesterPresentHandler s;
          s = register_service_handler 0x22 ReadDataByIdHandler s;
          s = register_service_handler 0x34 RequestDownloadHandler s;
          s = register_service_handler 0x36 TransferDataHandler s
      in register_service_handler 0x37 RequestTransferExitHandler s)"

section \<open>Services\<close>

definition create_positive_response :: "u8 \<Rightarrow> bytes \<Rightarrow> UdsResponse" where
  "create_positive_response service data = \<lparr>ur_positive = True, ur_service = service, ur_nrc = 0x00, ur_data = data\<rparr>"

definition create_negative_response :: "u8 \<Rightarrow> u8 \<Rightarrow> UdsResponse" where
  "create_negative_response service nrc = \<lparr>ur_positive = False, ur_service = service, ur_nrc = nrc, ur_data = []\<rparr>"

abbreviation GENERAL_REJECT :: u8 where "GENERAL_REJECT \<equiv> 0x10"
abbreviation SERVICE_NOT_SUPPORTED :: u8 where "SERVICE_NOT_SUPPORTED \<equiv> 0x11"
abbreviation SUBFUNCTION_NOT_SUPPORTED :: u8 where "SUBFUNCTION_NOT_SUPPORTED \<equiv> 0x12"
abbreviation INCORRECT_MESSAGE_LENGTH :: u8 where "INCORRECT_MESSAGE_LENGTH \<equiv> 0x13"
abbreviation REQUEST_OUT_OF_RANGE :: u8 where "REQUEST_OUT_OF_RANGE \<equiv> 0x31"
abbreviation SECURITY_ACCESS_DENIED :: u8 where "SECURITY_ACCESS_DENIED \<equiv> 0x33"
abbreviation INVALID_KEY :: u8 where "INVALID_KEY \<equiv> 0x35"
abbreviation UPLOAD_DOWNLOAD_NOT_ACCEPTED :: u8 where "UPLOAD_DOWNLOAD_NOT_ACCEPTED \<equiv> 0x70"
abbreviation WRONG_BLOCK_SEQUENCE_COUNTER :: u8 where "WRONG_BLOCK_SEQUENCE_COUNTER \<equiv> 0x73"

definition handle_diagnostic_session :: "UdsMessage \<Rightarrow> sim_uds \<Rightarrow> UdsResponse \<times> sim_uds" where
  "handle_diagnostic_session request s =
     (if um_data request = [] then (create_negative_response (um_service request) INCORRECT_MESSAGE_LENGTH, s)
      else
        let session_type = um_data request ! 0;
            changed = (\<lambda>x. (create_positive_response (um_service request) [session_type], s\<lparr>s_session := x\<rparr>))
        in if session_type = 0x01 then changed DEFAULT
           else if session_type = 0x02 then
             (if s_security s \<noteq> UNLOCKED
              then (create_negative_response (um_service request) SECURITY_ACCESS_DENIED, s)
              else changed PROGRAMMING)
           else if session_type = 0x03 then changed EXTENDED
           else (create_negative_response (um_service request) SUBFUNCTION_NOT_SUPPORTED, s))"

definition sim_ecu_reset :: "UdsMessage \<Rightarrow> UdsResponse" where
  "sim_ecu_reset request =
     (if um_data request = [] then create_negative_response (um_service request) INCORRECT_MESSAGE_LENGTH
      else create_positive_response (um_service request) [um_data request ! 0])"

definition verify_seed_key :: "u32 \<Rightarrow> u32 \<Rightarrow> bool" where
  "verify_seed_key seed key \<longleftrightarrow> key = seed XOR 0xA5A5A5A5"

definition sim_security_access :: "u32 \<Rightarrow> UdsMessage \<Rightarrow> sim_uds \<Rightarrow> UdsResponse \<times> sim_uds" where
  "sim_security_access random request s =
     (if um_data request = [] then (create_negative_response (um_service request) INCORRECT_MESSAGE_LENGTH, s)
      else
        let sub_func = um_data request ! 0
        in if sub_func AND 0x01 = 0x01 then
             let s = s\<lparr>s_seed := random, s_security := SEED_SENT\<rparr>
             in (create_positive_response (um_service request)
                   [ucast (drop_bit 24 (s_seed s)), ucast (drop_bit 16 (s_seed s)),
                    ucast (drop_bit 8 (s_seed s)), ucast (s_seed s)], s)
           else if s_security s \<noteq> SEED_SENT
           then (create_negative_response (um_service request) GENERAL_REJECT, s)
           else if length (um_data request) < 5
           then (create_negative_response (um_service request) INCORRECT_MESSAGE_LENGTH, s)
           else
             let key = be32_val (um_data request ! 1) (um_data request ! 2) (um_data request ! 3) (um_data request ! 4)
             in if verify_seed_key (s_seed s) key
                then (create_positive_response (um_service request) [sub_func], s\<lparr>s_security := UNLOCKED\<rparr>)
                else (create_negative_response (um_service request) INVALID_KEY, s\<lparr>s_security := LOCKED\<rparr>))"

definition sim_tester_present :: "UdsMessage \<Rightarrow> UdsResponse" where
  "sim_tester_present request = create_positive_response (um_service request) [0x00]"

definition sim_read_data_by_id :: "UdsMessage \<Rightarrow> sim_uds \<Rightarrow> UdsResponse" where
  "sim_read_data_by_id request s =
     (if length (um_data request) < 2 then create_negative_response (um_service request) INCORRECT_MESSAGE_LENGTH
      else
        let data_id = be16_val (um_data request ! 0) (um_data request ! 1);
            answer = (\<lambda>d. create_positive_response (um_service request) ([ucast (drop_bit 8 data_id), ucast data_id] @ d))
        in if data_id = 0xF186 then answer [session_code (s_session s)]
           else if data_id = 0xF187 then answer (map of_char ''20251021'')
           else if data_id = 0xF18A then answer (map of_char ''TC375-001'')
           else create_negative_response (um_service request) REQUEST_OUT_OF_RANGE)"

definition sim_write_data_by_id :: "UdsMessage \<Rightarrow> sim_uds \<Rightarrow> UdsResponse" where
  "sim_write_data_by_id request s =
     (if s_session s \<noteq> PROGRAMMING \<and> s_session s \<noteq> EXTENDED
      then create_negative_response (um_service request) GENERAL_REJECT
      else create_positive_response (um_service request) [])"

definition sim_routine_control :: "UdsMessage \<Rightarrow> UdsResponse" where
  "sim_routine_control request = create_positive_response (um_service request) []"

definition sim_request_download :: "UdsMessage \<Rightarrow> sim_uds \<Rightarrow> UdsResponse \<times> sim_uds" where
  "sim_request_download request s =
     (if s_session s \<noteq> PROGRAMMING then (create_negative_response (um_service request) GENERAL_REJECT, s)
      else if s_security s \<noteq> UNLOCKED then (create_negative_response (um_service request) SECURITY_ACCESS_DENIED, s)
      else (create_positive_response (um_service request) [0x20, 0x10, 0x00],
            s\<lparr>s_download := \<lparr>dl_active = True, dl_address = 0, dl_size = 0, dl_block_counter = 1\<rparr>\<rparr>))"

definition sim_transfer_data :: "UdsMessage \<Rightarrow> sim_uds \<Rightarrow> UdsResponse \<times> sim_uds" where
  "sim_transfer_data request s =
     (if \<not> dl_active (s_download s)
      then (create_negative_response (um_service request) UPLOAD_DOWNLOAD_NOT_ACCEPTED, s)
      else if um_data request = []
      then (create_negative_response (um_service request) INCORRECT_MESSAGE_LENGTH, s)
      else
        let block_counter = um_data request ! 0
        in if block_counter \<noteq> dl_block_counter (s_download s)
           then (create_negative_response (um_service request) WRONG_BLOCK_SEQUENCE_COUNTER, s)
           else (create_positive_response (um_service request) [block_counter],
                 s\<lparr>s_download := (s_download s)\<lparr>dl_block_counter := dl_block_counter (s_download s) mod 0xFF + 1\<rparr>\<rparr>))"

definition sim_request_transfer_exit :: "UdsMessage \<Rightarrow> sim_uds \<Rightarrow> UdsResponse \<times> sim_uds" where
  "sim_request_transfer_exit request s =
     (if \<not> dl_active (s_download s)
      then (create_negative_response (um_service request) UPLOAD_DOWNLOAD_NOT_ACCEPTED, s)
      else (create_positive_response (um_service request) [],
            s\<lparr>s_download := (s_download s)\<lparr>dl_active := False\<rparr>\<rparr>))"

fun call_service :: "ServiceHandler \<Rightarrow> u32 \<Rightarrow> UdsMessage \<Rightarrow> sim_uds \<Rightarrow> UdsResponse \<times> sim_uds" where
  "call_service DiagnosticSessionHandler random request s = handle_diagnostic_session request s"
| "call_service EcuResetHandler random request s = (sim_ecu_reset request, s)"
| "call_service SecurityAccessHandler random request s = sim_security_access random request s"
| "call_service TesterPresentHandler random request s = (sim_tester_present request, s)"
| "call_service ReadDataByIdHandler random request s = (sim_read_data_by_id request s, s)"
| "call_service RequestDownloadHandler random request s = sim_request_download request s"
| "call_service TransferDataHandler random request s = sim_transfer_data request s"
| "call_service RequestTransferExitHandler random request s = sim_request_transfer_exit request s"
| "call_service (UserHandler h) random request s = (h request, s)"

definition handle_request :: "u32 \<Rightarrow> UdsMessage \<Rightarrow> sim_uds \<Rightarrow> UdsResponse \<times> sim_uds" where
  "handle_request random request s =
     (case s_handlers s (um_service request) of
        None \<Rightarrow> (create_negative_response (um_service request) SERVICE_NOT_SUPPORTED, s)
      | Some h \<Rightarrow> call_service h random request s)"

fun handle_requests :: "(u32 \<times> UdsMessage) list \<Rightarrow> sim_uds \<Rightarrow> UdsResponse list \<times> sim_uds" where
  "handle_requests [] s = ([], s)"
| "handle_requests ((random, request) # rs) s =
     (let (r, s) = handle_request random request s; (as, s) = handle_requests rs s in (r # as, s))"

section \<open>Round trips\<close>

lemma wire_roundtrips:
  shows "message_deserialize (message_serialize m) = Inr m \<longleftrightarrow> um_sub_function m \<noteq> 0 \<or> um_data m = []"
    and "response_deserialize r0 (response_serialize r) = Inr r \<longleftrightarrow>
      (ur_positive r \<longrightarrow> ur_nrc r = 0 \<and> ur_service r \<noteq> 0x3F)"
proof -
  have d: "drop (Suc 0) xs = xs \<longleftrightarrow> xs = []" for xs :: bytes
    by (cases xs) (auto dest: arg_cong [of _ _ length])
  show "message_deserialize (message_serialize m) = Inr m \<longleftrightarrow> um_sub_function m \<noteq> 0 \<or> um_data m = []"
    by (cases m; cases "um_data m") (auto simp: message_deserialize_def message_serialize_def numeral_2_eq_2
        dest: arg_cong [of _ _ length])
  have h: "0x40 + x = (0x7F :: u8) \<longleftrightarrow> x = 0x3F" for x :: u8
    using add_left_cancel [of "0x40 :: u8" x "0x3F"] by simp
  show "response_deserialize r0 (response_serialize r) = Inr r \<longleftrightarrow>
      (ur_positive r \<longrightarrow> ur_nrc r = 0 \<and> ur_service r \<noteq> 0x3F)"
    by (cases r0; cases r; cases "ur_data r") (auto simp: response_deserialize_def response_serialize_def h Let_def numeral_3_eq_3)
qed

text \<open>
  Which messages survive the wire. Parsing a serialised request gives it back exactly when its
  sub-function is not 0 or it has no data; parsing a serialised response gives it back exactly when it is
  negative, or positive with the NRC 0 for a service other than 0x3F, whatever was in the object before.
\<close>
theorem sim_message_roundtrip:
  shows "(message_deserialize (message_serialize m) = Inr m \<longleftrightarrow> um_sub_function m \<noteq> 0 \<or> um_data m = [])
    \<and> (response_deserialize r0 (response_serialize r) = Inr r \<longleftrightarrow>
      (ur_positive r \<longrightarrow> ur_nrc r = 0 \<and> ur_service r \<noteq> 0x3F))"
  using wire_roundtrips by fast


theorem sim_message_roundtrip_witness:
  "message_deserialize (message_serialize \<lparr>um_service = 0x10, um_sub_function = 3, um_data = [1]\<rparr>)
    = Inr \<lparr>um_service = 0x10, um_sub_function = 3, um_data = [1]\<rparr>"
  by (subst sim_message_roundtrip [THEN conjunct1]) simp

section \<open>Handlers and the wire\<close>

lemma registered [simp]: "s_handlers sim_uds_handler service =
  (if service = 0x10 then Some DiagnosticSessionHandler else if service = 0x11 then Some EcuResetHandler
   else if service = 0x27 then Some SecurityAccessHandler else if service = 0x3E then Some TesterPresentHandler
   else if service = 0x22 then Some ReadDataByIdHandler else if service = 0x34 then Some RequestDownloadHandler
   else if service = 0x36 then Some TransferDataHandler else if service = 0x37 then Some RequestTransferExitHandler
   else None)"
  by (simp add: sim_uds_handler_def register_service_handler_def Let_def)

text \<open>The bytes of a request through the parser, the handler and the serialiser.\<close>

definition answer_wire :: "u32 \<Rightarrow> bytes \<Rightarrow> sim_uds \<Rightarrow> string + bytes \<times> sim_uds" where
  "answer_wire random raw s =
     (case message_deserialize raw of
        Inl e \<Rightarrow> Inl e
      | Inr m \<Rightarrow> (let (r, s) = handle_request random m s in Inr (response_serialize r, s)))"

text \<open>
  The parser takes the second byte of a request as the sub-function, the handlers look for it in the
  data behind. So the two-byte requests of the standard, a session change, a reset, a seed request, are
  refused with NRC 0x13 in every state, and a seed request needs a filler byte before the sub-function.
\<close>
theorem sim_standard_requests_refused:
  assumes "s_handlers s = s_handlers sim_uds_handler" "sid \<in> {0x10, 0x11, 0x27}"
  shows "answer_wire random [sid, sub] s = Inr ([0x7F, sid, 0x13], s)"
    and "answer_wire random [0x27, x, 0x01] s = Inr (0x67 # be32 random, s\<lparr>s_seed := random, s_security := SEED_SENT\<rparr>)"
proof -
  show "answer_wire random [sid, sub] s = Inr ([0x7F, sid, 0x13], s)"
    using assms(2) by (auto simp: answer_wire_def message_deserialize_def handle_request_def assms(1)
        handle_diagnostic_session_def sim_ecu_reset_def sim_security_access_def create_negative_response_def response_serialize_def)
  show "answer_wire random [0x27, x, 0x01] s = Inr (0x67 # be32 random, s\<lparr>s_seed := random, s_security := SEED_SENT\<rparr>)"
    by (simp add: answer_wire_def message_deserialize_def handle_request_def assms(1) sim_security_access_def
        create_positive_response_def response_serialize_def be32_def)
qed

theorem sim_standard_requests_refused_witness:
  "answer_wire 7 [0x10, 0x03] sim_uds_handler = Inr ([0x7F, 0x10, 0x13], sim_uds_handler)"
  by (rule sim_standard_requests_refused) simp_all

section \<open>Security, sessions and downloads\<close>

lemma handle_request_cases:
  assumes "s_handlers s = s_handlers sim_uds_handler" "handle_request random m s = (r, s')" "s' \<noteq> s"
  obtains "um_service m = 0x10" "handle_diagnostic_session m s = (r, s')"
  | "um_service m = 0x27" "sim_security_access random m s = (r, s')"
  | "um_service m = 0x34" "sim_request_download m s = (r, s')"
  | "um_service m = 0x36" "sim_transfer_data m s = (r, s')"
  | "um_service m = 0x37" "sim_request_transfer_exit m s = (r, s')"
  using assms(2,3) unfolding handle_request_def assms(1)
  by (auto split: if_splits)

lemma next_block_counter: "unat ((c :: u8) mod 0xFF + 1) = unat c mod 255 + 1"
proof -
  have "unat (c mod 0xFF) = unat c mod 255"
    by (simp add: unat_mod)
  then show ?thesis
    by (subst unat_add_no_wrap) simp_all
qed

lemma handle_request_guards:
  assumes "s_handlers s = s_handlers sim_uds_handler" "handle_request random m s = (r, s')"
  shows "s_security s' = UNLOCKED \<Longrightarrow> s_security s \<noteq> UNLOCKED \<Longrightarrow> um_service m = 0x27 \<and> s_security s = SEED_SENT
      \<and> be32_val (um_data m ! 1) (um_data m ! 2) (um_data m ! 3) (um_data m ! 4) = s_seed s XOR 0xA5A5A5A5"
    and "s_session s' = PROGRAMMING \<Longrightarrow> s_session s \<noteq> PROGRAMMING \<Longrightarrow> s_security s = UNLOCKED"
    and "dl_active (s_download s') \<Longrightarrow> \<not> dl_active (s_download s) \<Longrightarrow>
      um_service m = 0x34 \<and> s_session s = PROGRAMMING \<and> s_security s = UNLOCKED"
    and "dl_active (s_download s) \<Longrightarrow> dl_active (s_download s') \<Longrightarrow> s_download s' \<noteq> s_download s \<Longrightarrow>
      um_service m = 0x34 \<or> um_service m = 0x36 \<and> um_data m \<noteq> [] \<and> um_data m ! 0 = dl_block_counter (s_download s)"
proof -
  note defs = handle_diagnostic_session_def sim_security_access_def sim_request_download_def sim_transfer_data_def
    sim_request_transfer_exit_def verify_seed_key_def Let_def
  show "s_security s' = UNLOCKED \<Longrightarrow> s_security s \<noteq> UNLOCKED \<Longrightarrow> um_service m = 0x27 \<and> s_security s = SEED_SENT
      \<and> be32_val (um_data m ! 1) (um_data m ! 2) (um_data m ! 3) (um_data m ! 4) = s_seed s XOR 0xA5A5A5A5"
    by (rule handle_request_cases [OF assms]; auto simp: defs split: if_splits)
  show "s_session s' = PROGRAMMING \<Longrightarrow> s_session s \<noteq> PROGRAMMING \<Longrightarrow> s_security s = UNLOCKED"
    by (rule handle_request_cases [OF assms]; auto simp: defs split: if_splits)
  show "dl_active (s_download s') \<Longrightarrow> \<not> dl_active (s_download s) \<Longrightarrow>
      um_service m = 0x34 \<and> s_session s = PROGRAMMING \<and> s_security s = UNLOCKED"
    by (rule handle_request_cases [OF assms]; auto simp: defs split: if_splits)
  show "dl_active (s_download s) \<Longrightarrow> dl_active (s_download s') \<Longrightarrow> s_download s' \<noteq> s_download s \<Longrightarrow>
      um_service m = 0x34 \<or> um_service m = 0x36 \<and> um_data m \<noteq> [] \<and> um_data m ! 0 = dl_block_counter (s_download s)"
    by (rule handle_request_cases [OF assms]; auto simp: defs split: if_splits)
qed



text \<open>The requests of a transfer: block \<open>k\<close> carries the counter \<open>k mod 255 + 1\<close>.\<close>

definition block_request :: "nat \<Rightarrow> bytes \<Rightarrow> u32 \<times> UdsMessage" where
  "block_request k d = (0, \<lparr>um_service = 0x36, um_sub_function = 0, um_data = of_nat (k mod 255 + 1) # d\<rparr>)"

lemma transfer_blocks:
  assumes "s_handlers s = s_handlers sim_uds_handler" "dl_active (s_download s)"
    "dl_block_counter (s_download s) = of_nat (k mod 255 + 1)"
  shows "handle_requests (map (\<lambda>(i, d). block_request i d) (enumerate k ds)) s =
    (map (\<lambda>(i, d). create_positive_response 0x36 [of_nat (i mod 255 + 1)]) (enumerate k ds),
     s\<lparr>s_download := (s_download s)\<lparr>dl_block_counter := of_nat ((k + length ds) mod 255 + 1)\<rparr>\<rparr>)"
  using assms
proof (induction ds arbitrary: k s)
  case Nil
  then show ?case by simp
next
  case (Cons d ds)
  let ?c = "of_nat (k mod 255 + 1) :: u8"
  let ?s = "s\<lparr>s_download := (s_download s)\<lparr>dl_block_counter := ?c mod 0xFF + 1\<rparr>\<rparr>"
  have "unat ?c = k mod 255 + 1"
    by (intro unat_le_of_nat) (simp add: less_Suc_eq_le)
  then have "unat (?c mod 0xFF + 1) = (k mod 255 + 1) mod 255 + 1"
    by (simp only: next_block_counter)
  also have "\<dots> = Suc k mod 255 + 1"
    by (simp add: mod_Suc_eq)
  also have "\<dots> = unat (of_nat (Suc k mod 255 + 1) :: u8)"
    by (rule unat_le_of_nat [symmetric]) (simp add: less_Suc_eq_le)
  finally have c: "?c mod 0xFF + 1 = of_nat (Suc k mod 255 + 1)"
    by (simp only: word_unat_eq_iff)
  have step: "handle_request 0 \<lparr>um_service = 0x36, um_sub_function = 0, um_data = ?c # d\<rparr> s
      = (create_positive_response 0x36 [?c], ?s)"
    using Cons.prems by (simp add: handle_request_def sim_transfer_data_def Let_def)
  have "handle_requests (map (\<lambda>(i, d). block_request i d) (enumerate (Suc k) ds)) ?s =
    (map (\<lambda>(i, d). create_positive_response 0x36 [of_nat (i mod 255 + 1)]) (enumerate (Suc k) ds),
     ?s\<lparr>s_download := (s_download ?s)\<lparr>dl_block_counter := of_nat ((Suc k + length ds) mod 255 + 1)\<rparr>\<rparr>)"
    using Cons.prems c by (intro Cons.IH) simp_all
  with step show ?case
    by (simp add: block_request_def)
qed

text \<open>
  A download of any length works. On an unlocked handler in the programming session
  RequestDownload, then \<open>n\<close> blocks whose counters run 1 to 255 and on from 1 again, are all
  acknowledged, the expected counter never becomes 0, and RequestTransferExit closes the download.
\<close>
theorem sim_download_any_length:
  assumes "s_handlers s = s_handlers sim_uds_handler" "s_session s = PROGRAMMING" "s_security s = UNLOCKED"
  shows "handle_requests
      ((0, \<lparr>um_service = 0x34, um_sub_function = 0, um_data = req\<rparr>)
       # map (\<lambda>(i, d). block_request i d) (enumerate 0 ds)
       @ [(0, \<lparr>um_service = 0x37, um_sub_function = 0, um_data = []\<rparr>)]) s =
    (create_positive_response 0x34 [0x20, 0x10, 0x00]
       # map (\<lambda>(i, d). create_positive_response 0x36 [of_nat (i mod 255 + 1)]) (enumerate 0 ds)
       @ [create_positive_response 0x37 []],
     s\<lparr>s_download := \<lparr>dl_active = False, dl_address = 0, dl_size = 0,
                      dl_block_counter = of_nat (length ds mod 255 + 1)\<rparr>\<rparr>)"
proof -
  have app: "handle_requests (xs @ ys) t = (let (a, t) = handle_requests xs t; (b, t) = handle_requests ys t in (a @ b, t))" for xs ys t
    by (induction xs t rule: handle_requests.induct) (auto simp: Let_def split: prod.split)
  let ?s = "s\<lparr>s_download := \<lparr>dl_active = True, dl_address = 0, dl_size = 0, dl_block_counter = 1\<rparr>\<rparr>"
  have "handle_request 0 \<lparr>um_service = 0x34, um_sub_function = 0, um_data = req\<rparr> s
      = (create_positive_response 0x34 [0x20, 0x10, 0x00], ?s)"
    using assms by (simp add: handle_request_def sim_request_download_def)
  moreover note transfer_blocks [of ?s 0 ds]
  moreover have "handle_request 0 \<lparr>um_service = 0x37, um_sub_function = 0, um_data = []\<rparr> t
      = (create_positive_response 0x37 [], t\<lparr>s_download := (s_download t)\<lparr>dl_active := False\<rparr>\<rparr>)"
    if "s_handlers t = s_handlers sim_uds_handler" "dl_active (s_download t)" for t
    using that by (simp add: handle_request_def sim_request_transfer_exit_def)
  ultimately show ?thesis
    using assms by (simp add: app)
qed

theorem sim_download_any_length_witness:
  "fst (handle_requests
      ((0, \<lparr>um_service = 0x34, um_sub_function = 0, um_data = []\<rparr>)
       # map (\<lambda>(i, d). block_request i d) (enumerate 0 (replicate 600 [1]))
       @ [(0, \<lparr>um_service = 0x37, um_sub_function = 0, um_data = []\<rparr>)])
      (sim_uds_handler\<lparr>s_session := PROGRAMMING, s_security := UNLOCKED\<rparr>)) ! 0
    = create_positive_response 0x34 [0x20, 0x10, 0x00]"
  by (subst sim_download_any_length) simp_all

end
