(* ===== verification/OTA_Manager.thy ===== *)
theory OTA_Manager
  imports C_Prelude
begin

text \<open>
  The over-the-air update manager of the simulator with its A/B banks and the simulated boot loader:
  \<^verbatim>\<open>tc375_simulator/include/ota_manager.hpp\<close> and \<^verbatim>\<open>src/ota_manager.cpp\<close>. The globals of the boot loader
  and the files under \<^verbatim>\<open>/tmp\<close> are one record, threaded through; callbacks append to a list of events.
  Status texts and logging are left out.
\<close>

section \<open>State\<close>

datatype OtaState = IDLE | DOWNLOADING | VERIFYING | INSTALLING | ROLLBACK | SUCCESS | FAILED
datatype OtaBootBank = BANK_A | BANK_B | INVALID

record FirmwareMetadata =
  fm_version :: u32
  fm_size :: u32
  fm_crc32 :: u32
  fm_signature :: bytes
  fm_build_date :: bytes

record BankMetadata =
  bm_valid :: bool
  bm_firmware :: FirmwareMetadata
  bm_boot_count :: u32
  bm_last_boot_timestamp :: u32

text \<open>
  The machine: the globals of the boot loader, the image file of each bank (\<open>None\<close> when it does not
  exist), the metadata files, and whether the file system lets a metadata file be opened for writing.
\<close>

record machine =
  g_active_bank :: OtaBootBank
  g_bank_a_valid :: bool
  g_bank_b_valid :: bool
  g_boot_count_a :: u32
  g_boot_count_b :: u32
  image_file :: "OtaBootBank \<Rightarrow> bytes option"
  meta_file :: "OtaBootBank \<Rightarrow> BankMetadata option"
  can_write :: bool

datatype ota_event = ProgressEvent int | ErrorEvent string

record OtaManager =
  o_state :: OtaState
  o_current_bank :: OtaBootBank
  o_target_size :: u32
  o_bytes_written :: u32
  o_target_metadata :: FirmwareMetadata
  o_progress_callback :: bool
  o_error_callback :: bool
  o_events :: "ota_event list"
  o_bank_a_meta :: BankMetadata
  o_bank_b_meta :: BankMetadata

definition metadata_is_valid :: "FirmwareMetadata \<Rightarrow> bool" where
  "metadata_is_valid m \<longleftrightarrow> 0 < fm_version m \<and> 0 < fm_size m \<and> fm_crc32 m \<noteq> 0"

section \<open>The simulated boot loader\<close>

definition bootloader_init :: machine where
  "bootloader_init = \<lparr>g_active_bank = BANK_A, g_bank_a_valid = True, g_bank_b_valid = False,
     g_boot_count_a = 0, g_boot_count_b = 0, image_file = (\<lambda>_. None), meta_file = (\<lambda>_. None), can_write = True\<rparr>"

definition getActiveBank :: "machine \<Rightarrow> OtaBootBank" where
  "getActiveBank g = g_active_bank g"

definition setActiveBank :: "OtaBootBank \<Rightarrow> machine \<Rightarrow> bool \<times> machine" where
  "setActiveBank bank g =
     (if bank \<noteq> BANK_A \<and> bank \<noteq> BANK_B then (False, g) else (True, g\<lparr>g_active_bank := bank\<rparr>))"

definition isValidFirmware :: "OtaBootBank \<Rightarrow> machine \<Rightarrow> bool" where
  "isValidFirmware bank g = (if bank = BANK_A then g_bank_a_valid g else g_bank_b_valid g)"

definition getBootCount :: "OtaBootBank \<Rightarrow> machine \<Rightarrow> u32" where
  "getBootCount bank g = (if bank = BANK_A then g_boot_count_a g else g_boot_count_b g)"

definition incrementBootCount :: "OtaBootBank \<Rightarrow> machine \<Rightarrow> machine" where
  "incrementBootCount bank g =
     (if bank = BANK_A then g\<lparr>g_boot_count_a := g_boot_count_a g + 1\<rparr> else g\<lparr>g_boot_count_b := g_boot_count_b g + 1\<rparr>)"

definition markFirmwareValid :: "OtaBootBank \<Rightarrow> machine \<Rightarrow> machine" where
  "markFirmwareValid bank g = (if bank = BANK_A then g\<lparr>g_bank_a_valid := True\<rparr> else g\<lparr>g_bank_b_valid := True\<rparr>)"

definition markFirmwareInvalid :: "OtaBootBank \<Rightarrow> machine \<Rightarrow> machine" where
  "markFirmwareInvalid bank g = (if bank = BANK_A then g\<lparr>g_bank_a_valid := False\<rparr> else g\<lparr>g_bank_b_valid := False\<rparr>)"

section \<open>Flash and metadata\<close>

text \<open>The names of the files distinguish only bank A from the rest.\<close>

definition file_bank :: "OtaBootBank \<Rightarrow> OtaBootBank" where
  "file_bank bank = (if bank = BANK_A then BANK_A else BANK_B)"

definition saveBankMetadata :: "OtaBootBank \<Rightarrow> BankMetadata \<Rightarrow> machine \<Rightarrow> bool \<times> machine" where
  "saveBankMetadata bank meta g =
     (if \<not> can_write g then (False, g) else (True, g\<lparr>meta_file := (meta_file g)(file_bank bank := Some meta)\<rparr>))"

definition loadBankMetadata :: "OtaBootBank \<Rightarrow> BankMetadata \<Rightarrow> machine \<Rightarrow> bool \<times> BankMetadata" where
  "loadBankMetadata bank meta g =
     (case meta_file g (file_bank bank) of
        None \<Rightarrow> (False, meta\<lparr>bm_valid := False\<rparr>)
      | Some m \<Rightarrow> (True, m))"

text \<open>Writing past the end of the file fills the gap with zeros.\<close>

definition file_write :: "bytes \<Rightarrow> nat \<Rightarrow> bytes \<Rightarrow> bytes" where
  "file_write f off d =
     (if d = [] then f else take off (f @ replicate (off - length f) 0) @ d @ drop (off + length d) f)"

definition writeToFlash :: "OtaBootBank \<Rightarrow> u32 \<Rightarrow> bytes \<Rightarrow> machine \<Rightarrow> bool \<times> machine" where
  "writeToFlash bank offset data g =
     (let f = (case image_file g (file_bank bank) of None \<Rightarrow> [] | Some f \<Rightarrow> f)
      in (True, g\<lparr>image_file := (image_file g)(file_bank bank := Some (file_write f (unat offset) data))\<rparr>))"

definition eraseBank :: "OtaBootBank \<Rightarrow> machine \<Rightarrow> bool \<times> machine" where
  "eraseBank bank g = (True, g\<lparr>image_file := (image_file g)(file_bank bank := None)\<rparr>)"

definition verifyCRC :: "OtaBootBank \<Rightarrow> u32 \<Rightarrow> bool" where
  "verifyCRC bank expected_crc = True"

definition verifySignature :: "OtaBootBank \<Rightarrow> bytes \<Rightarrow> bool" where
  "verifySignature bank signature = True"

section \<open>The manager\<close>

text \<open>\<open>meta0\<close> and \<open>fm0\<close> are what the members without an initialiser hold.\<close>

definition ota_manager :: "FirmwareMetadata \<Rightarrow> BankMetadata \<Rightarrow> machine \<Rightarrow> OtaManager" where
  "ota_manager fm0 meta0 g =
     \<lparr>o_state = IDLE, o_current_bank = getActiveBank g, o_target_size = 0, o_bytes_written = 0, o_target_metadata = fm0,
      o_progress_callback = False, o_error_callback = False, o_events = [],
      o_bank_a_meta = snd (loadBankMetadata BANK_A meta0 g), o_bank_b_meta = snd (loadBankMetadata BANK_B meta0 g)\<rparr>"

definition setProgressCallback :: "OtaManager \<Rightarrow> OtaManager" where
  "setProgressCallback o1 = o1\<lparr>o_progress_callback := True\<rparr>"

definition setErrorCallback :: "OtaManager \<Rightarrow> OtaManager" where
  "setErrorCallback o1 = o1\<lparr>o_error_callback := True\<rparr>"

definition getTargetBank :: "OtaManager \<Rightarrow> OtaBootBank" where
  "getTargetBank o1 = (if o_current_bank o1 = BANK_A then BANK_B else BANK_A)"

definition getProgress :: "OtaManager \<Rightarrow> int" where
  "getProgress o1 =
     (if o_target_size o1 = 0 then 0
      else sint ((o_bytes_written o1 * 100) div o_target_size o1))"

definition updateProgress :: "OtaManager \<Rightarrow> OtaManager" where
  "updateProgress o1 =
     (if o_progress_callback o1 then o1\<lparr>o_events := o_events o1 @ [ProgressEvent (getProgress o1)]\<rparr> else o1)"

definition handleError :: "string \<Rightarrow> OtaManager \<Rightarrow> OtaManager" where
  "handleError e o1 = (if o_error_callback o1 then o1\<lparr>o_events := o_events o1 @ [ErrorEvent e]\<rparr> else o1)"

definition setState :: "OtaState \<Rightarrow> OtaManager \<Rightarrow> OtaManager" where
  "setState st o1 = o1\<lparr>o_state := st\<rparr>"

definition startDownload :: "u32 \<Rightarrow> FirmwareMetadata \<Rightarrow> OtaManager \<Rightarrow> machine \<Rightarrow> bool \<times> OtaManager \<times> machine" where
  "startDownload firmware_size metadata o1 g =
     (if o_state o1 \<noteq> IDLE then (False, handleError ''OTA already in progress'' o1, g)
      else if \<not> metadata_is_valid metadata then (False, handleError ''Invalid firmware metadata'' o1, g)
      else
        let o1 = setState DOWNLOADING o1;
            o1 = o1\<lparr>o_target_size := firmware_size, o_target_metadata := metadata, o_bytes_written := 0\<rparr>;
            target = getTargetBank o1;
            (erased, g) = eraseBank target g
        in if \<not> erased then (False, handleError ''Failed to erase target bank'' (setState FAILED o1), g)
           else (True, o1, g))"

text \<open>\<^verbatim>\<open>offset + length\<close> is computed in the 64 bits of \<^verbatim>\<open>size_t\<close> and does not wrap.\<close>

definition writeBlock :: "u32 \<Rightarrow> bytes \<Rightarrow> OtaManager \<Rightarrow> machine \<Rightarrow> bool \<times> OtaManager \<times> machine" where
  "writeBlock offset data o1 g =
     (if o_state o1 \<noteq> DOWNLOADING then (False, handleError ''Not in download state'' o1, g)
      else if unat offset + length data > unat (o_target_size o1)
      then (False, handleError ''Write exceeds firmware size'' o1, g)
      else
        let target = getTargetBank o1; (written, g) = writeToFlash target offset data g
        in if \<not> written then (False, handleError ''Flash write failed'' (setState FAILED o1), g)
           else
             let o1 = o1\<lparr>o_bytes_written := o_bytes_written o1 + of_nat (length data)\<rparr>
             in (True, updateProgress o1, g))"

definition verify :: "OtaManager \<Rightarrow> machine \<Rightarrow> bool \<times> OtaManager \<times> machine" where
  "verify o1 g =
     (if o_state o1 \<noteq> DOWNLOADING then (False, handleError ''Not in download state'' o1, g)
      else
        let o1 = setState VERIFYING o1; target = getTargetBank o1
        in if \<not> verifyCRC target (fm_crc32 (o_target_metadata o1))
           then (False, handleError ''CRC verification failed'' (setState FAILED o1), g)
           else if \<not> verifySignature target (fm_signature (o_target_metadata o1))
           then (False, handleError ''Signature verification failed'' (setState FAILED o1), g)
           else
             let new_meta = \<lparr>bm_valid = True, bm_firmware = o_target_metadata o1, bm_boot_count = 0, bm_last_boot_timestamp = 0\<rparr>;
                 (saved, g) = saveBankMetadata target new_meta g
             in if \<not> saved then (False, handleError ''Failed to save metadata'' (setState FAILED o1), g)
                else (True, o1, g))"

definition switchBank :: "OtaBootBank \<Rightarrow> machine \<Rightarrow> bool \<times> machine" where
  "switchBank bank g = setActiveBank bank g"

definition install :: "OtaManager \<Rightarrow> machine \<Rightarrow> bool \<times> OtaManager \<times> machine" where
  "install o1 g =
     (if o_state o1 \<noteq> VERIFYING then (False, handleError ''Firmware not verified'' o1, g)
      else
        let o1 = setState INSTALLING o1; target = getTargetBank o1; g = markFirmwareValid target g;
            (switched, g) = switchBank target g
        in if \<not> switched then (False, handleError ''Failed to switch bank'' (setState FAILED o1), g)
           else (True, setState SUCCESS o1, g))"

definition rollback :: "OtaManager \<Rightarrow> machine \<Rightarrow> bool \<times> OtaManager \<times> machine" where
  "rollback o1 g =
     (let o1 = setState ROLLBACK o1; fallback = (if o_current_bank o1 = BANK_A then BANK_B else BANK_A)
      in if \<not> isValidFirmware fallback g
         then (False, setState FAILED (handleError ''Fallback bank is invalid, cannot rollback'' o1), g)
         else
           let (switched, g) = switchBank fallback g
           in if \<not> switched
              then (False, setState FAILED (handleError ''Failed to switch to fallback bank'' o1), g)
              else (True, setState SUCCESS o1, g))"

section \<open>Runs\<close>

datatype ota_call = StartDownload u32 FirmwareMetadata | WriteBlock u32 bytes | Verify | Install | Rollback
  | SetProgressCallback | SetErrorCallback

fun ota_step :: "ota_call \<Rightarrow> OtaManager \<Rightarrow> machine \<Rightarrow> bool \<times> OtaManager \<times> machine" where
  "ota_step (StartDownload n m) o1 g = startDownload n m o1 g"
| "ota_step (WriteBlock off d) o1 g = writeBlock off d o1 g"
| "ota_step Verify o1 g = verify o1 g"
| "ota_step Install o1 g = install o1 g"
| "ota_step Rollback o1 g = rollback o1 g"
| "ota_step SetProgressCallback o1 g = (True, setProgressCallback o1, g)"
| "ota_step SetErrorCallback o1 g = (True, setErrorCallback o1, g)"

fun ota_run :: "ota_call list \<Rightarrow> OtaManager \<Rightarrow> machine \<Rightarrow> bool list \<times> OtaManager \<times> machine" where
  "ota_run [] o1 g = ([], o1, g)"
| "ota_run (c # cs) o1 g =
     (let (r, o1, g) = ota_step c o1 g; (rs, o1, g) = ota_run cs o1 g in (r # rs, o1, g))"

section \<open>The life of a manager\<close>

lemma setters_simps [simp]:
  "o_state (handleError e x) = o_state x" "o_current_bank (handleError e x) = o_current_bank x"
  "o_state (updateProgress x) = o_state x" "o_current_bank (updateProgress x) = o_current_bank x"
  "o_state (setState st x) = st" "o_current_bank (setState st x) = o_current_bank x"
  "o_target_size (updateProgress x) = o_target_size x" "o_bytes_written (updateProgress x) = o_bytes_written x"
  "o_target_metadata (updateProgress x) = o_target_metadata x"
  "o_target_size (setState st x) = o_target_size x" "o_bytes_written (setState st x) = o_bytes_written x"
  "o_target_metadata (setState st x) = o_target_metadata x"
  "getTargetBank (setState st x) = getTargetBank x" "getTargetBank (updateProgress x) = getTargetBank x"
  by (simp_all add: handleError_def updateProgress_def setState_def getTargetBank_def)

lemmas ota_operations = startDownload_def writeBlock_def verify_def install_def rollback_def
  setProgressCallback_def setErrorCallback_def

lemmas ota_flash = eraseBank_def writeToFlash_def verifyCRC_def verifySignature_def saveBankMetadata_def
  switchBank_def setActiveBank_def markFirmwareValid_def isValidFirmware_def file_bank_def

lemma ota_step_state:
  assumes "ota_step c x g = (r, x', g')"
  shows "o_current_bank x' = o_current_bank x" "o_state x \<noteq> IDLE \<Longrightarrow> o_state x' \<noteq> IDLE"
    "o_state x \<noteq> IDLE \<Longrightarrow> c = StartDownload n m \<Longrightarrow> \<not> r"
    "g_active_bank g' \<noteq> g_active_bank g \<Longrightarrow> g_active_bank g' = getTargetBank x
       \<and> (c = Install \<and> o_state x = VERIFYING \<or> c = Rollback \<and> isValidFirmware (getTargetBank x) g)"
  using assms
  by (cases c; auto simp: ota_operations ota_flash Let_def getTargetBank_def split: if_splits)+

text \<open>
  C22. A manager serves one update. Once its state has left IDLE no sequence of calls brings it back, so
  every later StartDownload is refused; the bank it takes for the running one never changes; and the
  active bank of the boot loader only ever changes to the other bank, by Install after Verify or by Rollback.
\<close>
theorem ota_single_use:
  assumes "o_state x \<noteq> IDLE" "ota_run cs x g = (rs, x', g')"
  shows "o_state x' \<noteq> IDLE \<and> o_current_bank x' = o_current_bank x
    \<and> (\<forall>i < length cs. \<forall>n m. cs ! i = StartDownload n m \<longrightarrow> \<not> rs ! i)
    \<and> (g_active_bank g' \<noteq> g_active_bank g \<longrightarrow> g_active_bank g' = getTargetBank x \<and> (Install \<in> set cs \<or> Rollback \<in> set cs))"
  using assms
proof (induction cs x g arbitrary: rs rule: ota_run.induct)
  case (2 c cs x g)
  obtain r y h where step: "ota_step c x g = (r, y, h)"
    by (cases "ota_step c x g")
  obtain ss where run: "ota_run cs y h = (ss, x', g')" and rs: "rs = r # ss"
    using "2.prems"(2) step by (auto split: prod.splits)
  note st = ota_step_state [OF step]
  have "o_state y \<noteq> IDLE"
    using st(2) "2.prems"(1) by simp
  note ih = "2.IH" [OF step [symmetric] refl refl this run]
  have tb: "getTargetBank y = getTargetBank x"
    using st(1) by (simp add: getTargetBank_def)
  show ?case
  proof (intro conjI impI allI)
    show "o_state x' \<noteq> IDLE" "o_current_bank x' = o_current_bank x"
      using ih st(1) by simp_all
    show "\<not> rs ! i" if "i < length (c # cs)" "(c # cs) ! i = StartDownload n m" for i n m
      using that ih st(3) [OF "2.prems"(1)] by (cases i) (auto simp: rs)
    assume "g_active_bank g' \<noteq> g_active_bank g"
    then show "g_active_bank g' = getTargetBank x" "Install \<in> set (c # cs) \<or> Rollback \<in> set (c # cs)"
      using ih st(4) tb by (cases "g_active_bank g' = g_active_bank h"; force)+
  qed
qed simp

section \<open>Updates\<close>

definition bank_image :: "OtaBootBank \<Rightarrow> machine \<Rightarrow> bytes" where
  "bank_image bank g = (case image_file g bank of None \<Rightarrow> [] | Some f \<Rightarrow> f)"

text \<open>The calls that write an image block by block, in order.\<close>

fun block_writes :: "nat \<Rightarrow> bytes list \<Rightarrow> ota_call list" where
  "block_writes off [] = []"
| "block_writes off (d # ds) = WriteBlock (of_nat off) d # block_writes (off + length d) ds"

lemma target_bank: "getTargetBank x \<noteq> INVALID" "file_bank (getTargetBank x) = getTargetBank x"
  by (simp_all add: getTargetBank_def file_bank_def)

lemma ota_run_append:
  "ota_run (cs @ ds) x g = (let (rs, y, h) = ota_run cs x g; (ss, z, k) = ota_run ds y h in (rs @ ss, z, k))"
  by (induction cs x g rule: ota_run.induct) (auto simp: Let_def split: prod.split)

lemma run_block_writes:
  assumes "o_state x = DOWNLOADING" "length (bank_image (getTargetBank x) g) = off"
    "off + length (concat ds) \<le> unat (o_target_size x)"
  shows "\<exists>y h. ota_run (block_writes off ds) x g = (replicate (length ds) True, y, h)
    \<and> o_state y = DOWNLOADING \<and> o_current_bank y = o_current_bank x \<and> o_target_metadata y = o_target_metadata x
    \<and> o_target_size y = o_target_size x \<and> o_bytes_written y = o_bytes_written x + of_nat (length (concat ds))
    \<and> bank_image (getTargetBank x) h = bank_image (getTargetBank x) g @ concat ds
    \<and> (\<exists>f. h = g\<lparr>image_file := f\<rparr>)"
  using assms
proof (induction ds arbitrary: x g off)
  case Nil
  then show ?case by (auto intro: exI [of _ "image_file g"])
next
  case (Cons d ds)
  let ?t = "getTargetBank x"
  have "unat (o_target_size x) < 2 ^ 32"
    using unsigned_less [of "o_target_size x"] by simp
  then have "off < 2 ^ 32"
    using Cons.prems(3) by simp
  then have off: "unat (of_nat off :: u32) = off"
    by (intro unat_le_of_nat) simp
  let ?h = "g\<lparr>image_file := (image_file g)(?t := Some (file_write (bank_image ?t g) off d))\<rparr>"
  let ?y = "updateProgress (x\<lparr>o_bytes_written := o_bytes_written x + of_nat (length d)\<rparr>)"
  have step: "ota_step (WriteBlock (of_nat off) d) x g = (True, ?y, ?h)"
    using Cons.prems off by (simp add: writeBlock_def writeToFlash_def target_bank bank_image_def Let_def)
  have fl: "bank_image ?t ?h = bank_image ?t g @ d"
    using Cons.prems(2) by (simp add: bank_image_def file_write_def)
  have ty: "getTargetBank ?y = ?t"
    by (simp add: getTargetBank_def)
  have "o_state ?y = DOWNLOADING" "length (bank_image (getTargetBank ?y) ?h) = off + length d"
      "off + length d + length (concat ds) \<le> unat (o_target_size ?y)"
    using Cons.prems unfolding ty by (simp_all add: fl)
  from Cons.IH [OF this] obtain y h where y:
    "ota_run (block_writes (off + length d) ds) ?y ?h = (replicate (length ds) True, y, h)"
    "o_state y = DOWNLOADING" "o_current_bank y = o_current_bank ?y" "o_target_metadata y = o_target_metadata ?y"
    "o_target_size y = o_target_size ?y" "o_bytes_written y = o_bytes_written ?y + of_nat (length (concat ds))"
    "bank_image ?t h = bank_image ?t ?h @ concat ds" "\<exists>f. h = ?h\<lparr>image_file := f\<rparr>"
    unfolding ty by blast
  have "\<exists>f. h = g\<lparr>image_file := f\<rparr>"
    using y(8) by auto
  then show ?case
    using y(1-7) step fl by (auto simp: add.assoc)
qed

lemma ota_update_run:
  assumes "o_state x = IDLE" "metadata_is_valid m" "can_write g" "length (concat ds) \<le> unat n"
  shows "\<exists>y h. ota_run ([StartDownload n m] @ block_writes 0 ds @ [Verify, Install]) x g
      = (replicate (length ds + 3) True, y, h)
    \<and> o_state y = SUCCESS \<and> g_active_bank h = getTargetBank x \<and> isValidFirmware (getTargetBank x) h
    \<and> bank_image (getTargetBank x) h = concat ds
    \<and> map_option bm_firmware (meta_file h (getTargetBank x)) = Some m"
proof -
  let ?t = "getTargetBank x"
  let ?x = "x\<lparr>o_state := DOWNLOADING, o_target_size := n, o_target_metadata := m, o_bytes_written := 0\<rparr>"
  let ?g = "g\<lparr>image_file := (image_file g)(?t := None)\<rparr>"
  have t: "getTargetBank ?x = ?t"
    by (simp add: getTargetBank_def)
  have start: "ota_step (StartDownload n m) x g = (True, ?x, ?g)"
    using assms(1,2) target_bank(2) [of x]
    by (simp add: startDownload_def setState_def eraseBank_def Let_def getTargetBank_def)
  have "o_state ?x = DOWNLOADING" "length (bank_image (getTargetBank ?x) ?g) = 0"
      "0 + length (concat ds) \<le> unat (o_target_size ?x)"
    using assms(4) unfolding t by (simp_all add: bank_image_def)
  from run_block_writes [OF this] obtain y h f where y:
    "ota_run (block_writes 0 ds) ?x ?g = (replicate (length ds) True, y, h)"
    "o_state y = DOWNLOADING" "o_current_bank y = o_current_bank x" "o_target_metadata y = m"
    "bank_image ?t h = bank_image ?t ?g @ concat ds" "h = ?g\<lparr>image_file := f\<rparr>"
    unfolding t by auto
  have ty: "getTargetBank y = ?t"
    using y(3) by (simp add: getTargetBank_def)
  let ?meta = "\<lparr>bm_valid = True, bm_firmware = m, bm_boot_count = 0, bm_last_boot_timestamp = 0\<rparr>"
  let ?h1 = "h\<lparr>meta_file := (meta_file h)(?t := Some ?meta)\<rparr>"
  have ver: "ota_step Verify y h = (True, setState VERIFYING y, ?h1)"
    using y(2,4,6) assms(3)
    by (simp add: verify_def verifyCRC_def verifySignature_def saveBankMetadata_def ty target_bank Let_def)
  have inst: "ota_step Install (setState VERIFYING y) ?h1
      = (True, setState SUCCESS (setState INSTALLING (setState VERIFYING y)), (markFirmwareValid ?t ?h1)\<lparr>g_active_bank := ?t\<rparr>)"
    using target_bank(1) [of x]
    by (cases ?t) (simp_all add: install_def ty switchBank_def setActiveBank_def Let_def)
  have "bank_image ?t h = concat ds"
    using y(5) by (simp add: bank_image_def)
  moreover have "True # replicate k True @ [True, True] = replicate (k + 3) True" for k
    by (induction k) (simp_all add: numeral_3_eq_3)
  ultimately show ?thesis
    using start y(1) ver inst
    by (cases "?t = BANK_A") (simp_all add: ota_run_append markFirmwareValid_def isValidFirmware_def bank_image_def)
qed


text \<open>
  C21. An update in order installs its image. From a fresh manager, with valid metadata and a writable
  metadata file, StartDownload, the blocks of the image one after the other, Verify and Install all
  succeed; then the other bank holds exactly the image, is marked valid, is the active bank, and its
  metadata is saved. It does so whatever the announced size, as long as the image is not larger: a
  shorter image, even none at all, is installed as well.
\<close>
theorem ota_update_installs_image:
  assumes "o_state x = IDLE" "metadata_is_valid m" "can_write g" "length (concat ds) \<le> unat n"
  shows "\<exists>y h. ota_run ([StartDownload n m] @ block_writes 0 ds @ [Verify, Install]) x g
      = (replicate (length ds + 3) True, y, h)
    \<and> o_state y = SUCCESS \<and> g_active_bank h = getTargetBank x \<and> isValidFirmware (getTargetBank x) h
    \<and> bank_image (getTargetBank x) h = concat ds
    \<and> map_option bm_firmware (meta_file h (getTargetBank x)) = Some m"
  by (rule ota_update_run [OF assms])

definition fw :: FirmwareMetadata where
  "fw = \<lparr>fm_version = 2, fm_size = 4, fm_crc32 = 1, fm_signature = replicate 256 0, fm_build_date = []\<rparr>"

definition fresh_manager :: OtaManager where
  "fresh_manager = ota_manager fw \<lparr>bm_valid = False, bm_firmware = fw, bm_boot_count = 0, bm_last_boot_timestamp = 0\<rparr> bootloader_init"

lemma fresh_manager_simps [simp]: "o_state fresh_manager = IDLE" "getTargetBank fresh_manager = BANK_B"
  "o_current_bank fresh_manager = BANK_A" "metadata_is_valid fw" "can_write bootloader_init"
  by (simp_all add: fresh_manager_def ota_manager_def getTargetBank_def getActiveBank_def bootloader_init_def fw_def
      metadata_is_valid_def)

theorem ota_update_installs_image_witness:
  "\<exists>y h. ota_run ([StartDownload 4 fw] @ block_writes 0 [[1, 2], [3, 4]] @ [Verify, Install]) fresh_manager bootloader_init
      = (replicate 5 True, y, h) \<and> g_active_bank h = BANK_B \<and> bank_image BANK_B h = [1, 2, 3, 4]"
  using ota_update_installs_image [of fresh_manager fw bootloader_init "[[1, 2], [3, 4]]" 4] by auto

theorem ota_single_use_witness:
  "\<not> fst (ota_run [Verify, StartDownload 4 fw] (fresh_manager\<lparr>o_state := SUCCESS\<rparr>) bootloader_init) ! 1"
proof -
  obtain rs y h where r: "ota_run [Verify, StartDownload 4 fw] (fresh_manager\<lparr>o_state := SUCCESS\<rparr>) bootloader_init = (rs, y, h)"
    by (cases "ota_run [Verify, StartDownload 4 fw] (fresh_manager\<lparr>o_state := SUCCESS\<rparr>) bootloader_init")
  from ota_single_use [OF _ r] have "\<not> rs ! 1"
    by (auto dest: spec [of _ 1])
  then show ?thesis
    by (simp only: r fst_conv not_False_eq_True)
qed

section \<open>Rolling back\<close>

lemma rollback_eq: "rollback x g =
   (if isValidFirmware (getTargetBank x) g
    then (True, setState SUCCESS (setState ROLLBACK x), g\<lparr>g_active_bank := getTargetBank x\<rparr>)
    else (False, setState FAILED (handleError ''Fallback bank is invalid, cannot rollback'' (setState ROLLBACK x)), g))"
  by (simp add: rollback_def switchBank_def setActiveBank_def getTargetBank_def Let_def)

lemma rollback_runs:
  assumes "o_state x = IDLE" "metadata_is_valid m"
  shows "isValidFirmware (getTargetBank x) g \<Longrightarrow> \<exists>y h. ota_run [StartDownload n m, Rollback] x g = ([True, True], y, h)
      \<and> g_active_bank h = getTargetBank x \<and> image_file h (getTargetBank x) = None"
    and "can_write g \<Longrightarrow> \<exists>y h. ota_run [StartDownload n m, Verify, Install, Rollback] x g = ([True, True, True, True], y, h)
      \<and> g_active_bank h = getTargetBank x"
proof -
  let ?t = "getTargetBank x"
  let ?x = "x\<lparr>o_state := DOWNLOADING, o_target_size := n, o_target_metadata := m, o_bytes_written := 0\<rparr>"
  let ?g = "g\<lparr>image_file := (image_file g)(?t := None)\<rparr>"
  have t: "getTargetBank ?x = ?t"
    by (simp add: getTargetBank_def)
  have start: "startDownload n m x g = (True, ?x, ?g)"
    using assms target_bank(2) [of x]
    by (simp add: startDownload_def setState_def eraseBank_def Let_def getTargetBank_def)
  show "isValidFirmware ?t g \<Longrightarrow> \<exists>y h. ota_run [StartDownload n m, Rollback] x g = ([True, True], y, h)
      \<and> g_active_bank h = ?t \<and> image_file h ?t = None"
    by (simp add: start rollback_eq t isValidFirmware_def split: if_splits)
  assume w: "can_write g"
  from ota_update_run [OF assms w, of "[]" n] obtain y h where
    y: "ota_run [StartDownload n m, Verify, Install] x g = (replicate 3 True, y, h)"
      "g_active_bank h = ?t" "isValidFirmware ?t h" by auto
  have "o_current_bank y = o_current_bank x"
  proof -
    obtain r1 y1 h1 where s1: "ota_step Verify ?x ?g = (r1, y1, h1)" by (cases "ota_step Verify ?x ?g")
    obtain r2 y2 h2 where s2: "ota_step Install y1 h1 = (r2, y2, h2)" by (cases "ota_step Install y1 h1")
    have "y = y2"
      using y(1) start s1 s2 by simp
    then show ?thesis
      using ota_step_state(1) [OF s1] ota_step_state(1) [OF s2] by simp
  qed
  then have ty: "getTargetBank y = ?t"
    by (simp add: getTargetBank_def)
  have "ota_run ([StartDownload n m, Verify, Install] @ [Rollback]) x g
      = (replicate 3 True @ [True], setState SUCCESS (setState ROLLBACK y), h\<lparr>g_active_bank := ?t\<rparr>)"
    by (simp only: ota_run_append y Let_def prod.case) (simp add: rollback_eq ty y(3))
  then show "\<exists>y h. ota_run [StartDownload n m, Verify, Install, Rollback] x g = ([True, True, True, True], y, h)
      \<and> g_active_bank h = ?t"
    by (simp add: numeral_3_eq_3)
qed



section \<open>Progress\<close>

text \<open>
  The progress is a percentage for images of up to 42949672 bytes written in order: the bytes
  written are at most the target size and the reported value is their integer percentage. Above that size the
  32-bit product wraps: halfway through an image of 86000000 bytes the report is 0.
\<close>
theorem ota_progress_percentage:
  assumes "o_target_size x \<noteq> 0" "unat (o_bytes_written x) \<le> unat (o_target_size x)" "unat (o_target_size x) \<le> 42949672"
  shows "getProgress x = int (unat (o_bytes_written x) * 100 div unat (o_target_size x))"
    and "0 \<le> getProgress x" "getProgress x \<le> 100"
    and "getProgress (y\<lparr>o_target_size := 86000000, o_bytes_written := 43000000\<rparr>) = 0"
proof -
  let ?w = "unat (o_bytes_written x)" and ?n = "unat (o_target_size x)"
  have p: "unat (o_bytes_written x * 100) = ?w * 100"
    using assms(2,3) by (simp add: unat_word_ariths)
  have q: "?w * 100 div ?n \<le> 100"
    using div_le_mono [of "?w * 100" "?n * 100" ?n] assms(1,2) by (simp add: unat_gt_0)
  let ?p = "(o_bytes_written x * 100) div o_target_size x"
  have u: "unat ?p = ?w * 100 div ?n"
    by (simp add: unat_div p)
  then have "sint ?p = int (?w * 100 div ?n)"
    using q by (simp only: sint_uint uint_nat [of ?p] u) (subst signed_take_bit_int_eq_self; simp)
  then show "getProgress x = int (?w * 100 div ?n)" "0 \<le> getProgress x" "getProgress x \<le> 100"
    using q assms(1) by (simp_all add: getProgress_def)
  show "getProgress (y\<lparr>o_target_size := 86000000, o_bytes_written := 43000000\<rparr>) = 0"
    by (simp add: getProgress_def)
qed

theorem ota_progress_percentage_witness:
  "getProgress (fresh_manager\<lparr>o_target_size := 400, o_bytes_written := 100\<rparr>) = 25"
  by (subst ota_progress_percentage(1)) simp_all

end
