(* ===== verification/Remote_Diagnostics.thy ===== *)
theory Remote_Diagnostics
  imports DoIP_Server "HOL-Library.List_Lexorder" "HOL-Library.Char_ord"
begin

text \<open>
  The remote diagnostics of the vehicle gateway: \<^verbatim>\<open>vehicle_gateway/include/remote_diagnostics_handler.hpp\<close>
  and \<^verbatim>\<open>src/remote_diagnostics_handler.cpp\<close>. Requests come as JSON text, searched with regular
  expressions; they wait in a map ordered by their id until they time out. The clock is an
  argument, in nanoseconds; log output is left out. The 64-bit counters are natural numbers.
\<close>

section \<open>The regular expressions\<close>

text \<open>
  \<^verbatim>\<open>std::regex_search\<close> with the four patterns of the parser: the quoted key, white space, a colon, white
  space and a quoted value. In each pattern no character of a repetition can be the one that follows it, so
  the leftmost match takes every repetition as far as it goes.
\<close>

abbreviation quote :: char where "quote \<equiv> CHR 0x22"

definition is_space :: "char \<Rightarrow> bool" where
  "is_space c \<longleftrightarrow> c \<in> set [CHR '' '', CHR 0x09, CHR 0x0A, CHR 0x0B, CHR 0x0C, CHR 0x0D]"

definition is_hex :: "char \<Rightarrow> bool" where
  "is_hex c \<longleftrightarrow> c \<in> set ''0123456789abcdefABCDEF''"

fun strip_prefix :: "string \<Rightarrow> string \<Rightarrow> string option" where
  "strip_prefix [] s = Some s"
| "strip_prefix (c # p) [] = None"
| "strip_prefix (c # p) (d # s) = (if c = d then strip_prefix p s else None)"

definition any_value :: "string \<Rightarrow> string option" where
  "any_value s =
     (let v = takeWhile (\<lambda>c. c \<noteq> quote) s in if v \<noteq> [] \<and> length v < length s then Some v else None)"

definition hex_value :: "string \<Rightarrow> string option" where
  "hex_value s =
     (let v = takeWhile is_hex s in case strip_prefix [quote] (drop (length v) s) of None \<Rightarrow> None | Some _ \<Rightarrow> Some v)"

definition service_value :: "string \<Rightarrow> string option" where
  "service_value s =
     (case strip_prefix ''0x'' s of
        None \<Rightarrow> None
      | Some t \<Rightarrow> (case hex_value t of None \<Rightarrow> None | Some v \<Rightarrow> if v = [] then None else Some (''0x'' @ v)))"

definition match_field :: "string \<Rightarrow> (string \<Rightarrow> string option) \<Rightarrow> string \<Rightarrow> string option" where
  "match_field key value s =
     Option.bind (strip_prefix ([quote] @ key @ [quote]) s) (\<lambda>s.
     Option.bind (strip_prefix '':'' (dropWhile is_space s)) (\<lambda>s.
     Option.bind (strip_prefix [quote] (dropWhile is_space s)) value))"

fun regex_search :: "(string \<Rightarrow> string option) \<Rightarrow> string \<Rightarrow> string option" where
  "regex_search m [] = m []"
| "regex_search m (c # s) = (case m (c # s) of Some v \<Rightarrow> Some v | None \<Rightarrow> regex_search m s)"

text \<open>\<^verbatim>\<open>std::stoi\<close> in base 16 on hexadecimal digits, after an optional \<^verbatim>\<open>0x\<close>; it throws above \<^verbatim>\<open>INT_MAX\<close>.\<close>

definition hex_digit :: "char \<Rightarrow> nat" where
  "hex_digit c = (let n = of_char c in if n < 0x3A then n - 0x30 else if n < 0x47 then n - 0x37 else n - 0x57)"

definition stoi16 :: "string \<Rightarrow> nat option" where
  "stoi16 s =
     (let digits = (case strip_prefix ''0x'' s of Some t \<Rightarrow> t | None \<Rightarrow> s);
          n = foldl (\<lambda>a c. 16 * a + hex_digit c) 0 digits
      in if n \<le> 0x7FFFFFFF then Some n else None)"

fun hex_bytes :: "string \<Rightarrow> bytes option" where
  "hex_bytes [] = Some []"
| "hex_bytes [a] = map_option (\<lambda>n. [of_nat n]) (stoi16 [a])"
| "hex_bytes (a # b # s) =
     Option.bind (stoi16 [a, b]) (\<lambda>n. map_option (\<lambda>r. of_nat n # r) (hex_bytes s))"

section \<open>State\<close>

record DiagnosticRequest =
  rq_request_id :: string
  rq_ecu_id :: string
  rq_service_id :: u8
  rq_data :: bytes
  rq_timestamp :: int
  rq_timeout_ms :: u32
  rq_retry_count :: u8
  rq_max_retries :: u8

record DiagnosticResponse =
  rs_request_id :: string
  rs_ecu_id :: string
  rs_success :: bool
  rs_response_data :: bytes
  rs_error_message :: string
  rs_duration_ms :: u32

record ECURouting =
  rt_ecu_id :: string
  rt_zonal_gateway_id :: string
  rt_logical_address :: u16
  rt_ip_address :: string
  rt_port :: u16

record RemoteDiagnostics =
  rd_routing :: "string \<rightharpoonup> ECURouting"
  rd_pending :: "(string \<times> DiagnosticRequest) list"
  rd_callback :: bool
  rd_responses :: "DiagnosticResponse list"
  rd_total :: nat
  rd_successful :: nat
  rd_failed :: nat
  rd_timeout :: nat
  rd_retry :: nat

definition remote_diagnostics :: RemoteDiagnostics where
  "remote_diagnostics = \<lparr>rd_routing = Map.empty, rd_pending = [], rd_callback = False, rd_responses = [],
     rd_total = 0, rd_successful = 0, rd_failed = 0, rd_timeout = 0, rd_retry = 0\<rparr>"

text \<open>The ordered map of the pending requests: a list sorted by key.\<close>

fun map_put :: "'k :: linorder \<Rightarrow> 'v \<Rightarrow> ('k \<times> 'v) list \<Rightarrow> ('k \<times> 'v) list" where
  "map_put k v [] = [(k, v)]"
| "map_put k v ((l, w) # m) =
     (if k < l then (k, v) # (l, w) # m else if k = l then (k, v) # m else (l, w) # map_put k v m)"

definition map_erase :: "'k \<Rightarrow> ('k \<times> 'v) list \<Rightarrow> ('k \<times> 'v) list" where
  "map_erase k m = filter (\<lambda>(l, _). l \<noteq> k) m"

section \<open>Operations\<close>

definition register_ecu :: "string \<Rightarrow> string \<Rightarrow> u16 \<Rightarrow> string \<Rightarrow> u16 \<Rightarrow> RemoteDiagnostics \<Rightarrow> RemoteDiagnostics" where
  "register_ecu ecu_id zonal_gateway_id la ip port d =
     d\<lparr>rd_routing := (rd_routing d)(ecu_id \<mapsto> \<lparr>rt_ecu_id = ecu_id, rt_zonal_gateway_id = zonal_gateway_id,
        rt_logical_address = la, rt_ip_address = ip, rt_port = port\<rparr>)\<rparr>"

definition set_response_callback :: "RemoteDiagnostics \<Rightarrow> RemoteDiagnostics" where
  "set_response_callback d = d\<lparr>rd_callback := True\<rparr>"

definition new_request :: "u8 \<Rightarrow> DiagnosticRequest" where
  "new_request service0 = \<lparr>rq_request_id = [], rq_ecu_id = [], rq_service_id = service0, rq_data = [], rq_timestamp = 0,
     rq_timeout_ms = 5000, rq_retry_count = 0, rq_max_retries = 3\<rparr>"

text \<open>\<open>None\<close> when a number is out of range and the exception is caught.\<close>

definition parse_request :: "string \<Rightarrow> DiagnosticRequest \<Rightarrow> DiagnosticRequest option" where
  "parse_request json r =
     (let r = (case regex_search (match_field ''request_id'' any_value) json of Some v \<Rightarrow> r\<lparr>rq_request_id := v\<rparr> | None \<Rightarrow> r);
          r = (case regex_search (match_field ''ecu_id'' any_value) json of Some v \<Rightarrow> r\<lparr>rq_ecu_id := v\<rparr> | None \<Rightarrow> r)
      in Option.bind (case regex_search (match_field ''service_id'' service_value) json of
           Some v \<Rightarrow> map_option (\<lambda>n. r\<lparr>rq_service_id := of_nat n\<rparr>) (stoi16 v)
         | None \<Rightarrow> Some r) (\<lambda>r.
         Option.bind (case regex_search (match_field ''data'' hex_value) json of
           Some v \<Rightarrow> map_option (\<lambda>b. r\<lparr>rq_data := rq_data r @ b\<rparr>) (hex_bytes v)
         | None \<Rightarrow> Some r) (\<lambda>r.
         if rq_request_id r \<noteq> [] \<and> rq_ecu_id r \<noteq> [] then Some r else None)))"

definition find_ecu_routing :: "string \<Rightarrow> RemoteDiagnostics \<Rightarrow> ECURouting option" where
  "find_ecu_routing ecu_id d = rd_routing d ecu_id"

definition build_doip_diagnostic_message :: "u16 \<Rightarrow> u16 \<Rightarrow> bytes \<Rightarrow> bytes" where
  "build_doip_diagnostic_message src tgt uds_data =
     (let payload_len = of_nat (4 + length uds_data) :: u32
      in [0x02, 0xFD] @ [0x80, 0x01]
         @ [ucast (drop_bit 24 payload_len), ucast (drop_bit 16 payload_len), ucast (drop_bit 8 payload_len), ucast payload_len]
         @ [ucast (drop_bit 8 src), ucast src] @ [ucast (drop_bit 8 tgt), ucast tgt] @ uds_data)"

definition parse_doip_diagnostic_response :: "bytes \<Rightarrow> bytes option" where
  "parse_doip_diagnostic_response doip_message =
     (if length doip_message < 12 then None else Some (drop 12 doip_message))"

text \<open>The message is built and dropped: sending it is still to be written in the code.\<close>

definition send_to_ecu :: "DiagnosticRequest \<Rightarrow> RemoteDiagnostics \<Rightarrow> bytes option" where
  "send_to_ecu r d =
     (case find_ecu_routing (rq_ecu_id r) d of
        None \<Rightarrow> None
      | Some routing \<Rightarrow>
          Some (build_doip_diagnostic_message 0x0E00 (rt_logical_address routing) ([rq_service_id r] @ rq_data r)))"

definition send_response :: "DiagnosticResponse \<Rightarrow> RemoteDiagnostics \<Rightarrow> RemoteDiagnostics" where
  "send_response r d =
     (let d = (if rd_callback d then d\<lparr>rd_responses := rd_responses d @ [r]\<rparr> else d)
      in if rs_success r then d\<lparr>rd_successful := rd_successful d + 1\<rparr> else d\<lparr>rd_failed := rd_failed d + 1\<rparr>)"

text \<open>\<open>service0\<close> and \<open>duration0\<close> are the contents of the fields the code leaves uninitialised.\<close>

definition rd_handle_request :: "u8 \<Rightarrow> u32 \<Rightarrow> int \<Rightarrow> string \<Rightarrow> RemoteDiagnostics \<Rightarrow> bool \<times> RemoteDiagnostics" where
  "rd_handle_request service0 duration0 now json d =
     (case parse_request json (new_request service0) of
        None \<Rightarrow> (False, d)
      | Some request \<Rightarrow>
          let d = d\<lparr>rd_total := rd_total d + 1\<rparr>;
              request = request\<lparr>rq_timestamp := now\<rparr>;
              d = d\<lparr>rd_pending := map_put (rq_request_id request) request (rd_pending d)\<rparr>
          in case send_to_ecu request d of
               None \<Rightarrow>
                 let d = send_response \<lparr>rs_request_id = rq_request_id request, rs_ecu_id = rq_ecu_id request, rs_success = False,
                           rs_response_data = [], rs_error_message = ''Failed to route to ECU'', rs_duration_ms = duration0\<rparr> d;
                     d = d\<lparr>rd_pending := map_erase (rq_request_id request) (rd_pending d)\<rparr>
                 in (False, d\<lparr>rd_failed := rd_failed d + 1\<rparr>)
             | Some _ \<Rightarrow> (True, d))"

definition handle_broadcast_request :: "string \<Rightarrow> RemoteDiagnostics \<Rightarrow> bool \<times> RemoteDiagnostics" where
  "handle_broadcast_request json d = (True, d)"

text \<open>The loop over the pending requests: the ids to remove, and the state with the retried entries updated.\<close>

fun pending_loop ::
  "int \<Rightarrow> (string \<times> DiagnosticRequest) list \<Rightarrow> RemoteDiagnostics \<Rightarrow> string list \<times> (string \<times> DiagnosticRequest) list \<times> RemoteDiagnostics" where
  "pending_loop now [] d = ([], [], d)"
| "pending_loop now ((rid, r) # ps) d =
     (let elapsed = (now - rq_timestamp r) div 1000000
      in if elapsed > int (unat (rq_timeout_ms r)) then
           if rq_retry_count r < rq_max_retries r then
             let r = r\<lparr>rq_retry_count := rq_retry_count r + 1, rq_timestamp := now\<rparr>;
                 d = d\<lparr>rd_retry := rd_retry d + 1\<rparr>;
                 (rm, qs, d) = pending_loop now ps d
             in (rm, (rid, r) # qs, d)
           else
             let d = send_response \<lparr>rs_request_id = rid, rs_ecu_id = rq_ecu_id r, rs_success = False, rs_response_data = [],
                       rs_error_message = ''Timeout: ECU did not respond'', rs_duration_ms = of_int elapsed\<rparr> d;
                 d = d\<lparr>rd_timeout := rd_timeout d + 1\<rparr>;
                 (rm, qs, d) = pending_loop now ps d
             in (rid # rm, (rid, r) # qs, d)
         else
           let (rm, qs, d) = pending_loop now ps d in (rm, (rid, r) # qs, d))"

definition process_pending_requests :: "int \<Rightarrow> RemoteDiagnostics \<Rightarrow> RemoteDiagnostics" where
  "process_pending_requests now d =
     (let (rm, qs, d) = pending_loop now (rd_pending d) d
      in d\<lparr>rd_pending := fold map_erase rm qs\<rparr>)"

text \<open>The statistics, in the order of the initialiser.\<close>

definition get_statistics :: "RemoteDiagnostics \<Rightarrow> (string \<times> nat) list" where
  "get_statistics d = [(''total_requests'', rd_total d), (''successful_requests'', rd_successful d),
     (''failed_requests'', rd_failed d), (''timeout_requests'', rd_timeout d), (''retry_requests'', rd_retry d),
     (''pending_requests'', length (rd_pending d))]"

section \<open>The response text\<close>

definition hex_lower :: "nat \<Rightarrow> char" where
  "hex_lower n = ''0123456789abcdef'' ! n"

definition hex2 :: "u8 \<Rightarrow> string" where
  "hex2 b = [hex_lower (unat b div 16), hex_lower (unat b mod 16)]"

fun decimal_of :: "nat \<Rightarrow> string" where
  "decimal_of n = (if n < 10 then [''0123456789'' ! n] else decimal_of (n div 10) @ [''0123456789'' ! (n mod 10)])"

declare decimal_of.simps [simp del]

definition json_string :: "string \<Rightarrow> string" where
  "json_string s = [quote] @ s @ [quote]"

definition build_response_json :: "DiagnosticResponse \<Rightarrow> string" where
  "build_response_json r =
     ''{'' @ [CHR 0x0A] @ ''  '' @ json_string ''request_id'' @ '': '' @ json_string (rs_request_id r) @ '','' @ [CHR 0x0A]
     @ ''  '' @ json_string ''ecu_id'' @ '': '' @ json_string (rs_ecu_id r) @ '','' @ [CHR 0x0A]
     @ ''  '' @ json_string ''success'' @ '': '' @ (if rs_success r then ''true'' else ''false'') @ '','' @ [CHR 0x0A]
     @ (if rs_success r
        then ''  '' @ json_string ''response_data'' @ '': '' @ json_string (concat (map hex2 (rs_response_data r))) @ '','' @ [CHR 0x0A]
        else ''  '' @ json_string ''error'' @ '': '' @ json_string (rs_error_message r) @ '','' @ [CHR 0x0A])
     @ ''  '' @ json_string ''duration_ms'' @ '': '' @ decimal_of (unat (rs_duration_ms r)) @ [CHR 0x0A] @ ''}''"

section \<open>The DoIP messages\<close>

lemma build_doip_diagnostic_frame:
  "build_doip_diagnostic_message src tgt uds = doip_frame DiagnosticMessage (be16 src @ be16 tgt @ uds)"
  by (simp add: build_doip_diagnostic_message_def doip_frame_def be16_def be32_def Let_def)

lemma parse_build_diagnostic: "parse_doip_diagnostic_response (build_doip_diagnostic_message src tgt uds) = Some uds"
  by (simp add: parse_doip_diagnostic_response_def build_doip_diagnostic_frame be16_def)

text \<open>
  The frames of the remote diagnostics are those of the rest of the system: what is built is the ISO
  13400 frame of the two addresses and the UDS data, the gateway's own DoIP parser accepts it as that
  diagnostic message, and the parser for responses gives the UDS data back.
\<close>
theorem rd_messages_are_frames:
  assumes "length uds \<le> 0xFFFFFFF3"
  shows "build_doip_diagnostic_message src tgt uds = doip_frame DiagnosticMessage (be16 src @ be16 tgt @ uds)
    \<and> from_bytes (build_doip_diagnostic_message src tgt uds) (12 + length uds)
        = ok (mk_message DiagnosticMessage (be16 src @ be16 tgt @ uds))
    \<and> parse_doip_diagnostic_response (build_doip_diagnostic_message src tgt uds) = Some uds"
  using from_bytes_frame [where d = "be16 src @ be16 tgt @ uds" and r = "[]" and t = DiagnosticMessage and n = "12 + length uds"] assms
  by (simp add: build_doip_diagnostic_frame [symmetric] parse_build_diagnostic)

theorem rd_messages_are_frames_witness:
  "parse_doip_diagnostic_response (build_doip_diagnostic_message 0x0E00 0x0201 [0x22, 0xF1, 0x90]) = Some [0x22, 0xF1, 0x90]"
  by (rule rd_messages_are_frames [THEN conjunct2, THEN conjunct2]) simp

section \<open>The pending requests\<close>

definition overdue :: "int \<Rightarrow> DiagnosticRequest \<Rightarrow> bool" where
  "overdue now r \<longleftrightarrow> (now - rq_timestamp r) div 1000000 > int (unat (rq_timeout_ms r))"

definition given_up :: "int \<Rightarrow> DiagnosticRequest \<Rightarrow> bool" where
  "given_up now r \<longleftrightarrow> overdue now r \<and> \<not> rq_retry_count r < rq_max_retries r"

definition retried :: "int \<Rightarrow> DiagnosticRequest \<Rightarrow> DiagnosticRequest" where
  "retried now r = (if overdue now r \<and> rq_retry_count r < rq_max_retries r
     then r\<lparr>rq_retry_count := rq_retry_count r + 1, rq_timestamp := now\<rparr> else r)"

lemma send_response_failure:
  "\<not> rs_success r \<Longrightarrow> send_response r d = d\<lparr>rd_responses := rd_responses (send_response r d), rd_failed := rd_failed d + 1\<rparr>"
  by (simp add: send_response_def Let_def)

lemma send_response_simps [simp]:
  "rd_pending (send_response r d) = rd_pending d" "rd_total (send_response r d) = rd_total d"
  "rd_timeout (send_response r d) = rd_timeout d" "rd_routing (send_response r d) = rd_routing d"
  "rd_successful (send_response r d) = (if rs_success r then rd_successful d + 1 else rd_successful d)"
  "rd_failed (send_response r d) = (if rs_success r then rd_failed d else rd_failed d + 1)"
  by (simp_all add: send_response_def Let_def)

lemma pending_loop_lists:
  "fst (pending_loop now ps d) = map fst (filter (\<lambda>(k, r). given_up now r) ps)"
  "fst (snd (pending_loop now ps d)) = map (\<lambda>(k, r). (k, retried now r)) ps"
  by (induction now ps d rule: pending_loop.induct)
    (auto simp: Let_def split_def given_up_def retried_def overdue_def)

lemma pending_loop_counters:
  fixes now ps d
  defines "d' \<equiv> snd (snd (pending_loop now ps d))" and "n \<equiv> length (filter (\<lambda>(k, r). given_up now r) ps)"
  shows "rd_total d' = rd_total d" "rd_successful d' = rd_successful d" "rd_timeout d' = rd_timeout d + n"
    "rd_failed d' = rd_failed d + n" "rd_routing d' = rd_routing d"
  unfolding d'_def n_def
  by (induction now ps d rule: pending_loop.induct)
    (auto simp: Let_def split_def given_up_def overdue_def)

lemma fold_map_erase: "fold map_erase rm m = filter (\<lambda>(k, _). k \<notin> set rm) m"
  by (induction rm arbitrary: m) (auto simp: map_erase_def intro!: filter_cong)

lemma process_pending:
  assumes "distinct (map fst (rd_pending d))"
  shows "rd_pending (process_pending_requests now d)
      = map (\<lambda>(k, r). (k, retried now r)) (filter (\<lambda>(k, r). \<not> given_up now r) (rd_pending d))"
proof -
  let ?ps = "rd_pending d"
  show ?thesis
    by (auto simp: process_pending_requests_def split_def pending_loop_lists fold_map_erase filter_map comp_def
        intro!: arg_cong [of _ _ "map _"] filter_cong dest: eq_key_imp_eq_value [OF assms])
qed


text \<open>The calls of the handler's owner.\<close>

datatype rd_call = HandleRequest u8 u32 int string | ProcessPending int | RegisterECU string string u16 string u16
  | SetResponseCallback | HandleBroadcast string

fun rd_step :: "rd_call \<Rightarrow> RemoteDiagnostics \<Rightarrow> RemoteDiagnostics" where
  "rd_step (HandleRequest s0 d0 now json) d = snd (rd_handle_request s0 d0 now json d)"
| "rd_step (ProcessPending now) d = process_pending_requests now d"
| "rd_step (RegisterECU e z la ip port) d = register_ecu e z la ip port d"
| "rd_step SetResponseCallback d = set_response_callback d"
| "rd_step (HandleBroadcast json) d = snd (handle_broadcast_request json d)"

definition rd_inv :: "RemoteDiagnostics \<Rightarrow> bool" where
  "rd_inv d \<longleftrightarrow> sorted_wrt (<) (map fst (rd_pending d))
     \<and> (\<forall>(k, r) \<in> set (rd_pending d). rq_request_id r = k \<and> rq_timeout_ms r = 5000 \<and> rq_max_retries r = 3 \<and> rq_retry_count r \<le> 3)
     \<and> rd_successful d = 0
     \<and> (\<exists>u. rd_failed d = rd_timeout d + 2 * u \<and> length (rd_pending d) + rd_timeout d + u \<le> rd_total d)"

lemma sorted_distinct: "sorted_wrt (<) (xs :: 'k :: linorder list) \<Longrightarrow> distinct xs"
  by (simp add: strict_sorted_iff)

lemma set_map_put: "set (map_put k v m) \<subseteq> insert (k, v) (set m)"
  by (induction m rule: map_put.induct) auto

lemma sorted_map_put: "sorted_wrt (<) (map fst m) \<Longrightarrow> sorted_wrt (<) (map fst (map_put k v m))"
proof (induction k v m rule: map_put.induct)
  case (2 k v l w m)
  have "fst ` set (map_put k v m) \<subseteq> insert k (fst ` set m)"
    using set_map_put [of k v m] by force
  with 2 show ?case by (auto 0 3)
qed simp

lemma length_map_put: "length (map_put k v m) \<le> Suc (length m)"
  by (induction k v m rule: map_put.induct) auto

lemma map_put_in: "(k, v) \<in> set (map_put k v m)"
  by (induction k v m rule: map_put.induct) auto

lemma sorted_map_erase: "sorted_wrt (<) (map fst m) \<Longrightarrow> sorted_wrt (<) (map fst (map_erase k m))"
  by (induction m) (auto simp: map_erase_def)

lemma length_map_erase_put: "length (map_erase k (map_put k v m)) < length (map_put k v m)"
  unfolding map_erase_def using map_put_in [of k v m] by (intro length_filter_less) auto

lemma parse_request_fields:
  "parse_request json r = Some q \<Longrightarrow> rq_timeout_ms q = rq_timeout_ms r \<and> rq_max_retries q = rq_max_retries r
     \<and> rq_retry_count q = rq_retry_count r \<and> rq_request_id q \<noteq> [] \<and> rq_ecu_id q \<noteq> []"
  by (auto simp: parse_request_def Let_def split: option.splits if_splits Option.bind_splits)

lemma inc_retry: "c < 3 \<Longrightarrow> c + 1 \<le> (3 :: u8)"
  by (metis add.commute inc_le)

lemma retried_fields [simp]: "rq_request_id (retried now r) = rq_request_id r" "rq_timeout_ms (retried now r) = rq_timeout_ms r"
  "rq_max_retries (retried now r) = rq_max_retries r" "rq_ecu_id (retried now r) = rq_ecu_id r"
  by (simp_all add: retried_def)

lemma process_pending_inv:
  assumes "rd_inv d"
  shows "rd_inv (process_pending_requests now d)"
proof -
  let ?ps = "rd_pending d" and ?d = "process_pending_requests now d"
  let ?live = "filter (\<lambda>(k, r). \<not> given_up now r) ?ps" and ?n = "length (filter (\<lambda>(k, r). given_up now r) ?ps)"
  have pend: "rd_pending ?d = map (\<lambda>(k, r). (k, retried now r)) ?live"
    using assms by (intro process_pending sorted_distinct) (simp add: rd_inv_def)
  have cnt: "rd_total ?d = rd_total d" "rd_successful ?d = rd_successful d" "rd_timeout ?d = rd_timeout d + ?n"
      "rd_failed ?d = rd_failed d + ?n"
    using pending_loop_counters [of now ?ps d] by (simp_all add: process_pending_requests_def split_def Let_def)
  have len: "length (rd_pending ?d) + ?n = length ?ps"
    using sum_length_filter_compl [of "\<lambda>(k, r). given_up now r" ?ps] by (simp add: pend split_def)
  have "sorted_wrt (<) (map fst (rd_pending ?d))"
  proof -
    have "map fst (rd_pending ?d) = map fst ?live"
      by (simp add: pend)
    moreover have "sorted_wrt (<) (map fst ?live)"
      using assms by (auto simp: rd_inv_def sorted_wrt_map intro: sorted_wrt_filter)
    ultimately show ?thesis by simp
  qed
  moreover have "\<forall>(k, r) \<in> set (rd_pending ?d). rq_request_id r = k \<and> rq_timeout_ms r = 5000 \<and> rq_max_retries r = 3 \<and> rq_retry_count r \<le> 3"
    using assms by (auto simp: pend rd_inv_def retried_def intro!: inc_retry)
  moreover obtain u where "rd_failed d = rd_timeout d + 2 * u" "length ?ps + rd_timeout d + u \<le> rd_total d"
    using assms by (auto simp: rd_inv_def)
  ultimately show ?thesis
    using assms cnt len by (auto simp: rd_inv_def intro!: exI [of _ u])
qed

lemma handle_request_inv:
  assumes "rd_inv d"
  shows "rd_inv (snd (rd_handle_request s0 d0 now json d))"
proof (cases "parse_request json (new_request s0)")
  case None
  then show ?thesis
    using assms by (simp add: rd_handle_request_def)
next
  case (Some q)
  let ?q = "q\<lparr>rq_timestamp := now\<rparr>" and ?k = "rq_request_id q"
  let ?m = "map_put ?k ?q (rd_pending d)"
  note f = parse_request_fields [OF Some]
  have ok: "sorted_wrt (<) (map fst ?m)" 
    "\<forall>(k, r) \<in> set ?m. rq_request_id r = k \<and> rq_timeout_ms r = 5000 \<and> rq_max_retries r = 3 \<and> rq_retry_count r \<le> 3"
    using assms f set_map_put [of ?k ?q "rd_pending d"] by (auto simp: rd_inv_def new_request_def intro!: sorted_map_put)
  obtain u where u: "rd_failed d = rd_timeout d + 2 * u" "length (rd_pending d) + rd_timeout d + u \<le> rd_total d"
    using assms by (auto simp: rd_inv_def)
  show ?thesis
  proof (cases "send_to_ecu ?q (d\<lparr>rd_total := rd_total d + 1, rd_pending := ?m\<rparr>)")
    case None
    have "length (map_erase ?k ?m) \<le> length (rd_pending d)"
      using length_map_erase_put [of ?k ?q "rd_pending d"] length_map_put [of ?k ?q "rd_pending d"] by linarith
    with u have n: "rd_failed d + 2 = rd_timeout d + 2 * Suc u" "length (map_erase ?k ?m) + rd_timeout d + Suc u \<le> rd_total d + 1"
      by simp_all
    let ?res = "snd (rd_handle_request s0 d0 now json d)"
    have p: "rd_pending ?res = map_erase ?k ?m" "rd_failed ?res = rd_failed d + 2" "rd_timeout ?res = rd_timeout d"
        "rd_total ?res = rd_total d + 1" "rd_successful ?res = rd_successful d"
      using None Some by (simp_all add: rd_handle_request_def Let_def)
    have q: "set (map_erase ?k ?m) \<subseteq> set ?m"
      by (auto simp: map_erase_def)
    show ?thesis
      unfolding rd_inv_def p
    proof (intro conjI)
      show "sorted_wrt (<) (map fst (map_erase ?k ?m))"
        by (rule sorted_map_erase [OF ok(1)])
      show "\<forall>(k, r) \<in> set (map_erase ?k ?m). rq_request_id r = k \<and> rq_timeout_ms r = 5000 \<and> rq_max_retries r = 3 \<and> rq_retry_count r \<le> 3"
        using ok(2) q by blast
      show "rd_successful d = 0"
        using assms by (simp add: rd_inv_def)
      show "\<exists>u. rd_failed d + 2 = rd_timeout d + 2 * u \<and> length (map_erase ?k ?m) + rd_timeout d + u \<le> rd_total d + 1"
        using n by blast
    qed
  next
    case (Some b)
    have "length ?m + rd_timeout d + u \<le> rd_total d + 1"
      using u length_map_put [of ?k ?q "rd_pending d"] by linarith
    then show ?thesis
      using Some \<open>parse_request json (new_request s0) = Some q\<close> assms ok u
      by (auto simp: rd_handle_request_def rd_inv_def Let_def intro!: exI [of _ u])
  qed
qed

lemma rd_step_inv: "rd_inv x \<Longrightarrow> rd_inv (rd_step c x)"
proof (cases c)
  case (HandleRequest s0 d0 now json)
  then show "rd_inv x \<Longrightarrow> ?thesis" by (simp add: handle_request_inv)
next
  case (ProcessPending now)
  then show "rd_inv x \<Longrightarrow> ?thesis" by (simp add: process_pending_inv)
qed (simp_all add: rd_inv_def register_ecu_def set_response_callback_def handle_broadcast_request_def)

lemma reachable_inv: "rd_inv (fold rd_step cs remote_diagnostics)"
proof -
  have "rd_inv x \<Longrightarrow> rd_inv (fold rd_step cs x)" for x
    by (induction cs arbitrary: x) (simp_all add: rd_step_inv)
  moreover have "rd_inv remote_diagnostics"
    by (simp add: rd_inv_def remote_diagnostics_def)
  ultimately show ?thesis .
qed

text \<open>
  The bookkeeping of the remote diagnostics. After any calls the pending requests are sorted by id without
  duplicates, each filed under its own id with at most three retries; no request is ever
  counted as successful; every timeout is one failure and every request without a route two, and the
  requests pending, timed out and without a route are never more than those received.
\<close>
theorem rd_reachable_invariant:
  fixes cs :: "rd_call list"
  defines "d \<equiv> fold rd_step cs remote_diagnostics"
  shows "sorted_wrt (<) (map fst (rd_pending d))
     \<and> (\<forall>(k, r) \<in> set (rd_pending d). rq_request_id r = k \<and> rq_timeout_ms r = 5000 \<and> rq_max_retries r = 3 \<and> rq_retry_count r \<le> 3)
     \<and> rd_successful d = 0
     \<and> (\<exists>u. rd_failed d = rd_timeout d + 2 * u \<and> length (rd_pending d) + rd_timeout d + u \<le> rd_total d)"
  using reachable_inv [of cs] unfolding d_def rd_inv_def .

text \<open>One round after more than the time-out: every entry is retried or given up.\<close>

lemma round_after_timeout:
  assumes "rd_inv d" "\<forall>(k, r) \<in> set (rd_pending d). rq_timestamp r \<le> t \<and> j \<le> unat (rq_retry_count r)" "t + 5001000000 \<le> now"
  defines "d' \<equiv> process_pending_requests now d"
  shows "\<forall>(k, r) \<in> set (rd_pending d'). rq_timestamp r \<le> now \<and> Suc j \<le> unat (rq_retry_count r)"
    and "3 \<le> j \<Longrightarrow> rd_pending d' = []"
proof -
  have pend: "rd_pending d' = map (\<lambda>(k, r). (k, retried now r)) (filter (\<lambda>(k, r). \<not> given_up now r) (rd_pending d))"
    unfolding d'_def using assms(1) by (intro process_pending sorted_distinct) (simp add: rd_inv_def)
  have late: "overdue now r" "rq_max_retries r = 3" if "(k, r) \<in> set (rd_pending d)" for k r
  proof -
    have "rq_timeout_ms r = 5000" "rq_timestamp r \<le> t" and m: "rq_max_retries r = 3"
      using assms(1,2) that by (auto simp: rd_inv_def)
    moreover have "5001 \<le> (now - rq_timestamp r) div 1000000"
      using calculation(2) assms(3) by linarith
    ultimately show "overdue now r" "rq_max_retries r = 3"
      by (simp_all add: overdue_def)
  qed
  show "\<forall>(k, r) \<in> set (rd_pending d'). rq_timestamp r \<le> now \<and> Suc j \<le> unat (rq_retry_count r)"
  proof safe
    fix k r'
    assume "(k, r') \<in> set (rd_pending d')"
    then obtain r where r: "(k, r) \<in> set (rd_pending d)" "\<not> given_up now r" "r' = retried now r"
      by (auto simp: pend)
    then have lt: "rq_retry_count r < 3"
      using late by (auto simp: given_up_def)
    then have "r' = r\<lparr>rq_retry_count := rq_retry_count r + 1, rq_timestamp := now\<rparr>"
      using r late by (auto simp: retried_def)
    moreover have "unat (rq_retry_count r + 1) = unat (rq_retry_count r) + 1"
      using lt by (subst unat_add_no_wrap) (auto simp: word_less_nat_alt)
    ultimately show "rq_timestamp r' \<le> now" "Suc j \<le> unat (rq_retry_count r')"
      using assms(2) r(1) by auto
  qed
  assume "3 \<le> j"
  then have "given_up now r" if "(k, r) \<in> set (rd_pending d)" for k r
    using assms(2) that late [OF that] by (auto simp: given_up_def word_less_nat_alt)
  then show "rd_pending d' = []"
    by (auto simp: pend filter_empty_conv)
qed

lemma timeouts_grow: "rd_inv d \<Longrightarrow> rd_timeout (process_pending_requests now d) + length (rd_pending (process_pending_requests now d))
    = rd_timeout d + length (rd_pending d)"
proof -
  assume "rd_inv d"
  then have "rd_pending (process_pending_requests now d)
      = map (\<lambda>(k, r). (k, retried now r)) (filter (\<lambda>(k, r). \<not> given_up now r) (rd_pending d))"
    by (intro process_pending sorted_distinct) (simp add: rd_inv_def)
  moreover have "rd_timeout (process_pending_requests now d) = rd_timeout d + length (filter (\<lambda>(k, r). given_up now r) (rd_pending d))"
    using pending_loop_counters(3) [of now "rd_pending d" d] by (simp add: process_pending_requests_def split_def Let_def)
  ultimately show ?thesis
    using sum_length_filter_compl [of "\<lambda>(k, r). given_up now r" "rd_pending d"] by (simp add: split_def)
qed



theorem rd_reachable_invariant_witness:
  "rd_successful (fold rd_step [HandleRequest 0 0 0 [], ProcessPending 9] remote_diagnostics) = 0"
  using rd_reachable_invariant [of "[HandleRequest 0 0 0 [], ProcessPending 9]"] by simp

definition sample_json :: string where
  "sample_json = ''{'' @ json_string ''request_id'' @ '': '' @ json_string ''d-1'' @ '', '' @ json_string ''ecu_id'' @ '':''
     @ json_string ''E1'' @ '','' @ json_string ''service_id'' @ '':'' @ json_string ''0x22'' @ '','' @ json_string ''data'' @ '':''
     @ json_string ''F190'' @ ''}''"

definition sample_diagnostics :: RemoteDiagnostics where
  "sample_diagnostics = fold rd_step [RegisterECU ''E1'' ''ZG-001'' 0x0201 ''10.0.0.2'' 13400, HandleRequest 0 0 7 sample_json]
     remote_diagnostics"

lemma sample_parsed: "parse_request sample_json (new_request 0) = Some \<lparr>rq_request_id = ''d-1'', rq_ecu_id = ''E1'',
    rq_service_id = 0x22, rq_data = [0xF1, 0x90], rq_timestamp = 0, rq_timeout_ms = 5000, rq_retry_count = 0, rq_max_retries = 3\<rparr>"
  by (simp add: parse_request_def sample_json_def json_string_def new_request_def match_field_def any_value_def hex_value_def
      service_value_def is_space_def is_hex_def stoi16_def hex_digit_def Let_def)

lemma sample_pending: "rd_timeout sample_diagnostics = 0" "map fst (rd_pending sample_diagnostics) = [''d-1'']"
    "\<forall>(k, r) \<in> set (rd_pending sample_diagnostics). rq_timestamp r \<le> 7"
  by (simp_all add: sample_diagnostics_def remote_diagnostics_def register_ecu_def rd_handle_request_def sample_parsed
      send_to_ecu_def find_ecu_routing_def Let_def)


section \<open>Reading a response\<close>

text \<open>The value of a key that a text starts with, and a search past text in which it does not start.\<close>

lemma strip_prefix_append [simp]: "strip_prefix p (p @ s) = Some s"
  by (induction p) auto

lemma any_value_quoted: "v \<noteq> [] \<Longrightarrow> quote \<notin> set v \<Longrightarrow> any_value (v @ quote # s) = Some v"
proof -
  assume a: "v \<noteq> []" "quote \<notin> set v"
  then have "takeWhile (\<lambda>c. c \<noteq> quote) (v @ quote # s) = v"
    by (subst takeWhile_append2) auto
  with a show ?thesis
    by (simp add: any_value_def)
qed

lemma regex_search_step: "m (c # s) = None \<Longrightarrow> regex_search m (c # s) = regex_search m s"
  by simp

lemma regex_search_here: "m s = Some v \<Longrightarrow> regex_search m s = Some v"
  by (cases s) auto

text \<open>
  The gateway's own parser finds the request id in the text of a response, whatever else the response
  holds, as long as the id is not empty and contains no quotation mark.
\<close>
lemma rd_response_text_roundtrip:
  assumes "rs_request_id r \<noteq> []" "quote \<notin> set (rs_request_id r)" 
  shows "regex_search (match_field ''request_id'' any_value) (build_response_json r) = Some (rs_request_id r)"
proof -
  let ?m = "match_field ''request_id'' any_value"
  obtain rest where b: "build_response_json r = ''{'' @ [CHR 0x0A] @ ''  '' @ json_string ''request_id'' @ '': '' @ [quote] @ rs_request_id r @ quote # rest"
    by (simp add: build_response_json_def json_string_def)
  have m: "?m (json_string ''request_id'' @ '': '' @ [quote] @ rs_request_id r @ quote # rest) = Some (rs_request_id r)"
    using any_value_quoted [OF assms, of rest] by (simp add: match_field_def json_string_def is_space_def)
  have skip: "?m (c # s) = None" if "c \<noteq> quote" for c s
    using that by (simp add: match_field_def)
  show ?thesis
    unfolding b by (simp add: skip del: regex_search.simps add: regex_search_step) (rule regex_search_here, use m in simp)
qed

end
