(* ===== verification/Linux_Gateway.thy ===== *)
theory Linux_Gateway
  imports Zonal_Gateway "HOL-Library.Char_ord"
begin

text \<open>
  The zonal gateway for Linux, a C++ class: \<^verbatim>\<open>zonal_gateway/linux/include/zonal_gateway_linux.hpp\<close>,
  \<^verbatim>\<open>src/zonal_gateway_linux.cpp\<close> and \<^verbatim>\<open>src/main.cpp\<close>. The socket calls are a record over a world
  \<open>'w\<close>. Of the three threads only the client's has a body that does anything; it is a program counter
  in the state, and a call that joins the threads runs it to its end. Members without an
  initialiser are arguments of the constructor; log output is left out.
\<close>

section \<open>State\<close>

record LinuxECUInfo =
  le_ecu_id :: string
  le_logical_address :: u16
  le_firmware_version :: string
  le_hardware_version :: string
  le_is_online :: bool
  le_last_heartbeat_time :: "64 word"
  le_ota_capable :: bool
  le_delta_update_supported :: bool
  le_max_package_size :: u32

record LinuxVCIData =
  lv_zone_id :: u8
  lv_ecus :: "LinuxECUInfo list"
  lv_total_storage_mb :: u32
  lv_available_storage_mb :: u32
  lv_average_battery_level :: u8

datatype LinuxZGState = LZ_INIT | LZ_DISCOVERING | LZ_CONNECTING_VMG | LZ_READY | LZ_OTA_IN_PROGRESS | LZ_ERROR

datatype client_pc = NO_THREAD | CLIENT_START | CLIENT_LOOP | CLIENT_DONE

record 'w linux_net =
  l_socket :: "bool \<Rightarrow> 'w \<Rightarrow> int \<times> 'w"
  l_setsockopt :: "int \<Rightarrow> 'w \<Rightarrow> 'w"
  l_bind :: "int \<Rightarrow> u16 \<Rightarrow> 'w \<Rightarrow> int \<times> 'w"
  l_listen :: "int \<Rightarrow> nat \<Rightarrow> 'w \<Rightarrow> int \<times> 'w"
  l_inet_pton :: "string \<Rightarrow> int"
  l_connect :: "int \<Rightarrow> string \<Rightarrow> u16 \<Rightarrow> 'w \<Rightarrow> int \<times> 'w"
  l_close :: "int \<Rightarrow> 'w \<Rightarrow> 'w"

record 'w LinuxGateway =
  lz_zone_id :: u8
  lz_zg_id :: string
  lz_logical_address :: u16
  lz_vmg_ip :: string
  lz_vmg_port :: u16
  lz_state :: LinuxZGState
  lz_running :: bool
  lz_vmg_connected :: bool
  lz_zone_vci :: LinuxVCIData
  lz_tcp_socket :: int
  lz_udp_socket :: int
  lz_json_socket :: int
  lz_vmg_socket :: int
  lz_client :: client_pc
  lz_world :: 'w

abbreviation ZG_DOIP_SERVER_PORT :: u16 where "ZG_DOIP_SERVER_PORT \<equiv> 13400"

definition byte_text :: "bytes \<Rightarrow> string" where
  "byte_text = map (\<lambda>b. char_of (unat b))"

text \<open>\<open>stats0\<close> holds the three statistics of the zone, which have no initialiser.\<close>

definition linux_gateway :: "u32 \<times> u32 \<times> u8 \<Rightarrow> u8 \<Rightarrow> string \<Rightarrow> u16 \<Rightarrow> 'w \<Rightarrow> 'w LinuxGateway" where
  "linux_gateway stats0 zid vmg_ip vmg_port w =
     \<lparr>lz_zone_id = zid, lz_zg_id = ''ZG-'' @ byte_text (decimal3 (unat zid)), lz_logical_address = 0x0200 + ucast zid,
      lz_vmg_ip = vmg_ip, lz_vmg_port = vmg_port, lz_state = LZ_INIT, lz_running = False, lz_vmg_connected = False,
      lz_zone_vci = \<lparr>lv_zone_id = zid, lv_ecus = [], lv_total_storage_mb = fst stats0,
        lv_available_storage_mb = fst (snd stats0), lv_average_battery_level = snd (snd stats0)\<rparr>,
      lz_tcp_socket = -1, lz_udp_socket = -1, lz_json_socket = -1, lz_vmg_socket = -1,
      lz_client = NO_THREAD, lz_world = w\<rparr>"

section \<open>Sockets\<close>

definition create_server_sockets :: "'w linux_net \<Rightarrow> 'w LinuxGateway \<Rightarrow> bool \<times> 'w LinuxGateway" where
  "create_server_sockets N s =
     (let (t, w) = l_socket N True (lz_world s); s = s\<lparr>lz_tcp_socket := t, lz_world := w\<rparr>
      in if t < 0 then (False, s)
      else let w = l_setsockopt N t w; (r, w) = l_bind N t ZG_DOIP_SERVER_PORT w
      in if r < 0 then (False, s\<lparr>lz_world := l_close N t w\<rparr>)
      else let (r, w) = l_listen N t 5 w
      in if r < 0 then (False, s\<lparr>lz_world := l_close N t w\<rparr>)
      else let (u, w) = l_socket N False w; s = s\<lparr>lz_udp_socket := u\<rparr>
      in if u < 0 then (False, s\<lparr>lz_world := l_close N t w\<rparr>)
      else let w = l_setsockopt N u w; (r, w) = l_bind N u ZG_DOIP_SERVER_PORT w
      in if r < 0 then (False, s\<lparr>lz_world := l_close N u (l_close N t w)\<rparr>)
      else (True, s\<lparr>lz_world := w\<rparr>))"

definition close_server_sockets :: "'w linux_net \<Rightarrow> 'w LinuxGateway \<Rightarrow> 'w LinuxGateway" where
  "close_server_sockets N s =
     (let s = (if lz_tcp_socket s \<ge> 0 then s\<lparr>lz_world := l_close N (lz_tcp_socket s) (lz_world s), lz_tcp_socket := -1\<rparr> else s);
          s = (if lz_udp_socket s \<ge> 0 then s\<lparr>lz_world := l_close N (lz_udp_socket s) (lz_world s), lz_udp_socket := -1\<rparr> else s)
      in if lz_json_socket s \<ge> 0 then s\<lparr>lz_world := l_close N (lz_json_socket s) (lz_world s), lz_json_socket := -1\<rparr> else s)"

definition connect_to_vmg :: "'w linux_net \<Rightarrow> 'w LinuxGateway \<Rightarrow> bool \<times> 'w LinuxGateway" where
  "connect_to_vmg N s =
     (let (c, w) = l_socket N True (lz_world s); s = s\<lparr>lz_vmg_socket := c, lz_world := w\<rparr>
      in if c < 0 then (False, s)
         else if l_inet_pton N (lz_vmg_ip s) \<le> 0 then (False, s\<lparr>lz_world := l_close N c w\<rparr>)
         else let (r, w) = l_connect N c (lz_vmg_ip s) (lz_vmg_port s) w
              in if r < 0 then (False, s\<lparr>lz_world := l_close N c w\<rparr>)
                 else (True, s\<lparr>lz_world := w, lz_vmg_connected := True\<rparr>))"

section \<open>Messages to the VMG\<close>

text \<open>The bytes are prepared and never sent.\<close>

definition send_heartbeat_to_vmg :: "'w LinuxGateway \<Rightarrow> bool" where
  "send_heartbeat_to_vmg s = lz_vmg_connected s"

definition send_zone_vci_to_vmg :: "'w LinuxGateway \<Rightarrow> bool" where
  "send_zone_vci_to_vmg s = lz_vmg_connected s"

definition report_ota_progress :: "u8 \<Rightarrow> 'w LinuxGateway \<Rightarrow> bool" where
  "report_ota_progress percentage s = lz_vmg_connected s"

section \<open>Threads and life cycle\<close>

text \<open>One round of the client thread; the server and the discovery thread call functions without a body.\<close>

definition client_thread_round :: "'w linux_net \<Rightarrow> 'w LinuxGateway \<Rightarrow> 'w LinuxGateway" where
  "client_thread_round N s =
     (case lz_client s of
        CLIENT_START \<Rightarrow> let (r, s) = connect_to_vmg N s in s\<lparr>lz_client := (if r then CLIENT_LOOP else CLIENT_DONE)\<rparr>
      | CLIENT_LOOP \<Rightarrow> if lz_running s then s else s\<lparr>lz_client := CLIENT_DONE\<rparr>
      | _ \<Rightarrow> s)"

text \<open>Joining waits until the thread has made its attempt to connect and has left its loop.\<close>

definition join_client_thread :: "'w linux_net \<Rightarrow> 'w LinuxGateway \<Rightarrow> 'w LinuxGateway" where
  "join_client_thread N s = (client_thread_round N (client_thread_round N s))\<lparr>lz_client := NO_THREAD\<rparr>"

definition lz_start :: "'w linux_net \<Rightarrow> 'w LinuxGateway \<Rightarrow> bool \<times> 'w LinuxGateway" where
  "lz_start N s =
     (if lz_running s then (True, s)
      else let (r, s) = create_server_sockets N s
           in if \<not> r then (False, s)
              else (True, s\<lparr>lz_running := True, lz_state := LZ_READY, lz_client := CLIENT_START\<rparr>))"

definition lz_stop :: "'w linux_net \<Rightarrow> 'w LinuxGateway \<Rightarrow> 'w LinuxGateway" where
  "lz_stop N s =
     (if \<not> lz_running s then s
      else let s = s\<lparr>lz_running := False\<rparr>;
               s = join_client_thread N s;
               s = close_server_sockets N s
           in s\<lparr>lz_state := LZ_INIT\<rparr>)"

text \<open>\<open>True\<close> when the loop of \<^verbatim>\<open>run\<close> has ended within \<open>n\<close> rounds.\<close>

fun lz_run :: "nat \<Rightarrow> 'w LinuxGateway \<Rightarrow> bool" where
  "lz_run 0 s = False"
| "lz_run (Suc n) s = (if lz_running s then lz_run n s else True)"

text \<open>The arguments are the numbers \<^verbatim>\<open>stoi\<close> gives; the signal arrives after \<open>n\<close> rounds of the client thread.\<close>

definition lz_main ::
  "'w linux_net \<Rightarrow> u32 \<times> u32 \<times> u8 \<Rightarrow> int option \<Rightarrow> string option \<Rightarrow> int option \<Rightarrow> nat \<Rightarrow> 'w \<Rightarrow> int \<times> 'w LinuxGateway" where
  "lz_main N stats0 arg1 arg2 arg3 n w =
     (let zid = (case arg1 of None \<Rightarrow> 1 | Some x \<Rightarrow> of_int x);
          vmg_ip = (case arg2 of None \<Rightarrow> ''192.168.1.1'' | Some x \<Rightarrow> x);
          vmg_port = (case arg3 of None \<Rightarrow> 13400 | Some x \<Rightarrow> of_int x);
          (r, s) = lz_start N (linux_gateway stats0 zid vmg_ip vmg_port w)
      in if \<not> r then (-1, lz_stop N s)
         else (0, lz_stop N ((client_thread_round N ^^ n) s)))"

section \<open>ECUs of the zone\<close>

fun replace_ecu :: "string \<Rightarrow> LinuxECUInfo \<Rightarrow> LinuxECUInfo list \<Rightarrow> LinuxECUInfo list option" where
  "replace_ecu ecu_id info [] = None"
| "replace_ecu ecu_id info (e # es) =
     (if le_ecu_id e = ecu_id then Some (info # es) else map_option ((#) e) (replace_ecu ecu_id info es))"

definition update_linux_ecu :: "string \<Rightarrow> LinuxECUInfo \<Rightarrow> 'w LinuxGateway \<Rightarrow> bool \<times> 'w LinuxGateway" where
  "update_linux_ecu ecu_id info s =
     (let v = lz_zone_vci s
      in case replace_ecu ecu_id info (lv_ecus v) of
           Some es \<Rightarrow> (True, s\<lparr>lz_zone_vci := v\<lparr>lv_ecus := es\<rparr>\<rparr>)
         | None \<Rightarrow>
             if length (lv_ecus v) < ZG_MAX_ECUS
             then (True, s\<lparr>lz_zone_vci := v\<lparr>lv_ecus := lv_ecus v @ [info]\<rparr>\<rparr>) else (False, s))"

definition linux_ota_ready :: "string \<Rightarrow> 'w LinuxGateway \<Rightarrow> bool" where
  "linux_ota_ready campaign_id s =
     (let v = lz_zone_vci s
      in if lv_average_battery_level v < 50 then False
         else if lv_available_storage_mb v < 100 then False
         else list_all le_is_online (lv_ecus v))"

definition linux_zone_name :: "'w LinuxGateway \<Rightarrow> string" where
  "linux_zone_name s = ''Zone_'' @ byte_text (decimal (unat (lz_zone_id s)))"

section \<open>The registry is that of the TC375 gateway\<close>

lemma inj_byte_text: "byte_text a = byte_text b \<longleftrightarrow> a = b"
proof -
  have "inj (\<lambda>b :: u8. char_of (unat b))"
  proof (rule injI)
    fix a b :: u8
    assume "char_of (unat a) = char_of (unat b)"
    then have "of_char (char_of (unat a)) = (of_char (char_of (unat b)) :: nat)"
      by simp
    then have "unat a mod 256 = unat b mod 256"
      by (simp only: of_char_mod_256 of_char_of)
    moreover have "unat a < 256" "unat b < 256"
      using unsigned_less [of a, where 'a = nat] unsigned_less [of b, where 'a = nat] by simp_all
    ultimately show "a = b"
      by (simp add: word_unat_eq_iff)
  qed
  then show ?thesis
    unfolding byte_text_def by (rule inj_map_eq_map)
qed

definition linux_info :: "ZoneECUInfo \<Rightarrow> LinuxECUInfo" where
  "linux_info e = \<lparr>le_ecu_id = byte_text (ecu_key e), le_logical_address = zecu_address e,
     le_firmware_version = byte_text (c_str (firmware_version e)), le_hardware_version = byte_text (c_str (hardware_version e)),
     le_is_online = is_online e, le_last_heartbeat_time = ucast (last_heartbeat_time e), le_ota_capable = ota_capable e,
     le_delta_update_supported = delta_update_supported e, le_max_package_size = max_package_size e\<rparr>"

lemma linux_info_id: "le_ecu_id (linux_info e) = byte_text (ecu_key e)"
  by (simp add: linux_info_def)

lemma replace_first_at:
  "replace_ecu k info xs = map_option (\<lambda>j. xs[j - i := info]) (first_at (\<lambda>x. le_ecu_id x = k) i xs)"
proof (induction xs arbitrary: i)
  case (Cons x xs)
  show ?case
  proof (cases "le_ecu_id x = k")
    case False
    have "Suc i \<le> j" if "first_at (\<lambda>x. le_ecu_id x = k) (Suc i) xs = Some j" for j
      using first_at_Some [OF that] by simp
    then show ?thesis
      using False Cons.IH [of "Suc i"]
      by (cases "first_at (\<lambda>x. le_ecu_id x = k) (Suc i) xs") (auto simp: Suc_le_eq Suc_diff_Suc [symmetric])
  qed simp
qed simp

lemma first_at_map: "first_at P i (map f xs) = first_at (\<lambda>x. P (f x)) i xs"
  by (induction xs arbitrary: i) auto

text \<open>One report to each of the two.\<close>

lemma same_report:
  assumes "wf_registry g" "valid_report e" "map linux_info (zone_table g) = lv_ecus (lz_zone_vci s)"
  defines "r \<equiv> update_linux_ecu (byte_text (ecu_key e)) (linux_info e) s"
  shows "zone_report g e = None \<Longrightarrow> r = (False, s)"
    and "zone_report g e = Some g' \<Longrightarrow> fst r \<and> map linux_info (zone_table g') = lv_ecus (lz_zone_vci (snd r))"
proof -
  let ?f = "first_at (\<lambda>x. ecu_key x = ecu_key e) 0 (zone_table g)" and ?es = "lv_ecus (lz_zone_vci s)"
  have wf: "wf_zone g" using assms(1) by (simp add: wf_registry_def)
  have rep: "replace_ecu (byte_text (ecu_key e)) (linux_info e) ?es = map_option (\<lambda>j. ?es[j := linux_info e]) ?f"
    unfolding replace_first_at [where i = 0] assms(3) [symmetric] first_at_map by (simp add: linux_info_id inj_byte_text)
  have len: "length ?es = length (zone_table g)"
    by (simp add: assms(3) [symmetric])
  have le: "length (zone_table g) \<le> 8"
    using wf by (simp add: wf_zone_def zone_table_def)
  have none: "?f = None \<longleftrightarrow> zone_lookup g (ecu_key e) = None"
    by (auto simp: first_at_None zone_lookup_def find_None_iff)
  note upd = update_ecu_info [OF wf assms(2) [unfolded valid_report_def] assms(2)]
  show "r = (False, s)" if n: "zone_report g e = None"
  proof -
    have "zone_lookup g (ecu_key e) = None \<and> length (zone_table g) = 8"
    proof (rule ccontr)
      assume "\<not> (zone_lookup g (ecu_key e) = None \<and> length (zone_table g) = 8)"
      then obtain v' where "zg_update_ecu_info (Some g) (Some (zecu_id e)) (Some e) = Ret (0, Some (g\<lparr>zone_vci := v'\<rparr>))"
        using upd unfolding ecu_key_def [symmetric] by blast
      with n show False by (simp add: zone_report_def)
    qed
    then show ?thesis
      using rep none len by (simp add: r_def update_linux_ecu_def Let_def)
  qed
  show "fst r \<and> map linux_info (zone_table g') = lv_ecus (lz_zone_vci (snd r))" if n: "zone_report g e = Some g'"
  proof -
    have nf: "\<not> (zone_lookup g (ecu_key e) = None \<and> length (zone_table g) = 8)"
      using n upd unfolding zone_report_def ecu_key_def [symmetric] by auto
    then have t: "case ?f of None \<Rightarrow> zone_table g' = zone_table g @ [e] | Some i \<Rightarrow> zone_table g' = (zone_table g)[i := e]"
      using n upd unfolding zone_report_def ecu_key_def [symmetric] by auto
    show ?thesis
    proof (cases ?f)
      case None
      with nf none le have "length (zone_table g) < 8" by simp
      with None t rep len show ?thesis
        by (simp add: r_def update_linux_ecu_def Let_def assms(3))
    next
      case (Some i)
      with t rep show ?thesis
        by (simp add: r_def update_linux_ecu_def Let_def map_update assms(3))
    qed
  qed
qed

text \<open>Reports in order, with the verdict on each; a refused one changes nothing.\<close>

fun tc375_reports :: "ZoneECUInfo list \<Rightarrow> ZonalGateway \<Rightarrow> bool list \<times> ZonalGateway" where
  "tc375_reports [] g = ([], g)"
| "tc375_reports (e # es) g =
     (let (v, g) = (case zone_report g e of None \<Rightarrow> (False, g) | Some g' \<Rightarrow> (True, g'));
          (vs, g) = tc375_reports es g
      in (v # vs, g))"

fun linux_reports :: "LinuxECUInfo list \<Rightarrow> 'w LinuxGateway \<Rightarrow> bool list \<times> 'w LinuxGateway" where
  "linux_reports [] s = ([], s)"
| "linux_reports (e # es) s =
     (let (v, s) = update_linux_ecu (le_ecu_id e) e s; (vs, s) = linux_reports es s in (v # vs, s))"

lemma same_reports:
  assumes "list_all valid_report es" "wf_registry g" "map linux_info (zone_table g) = lv_ecus (lz_zone_vci s)"
  shows "fst (linux_reports (map linux_info es) s) = fst (tc375_reports es g)
    \<and> lv_ecus (lz_zone_vci (snd (linux_reports (map linux_info es) s))) = map linux_info (zone_table (snd (tc375_reports es g)))"
  using assms
proof (induction es arbitrary: g s)
  case (Cons e es)
  then have e: "valid_report e" "list_all valid_report es" by simp_all
  let ?r = "update_linux_ecu (byte_text (ecu_key e)) (linux_info e) s"
  show ?case
  proof (cases "zone_report g e")
    case None
    then have "?r = (False, s)"
      using same_report(1) [OF Cons.prems(2) e(1) Cons.prems(3)] by simp
    then show ?thesis
      using None Cons.IH [OF e(2) Cons.prems(2,3)] by (simp add: linux_info_id split_def Let_def)
  next
    case (Some g')
    obtain s' where s': "?r = (True, s')" "map linux_info (zone_table g') = lv_ecus (lz_zone_vci s')"
      using same_report(2) [OF Cons.prems(2) e(1) Cons.prems(3) Some] by (cases ?r) auto
    have "wf_registry g'"
      using zone_reg.inv_report [OF Cons.prems(2) e(1) Some] .
    then show ?thesis
      using Some s'(1) Cons.IH [OF e(2) _ s'(2)] by (simp add: linux_info_id split_def Let_def)
  qed
qed simp

text \<open>
  C28. The registries of the two zonal gateways are equivalent. On an initialised TC375 gateway (C, arrays with
  terminated strings and a counter) and a constructed Linux gateway (C++, a vector), any sequence of reports gets the same
  verdicts, refusals included, and leaves the same table in the same order.
\<close>
theorem linux_registry_equals_tc375:
  fixes w :: 'w
  assumes "zg_init S (Some g0) zid ip port = Ret (0, Some g)" "list_all valid_report es"
    "s = linux_gateway stats0 zone vmg_ip vmg_port w"
  shows "fst (linux_reports (map linux_info es) s) = fst (tc375_reports es g)
    \<and> lv_ecus (lz_zone_vci (snd (linux_reports (map linux_info es) s))) = map linux_info (zone_table (snd (tc375_reports es g)))"
proof (rule same_reports [OF assms(2)])
  show "wf_registry g" "map linux_info (zone_table g) = lv_ecus (lz_zone_vci s)"
    using zg_init_ok [of S g0 zid ip port] assms(1,3) by (auto simp: fresh_zone_def linux_gateway_def)
qed

theorem linux_registry_equals_tc375_witness:
  "\<exists>g. zg_init (lwip_sockets scripted) (Some zg_zero) 1 None 13400 = Ret (0, Some g)
    \<and> fst (linux_reports (map linux_info [report_of [0x41] 0x201, report_of [0x41] 0x203])
        (linux_gateway (0, 0, 0) 1 ''10.0.0.1'' 13400 ())) = fst (tc375_reports [report_of [0x41] 0x201, report_of [0x41] 0x203] g)"
proof -
  obtain g where g: "zg_init (lwip_sockets scripted) (Some zg_zero) 1 None 13400 = Ret (0, Some g)"
    using zg_init_ok by blast
  have v: "list_all valid_report [report_of [0x41] 0x201, report_of [0x41] 0x203]"
    by (simp add: valid_report_def report_of_def)
  show ?thesis
    using g linux_registry_equals_tc375 [OF g v refl, of "(0, 0, 0)" 1 "''10.0.0.1''" 13400 "()"] by (intro exI [of _ g] conjI) simp_all
qed

section \<open>Descriptors\<close>

text \<open>
  What POSIX says about descriptors: \<open>fds\<close> are those open, \<open>ebadf\<close> tells that some \<^verbatim>\<open>close\<close> was
  given one that was not.
\<close>

definition posix_kernel :: "'w linux_net \<Rightarrow> ('w \<Rightarrow> int set) \<Rightarrow> ('w \<Rightarrow> bool) \<Rightarrow> bool" where
  "posix_kernel N fds ebadf \<longleftrightarrow>
     (\<forall>st w. ebadf (snd (l_socket N st w)) = ebadf w)
   \<and> (\<forall>st w. fst (l_socket N st w) < 0 \<longrightarrow> fds (snd (l_socket N st w)) = fds w)
   \<and> (\<forall>st w. 0 \<le> fst (l_socket N st w) \<longrightarrow> fst (l_socket N st w) \<notin> fds w
        \<and> fds (snd (l_socket N st w)) = insert (fst (l_socket N st w)) (fds w))
   \<and> (\<forall>k w. ebadf (l_setsockopt N k w) = ebadf w \<and> fds (l_setsockopt N k w) = fds w)
   \<and> (\<forall>k p w. ebadf (snd (l_bind N k p w)) = ebadf w \<and> fds (snd (l_bind N k p w)) = fds w)
   \<and> (\<forall>k n w. ebadf (snd (l_listen N k n w)) = ebadf w \<and> fds (snd (l_listen N k n w)) = fds w)
   \<and> (\<forall>k ip p w. ebadf (snd (l_connect N k ip p w)) = ebadf w \<and> fds (snd (l_connect N k ip p w)) = fds w)
   \<and> (\<forall>k w. ebadf (l_close N k w) = (ebadf w \<or> k \<notin> fds w) \<and> fds (l_close N k w) = fds w - {k})"

lemma kernel_socket:
  assumes "posix_kernel N fds ebadf" "l_socket N st w = (k, w')"
  shows "ebadf w' = ebadf w" "k < 0 \<Longrightarrow> fds w' = fds w" "0 \<le> k \<Longrightarrow> k \<notin> fds w \<and> fds w' = insert k (fds w)"
proof -
  note K = assms(1) [unfolded posix_kernel_def]
  from K [THEN conjunct1, rule_format, of st w] K [THEN conjunct2, THEN conjunct1, rule_format, of st w]
    K [THEN conjunct2, THEN conjunct2, THEN conjunct1, rule_format, of st w] assms(2)
  show "ebadf w' = ebadf w" "k < 0 \<Longrightarrow> fds w' = fds w" "0 \<le> k \<Longrightarrow> k \<notin> fds w \<and> fds w' = insert k (fds w)"
    by simp_all
qed

lemma kernel_keeps:
  assumes "posix_kernel N fds ebadf"
  shows "ebadf (l_setsockopt N k w) = ebadf w" "fds (l_setsockopt N k w) = fds w"
    and "l_bind N k p w = (r, w') \<Longrightarrow> ebadf w' = ebadf w \<and> fds w' = fds w"
    and "l_listen N k n w = (r, w') \<Longrightarrow> ebadf w' = ebadf w \<and> fds w' = fds w"
    and "l_connect N k ip p w = (r, w') \<Longrightarrow> ebadf w' = ebadf w \<and> fds w' = fds w"
    and "ebadf (l_close N k w) = (ebadf w \<or> k \<notin> fds w)" "fds (l_close N k w) = fds w - {k}"
proof -
  note K = assms [unfolded posix_kernel_def, THEN conjunct2, THEN conjunct2, THEN conjunct2]
  note s = K [THEN conjunct1] and K = K [THEN conjunct2]
  note b = K [THEN conjunct1] and K = K [THEN conjunct2]
  note l = K [THEN conjunct1] and K = K [THEN conjunct2]
  note c = K [THEN conjunct1] and x = K [THEN conjunct2]
  show "l_bind N k p w = (r, w') \<Longrightarrow> ebadf w' = ebadf w \<and> fds w' = fds w"
    using b [rule_format, of k p w] by simp
  show "l_listen N k n w = (r, w') \<Longrightarrow> ebadf w' = ebadf w \<and> fds w' = fds w"
    using l [rule_format, of k n w] by simp
  show "l_connect N k ip p w = (r, w') \<Longrightarrow> ebadf w' = ebadf w \<and> fds w' = fds w"
    using c [rule_format, of k ip p w] by simp
  show "ebadf (l_setsockopt N k w) = ebadf w" "fds (l_setsockopt N k w) = fds w"
    "ebadf (l_close N k w) = (ebadf w \<or> k \<notin> fds w)" "fds (l_close N k w) = fds w - {k}"
    using s [rule_format, of k w] x [rule_format, of k w] by simp_all
qed

text \<open>The members that opening sockets leaves alone.\<close>

definition same_control :: "'w LinuxGateway \<Rightarrow> 'w LinuxGateway \<Rightarrow> bool" where
  "same_control s s' \<longleftrightarrow> lz_running s' = lz_running s \<and> lz_client s' = lz_client s \<and> lz_json_socket s' = lz_json_socket s
     \<and> lz_zone_vci s' = lz_zone_vci s \<and> lz_state s' = lz_state s"

lemma create_server_sockets_fds:
  fixes s :: "'w LinuxGateway"
  assumes K: "posix_kernel N fds ebadf"
  defines "s' \<equiv> snd (create_server_sockets N s)" and "r \<equiv> fst (create_server_sockets N s)"
  shows "same_control s s'" "ebadf (lz_world s') = ebadf (lz_world s)"
    and "\<not> r \<Longrightarrow> fds (lz_world s') = fds (lz_world s)"
    and "r \<Longrightarrow> 0 \<le> lz_tcp_socket s' \<and> 0 \<le> lz_udp_socket s' \<and> lz_tcp_socket s' \<noteq> lz_udp_socket s'
      \<and> lz_tcp_socket s' \<notin> fds (lz_world s) \<and> lz_udp_socket s' \<notin> fds (lz_world s)
      \<and> fds (lz_world s') = {lz_tcp_socket s', lz_udp_socket s'} \<union> fds (lz_world s)"
proof -
  obtain t w1 where 1: "l_socket N True (lz_world s) = (t, w1)" by fastforce
  obtain r2 w2 where 2: "l_bind N t ZG_DOIP_SERVER_PORT (l_setsockopt N t w1) = (r2, w2)" by fastforce
  obtain r3 w3 where 3: "l_listen N t 5 w2 = (r3, w3)" by fastforce
  obtain u w4 where 4: "l_socket N False w3 = (u, w4)" by fastforce
  obtain r5 w5 where 5: "l_bind N u ZG_DOIP_SERVER_PORT (l_setsockopt N u w4) = (r5, w5)" by fastforce
  let ?s1 = "s\<lparr>lz_tcp_socket := t, lz_world := w1\<rparr>"
  let ?s4 = "s\<lparr>lz_tcp_socket := t, lz_udp_socket := u, lz_world := w5\<rparr>"
  have c: "create_server_sockets N s =
     (if t < 0 then (False, ?s1) else if r2 < 0 then (False, ?s1\<lparr>lz_world := l_close N t w2\<rparr>)
      else if r3 < 0 then (False, ?s1\<lparr>lz_world := l_close N t w3\<rparr>)
      else if u < 0 then (False, ?s4\<lparr>lz_world := l_close N t w4\<rparr>)
      else if r5 < 0 then (False, ?s4\<lparr>lz_world := l_close N u (l_close N t w5)\<rparr>) else (True, ?s4))"
    by (simp add: create_server_sockets_def 1 2 3 4 5)
  have e: "ebadf w1 = ebadf (lz_world s)" "ebadf w2 = ebadf (lz_world s)" "ebadf w3 = ebadf (lz_world s)"
    "ebadf w4 = ebadf (lz_world s)" "ebadf w5 = ebadf (lz_world s)"
    using kernel_socket(1) [OF K 1] kernel_keeps(3) [OF K 2] kernel_keeps(4) [OF K 3] kernel_socket(1) [OF K 4]
      kernel_keeps(3) [OF K 5] kernel_keeps(1) [OF K] by simp_all
  have t: "fds w1 = fds (lz_world s)" if "t < 0"
    using kernel_socket(2) [OF K 1] that by simp
  have t': "t \<notin> fds (lz_world s)" "fds w2 = insert t (fds (lz_world s))" "fds w3 = insert t (fds (lz_world s))" if "\<not> t < 0"
    using kernel_socket(3) [OF K 1] kernel_keeps(3) [OF K 2] kernel_keeps(4) [OF K 3] kernel_keeps(2) [OF K] that by simp_all
  have u: "fds w4 = fds w3" if "u < 0"
    using kernel_socket(2) [OF K 4] that by simp
  have u': "u \<notin> fds w3" "fds w5 = insert u (fds w3)" if "\<not> u < 0"
    using kernel_socket(3) [OF K 4] kernel_keeps(3) [OF K 5] kernel_keeps(2) [OF K] that by simp_all
  note x = kernel_keeps(6,7) [OF K]
  show "same_control s s'"
    unfolding s'_def c same_control_def by simp
  show "ebadf (lz_world s') = ebadf (lz_world s)"
    unfolding s'_def c using e t' u u' by (auto simp: x)
  show "fds (lz_world s') = fds (lz_world s)" if "\<not> r"
    using that unfolding s'_def r_def c using t t' u u' by (auto simp: x split: if_splits)
  show "0 \<le> lz_tcp_socket s' \<and> 0 \<le> lz_udp_socket s' \<and> lz_tcp_socket s' \<noteq> lz_udp_socket s'
      \<and> lz_tcp_socket s' \<notin> fds (lz_world s) \<and> lz_udp_socket s' \<notin> fds (lz_world s)
      \<and> fds (lz_world s') = {lz_tcp_socket s', lz_udp_socket s'} \<union> fds (lz_world s)" if "r"
    using that unfolding s'_def r_def c using t' u' by (auto split: if_splits)
qed

lemma connect_to_vmg_fds:
  fixes s :: "'w LinuxGateway"
  assumes K: "posix_kernel N fds ebadf"
  defines "s' \<equiv> snd (connect_to_vmg N s)" and "r \<equiv> fst (connect_to_vmg N s)"
  shows "same_control s s'" "lz_tcp_socket s' = lz_tcp_socket s" "lz_udp_socket s' = lz_udp_socket s"
    "ebadf (lz_world s') = ebadf (lz_world s)" "\<not> r \<Longrightarrow> fds (lz_world s') = fds (lz_world s)"
    and "r \<Longrightarrow> lz_vmg_socket s' \<notin> fds (lz_world s) \<and> fds (lz_world s') = insert (lz_vmg_socket s') (fds (lz_world s))"
proof -
  obtain k w1 where 1: "l_socket N True (lz_world s) = (k, w1)" by fastforce
  obtain r2 w2 where 2: "l_connect N k (lz_vmg_ip s) (lz_vmg_port s) w1 = (r2, w2)" by fastforce
  have c: "connect_to_vmg N s =
     (if k < 0 then (False, s\<lparr>lz_vmg_socket := k, lz_world := w1\<rparr>)
      else if l_inet_pton N (lz_vmg_ip s) \<le> 0 then (False, s\<lparr>lz_vmg_socket := k, lz_world := l_close N k w1\<rparr>)
      else if r2 < 0 then (False, s\<lparr>lz_vmg_socket := k, lz_world := l_close N k w2\<rparr>)
      else (True, s\<lparr>lz_vmg_socket := k, lz_world := w2, lz_vmg_connected := True\<rparr>))"
    by (simp add: connect_to_vmg_def 1 2 Let_def)
  note k = kernel_socket [OF K 1] kernel_keeps(5) [OF K 2] and x = kernel_keeps(6,7) [OF K]
  show "same_control s s'" "lz_tcp_socket s' = lz_tcp_socket s" "lz_udp_socket s' = lz_udp_socket s"
    unfolding s'_def c same_control_def by simp_all
  show "ebadf (lz_world s') = ebadf (lz_world s)"
    unfolding s'_def c using k by (simp add: x)
  show "fds (lz_world s') = fds (lz_world s)" if "\<not> r"
    using that unfolding s'_def r_def c using k by (auto simp: x split: if_splits)
  show "lz_vmg_socket s' \<notin> fds (lz_world s) \<and> fds (lz_world s') = insert (lz_vmg_socket s') (fds (lz_world s))" if r
    using that unfolding s'_def r_def c using k by (auto split: if_splits)
qed

text \<open>The calls and rounds that change the gateway, and the connections each of them makes.\<close>

datatype lz_op = LzStart | LzStop | LzClientRound | LzConnect | LzReport string LinuxECUInfo

fun lz_step :: "'w linux_net \<Rightarrow> lz_op \<Rightarrow> 'w LinuxGateway \<Rightarrow> 'w LinuxGateway" where
  "lz_step N LzStart s = snd (lz_start N s)"
| "lz_step N LzStop s = lz_stop N s"
| "lz_step N LzClientRound s = client_thread_round N s"
| "lz_step N LzConnect s = snd (connect_to_vmg N s)"
| "lz_step N (LzReport ecu_id info) s = snd (update_linux_ecu ecu_id info s)"

fun lz_connects :: "'w linux_net \<Rightarrow> lz_op \<Rightarrow> 'w LinuxGateway \<Rightarrow> nat" where
  "lz_connects N LzConnect s = of_bool (fst (connect_to_vmg N s))"
| "lz_connects N LzClientRound s = of_bool (lz_client s = CLIENT_START \<and> fst (connect_to_vmg N s))"
| "lz_connects N LzStop s =
     of_bool (lz_running s \<and> lz_client s = CLIENT_START \<and> fst (connect_to_vmg N (s\<lparr>lz_running := False\<rparr>)))"
| "lz_connects N op s = 0"

fun lz_ops :: "'w linux_net \<Rightarrow> lz_op list \<Rightarrow> 'w LinuxGateway \<Rightarrow> nat \<times> 'w LinuxGateway" where
  "lz_ops N [] s = (0, s)"
| "lz_ops N (op # ops) s = (let (n, s') = lz_ops N ops (lz_step N op s) in (lz_connects N op s + n, s'))"

definition server_fds :: "'w LinuxGateway \<Rightarrow> int set" where
  "server_fds s = (if lz_running s then {lz_tcp_socket s, lz_udp_socket s} else {})"

definition lz_inv :: "('w \<Rightarrow> int set) \<Rightarrow> ('w \<Rightarrow> bool) \<Rightarrow> 'w LinuxGateway \<Rightarrow> bool" where
  "lz_inv fds ebadf s \<longleftrightarrow> \<not> ebadf (lz_world s) \<and> finite (fds (lz_world s)) \<and> lz_json_socket s < 0
     \<and> server_fds s \<subseteq> fds (lz_world s)
     \<and> (lz_running s \<longrightarrow> 0 \<le> lz_tcp_socket s \<and> 0 \<le> lz_udp_socket s \<and> lz_tcp_socket s \<noteq> lz_udp_socket s)
     \<and> (\<not> lz_running s \<longrightarrow> lz_client s = NO_THREAD)
     \<and> lz_state s = (if lz_running s then LZ_READY else LZ_INIT)"

definition client_fds :: "('w \<Rightarrow> int set) \<Rightarrow> 'w LinuxGateway \<Rightarrow> nat" where
  "client_fds fds s = card (fds (lz_world s) - server_fds s)"

lemma card_insert_Diff: "finite A \<Longrightarrow> B \<subseteq> A \<Longrightarrow> k \<notin> A \<Longrightarrow> card (insert k A - B) = Suc (card (A - B))"
  by (subst insert_Diff_if) auto

lemma lz_connect_inv:
  assumes "posix_kernel N fds ebadf" "lz_inv fds ebadf s"
  shows "lz_inv fds ebadf (snd (connect_to_vmg N s))"
    "client_fds fds (snd (connect_to_vmg N s)) = client_fds fds s + of_bool (fst (connect_to_vmg N s))"
proof -
  note c = connect_to_vmg_fds [OF assms(1), where s = s]
  let ?s = "snd (connect_to_vmg N s)"
  have sf: "server_fds ?s = server_fds s"
    using c(1,2,3) by (simp add: server_fds_def same_control_def)
  show "lz_inv fds ebadf ?s"
    using assms(2) c unfolding lz_inv_def sf same_control_def by (cases "fst (connect_to_vmg N s)") auto
  show "client_fds fds ?s = client_fds fds s + of_bool (fst (connect_to_vmg N s))"
    using assms(2) c(5,6) unfolding client_fds_def sf lz_inv_def
    by (cases "fst (connect_to_vmg N s)") (auto simp: card_insert_Diff)
qed

lemma lz_start_inv:
  assumes "posix_kernel N fds ebadf" "lz_inv fds ebadf s"
  shows "lz_inv fds ebadf (snd (lz_start N s))" "client_fds fds (snd (lz_start N s)) = client_fds fds s"
proof -
  note c = create_server_sockets_fds [OF assms(1), where s = s]
  obtain r s' where s': "create_server_sockets N s = (r, s')" by fastforce
  note c = c [unfolded s' fst_conv snd_conv]
  have i: "\<not> ebadf (lz_world s)" "finite (fds (lz_world s))" "lz_json_socket s < 0"
    "\<not> lz_running s \<longrightarrow> lz_client s = NO_THREAD" "lz_state s = (if lz_running s then LZ_READY else LZ_INIT)"
    using assms(2) by (simp_all add: lz_inv_def)
  show "lz_inv fds ebadf (snd (lz_start N s))"
    using c i assms(2) by (cases r) (auto simp: lz_start_def s' lz_inv_def same_control_def server_fds_def)
  have "card ({a, b} \<union> A - {a, b}) = card A" if "a \<notin> A" "b \<notin> A" for a b :: int and A
    using that by (intro arg_cong [where f = card]) auto
  then show "client_fds fds (snd (lz_start N s)) = client_fds fds s"
    using c by (cases r) (auto simp: lz_start_def s' client_fds_def same_control_def server_fds_def)
qed

lemma client_round_fds:
  fixes s :: "'w LinuxGateway"
  assumes "posix_kernel N fds ebadf" "finite (fds (lz_world s))"
  defines "s' \<equiv> client_thread_round N s" and "n \<equiv> of_bool (lz_client s = CLIENT_START \<and> fst (connect_to_vmg N s)) :: nat"
  shows "lz_running s' = lz_running s" "lz_state s' = lz_state s" "lz_json_socket s' = lz_json_socket s"
    "lz_tcp_socket s' = lz_tcp_socket s" "lz_udp_socket s' = lz_udp_socket s" "ebadf (lz_world s') = ebadf (lz_world s)"
    "lz_client s' = NO_THREAD \<longleftrightarrow> lz_client s = NO_THREAD" "lz_client s' \<noteq> CLIENT_START"
    and "fds (lz_world s) \<subseteq> fds (lz_world s') \<and> finite (fds (lz_world s'))"
    and "F \<subseteq> fds (lz_world s) \<Longrightarrow> card (fds (lz_world s') - F) = card (fds (lz_world s) - F) + n"
proof -
  note c = connect_to_vmg_fds [OF assms(1), where s = s]
  let ?s = "snd (connect_to_vmg N s)" and ?r = "fst (connect_to_vmg N s)"
  have st: "s' = ?s\<lparr>lz_client := (if ?r then CLIENT_LOOP else CLIENT_DONE)\<rparr>" if "lz_client s = CLIENT_START"
    using that by (simp add: s'_def client_thread_round_def split_def Let_def)
  have ot: "lz_world s' = lz_world s \<and> (\<exists>p. p \<noteq> CLIENT_START \<and> (p = NO_THREAD \<longleftrightarrow> lz_client s = NO_THREAD) \<and> s' = s\<lparr>lz_client := p\<rparr>)"
    if "lz_client s \<noteq> CLIENT_START"
  proof (cases "lz_client s")
    case CLIENT_LOOP
    then show ?thesis
      by (intro conjI exI [of _ "if lz_running s then CLIENT_LOOP else CLIENT_DONE"])
        (simp_all add: s'_def client_thread_round_def)
  qed (use that in \<open>auto simp: s'_def client_thread_round_def intro!: exI [of _ "lz_client s"]\<close>)
  show "lz_running s' = lz_running s" "lz_state s' = lz_state s" "lz_json_socket s' = lz_json_socket s"
    "lz_tcp_socket s' = lz_tcp_socket s" "lz_udp_socket s' = lz_udp_socket s" "ebadf (lz_world s') = ebadf (lz_world s)"
    "lz_client s' = NO_THREAD \<longleftrightarrow> lz_client s = NO_THREAD" "lz_client s' \<noteq> CLIENT_START"
    using c(1-4) st ot by (cases "lz_client s = CLIENT_START"; auto simp: same_control_def)+
  show "fds (lz_world s) \<subseteq> fds (lz_world s') \<and> finite (fds (lz_world s'))"
    using c(5,6) st ot assms(2) by (cases "lz_client s = CLIENT_START"; cases ?r) auto
  show "card (fds (lz_world s') - F) = card (fds (lz_world s) - F) + n" if "F \<subseteq> fds (lz_world s)"
  proof (cases "lz_client s = CLIENT_START \<and> ?r")
    case True
    then have "fds (lz_world s') = insert (lz_vmg_socket ?s) (fds (lz_world s))" "lz_vmg_socket ?s \<notin> fds (lz_world s)"
      using c(6) st by auto
    then show ?thesis
      using True that assms(2) by (simp add: n_def card_insert_Diff)
  next
    case False
    then have "fds (lz_world s') = fds (lz_world s)"
      using c(5) st ot by (cases "lz_client s = CLIENT_START") auto
    with False show ?thesis by (simp add: n_def)
  qed
qed

lemma client_round_inv:
  assumes "posix_kernel N fds ebadf" "lz_inv fds ebadf s"
  shows "lz_inv fds ebadf (client_thread_round N s)"
    "client_fds fds (client_thread_round N s) = client_fds fds s + lz_connects N LzClientRound s"
proof -
  have fin: "finite (fds (lz_world s))" "server_fds s \<subseteq> fds (lz_world s)"
    using assms(2) by (simp_all add: lz_inv_def)
  note c = client_round_fds [OF assms(1) fin(1)]
  have sf: "server_fds (client_thread_round N s) = server_fds s"
    by (simp add: server_fds_def c(1,4,5))
  show "lz_inv fds ebadf (client_thread_round N s)"
    using assms(2) c(9) unfolding lz_inv_def sf by (simp add: c(1-7)) blast
  show "client_fds fds (client_thread_round N s) = client_fds fds s + lz_connects N LzClientRound s"
    using c(10) [OF fin(2)] unfolding client_fds_def sf by simp
qed

lemma close_server_sockets_fds:
  assumes "posix_kernel N fds ebadf" "\<not> ebadf (lz_world s)" "lz_json_socket s < 0" "0 \<le> lz_tcp_socket s" "0 \<le> lz_udp_socket s"
    "lz_tcp_socket s \<noteq> lz_udp_socket s" "{lz_tcp_socket s, lz_udp_socket s} \<subseteq> fds (lz_world s)"
  shows "\<not> ebadf (lz_world (close_server_sockets N s))" "lz_json_socket (close_server_sockets N s) < 0"
    "fds (lz_world (close_server_sockets N s)) = fds (lz_world s) - {lz_tcp_socket s, lz_udp_socket s}"
    "lz_running (close_server_sockets N s) = lz_running s" "lz_client (close_server_sockets N s) = lz_client s"
  using assms by (auto simp: close_server_sockets_def Let_def kernel_keeps(6,7) [OF assms(1)])

lemma lz_stop_inv:
  assumes K: "posix_kernel N fds ebadf" and i: "lz_inv fds ebadf s"
  shows "lz_inv fds ebadf (lz_stop N s)" "client_fds fds (lz_stop N s) = client_fds fds s + lz_connects N LzStop s"
proof -
  let ?s0 = "s\<lparr>lz_running := False\<rparr>" and ?F = "{lz_tcp_socket s, lz_udp_socket s}"
  let ?s1 = "client_thread_round N ?s0"
  let ?s2 = "client_thread_round N ?s1"
  let ?s3 = "?s2\<lparr>lz_client := NO_THREAD\<rparr>"
  let ?s4 = "close_server_sockets N ?s3"
  have fin: "finite (fds (lz_world ?s0))"
    using i by (simp add: lz_inv_def)
  note a = client_round_fds [OF K fin]
  note b = client_round_fds [OF K a(9) [THEN conjunct2]]
  have "lz_inv fds ebadf (lz_stop N s) \<and> client_fds fds (lz_stop N s) = client_fds fds s + lz_connects N LzStop s"
  proof (cases "lz_running s")
    case True
    then have r: "\<not> ebadf (lz_world s)" "lz_json_socket s < 0" "0 \<le> lz_tcp_socket s" "0 \<le> lz_udp_socket s"
      "lz_tcp_socket s \<noteq> lz_udp_socket s" "?F \<subseteq> fds (lz_world s)"
      using i by (simp_all add: lz_inv_def server_fds_def)
    have F: "?F \<subseteq> fds (lz_world ?s0)" "?F \<subseteq> fds (lz_world ?s1)" "?F \<subseteq> fds (lz_world ?s2)"
      using r(6) a(9) b(9) by auto
    have sock: "lz_tcp_socket ?s3 = lz_tcp_socket s" "lz_udp_socket ?s3 = lz_udp_socket s"
      by (simp_all add: a(4,5) b(4,5))
    have p: "\<not> ebadf (lz_world ?s3)" "lz_json_socket ?s3 < 0" "0 \<le> lz_tcp_socket ?s3" "0 \<le> lz_udp_socket ?s3"
      "lz_tcp_socket ?s3 \<noteq> lz_udp_socket ?s3" "{lz_tcp_socket ?s3, lz_udp_socket ?s3} \<subseteq> fds (lz_world ?s3)"
      using r F(3) unfolding sock by (simp_all add: a(3,6) b(3,6))
    note c = close_server_sockets_fds [OF K p]
    have s4: "lz_stop N s = ?s4\<lparr>lz_state := LZ_INIT\<rparr>"
      using True by (simp add: lz_stop_def join_client_thread_def Let_def)
    have "card (fds (lz_world ?s2) - ?F) = card (fds (lz_world s) - ?F) + lz_connects N LzStop s"
      using a(10) [OF F(1)] b(10) [OF F(2)] a(8) True by simp
    then have "client_fds fds (lz_stop N s) = client_fds fds s + lz_connects N LzStop s"
      using c(3) True unfolding s4 client_fds_def server_fds_def sock by (simp add: c(4) a(1) b(1))
    moreover have "finite (fds (lz_world ?s4))"
      using b(9) unfolding c(3) by simp
    then have "lz_inv fds ebadf (lz_stop N s)"
      unfolding s4 lz_inv_def using c(1,2) by (simp add: c(4,5) a(1) b(1) server_fds_def)
    ultimately show ?thesis by simp
  next
    case False
    with i show ?thesis by (simp add: lz_stop_def)
  qed
  then show "lz_inv fds ebadf (lz_stop N s)" "client_fds fds (lz_stop N s) = client_fds fds s + lz_connects N LzStop s"
    by simp_all
qed

lemma report_inv:
  assumes "lz_inv fds ebadf s"
  shows "lz_inv fds ebadf (snd (update_linux_ecu k info s)) \<and> client_fds fds (snd (update_linux_ecu k info s)) = client_fds fds s"
  using assms by (auto simp: update_linux_ecu_def Let_def lz_inv_def client_fds_def server_fds_def split: option.split)

lemma lz_step_inv:
  assumes "posix_kernel N fds ebadf" "lz_inv fds ebadf s"
  shows "lz_inv fds ebadf (lz_step N op s) \<and> client_fds fds (lz_step N op s) = client_fds fds s + lz_connects N op s"
  using lz_start_inv [OF assms] lz_stop_inv [OF assms] client_round_inv [OF assms] lz_connect_inv [OF assms] report_inv [OF assms(2)]
  by (cases op) simp_all

lemma lz_ops_inv:
  assumes "posix_kernel N fds ebadf" "lz_inv fds ebadf s"
  shows "lz_inv fds ebadf (snd (lz_ops N ops s)) \<and> client_fds fds (snd (lz_ops N ops s)) = client_fds fds s + fst (lz_ops N ops s)"
  using assms(2)
proof (induction ops arbitrary: s)
  case (Cons op ops)
  then show ?case
    using lz_step_inv [OF assms(1) Cons.prems, of op] Cons.IH [of "lz_step N op s"] by (simp add: split_def Let_def)
qed simp

text \<open>
  C27. The descriptors of the Linux gateway. Whatever is called in whatever order on a constructed gateway, and
  whichever socket calls fail, no descriptor is closed that is not open, the two server sockets are open
  exactly while the gateway runs, and the process holds one more descriptor for every connection to the
  VMG it has ever made: none of them is ever closed.
\<close>
theorem linux_descriptors:
  assumes "posix_kernel N fds ebadf" "finite (fds w)" "\<not> ebadf w"
    "(n, s) = lz_ops N ops (linux_gateway stats0 zid vmg_ip vmg_port w)"
  shows "\<not> ebadf (lz_world s) \<and> server_fds s \<subseteq> fds (lz_world s)
    \<and> card (fds (lz_world s)) = card (fds w) + (if lz_running s then 2 else 0) + n"
proof -
  let ?s0 = "linux_gateway stats0 zid vmg_ip vmg_port w"
  have "lz_inv fds ebadf ?s0" "client_fds fds ?s0 = card (fds w)"
    using assms(2,3) by (simp_all add: lz_inv_def linux_gateway_def server_fds_def client_fds_def)
  with lz_ops_inv [OF assms(1), of ?s0 ops] have i: "lz_inv fds ebadf s" "client_fds fds s = card (fds w) + n"
    unfolding assms(4) [symmetric] by simp_all
  let ?A = "fds (lz_world s)" and ?B = "server_fds s"
  have AB: "finite ?A" "?B \<subseteq> ?A"
    using i(1) by (simp_all add: lz_inv_def)
  then have "card ?A = card (?A - ?B) + card ?B"
    using card_Diff_subset [OF finite_subset [OF AB(2,1)] AB(2)] card_mono [OF AB] by simp
  moreover have "card ?B = (if lz_running s then 2 else 0)"
    using i(1) by (simp add: lz_inv_def server_fds_def)
  ultimately show ?thesis
    using i AB(2) by (simp add: lz_inv_def client_fds_def)
qed

text \<open>A kernel that hands out the number above those in use and lets every call succeed.\<close>

definition plain_kernel :: "(int list \<times> bool) linux_net" where
  "plain_kernel = \<lparr>l_socket = (\<lambda>_ (xs, b). let k = 1 + foldr max xs 0 in (k, (k # xs, b))), l_setsockopt = (\<lambda>_ w. w),
     l_bind = (\<lambda>_ _ w. (0, w)), l_listen = (\<lambda>_ _ w. (0, w)), l_inet_pton = (\<lambda>_. 1), l_connect = (\<lambda>_ _ _ w. (0, w)),
     l_close = (\<lambda>k (xs, b). (removeAll k xs, b \<or> k \<notin> set xs))\<rparr>"

lemma foldr_max_ge: "x \<in> set xs \<Longrightarrow> x \<le> foldr max xs (0 :: int)"
  by (induction xs) auto

lemma plain_kernel_posix: "posix_kernel plain_kernel (\<lambda>w. set (fst w)) snd"
proof -
  have "1 + foldr max xs 0 \<notin> set xs" for xs :: "int list"
    using foldr_max_ge [of "1 + foldr max xs 0" xs] by auto
  moreover have "0 \<le> foldr max xs (0 :: int)" for xs
    by (induction xs) auto
  then have "\<not> 1 + foldr max xs (0 :: int) < 0" for xs
    by (metis add_increasing2 not_less zero_le_one)
  ultimately show ?thesis
    by (auto simp: posix_kernel_def plain_kernel_def Let_def)
qed

theorem linux_descriptors_witness:
  "card (set (fst (lz_world (snd (lz_ops plain_kernel [LzStart, LzClientRound, LzStop, LzStart, LzStop]
     (linux_gateway (0, 0, 0) 1 ''10.0.0.1'' 13400 ([], False))))))) = 2"
proof -
  let ?r = "lz_ops plain_kernel [LzStart, LzClientRound, LzStop, LzStart, LzStop]
     (linux_gateway (0, 0, 0) 1 ''10.0.0.1'' 13400 ([], False))"
  have r: "fst ?r = 2 \<and> \<not> lz_running (snd ?r)"
    by (simp add: plain_kernel_def linux_gateway_def lz_start_def create_server_sockets_def lz_stop_def join_client_thread_def
        client_thread_round_def connect_to_vmg_def close_server_sockets_def Let_def)
  show ?thesis
    using linux_descriptors [OF plain_kernel_posix, of "([], False)" "fst ?r" "snd ?r"
        "[LzStart, LzClientRound, LzStop, LzStart, LzStop]" "(0, 0, 0)" 1 "''10.0.0.1''" 13400] r by simp
qed

section \<open>Readiness\<close>

text \<open>
  No call sets the statistics of the zone, so readiness is decided by what the members held when
  the gateway was constructed, and by the ECUs reported.
\<close>

lemma lz_step_statistics:
  "lv_average_battery_level (lz_zone_vci (lz_step N op s)) = lv_average_battery_level (lz_zone_vci s)
   \<and> lv_available_storage_mb (lz_zone_vci (lz_step N op s)) = lv_available_storage_mb (lz_zone_vci s)"
  by (cases op) (auto simp: lz_start_def create_server_sockets_def lz_stop_def join_client_thread_def client_thread_round_def
      connect_to_vmg_def close_server_sockets_def update_linux_ecu_def Let_def split: prod.splits client_pc.splits option.splits)

lemma linux_ready_by_uninitialised:
  "linux_ota_ready c (snd (lz_ops N ops (linux_gateway (t, a, b) zid ip port w))) \<longleftrightarrow>
     \<not> b < 50 \<and> \<not> a < 100 \<and> list_all le_is_online (lv_ecus (lz_zone_vci (snd (lz_ops N ops (linux_gateway (t, a, b) zid ip port w)))))"
proof -
  have "lv_average_battery_level (lz_zone_vci (snd (lz_ops N ops s))) = lv_average_battery_level (lz_zone_vci s)
   \<and> lv_available_storage_mb (lz_zone_vci (snd (lz_ops N ops s))) = lv_available_storage_mb (lz_zone_vci s)" for s
    by (induction ops arbitrary: s) (simp_all add: split_def Let_def lz_step_statistics)
  from this [of "linux_gateway (t, a, b) zid ip port w"] show ?thesis
    unfolding linux_ota_ready_def Let_def by (simp add: linux_gateway_def [THEN arg_cong [of _ _ lz_zone_vci]] del: not_less)
qed

end
