(* ===== verification/TLS_Server.thy ===== *)
theory TLS_Server
  imports DoIP_Server
begin

text \<open>
  The DoIP server of the vehicle gateway for TLS clients, \<^verbatim>\<open>vehicle_gateway/src/doip_server_mbedtls.cpp\<close>: one
  session. The TLS connection is a record of two calls over a world \<open>'w\<close>. A read fills the
  session's buffer with what one TLS record holds; the rest of the buffer keeps its old contents.
\<close>

section \<open>State\<close>

text \<open>\<open>m_read n\<close> is \<^verbatim>\<open>mbedtls_ssl_read\<close>: \<open>Inl\<close> the code of an error or zero, or at most \<open>n\<close> bytes.\<close>

record 'w mbedtls_conn =
  m_read :: "nat \<Rightarrow> 'w \<Rightarrow> (int + bytes) \<times> 'w"
  m_write :: "bytes \<Rightarrow> 'w \<Rightarrow> int \<times> 'w"

record DoIPHandler =
  th_source :: u16
  th_activated :: bool

definition doip_handler :: DoIPHandler where
  "doip_handler = \<lparr>th_source = 0, th_activated = False\<rparr>"

section \<open>Messages\<close>

text \<open>\<open>payload\<close> is the memory from the payload's first byte to the end of the buffer, \<open>len\<close> the announced length.\<close>

definition tls_routing_activation ::
  "'w mbedtls_conn \<Rightarrow> bytes \<Rightarrow> u32 \<Rightarrow> DoIPHandler \<Rightarrow> 'w \<Rightarrow> (DoIPHandler \<times> 'w) cexec" where
  "tls_routing_activation M payload len h w =
     (if len < 7 then Ret (h, w)
      else
        cbind (buf_get payload 0) (\<lambda>p0. cbind (buf_get payload 1) (\<lambda>p1.
        let h = h\<lparr>th_source := be16_val p0 p1\<rparr>;
            plen = 9 :: u32;
            response = [0x02, 0xFD] @ [0x00, 0x06]
              @ [ucast (drop_bit 24 plen), ucast (drop_bit 16 plen), ucast (drop_bit 8 plen), ucast plen]
              @ [ucast (drop_bit 8 (th_source h)), ucast (th_source h)] @ [0x00, 0x01] @ [0x10] @ [0x00, 0x00, 0x00, 0x00];
            (_, w) = m_write M response w
        in Ret (h\<lparr>th_activated := True\<rparr>, w))))"

text \<open>The copy needs \<open>diag_len\<close> bytes in the receive buffer and in the response array of 4096 bytes.\<close>

definition tls_diagnostic_message ::
  "'w mbedtls_conn \<Rightarrow> bytes \<Rightarrow> u32 \<Rightarrow> DoIPHandler \<Rightarrow> 'w \<Rightarrow> (DoIPHandler \<times> 'w) cexec" where
  "tls_diagnostic_message M payload len h w =
     (if \<not> th_activated h then Ret (h, w)
      else if len < 5 then Ret (h, w)
      else
        cbind (buf_get payload 0) (\<lambda>p0. cbind (buf_get payload 1) (\<lambda>p1.
        cbind (buf_get payload 2) (\<lambda>p2. cbind (buf_get payload 3) (\<lambda>p3.
        let diag_len = len - 4; plen = 4 + diag_len;
            header = [0x02, 0xFD] @ [0x80, 0x01]
              @ [ucast (drop_bit 24 plen), ucast (drop_bit 16 plen), ucast (drop_bit 8 plen), ucast plen]
              @ [p2, p3] @ [p0, p1]
        in cbind (buf_slice payload 4 (unat diag_len)) (\<lambda>diag_data.
           if 4096 < length header + unat diag_len then Fault
           else let (_, w) = m_write M (header @ diag_data) w in Ret (h, w)))))))"

text \<open>One round of the session's loop.\<close>

definition tls_handler_round ::
  "'w mbedtls_conn \<Rightarrow> bytes \<Rightarrow> DoIPHandler \<Rightarrow> 'w \<Rightarrow> (bytes round \<times> DoIPHandler \<times> 'w) cexec" where
  "tls_handler_round M buffer h w =
     (case m_read M (length buffer) w of
        (Inl _, w) \<Rightarrow> Ret (Leave, h, w)
      | (Inr d, w) \<Rightarrow>
          cbind (buf_write buffer 0 d) (\<lambda>buffer.
          if length d < 8 then Ret (Again buffer, h, w)
          else
            cbind (buf_get buffer 0) (\<lambda>protocol_version.
            cbind (buf_get buffer 2) (\<lambda>b2. cbind (buf_get buffer 3) (\<lambda>b3.
            cbind (buf_get buffer 4) (\<lambda>b4. cbind (buf_get buffer 5) (\<lambda>b5.
            cbind (buf_get buffer 6) (\<lambda>b6. cbind (buf_get buffer 7) (\<lambda>b7.
            let ptype = be16_val b2 b3; plen = be32_val b4 b5 b6 b7
            in if protocol_version \<noteq> 0x02 then Ret (Again buffer, h, w)
               else if ptype = RoutingActivationReq then
                 cbind (tls_routing_activation M (drop 8 buffer) plen h w) (\<lambda>(h, w). Ret (Again buffer, h, w))
               else if ptype = DiagnosticMessage then
                 cbind (tls_diagnostic_message M (drop 8 buffer) plen h w) (\<lambda>(h, w). Ret (Again buffer, h, w))
               else Ret (Again buffer, h, w))))))))))"

fun tls_handler_run :: "nat \<Rightarrow> 'w mbedtls_conn \<Rightarrow> bytes \<Rightarrow> DoIPHandler \<Rightarrow> 'w \<Rightarrow> (bool \<times> DoIPHandler \<times> 'w) cexec" where
  "tls_handler_run 0 M buffer h w = Ret (False, h, w)"
| "tls_handler_run (Suc n) M buffer h w =
     cbind (tls_handler_round M buffer h w) (\<lambda>(r, h, w). case r of
       Leave \<Rightarrow> Ret (True, h, w)
     | Again buffer \<Rightarrow> tls_handler_run n M buffer h w)"

text \<open>The session on a fresh stack array, for at most \<open>n\<close> rounds; \<open>True\<close> when it has ended.\<close>

definition tls_handle :: "nat \<Rightarrow> 'w mbedtls_conn \<Rightarrow> bytes \<Rightarrow> 'w \<Rightarrow> (bool \<times> DoIPHandler \<times> 'w) cexec" where
  "tls_handle n M stack w = tls_handler_run n M stack doip_handler w"

section \<open>One round on the contents of its buffer\<close>

definition tls_buffer_after :: "bytes \<Rightarrow> bytes \<Rightarrow> bytes" where
  "tls_buffer_after d buffer = d @ drop (length d) buffer"

lemma length_tls_buffer_after: "length d \<le> length buffer \<Longrightarrow> length (tls_buffer_after d buffer) = length buffer"
  by (simp add: tls_buffer_after_def)

text \<open>The answer to a diagnostic message: the addresses exchanged, and \<open>len - 4\<close> bytes of the buffer.\<close>

definition echo :: "bytes \<Rightarrow> bytes" where
  "echo b = doip_frame DiagnosticMessage ([b ! 10, b ! 11, b ! 8, b ! 9] @ take (unat (announced b) - 4) (drop 12 b))"

lemma buf_get_all:
  assumes "12 \<le> length b"
  shows "buf_get b 0 = Ret (b ! 0)" "buf_get b 2 = Ret (b ! 2)" "buf_get b 3 = Ret (b ! 3)" "buf_get b 4 = Ret (b ! 4)"
    "buf_get b 5 = Ret (b ! 5)" "buf_get b 6 = Ret (b ! 6)" "buf_get b 7 = Ret (b ! 7)"
    "buf_get (drop 8 b) 0 = Ret (b ! 8)" "buf_get (drop 8 b) (Suc 0) = Ret (b ! 9)" "buf_get (drop 8 b) 2 = Ret (b ! 10)"
    "buf_get (drop 8 b) 3 = Ret (b ! 11)"
  using assms by (auto simp: buf_get_def)

lemma tls_routing_activation_eq:
  assumes "12 \<le> length b"
  shows "tls_routing_activation M (drop 8 b) len h w =
    (if len < 7 then Ret (h, w)
     else Ret (h\<lparr>th_source := be16_val (b ! 8) (b ! 9), th_activated := True\<rparr>,
       snd (m_write M (doip_frame RoutingActivationRes ([b ! 8, b ! 9] @ [0x00, 0x01] @ [0x10] @ [0, 0, 0, 0])) w)))"
proof -
  have "[ucast (drop_bit 8 (be16_val x y)), ucast (be16_val x y)] = [x, y]" for x y
    using be16_be16_val [of x y] by (simp add: be16_def)
  then show ?thesis
    by (simp add: tls_routing_activation_def buf_get_all [OF assms] doip_frame_def be16_def be32_def Let_def split_def)
qed

lemma tls_diagnostic_message_eq:
  assumes "length b = 4096"
  shows "tls_diagnostic_message M (drop 8 b) (announced b) h w =
    (if \<not> th_activated h \<or> announced b < 5 then Ret (h, w)
     else if unat (announced b) \<le> 4088 then Ret (h, snd (m_write M (echo b) w)) else Fault)"
proof (cases "\<not> th_activated h \<or> announced b < 5")
  case False
  then have five: "5 \<le> unat (announced b)"
    by (simp add: word_le_nat_alt not_less)
  then have u: "unat (announced b - 4) = unat (announced b) - 4"
    by (subst unat_sub) (simp_all add: word_le_nat_alt)
  have s: "buf_slice (drop 8 b) 4 (unat (announced b) - 4) =
      (if unat (announced b) \<le> 4088 then Ret (take (unat (announced b) - 4) (drop 12 b)) else Fault)"
    using assms five by (auto simp: buf_slice_def)
  have "(of_nat (4 + length (take (unat (announced b) - 4) (drop 12 b))) :: u32) = announced b" if "unat (announced b) \<le> 4088"
    using that five assms by (simp add: min_absorb2)
  then have e: "echo b = [0x02, 0xFD, 0x80, 0x01] @ [ucast (drop_bit 24 (announced b)), ucast (drop_bit 16 (announced b)),
      ucast (drop_bit 8 (announced b)), ucast (announced b)] @ [b ! 10, b ! 11, b ! 8, b ! 9]
      @ take (unat (announced b) - 4) (drop 12 b)" if "unat (announced b) \<le> 4088"
    using that by (simp add: echo_def doip_frame_def be16_def be32_def)
  have "12 \<le> length b" "4 + (announced b - 4) = announced b"
    "4084 < unat (announced b) - 4 \<longleftrightarrow> \<not> unat (announced b) \<le> 4088"
    using assms by auto
  with False show ?thesis
    by (simp add: tls_diagnostic_message_def buf_get_all u s e Let_def split_def)
qed (auto simp: tls_diagnostic_message_def)

lemma tls_handler_round_eq:
  fixes w :: 'w
  assumes "m_read M 4096 w = (Inr d, w')" "length d \<le> 4096" "length buffer = 4096"
  defines "b \<equiv> tls_buffer_after d buffer"
  shows "tls_handler_round M buffer h w =
    (if length d < 8 \<or> b ! 0 \<noteq> 0x02 then Ret (Again b, h, w')
     else if be16_val (b ! 2) (b ! 3) = RoutingActivationReq then
       cbind (tls_routing_activation M (drop 8 b) (announced b) h w') (\<lambda>(h, w). Ret (Again b, h, w))
     else if be16_val (b ! 2) (b ! 3) = DiagnosticMessage then
       cbind (tls_diagnostic_message M (drop 8 b) (announced b) h w') (\<lambda>(h, w). Ret (Again b, h, w))
     else Ret (Again b, h, w'))"
proof -
  have "12 \<le> length b" "buf_write buffer 0 d = Ret b"
    using assms by (simp_all add: b_def tls_buffer_after_def buf_write_def)
  then show ?thesis
    using assms(1,3) by (simp add: tls_handler_round_def buf_get_all announced_def Let_def)
qed

text \<open>
  C12. When a TLS session corrupts memory. A round of a session faults exactly when the record received has at
  least eight bytes, the version and type of a diagnostic message, the session is activated, and the
  length announced in the header exceeds 4088; the length is never compared with what was received. Every
  other round returns, whatever the peer sends.
\<close>
theorem tls_session_faults_iff:
  assumes "m_read M 4096 w = (Inr d, w')" "length d \<le> 4096" "length buffer = 4096"
  shows "tls_handler_round M buffer h w = Fault \<longleftrightarrow>
    8 \<le> length d \<and> d ! 0 = 0x02 \<and> be16_val (d ! 2) (d ! 3) = DiagnosticMessage \<and> th_activated h \<and> 4088 < unat (announced d)"
proof -
  let ?b = "tls_buffer_after d buffer"
  have b: "length ?b = 4096" "12 \<le> length ?b"
    using assms(2,3) by (simp_all add: tls_buffer_after_def)
  have d: "?b ! 0 = d ! 0" "?b ! 2 = d ! 2" "?b ! 3 = d ! 3" "announced ?b = announced d" if "8 \<le> length d"
    using that by (auto simp: tls_buffer_after_def nth_append announced_def)
  show ?thesis
  proof (cases "8 \<le> length d \<and> d ! 0 = 0x02")
    case True
    have "\<not> 4088 < unat (announced d)" if "announced d < 5"
      using that by (simp add: word_less_nat_alt)
    then show ?thesis
      using True d b by (auto simp: tls_handler_round_eq [OF assms] tls_routing_activation_eq [OF b(2)]
          tls_diagnostic_message_eq [OF b(1), unfolded d(4) [OF True [THEN conjunct1]]] not_le)
  next
    case False
    then show ?thesis
      using d by (auto simp: tls_handler_round_eq [OF assms])
  qed
qed

text \<open>
  C13. What an activated session discloses. To a record of only twelve bytes, the header of a diagnostic message
  and its addresses, that announces up to 4088 bytes, the session answers with as many bytes of its buffer, that is of
  the messages received before.
\<close>
theorem tls_session_discloses_buffer:
  assumes "m_read M 4096 w = (Inr d, w')" "length buffer = 4096" "th_activated h"
    "d = [0x02, v] @ be16 DiagnosticMessage @ be32 (of_nat (4 + n)) @ be16 sa @ be16 ta" "0 < n" "n \<le> 4084"
  shows "tls_handler_round M buffer h w = Ret (Again (tls_buffer_after d buffer), h,
    snd (m_write M (doip_frame DiagnosticMessage (be16 ta @ be16 sa @ take n (drop 12 buffer))) w'))"
proof -
  let ?b = "tls_buffer_after d buffer"
  have len: "length d = 12"
    using assms(4) by simp
  have b: "length ?b = 4096" "12 \<le> length ?b" "drop 12 ?b = drop 12 buffer"
    using assms(2) len by (simp_all add: tls_buffer_after_def)
  obtain x0 x1 x2 x3 where l4: "be32 (of_nat (4 + n) :: u32) = [x0, x1, x2, x3]"
    by (simp add: be32_def)
  have bv: "?b = [0x02, v, 0x80, 0x01, x0, x1, x2, x3] @ be16 sa @ be16 ta @ drop 12 buffer"
  proof -
    have "?b = d @ drop 12 buffer"
      by (simp add: tls_buffer_after_def len)
    then show ?thesis
      unfolding assms(4) l4 by (simp add: be16_def)
  qed
  have "announced ?b = of_nat (4 + n)"
    using be32_val_nth [of "of_nat (4 + n) :: u32"] unfolding l4 by (simp add: bv announced_def nth_Cons')
  then have a: "unat (announced ?b) = 4 + n"
    using assms(6) by (simp only:) (intro unat_le_of_nat, simp)
  then have ge: "\<not> announced ?b < 5"
    using assms(5) by (simp add: word_less_nat_alt)
  have t: "be16_val (?b ! 2) (?b ! 3) = DiagnosticMessage" "?b ! 0 = 0x02"
    by (simp_all add: bv be16_val_def nth_Cons')
  have e: "echo ?b = doip_frame DiagnosticMessage (be16 ta @ be16 sa @ take n (drop 12 buffer))"
    unfolding echo_def a b(3) by (simp add: bv be16_def nth_Cons')
  show ?thesis
    using tls_handler_round_eq [OF assms(1) _ assms(2), of h] len t assms(3,6) a ge e
    by (simp add: tls_diagnostic_message_eq [OF b(1)])
qed

text \<open>A connection that delivers records one by one and keeps what is written.\<close>

definition record_conn :: "(bytes list \<times> bytes list) mbedtls_conn" where
  "record_conn = \<lparr>m_read = (\<lambda>n (i, out). case i of [] \<Rightarrow> (Inl 0, (i, out))
       | d # i \<Rightarrow> if length d \<le> n then (Inr d, (i, out)) else (Inr (take n d), (drop n d # i, out))),
     m_write = (\<lambda>d (i, out). (int (length d), (i, out @ [d])))\<rparr>"

theorem tls_session_faults_iff_witness:
  "tls_handler_round record_conn (replicate 4096 0) \<lparr>th_source = 0, th_activated = True\<rparr>
     ([[0x02, 0xFD, 0x80, 0x01, 0, 0, 0x0F, 0xF9]], []) = Fault"
proof (rule tls_session_faults_iff [THEN iffD2])
  let ?d = "[0x02, 0xFD, 0x80, 0x01, 0, 0, 0x0F, 0xF9] :: bytes"
  show "m_read record_conn 4096 ([?d], []) = (Inr ?d, ([], []))"
    by (simp add: record_conn_def)
  show "8 \<le> length ?d \<and> ?d ! 0 = 0x02 \<and> be16_val (?d ! 2) (?d ! 3) = DiagnosticMessage
      \<and> th_activated \<lparr>th_source = 0, th_activated = True\<rparr> \<and> 4088 < unat (announced ?d)"
    by (simp add: announced_def be16_val_def be32_val_def nth_Cons')
qed simp_all

theorem tls_session_discloses_buffer_witness:
  "\<exists>b. tls_handler_round record_conn (replicate 12 0 @ [0x2E, 0xF1, 0x90] @ replicate 4081 0) \<lparr>th_source = 0, th_activated = True\<rparr>
     ([[0x02, 0xFD] @ be16 DiagnosticMessage @ be32 (of_nat (4 + 3)) @ be16 0x0E80 @ be16 1], []) =
   Ret (Again b, \<lparr>th_source = 0, th_activated = True\<rparr>, ([], [doip_frame DiagnosticMessage (be16 1 @ be16 0x0E80 @ [0x2E, 0xF1, 0x90])]))"
proof -
  let ?d = "[0x02, 0xFD] @ be16 DiagnosticMessage @ be32 (of_nat (4 + 3)) @ be16 0x0E80 @ be16 1 :: bytes"
  let ?b = "replicate 12 0 @ [0x2E, 0xF1, 0x90] @ replicate 4081 0 :: bytes"
  have r: "m_read record_conn 4096 ([?d], []) = (Inr ?d, ([], []))" "length ?b = 4096"
    by (simp_all add: record_conn_def)
  have "take 3 (drop 12 ?b) = [0x2E, 0xF1, 0x90]"
    by simp
  then show ?thesis
    using tls_session_discloses_buffer [OF r, of "\<lparr>th_source = 0, th_activated = True\<rparr>" "0xFD" 3 "0x0E80" 1]
    by (simp add: record_conn_def)
qed

end
