(* ===== verification/TLS_Client.thy ===== *)
theory TLS_Client
  imports TLS_Server
begin

text \<open>
  The code over mbedTLS: \<^verbatim>\<open>vehicle_gateway/common/mbedtls_doip.c\<close> (server and client), the client of the zonal
  gateway \<^verbatim>\<open>zonal_gateway/tc375/src/doip_client_mbedtls.c\<close>, and the class \<^verbatim>\<open>TC375_DoIP_Client\<close> of
  \<^verbatim>\<open>tc375_simulator/src/doip_client_mbedtls.cpp\<close>. The library is a record of calls over a world \<open>'w\<close> that holds
  its contexts; log output is left out.
\<close>

section \<open>The library\<close>

text \<open>The contexts a structure holds, as names for the calls that initialise and release them.\<close>

datatype mb_context = NET | ENTROPY | CTR_DRBG | SSL | CONF | OWN_CERT | CA_CERT | PKEY

record 'w mbedtls =
  mb_init :: "mb_context \<Rightarrow> 'w \<Rightarrow> 'w"
  mb_free :: "mb_context \<Rightarrow> 'w \<Rightarrow> 'w"
  mb_seed :: "string \<Rightarrow> 'w \<Rightarrow> int \<times> 'w"
  mb_parse_crt :: "mb_context \<Rightarrow> string \<Rightarrow> 'w \<Rightarrow> int \<times> 'w"
  mb_parse_key :: "string \<Rightarrow> 'w \<Rightarrow> int \<times> 'w"
  mb_net_connect :: "string \<Rightarrow> u16 \<Rightarrow> 'w \<Rightarrow> int \<times> 'w"
  mb_net_bind :: "u16 \<Rightarrow> 'w \<Rightarrow> int \<times> 'w"
  mb_net_accept :: "'w \<Rightarrow> int \<times> 'w"
  mb_net_free_client :: "'w \<Rightarrow> 'w"
  mb_config_defaults :: "bool \<Rightarrow> 'w \<Rightarrow> int \<times> 'w"
  mb_conf_tls13 :: "'w \<Rightarrow> 'w"
  mb_conf_authmode :: "'w \<Rightarrow> 'w"
  mb_conf_ca_chain :: "'w \<Rightarrow> 'w"
  mb_conf_rng :: "'w \<Rightarrow> 'w"
  mb_conf_dbg :: "'w \<Rightarrow> 'w"
  mb_conf_own_cert :: "'w \<Rightarrow> int \<times> 'w"
  mb_ssl_setup :: "'w \<Rightarrow> int \<times> 'w"
  mb_set_hostname :: "string \<Rightarrow> 'w \<Rightarrow> int \<times> 'w"
  mb_set_bio :: "'w \<Rightarrow> 'w"
  mb_handshake :: "'w \<Rightarrow> int \<times> 'w"
  mb_want_read :: int
  mb_want_write :: int
  mb_close_notify_code :: int
  mb_verify_result :: "'w \<Rightarrow> u32"
  mb_close_notify :: "'w \<Rightarrow> 'w"
  mb_conn :: "'w mbedtls_conn"

text \<open>
  The set-up functions are sequences of calls that stop at the first code that is not 0;
  \<open>always\<close> is a call without a result.
\<close>

fun run_calls :: "('w \<Rightarrow> int \<times> 'w) list \<Rightarrow> 'w \<Rightarrow> bool \<times> 'w" where
  "run_calls [] w = (True, w)"
| "run_calls (f # fs) w = (let (ret, w) = f w in if ret \<noteq> 0 then (False, w) else run_calls fs w)"

definition always :: "('w \<Rightarrow> 'w) \<Rightarrow> 'w \<Rightarrow> int \<times> 'w" where
  "always f w = (0, f w)"

text \<open>The handshake is repeated while it asks for more input or output: \<open>None\<close> when that never ends.\<close>

partial_function (option) handshake_loop :: "'w mbedtls \<Rightarrow> 'w \<Rightarrow> (bool \<times> 'w) option" where
  "handshake_loop B w =
     (let (ret, w) = mb_handshake B w
      in if ret = 0 then Some (True, w)
         else if ret \<noteq> mb_want_read B \<and> ret \<noteq> mb_want_write B then Some (False, w)
         else handshake_loop B w)"

definition handshake :: "'w mbedtls \<Rightarrow> 'w \<Rightarrow> (bool \<times> 'w) cexec" where
  "handshake B w = (case handshake_loop B w of None \<Rightarrow> Hang | Some r \<Rightarrow> Ret r)"

section \<open>The server and the client of \<^verbatim>\<open>mbedtls_doip.c\<close>\<close>

definition mbedtls_doip_server_init ::
  "'w mbedtls \<Rightarrow> string \<Rightarrow> string \<Rightarrow> string \<Rightarrow> u16 \<Rightarrow> 'w \<Rightarrow> int \<times> 'w" where
  "mbedtls_doip_server_init B cert_file key_file ca_file port w =
     (let w = fold (mb_init B) [NET, CONF, OWN_CERT, PKEY, CA_CERT, ENTROPY, CTR_DRBG] w;
          (r, w) = run_calls [mb_seed B ''doip_server'', mb_parse_crt B OWN_CERT cert_file, mb_parse_key B key_file,
            mb_parse_crt B CA_CERT ca_file, mb_config_defaults B True, always (mb_conf_tls13 B), always (mb_conf_rng B),
            always (mb_conf_dbg B), always (mb_conf_ca_chain B), always (mb_conf_authmode B), mb_conf_own_cert B,
            mb_net_bind B port] w
      in (if r then 0 else -1, w))"

definition mbedtls_doip_server_accept :: "'w mbedtls \<Rightarrow> 'w \<Rightarrow> (int \<times> 'w) cexec" where
  "mbedtls_doip_server_accept B w =
     (let w = mb_init B SSL w; (ret, w) = mb_net_accept B w
      in if ret \<noteq> 0 then Ret (-1, w)
         else let (ret, w) = mb_ssl_setup B w
         in if ret \<noteq> 0 then Ret (-1, mb_net_free_client B w)
         else cbind (handshake B (mb_set_bio B w)) (\<lambda>(r, w).
           if \<not> r then Ret (-1, mb_free B SSL (mb_net_free_client B w)) else Ret (0, w)))"

definition mbedtls_doip_server_free :: "'w mbedtls \<Rightarrow> 'w \<Rightarrow> 'w" where
  "mbedtls_doip_server_free B w = fold (mb_free B) [NET, OWN_CERT, PKEY, CA_CERT, CONF, CTR_DRBG, ENTROPY] w"

definition mbedtls_doip_client_init ::
  "'w mbedtls \<Rightarrow> string \<Rightarrow> u16 \<Rightarrow> string \<Rightarrow> string \<Rightarrow> string \<Rightarrow> 'w \<Rightarrow> (int \<times> 'w) cexec" where
  "mbedtls_doip_client_init B host port cert_file key_file ca_file w =
     (let w = fold (mb_init B) [NET, SSL, CONF, CA_CERT, OWN_CERT, PKEY, CTR_DRBG, ENTROPY] w;
          (r, w) = run_calls [mb_seed B ''doip_client'', mb_parse_crt B CA_CERT ca_file, mb_parse_crt B OWN_CERT cert_file,
            mb_parse_key B key_file, mb_net_connect B host port, mb_config_defaults B False, always (mb_conf_tls13 B),
            always (mb_conf_authmode B), always (mb_conf_ca_chain B), always (mb_conf_rng B), always (mb_conf_dbg B),
            mb_conf_own_cert B, mb_ssl_setup B, mb_set_hostname B host, always (mb_set_bio B)] w
      in if \<not> r then Ret (-1, w)
         else cbind (handshake B w) (\<lambda>(r, w).
           if \<not> r then Ret (-1, w) else if mb_verify_result B w \<noteq> 0 then Ret (-1, w) else Ret (0, w)))"

text \<open>A write or read of the library: its result, with the bytes read.\<close>

definition mbedtls_doip_client_write :: "'w mbedtls \<Rightarrow> bytes \<Rightarrow> 'w \<Rightarrow> int \<times> 'w" where
  "mbedtls_doip_client_write B buf w = m_write (mb_conn B) buf w"

definition mbedtls_doip_client_read :: "'w mbedtls \<Rightarrow> nat \<Rightarrow> 'w \<Rightarrow> (int + bytes) \<times> 'w" where
  "mbedtls_doip_client_read B len w = m_read (mb_conn B) len w"

definition mbedtls_doip_client_free :: "'w mbedtls \<Rightarrow> 'w \<Rightarrow> 'w" where
  "mbedtls_doip_client_free B w =
     fold (mb_free B) [NET, OWN_CERT, CA_CERT, PKEY, SSL, CONF, CTR_DRBG, ENTROPY] (mb_close_notify B w)"

section \<open>The client of the zonal gateway\<close>

text \<open>\<open>mem\<close> tells whether \<^verbatim>\<open>malloc\<close> succeeds; the client is \<open>Some ()\<close> while the pointer is not null.\<close>

definition doip_client_mbedtls_free :: "'w mbedtls \<Rightarrow> unit option \<Rightarrow> 'w \<Rightarrow> 'w" where
  "doip_client_mbedtls_free B client w =
     (case client of
        None \<Rightarrow> w
      | Some _ \<Rightarrow> fold (mb_free B) [NET, CA_CERT, OWN_CERT, PKEY, SSL, CONF, CTR_DRBG, ENTROPY] (mb_close_notify B w))"

definition doip_client_mbedtls_init ::
  "'w mbedtls \<Rightarrow> bool \<Rightarrow> string \<Rightarrow> u16 \<Rightarrow> string \<Rightarrow> string \<Rightarrow> string \<Rightarrow> 'w \<Rightarrow> (int \<times> unit option \<times> 'w) cexec" where
  "doip_client_mbedtls_init B mem vmg_host vmg_port cert_file key_file ca_file w =
     (if \<not> mem then Ret (-1, None, w)
      else
        let w = fold (mb_init B) [NET, SSL, CONF, CA_CERT, OWN_CERT, PKEY, ENTROPY, CTR_DRBG] w;
            (r, w) = run_calls [mb_seed B ''doip_client'', mb_parse_crt B CA_CERT ca_file, mb_parse_crt B OWN_CERT cert_file,
              mb_parse_key B key_file, mb_net_connect B vmg_host vmg_port, mb_config_defaults B False,
              always (mb_conf_authmode B), always (mb_conf_ca_chain B), always (snd \<circ> mb_conf_own_cert B), always (mb_conf_rng B),
              mb_ssl_setup B, always (mb_set_bio B)] w
        in if \<not> r then Ret (-1, None, doip_client_mbedtls_free B (Some ()) w)
           else cbind (handshake B w) (\<lambda>(r, w).
             if \<not> r then Ret (-1, None, doip_client_mbedtls_free B (Some ()) w) else Ret (0, Some (), w)))"

definition doip_client_mbedtls_send :: "'w mbedtls \<Rightarrow> unit option \<Rightarrow> bytes \<Rightarrow> 'w \<Rightarrow> int \<times> 'w" where
  "doip_client_mbedtls_send B client data w =
     (case client of
        None \<Rightarrow> (-1, w)
      | Some _ \<Rightarrow> let (ret, w) = m_write (mb_conn B) data w in (if ret < 0 then -1 else ret, w))"

definition doip_client_mbedtls_receive ::
  "'w mbedtls \<Rightarrow> unit option \<Rightarrow> bytes \<Rightarrow> 'w \<Rightarrow> (int \<times> bytes \<times> 'w) cexec" where
  "doip_client_mbedtls_receive B client buffer w =
     (case client of
        None \<Rightarrow> Ret (-1, buffer, w)
      | Some _ \<Rightarrow>
          (case m_read (mb_conn B) (length buffer) w of
             (Inl ret, w) \<Rightarrow> Ret (if ret = mb_close_notify_code B then 0 else if ret < 0 then -1 else ret, buffer, w)
           | (Inr d, w) \<Rightarrow> cbind (buf_write buffer 0 d) (\<lambda>buffer. Ret (int (length d), buffer, w))))"

section \<open>The client of the simulator\<close>

record TC375_DoIP_Client =
  tc_source :: u16
  tc_connected :: bool
  tc_routing :: bool

definition tc375_doip_client :: "'w mbedtls \<Rightarrow> u16 \<Rightarrow> 'w \<Rightarrow> TC375_DoIP_Client \<times> 'w" where
  "tc375_doip_client B src_addr w =
     (\<lparr>tc_source = src_addr, tc_connected = False, tc_routing = False\<rparr>,
      fold (mb_init B) [NET, SSL, CONF, CA_CERT, OWN_CERT, PKEY, CTR_DRBG, ENTROPY] w)"

definition tc375_connect ::
  "'w mbedtls \<Rightarrow> string \<Rightarrow> u16 \<Rightarrow> string \<Rightarrow> string \<Rightarrow> string \<Rightarrow> TC375_DoIP_Client \<Rightarrow> 'w \<Rightarrow> (bool \<times> TC375_DoIP_Client \<times> 'w) cexec" where
  "tc375_connect B host port cert_file key_file ca_file c w =
     (let (r, w) = run_calls [mb_seed B ''tc375_client'', mb_parse_crt B CA_CERT ca_file, mb_parse_crt B OWN_CERT cert_file,
            mb_parse_key B key_file, mb_net_connect B host port, mb_config_defaults B False, always (mb_conf_tls13 B),
            always (mb_conf_authmode B), always (mb_conf_ca_chain B), always (mb_conf_rng B), mb_conf_own_cert B,
            mb_ssl_setup B, mb_set_hostname B host, always (mb_set_bio B)] w
      in if \<not> r then Ret (False, c, w)
         else cbind (handshake B w) (\<lambda>(r, w).
           if \<not> r then Ret (False, c, w)
           else if mb_verify_result B w \<noteq> 0 then Ret (False, c, w) else Ret (True, c\<lparr>tc_connected := True\<rparr>, w)))"

definition tc375_disconnect :: "'w mbedtls \<Rightarrow> TC375_DoIP_Client \<Rightarrow> 'w \<Rightarrow> TC375_DoIP_Client \<times> 'w" where
  "tc375_disconnect B c w =
     (let w = (if tc_connected c then mb_close_notify B w else w)
      in (c\<lparr>tc_connected := False, tc_routing := False\<rparr>,
          fold (mb_free B) [NET, OWN_CERT, CA_CERT, PKEY, SSL, CONF, CTR_DRBG, ENTROPY] w))"

text \<open>\<open>stack\<close> is the response array of 256 bytes before the call; the result code is read at index 12.\<close>

definition tc375_send_routing_activation ::
  "'w mbedtls \<Rightarrow> bytes \<Rightarrow> TC375_DoIP_Client \<Rightarrow> 'w \<Rightarrow> (bool \<times> TC375_DoIP_Client \<times> 'w) cexec" where
  "tc375_send_routing_activation B stack c w =
     (if \<not> tc_connected c then Ret (False, c, w)
      else
        let plen = 7 :: u32;
            packet = [0x02, 0xFD] @ [0x00, 0x05]
              @ [ucast (drop_bit 24 plen), ucast (drop_bit 16 plen), ucast (drop_bit 8 plen), ucast plen]
              @ [ucast (drop_bit 8 (tc_source c)), ucast (tc_source c)] @ [0x00, 0x00, 0x00, 0x00, 0x00];
            (ret, w) = m_write (mb_conn B) packet w
        in if ret < 0 then Ret (False, c, w)
           else (case m_read (mb_conn B) (length stack) w of
             (Inl _, w) \<Rightarrow> Ret (False, c, w)
           | (Inr d, w) \<Rightarrow>
               cbind (buf_write stack 0 d) (\<lambda>response.
               if length d < 8 then Ret (False, c, w)
               else
                 cbind (buf_get response 2) (\<lambda>r2. cbind (buf_get response 3) (\<lambda>r3.
                 if be16_val r2 r3 = RoutingActivationRes
                 then cbind (buf_get response 12) (\<lambda>result_code.
                      if result_code = 0x10 then Ret (True, c\<lparr>tc_routing := True\<rparr>, w) else Ret (False, c, w))
                 else Ret (False, c, w))))))"

text \<open>The packet is a local array of 4096 bytes.\<close>

definition tc375_send_diagnostic_message ::
  "'w mbedtls \<Rightarrow> bytes \<Rightarrow> TC375_DoIP_Client \<Rightarrow> 'w \<Rightarrow> (bool \<times> 'w) cexec" where
  "tc375_send_diagnostic_message B data c w =
     (if \<not> tc_routing c then Ret (False, w)
      else
        let plen = of_nat (4 + length data) :: u32;
            header = [0x02, 0xFD] @ [0x80, 0x01]
              @ [ucast (drop_bit 24 plen), ucast (drop_bit 16 plen), ucast (drop_bit 8 plen), ucast plen]
              @ [ucast (drop_bit 8 (tc_source c)), ucast (tc_source c)] @ [0x00, 0x01]
        in if 4096 < length header + length data then Fault
           else let (ret, w) = m_write (mb_conn B) (header @ data) w in Ret (ret > 0, w))"

section \<open>A client and a session\<close>

text \<open>
  The session of the gateway at the other end of the connection: each record written is served in one round, and
  what the session wrote is read record by record. A session that faults drops the connection.
\<close>

type_synonym tls_session = "bytes \<times> DoIPHandler \<times> bytes list"

definition session_write :: "bytes \<Rightarrow> tls_session \<Rightarrow> int \<times> tls_session" where
  "session_write d = (\<lambda>(b, h, out). case tls_handler_round record_conn b h ([d], out) of
     Ret (Again b, h, (_, out)) \<Rightarrow> (int (length d), (b, h, out))
   | _ \<Rightarrow> (-1, (b, h, out)))"

definition session_read :: "nat \<Rightarrow> tls_session \<Rightarrow> (int + bytes) \<times> tls_session" where
  "session_read n = (\<lambda>(b, h, out). case out of
     [] \<Rightarrow> (Inl 0, (b, h, []))
   | d # out \<Rightarrow> if length d \<le> n then (Inr d, (b, h, out)) else (Inr (take n d), (b, h, drop n d # out)))"

definition session_conn :: "tls_session mbedtls_conn" where
  "session_conn = \<lparr>m_read = session_read, m_write = session_write\<rparr>"

lemma record_conn_read: "length d \<le> n \<Longrightarrow> m_read record_conn n (d # i, out) = (Inr d, (i, out))"
  by (simp add: record_conn_def)

lemma record_conn_write [simp]: "m_write record_conn d (i, out) = (int (length d), (i, out @ [d]))"
  by (simp add: record_conn_def)

lemmas session_round = tls_handler_round_eq [where M = record_conn and w = "([d], out)" and w' = "([], out)" and d = d for d out, OF record_conn_read]

lemma received_frame:
  fixes t :: u16
  assumes "length b = 4096" "8 + length d \<le> 4096"
  defines "r \<equiv> tls_buffer_after (doip_frame t d) b"
  shows "length r = 4096" "r ! 0 = 0x02" "be16_val (r ! 2) (r ! 3) = t" "announced r = of_nat (length d)"
    "drop 8 r = d @ drop (8 + length d) b" "\<And>i. i < length d \<Longrightarrow> r ! (8 + i) = d ! i"
proof -
  have r: "r = doip_frame t d @ drop (8 + length d) b"
    by (simp add: r_def tls_buffer_after_def)
  show "length r = 4096"
    using assms(1,2) by (simp add: r)
  show "r ! 0 = 0x02" "be16_val (r ! 2) (r ! 3) = t"
    by (simp_all add: r doip_frame_def be16_def be32_def nth_Cons' wire_simps)
  show "announced r = of_nat (length d)"
    by (simp add: r)
  show d: "drop 8 r = d @ drop (8 + length d) b"
    by (simp add: r doip_frame_def)
  show "r ! (8 + i) = d ! i" if "i < length d" for i
    using arg_cong [OF d, of "\<lambda>x. x ! i"] that assms(2) \<open>length r = 4096\<close> by (simp add: nth_append)
qed

lemma session_activation:
  assumes "length b = 4096"
  shows "session_write (doip_frame RoutingActivationReq (be16 sa @ [0, 0, 0, 0, 0])) (b, h, out) =
    (15, (tls_buffer_after (doip_frame RoutingActivationReq (be16 sa @ [0, 0, 0, 0, 0])) b, \<lparr>th_source = sa, th_activated = True\<rparr>,
      out @ [doip_frame RoutingActivationRes (be16 sa @ [0x00, 0x01, 0x10, 0, 0, 0, 0])]))"
proof -
  let ?d = "be16 sa @ [0, 0, 0, 0, 0] :: bytes"
  let ?r = "tls_buffer_after (doip_frame RoutingActivationReq ?d) b"
  note r = received_frame [OF assms, where d = ?d and t = RoutingActivationReq]
  have n: "?r ! 8 = ucast (drop_bit 8 sa)" "?r ! 9 = ucast sa"
    using r(6) [of 0] r(6) [of 1] by (simp_all add: be16_def)
  have "h\<lparr>th_source := sa, th_activated := True\<rparr> = \<lparr>th_source = sa, th_activated = True\<rparr>"
    by simp
  then show ?thesis
    using r(1-4) n assms
    by (simp add: session_write_def session_round tls_routing_activation_eq be16_val_be16 be16_def)
qed

lemma session_diagnostic:
  assumes "length b = 4096" "th_activated h" "0 < length data" "length data \<le> 4084"
  shows "session_write (doip_frame DiagnosticMessage (be16 sa @ be16 ta @ data)) (b, h, out) =
    (int (12 + length data), (tls_buffer_after (doip_frame DiagnosticMessage (be16 sa @ be16 ta @ data)) b, h,
      out @ [doip_frame DiagnosticMessage (be16 ta @ be16 sa @ data)]))"
proof -
  let ?d = "be16 sa @ be16 ta @ data"
  let ?r = "tls_buffer_after (doip_frame DiagnosticMessage ?d) b"
  have r: "length ?r = 4096" "?r ! 0 = 0x02" "be16_val (?r ! 2) (?r ! 3) = DiagnosticMessage"
    "announced ?r = of_nat (length ?d)" "drop 8 ?r = ?d @ drop (8 + length ?d) b"
    "\<And>i. i < length ?d \<Longrightarrow> ?r ! (8 + i) = ?d ! i"
    using received_frame [OF assms(1), where d = ?d and t = DiagnosticMessage] assms(4) by simp_all
  have u: "unat (announced ?r) = 4 + length data"
    unfolding r(4) using assms(4) by (subst unat_le_of_nat) simp_all
  then have ge: "\<not> announced ?r < 5"
    using assms(3) by (simp add: word_less_nat_alt)
  have n: "[?r ! 10, ?r ! 11, ?r ! 8, ?r ! 9] = be16 ta @ be16 sa"
    using r(6) [of 0] r(6) [of 1] r(6) [of 2] r(6) [of 3] by (simp add: be16_def)
  have "drop 12 ?r = drop 4 (drop 8 ?r)"
    by simp
  also have "\<dots> = data @ drop (8 + length ?d) b"
    unfolding r(5) by simp
  finally have e: "echo ?r = doip_frame DiagnosticMessage (be16 ta @ be16 sa @ data)"
    unfolding echo_def u n by simp
  show ?thesis
    using r(1-3) u ge e assms
    by (simp add: session_write_def session_round tls_diagnostic_message_eq)
qed


text \<open>
  The client's own packet buffer: more than 4084 bytes of data are copied past its end.
\<close>

lemma tc375_send_faults_iff:
  "tc375_send_diagnostic_message B data c w = Fault \<longleftrightarrow> tc_routing c \<and> 4084 < length data"
  by (auto simp: tc375_send_diagnostic_message_def Let_def split_def)

text \<open>A library whose calls succeed, but for the seeding, and leave the world alone, but for the contexts.\<close>

definition plain_mbedtls ::
  "(mb_context \<Rightarrow> 'w \<Rightarrow> 'w) \<Rightarrow> (mb_context \<Rightarrow> 'w \<Rightarrow> 'w) \<Rightarrow> int \<Rightarrow> 'w mbedtls_conn \<Rightarrow> 'w mbedtls" where
  "plain_mbedtls init free seed conn = \<lparr>mb_init = init, mb_free = free, mb_seed = (\<lambda>_ w. (seed, w)), mb_parse_crt = (\<lambda>_ _ w. (0, w)),
     mb_parse_key = (\<lambda>_ w. (0, w)), mb_net_connect = (\<lambda>_ _ w. (0, w)), mb_net_bind = (\<lambda>_ w. (0, w)), mb_net_accept = (\<lambda>w. (0, w)),
     mb_net_free_client = (\<lambda>w. w), mb_config_defaults = (\<lambda>_ w. (0, w)), mb_conf_tls13 = (\<lambda>w. w), mb_conf_authmode = (\<lambda>w. w),
     mb_conf_ca_chain = (\<lambda>w. w), mb_conf_rng = (\<lambda>w. w), mb_conf_dbg = (\<lambda>w. w), mb_conf_own_cert = (\<lambda>w. (0, w)),
     mb_ssl_setup = (\<lambda>w. (0, w)), mb_set_hostname = (\<lambda>_ w. (0, w)), mb_set_bio = (\<lambda>w. w), mb_handshake = (\<lambda>w. (0, w)),
     mb_want_read = -26880, mb_want_write = -26752, mb_close_notify_code = -30848, mb_verify_result = (\<lambda>w. 0),
     mb_close_notify = (\<lambda>w. w), mb_conn = conn\<rparr>"

definition session_mbedtls :: "tls_session mbedtls" where
  "session_mbedtls = plain_mbedtls (\<lambda>_ w. w) (\<lambda>_ w. w) 0 session_conn"


section \<open>The handshake\<close>

definition wants_more :: "'w mbedtls \<Rightarrow> int \<Rightarrow> bool" where
  "wants_more B ret \<longleftrightarrow> ret \<noteq> 0 \<and> (ret = mb_want_read B \<or> ret = mb_want_write B)"

lemma handshake_loop_step:
  "handshake_loop B w = (if wants_more B (fst (mb_handshake B w)) then handshake_loop B (snd (mb_handshake B w))
     else Some (fst (mb_handshake B w) = 0, snd (mb_handshake B w)))"
  by (subst handshake_loop.simps) (auto simp: wants_more_def split_def Let_def)

abbreviation handshake_body :: "('w mbedtls \<Rightarrow> 'w \<Rightarrow> (bool \<times> 'w) option) \<Rightarrow> 'w mbedtls \<Rightarrow> 'w \<Rightarrow> (bool \<times> 'w) option" where
  "handshake_body loop B w \<equiv> (let (ret, w) = mb_handshake B w
      in if ret = 0 then Some (True, w)
         else if ret \<noteq> mb_want_read B \<and> ret \<noteq> mb_want_write B then Some (False, w) else loop B w)"

lemma handshake_loop_ends:
  assumes "handshake_loop B w = Some r"
  shows "\<exists>n. \<not> wants_more B (fst (mb_handshake B (((snd \<circ> mb_handshake B) ^^ n) w)))"
proof (rule handshake_loop.raw_induct [OF _ assms])
  fix loop B w r
  assume IH: "\<And>B w r. loop B w = Some r \<Longrightarrow> \<exists>n. \<not> wants_more B (fst (mb_handshake B (((snd \<circ> mb_handshake B) ^^ n) w)))"
    and eq: "handshake_body loop B w = Some r"
  show "\<exists>n. \<not> wants_more B (fst (mb_handshake B (((snd \<circ> mb_handshake B) ^^ n) w)))"
  proof (cases "wants_more B (fst (mb_handshake B w))")
    case True
    then have "loop B (snd (mb_handshake B w)) = Some r"
      using eq by (auto simp: wants_more_def split_def Let_def)
    from IH [OF this] obtain n where "\<not> wants_more B (fst (mb_handshake B (((snd \<circ> mb_handshake B) ^^ n) (snd (mb_handshake B w)))))"
      by blast
    then show ?thesis
      by (intro exI [of _ "Suc n"]) (simp add: funpow_Suc_right del: funpow.simps)
  next
    case False
    then show ?thesis
      by (intro exI [of _ 0]) simp
  qed
qed

text \<open>
  The set-up of a TLS connection returns exactly when the library stops asking for more: nothing else
  bounds the number of rounds of the handshake, of the client as of the server, so a peer that stays silent holds the
  caller for ever.
\<close>
theorem tls_handshake_returns_iff:
  "handshake B w \<noteq> Hang \<longleftrightarrow> (\<exists>n. \<not> wants_more B (fst (mb_handshake B (((snd \<circ> mb_handshake B) ^^ n) w))))"
proof
  assume "handshake B w \<noteq> Hang"
  then obtain r where "handshake_loop B w = Some r"
    by (auto simp: handshake_def split: option.splits)
  then show "\<exists>n. \<not> wants_more B (fst (mb_handshake B (((snd \<circ> mb_handshake B) ^^ n) w)))"
    by (rule handshake_loop_ends)
next
  assume "\<exists>n. \<not> wants_more B (fst (mb_handshake B (((snd \<circ> mb_handshake B) ^^ n) w)))"
  then obtain n where "\<not> wants_more B (fst (mb_handshake B (((snd \<circ> mb_handshake B) ^^ n) w)))" ..
  then have "handshake_loop B w \<noteq> None"
  proof (induction n arbitrary: w)
    case 0
    then show ?case by (subst handshake_loop_step) simp
  next
    case (Suc n)
    then show ?case
      by (subst handshake_loop_step) (simp add: funpow_Suc_right del: funpow.simps)
  qed
  then show "handshake B w \<noteq> Hang"
    by (auto simp: handshake_def)
qed

section \<open>Contexts\<close>

text \<open>What the library's documentation says of its contexts: \<open>live\<close> are those initialised and not released.\<close>

definition mb_keeps :: "('w \<Rightarrow> mb_context set) \<Rightarrow> ('w \<Rightarrow> 'w) \<Rightarrow> bool" where
  "mb_keeps live f \<longleftrightarrow> (\<forall>w. live (f w) = live w)"

definition tracks_contexts :: "'w mbedtls \<Rightarrow> ('w \<Rightarrow> mb_context set) \<Rightarrow> bool" where
  "tracks_contexts B live \<longleftrightarrow>
     (\<forall>x w. live (mb_init B x w) = insert x (live w)) \<and> (\<forall>x w. live (mb_free B x w) = live w - {x})
   \<and> (\<forall>s. mb_keeps live (snd \<circ> mb_seed B s)) \<and> (\<forall>x s. mb_keeps live (snd \<circ> mb_parse_crt B x s))
   \<and> (\<forall>s. mb_keeps live (snd \<circ> mb_parse_key B s)) \<and> (\<forall>s p. mb_keeps live (snd \<circ> mb_net_connect B s p))
   \<and> (\<forall>b. mb_keeps live (snd \<circ> mb_config_defaults B b)) \<and> mb_keeps live (mb_conf_tls13 B) \<and> mb_keeps live (mb_conf_authmode B)
   \<and> mb_keeps live (mb_conf_ca_chain B) \<and> mb_keeps live (mb_conf_rng B) \<and> mb_keeps live (mb_conf_dbg B)
   \<and> mb_keeps live (snd \<circ> mb_conf_own_cert B) \<and> mb_keeps live (snd \<circ> mb_ssl_setup B)
   \<and> (\<forall>s. mb_keeps live (snd \<circ> mb_set_hostname B s)) \<and> mb_keeps live (mb_set_bio B)
   \<and> mb_keeps live (snd \<circ> mb_handshake B) \<and> mb_keeps live (mb_close_notify B)"

lemma run_calls_keeps: "\<forall>f \<in> set fs. mb_keeps live (snd \<circ> f) \<Longrightarrow> live (snd (run_calls fs w)) = live w"
  by (induction fs arbitrary: w) (auto simp: mb_keeps_def split_def Let_def)

lemma handshake_loop_keeps:
  assumes "handshake_loop B w = Some r" "mb_keeps live (snd \<circ> mb_handshake B)"
  shows "live (snd r) = live w"
proof -
  have "mb_keeps live (snd \<circ> mb_handshake B) \<longrightarrow> live (snd r) = live w"
  proof (rule handshake_loop.raw_induct [OF _ assms(1)])
    fix loop B w r
    assume IH: "\<And>B w r. loop B w = Some r \<Longrightarrow> mb_keeps live (snd \<circ> mb_handshake B) \<longrightarrow> live (snd r) = live w"
      and eq: "handshake_body loop B w = Some r"
    show "mb_keeps live (snd \<circ> mb_handshake B) \<longrightarrow> live (snd r) = live w"
    proof
      assume k: "mb_keeps live (snd \<circ> mb_handshake B)"
      then have "live (snd (mb_handshake B w)) = live w"
        by (simp add: mb_keeps_def)
      moreover have "loop B (snd (mb_handshake B w)) = Some r \<or> snd r = snd (mb_handshake B w)"
        using eq by (auto simp: split_def Let_def split: if_splits)
      moreover have "live (snd r) = live (snd (mb_handshake B w))" if "loop B (snd (mb_handshake B w)) = Some r"
        using IH [OF that] k by (rule mp)
      ultimately show "live (snd r) = live w" by (elim disjE) simp_all
    qed
  qed
  with assms(2) show ?thesis by simp
qed

lemma handshake_keeps: "handshake B w = Ret (r, w') \<Longrightarrow> mb_keeps live (snd \<circ> mb_handshake B) \<Longrightarrow> live w' = live w"
  using handshake_loop_keeps [of B w "(r, w')"] by (auto simp: handshake_def split: option.splits)

lemma live_fold_init: "tracks_contexts B live \<Longrightarrow> live (fold (mb_init B) xs w) = set xs \<union> live w"
  by (induction xs arbitrary: w) (auto simp: tracks_contexts_def)

lemma live_fold_free: "tracks_contexts B live \<Longrightarrow> live (fold (mb_free B) xs w) = live w - set xs"
  by (induction xs arbitrary: w) (auto simp: tracks_contexts_def)

lemma all_contexts: "x \<in> set [NET, SSL, CONF, CA_CERT, OWN_CERT, PKEY, CTR_DRBG, ENTROPY]"
  by (cases x) simp_all

lemma keeps_always: "mb_keeps live (snd \<circ> always f) = mb_keeps live f"
  by (simp add: mb_keeps_def always_def)

lemma tracks_keeps:
  assumes "tracks_contexts B live"
  shows "mb_keeps live (snd \<circ> mb_seed B s)" "mb_keeps live (snd \<circ> mb_parse_crt B x s)" "mb_keeps live (snd \<circ> mb_parse_key B s)"
    "mb_keeps live (snd \<circ> mb_net_connect B s p)" "mb_keeps live (snd \<circ> mb_config_defaults B b)" "mb_keeps live (mb_conf_tls13 B)"
    "mb_keeps live (mb_conf_authmode B)" "mb_keeps live (mb_conf_ca_chain B)" "mb_keeps live (mb_conf_rng B)"
    "mb_keeps live (mb_conf_dbg B)" "mb_keeps live (snd \<circ> mb_conf_own_cert B)" "mb_keeps live (snd \<circ> mb_ssl_setup B)"
    "mb_keeps live (snd \<circ> mb_set_hostname B s)" "mb_keeps live (mb_set_bio B)" "mb_keeps live (snd \<circ> mb_handshake B)"
    "live (mb_close_notify B w) = live w"
  using assms unfolding tracks_contexts_def mb_keeps_def by simp_all

lemma free_all:
  assumes "tracks_contexts B live"
  shows "live (doip_client_mbedtls_free B (Some ()) w) = {}"
  unfolding doip_client_mbedtls_free_def option.case live_fold_free [OF assms]
  using all_contexts by fastforce

text \<open>
  What a failed set-up leaves behind. When the client of the zonal gateway cannot be set up, whichever call fails,
  every context is released again and the pointer is null. When the client of \<^verbatim>\<open>mbedtls_doip.c\<close>
  cannot be set up, all eight contexts stay initialised, the connection included.
\<close>
theorem tls_client_failed_setup:
  assumes "tracks_contexts B live" "live w = {}"
  shows "(\<forall>c w'. doip_client_mbedtls_init B mem host port cert key ca w = Ret (-1, c, w') \<longrightarrow> c = None \<and> live w' = {})
    \<and> (\<forall>w'. mbedtls_doip_client_init B host port cert key ca w = Ret (-1, w') \<longrightarrow> live w' = UNIV)"
proof (intro conjI allI impI)
  fix c w'
  assume "doip_client_mbedtls_init B mem host port cert key ca w = Ret (-1, c, w')"
  then show "c = None" "live w' = {}"
    using free_all [OF assms(1)] assms(2)
    by (auto simp: doip_client_mbedtls_init_def Let_def split_def cbind_Ret_iff simp del: fold_simps split: if_splits)
next
  fix w'
  let ?w = "fold (mb_init B) [NET, SSL, CONF, CA_CERT, OWN_CERT, PKEY, CTR_DRBG, ENTROPY] w"
  let ?calls = "[mb_seed B ''doip_client'', mb_parse_crt B CA_CERT ca, mb_parse_crt B OWN_CERT cert,
            mb_parse_key B key, mb_net_connect B host port, mb_config_defaults B False, always (mb_conf_tls13 B),
            always (mb_conf_authmode B), always (mb_conf_ca_chain B), always (mb_conf_rng B), always (mb_conf_dbg B),
            mb_conf_own_cert B, mb_ssl_setup B, mb_set_hostname B host, always (mb_set_bio B)]"
  let ?r = "run_calls ?calls ?w"
  assume a: "mbedtls_doip_client_init B host port cert key ca w = Ret (-1, w')"
  have i: "live ?w = UNIV"
    unfolding live_fold_init [OF assms(1)] using all_contexts by blast
  have "\<forall>f \<in> set ?calls. mb_keeps live (snd \<circ> f)"
    using tracks_keeps [OF assms(1)] by (simp add: keeps_always)
  from run_calls_keeps [OF this, of ?w] i have c: "live (snd ?r) = UNIV" by simp
  have "mbedtls_doip_client_init B host port cert key ca w = (if \<not> fst ?r then Ret (-1, snd ?r)
     else cbind (handshake B (snd ?r)) (\<lambda>(r, w).
           if \<not> r then Ret (-1, w) else if mb_verify_result B w \<noteq> 0 then Ret (-1, w) else Ret (0, w)))"
    unfolding mbedtls_doip_client_init_def Let_def by (simp add: split_def del: fold_simps run_calls.simps)
  with a have "w' = snd ?r \<or> (\<exists>r. handshake B (snd ?r) = Ret (r, w'))"
    by (auto simp: cbind_Ret_iff simp del: fold_simps run_calls.simps split: if_splits)
  then show "live w' = UNIV"
    using c handshake_keeps [OF _ tracks_keeps(15) [OF assms(1)]] by (metis (no_types, lifting))
qed

definition failing_mbedtls :: "mb_context set mbedtls" where
  "failing_mbedtls = plain_mbedtls insert (\<lambda>x w. w - {x}) (-1) \<lparr>m_read = (\<lambda>_ w. (Inl 0, w)), m_write = (\<lambda>_ w. (-1, w))\<rparr>"

theorem tls_client_failed_setup_witness:
  "\<exists>w'. mbedtls_doip_client_init failing_mbedtls ''vmg'' 13400 [] [] [] {} = Ret (-1, w') \<and> w' = UNIV"
proof -
  have t: "tracks_contexts failing_mbedtls (\<lambda>w. w)"
    by (simp add: tracks_contexts_def failing_mbedtls_def plain_mbedtls_def mb_keeps_def)
  obtain w' where "mbedtls_doip_client_init failing_mbedtls ''vmg'' 13400 [] [] [] {} = Ret (-1, w')"
    by (simp add: mbedtls_doip_client_init_def failing_mbedtls_def plain_mbedtls_def Let_def split_def)
  then show ?thesis
    using tls_client_failed_setup [OF t refl, where host = "''vmg''" and port = 13400 and cert = "[]" and key = "[]" and ca = "[]" and mem = True]
    by blast
qed

section \<open>The program of the simulator's client\<close>

text \<open>
  \<open>argv\<close> holds the program's name and its arguments; \<^verbatim>\<open>argv[argc]\<close> is a null pointer, of which no
  \<^verbatim>\<open>std::string\<close> can be made.  \<open>c_atoi\<close> is \<^verbatim>\<open>atoi\<close> on numbers in range.
\<close>

definition c_digit :: "char \<Rightarrow> bool" where
  "c_digit ch \<longleftrightarrow> ch \<in> set ''0123456789''"

definition c_atoi :: "string \<Rightarrow> int" where
  "c_atoi s =
     (let s = dropWhile (\<lambda>ch. ch \<in> set [CHR '' '', CHR 0x09, CHR 0x0A, CHR 0x0B, CHR 0x0C, CHR 0x0D]) s;
          (neg, s) = (case s of CHR ''-'' # t \<Rightarrow> (True, t) | CHR ''+'' # t \<Rightarrow> (False, t) | _ \<Rightarrow> (False, s));
          n = foldl (\<lambda>a ch. 10 * a + (of_char ch - 48)) 0 (takeWhile c_digit s)
      in if neg then - n else n)"

definition argument :: "string list \<Rightarrow> nat \<Rightarrow> string cexec" where
  "argument argv i = (if i < length argv then Ret (argv ! i) else Fault)"

fun tc375_rounds :: "nat \<Rightarrow> 'w mbedtls \<Rightarrow> TC375_DoIP_Client \<Rightarrow> 'w \<Rightarrow> 'w cexec" where
  "tc375_rounds 0 B c w = Ret w"
| "tc375_rounds (Suc n) B c w = cbind (tc375_send_diagnostic_message B [0x10, 0x01] c w) (\<lambda>(_, w). tc375_rounds n B c w)"

definition tc375_main :: "'w mbedtls \<Rightarrow> bytes \<Rightarrow> string list \<Rightarrow> 'w \<Rightarrow> (int \<times> 'w) cexec" where
  "tc375_main B stack argv w =
     (if length argv < 6 then Ret (1, w)
      else
        cbind (argument argv 1) (\<lambda>vmg_host. cbind (argument argv 2) (\<lambda>port.
        cbind (argument argv 3) (\<lambda>cert. cbind (argument argv 4) (\<lambda>key. cbind (argument argv 5) (\<lambda>ca.
        let (c, w) = tc375_doip_client B 0x0E80 w
        in cbind (tc375_connect B vmg_host (of_int (c_atoi port)) cert key ca c w) (\<lambda>(r, c, w).
           if \<not> r then Ret (1, snd (tc375_disconnect B c w))
           else cbind (tc375_send_routing_activation B stack c w) (\<lambda>(r, c, w).
             if \<not> r then Ret (1, snd (tc375_disconnect B c w))
             else cbind (tc375_rounds 5 B c w) (\<lambda>w.
               let (c, w) = tc375_disconnect B c w in Ret (0, snd (tc375_disconnect B c w)))))))))))"

section \<open>The program of the TLS server\<close>

text \<open>
  The accept loop for \<open>n\<close> rounds, until the signal: the number of sessions it has started, each in a thread
  of its own. The sockets of a session are the subject of \<open>tls_handle\<close>.
\<close>

fun tls_accept_rounds :: "nat \<Rightarrow> 'w mbedtls \<Rightarrow> nat \<Rightarrow> 'w \<Rightarrow> (nat \<times> 'w) cexec" where
  "tls_accept_rounds 0 B sessions w = Ret (sessions, w)"
| "tls_accept_rounds (Suc n) B sessions w =
     cbind (mbedtls_doip_server_accept B w) (\<lambda>(r, w). tls_accept_rounds n B (if r = 0 then Suc sessions else sessions) w)"

definition tls_server_main :: "'w mbedtls \<Rightarrow> string list \<Rightarrow> nat \<Rightarrow> 'w \<Rightarrow> (int \<times> nat \<times> 'w) cexec" where
  "tls_server_main B argv n w =
     (if length argv < 5 then Ret (1, 0, w)
      else
        cbind (argument argv 1) (\<lambda>cert. cbind (argument argv 2) (\<lambda>key.
        cbind (argument argv 3) (\<lambda>ca. cbind (argument argv 4) (\<lambda>port.
        let (r, w) = mbedtls_doip_server_init B cert key ca (of_int (c_atoi port)) w
        in if r \<noteq> 0 then Ret (1, 0, w)
           else cbind (tls_accept_rounds n B 0 w) (\<lambda>(sessions, w). Ret (0, sessions, mbedtls_doip_server_free B w)))))))"

text \<open>The peer that never completes its handshake holds the accept loop: no other client is served.\<close>

lemma accept_hangs:
  assumes "\<And>w. fst (mb_net_accept B w) = 0" "\<And>w. fst (mb_ssl_setup B w) = 0" "\<And>w. fst (mb_handshake B w) = mb_want_read B"
    "mb_want_read B \<noteq> 0"
  shows "tls_accept_rounds (Suc n) B k w = Hang"
proof -
  have "wants_more B (fst (mb_handshake B v))" for v
    using assms(3,4) by (simp add: wants_more_def)
  then have "handshake B v = Hang" for v
    using handshake_loop_ends [of B v] by (cases "handshake_loop B v") (auto simp: handshake_def)
  then have "mbedtls_doip_server_accept B w = Hang"
    using assms(1,2) by (simp add: mbedtls_doip_server_accept_def split_def Let_def)
  then show ?thesis by simp
qed

end
