(* ===== verification/PQC_Client.thy ===== *)
theory PQC_Client
  imports TLS_Client
begin

text \<open>
  The DoIP clients of the simulator over TLS: \<^verbatim>\<open>tc375_simulator/include/pqc_doip_client.hpp\<close>,
  \<^verbatim>\<open>src/pqc_doip_client.cpp\<close> with \<^verbatim>\<open>main_pqc_client.cpp\<close> (OpenSSL, post-quantum groups). The library and
  the sockets are a record of calls over a world \<open>'w\<close>; contexts and connections are handles, a null pointer is \<open>None\<close>.
  Local arrays without an initialiser start as the arguments \<open>stack\<close>; log output is left out.
\<close>

section \<open>The library\<close>

text \<open>
  \<open>o_read c n\<close> is \<^verbatim>\<open>SSL_read\<close>: \<open>None\<close> for a result that is not positive, otherwise at most \<open>n\<close> bytes. In
  \<open>o_write\<close> the integer is the number of bytes asked for, the list the object the pointer points to.
\<close>

record 'w openssl =
  o_ctx_new :: "'w \<Rightarrow> nat option \<times> 'w"
  o_set_proto :: "nat \<Rightarrow> u16 \<Rightarrow> u16 \<Rightarrow> 'w \<Rightarrow> 'w"
  o_set_groups :: "nat \<Rightarrow> string \<Rightarrow> 'w \<Rightarrow> int \<times> 'w"
  o_set_sigalgs :: "nat \<Rightarrow> string \<Rightarrow> 'w \<Rightarrow> int \<times> 'w"
  o_set_ciphersuites :: "nat \<Rightarrow> string \<Rightarrow> 'w \<Rightarrow> int \<times> 'w"
  o_set_verify :: "nat \<Rightarrow> 'w \<Rightarrow> 'w"
  o_use_cert :: "nat \<Rightarrow> string \<Rightarrow> 'w \<Rightarrow> int \<times> 'w"
  o_use_key :: "nat \<Rightarrow> string \<Rightarrow> 'w \<Rightarrow> int \<times> 'w"
  o_check_key :: "nat \<Rightarrow> 'w \<Rightarrow> int \<times> 'w"
  o_load_verify :: "nat \<Rightarrow> string \<Rightarrow> 'w \<Rightarrow> int \<times> 'w"
  o_getaddrinfo :: "string \<Rightarrow> u16 \<Rightarrow> 'w \<Rightarrow> nat list option \<times> 'w"
  o_freeaddrinfo :: "'w \<Rightarrow> 'w"
  o_socket :: "nat \<Rightarrow> 'w \<Rightarrow> int \<times> 'w"
  o_connect :: "int \<Rightarrow> nat \<Rightarrow> 'w \<Rightarrow> int \<times> 'w"
  o_close :: "int \<Rightarrow> 'w \<Rightarrow> 'w"
  o_ssl_new :: "nat \<Rightarrow> 'w \<Rightarrow> nat option \<times> 'w"
  o_set_fd :: "nat \<Rightarrow> int \<Rightarrow> 'w \<Rightarrow> 'w"
  o_set_host :: "nat \<Rightarrow> string \<Rightarrow> 'w \<Rightarrow> 'w"
  o_ssl_connect :: "nat \<Rightarrow> 'w \<Rightarrow> int \<times> 'w"
  o_write :: "nat \<Rightarrow> bytes \<Rightarrow> int \<Rightarrow> 'w \<Rightarrow> int \<times> 'w"
  o_read :: "nat \<Rightarrow> nat \<Rightarrow> 'w \<Rightarrow> bytes option \<times> 'w"
  o_shutdown :: "nat \<Rightarrow> 'w \<Rightarrow> 'w"
  o_ssl_free :: "nat \<Rightarrow> 'w \<Rightarrow> 'w"
  o_ctx_free :: "nat \<Rightarrow> 'w \<Rightarrow> 'w"

section \<open>State\<close>

datatype PQC_KEM = MLKEM512 | MLKEM768 | MLKEM1024
datatype PQC_SIG = MLDSA44 | MLDSA65 | MLDSA87

record PQC_Config_TC375 =
  pq_kem :: PQC_KEM
  pq_sig :: PQC_SIG
  pq_kem_name :: string
  pq_sig_name :: string
  pq_groups :: string
  pq_sigalgs :: string

record PQC_DoIP_Client =
  pc_ctx :: "nat option"
  pc_ssl :: "nat option"
  pc_sock :: int
  pc_host :: string
  pc_port :: u16
  pc_source :: u16
  pc_connected :: bool
  pc_routing :: bool
  pc_config :: PQC_Config_TC375

fun kem_strings :: "PQC_KEM \<Rightarrow> string \<times> string" where
  "kem_strings MLKEM512 = (''ML-KEM-512'', ''mlkem512'')"
| "kem_strings MLKEM768 = (''ML-KEM-768'', ''mlkem768'')"
| "kem_strings MLKEM1024 = (''ML-KEM-1024'', ''mlkem1024'')"

fun sig_strings :: "PQC_SIG \<Rightarrow> string \<times> string" where
  "sig_strings MLDSA44 = (''ML-DSA-44'', ''mldsa44'')"
| "sig_strings MLDSA65 = (''ML-DSA-65'', ''mldsa65'')"
| "sig_strings MLDSA87 = (''ML-DSA-87'', ''mldsa87'')"

definition pqc_doip_client :: "string \<Rightarrow> u16 \<Rightarrow> u16 \<Rightarrow> PQC_KEM \<Rightarrow> PQC_SIG \<Rightarrow> PQC_DoIP_Client" where
  "pqc_doip_client host port source kem sig =
     \<lparr>pc_ctx = None, pc_ssl = None, pc_sock = -1, pc_host = host, pc_port = port, pc_source = source,
      pc_connected = False, pc_routing = False,
      pc_config = \<lparr>pq_kem = kem, pq_sig = sig, pq_kem_name = fst (kem_strings kem), pq_sig_name = fst (sig_strings sig),
        pq_groups = snd (kem_strings kem), pq_sigalgs = snd (sig_strings sig)\<rparr>\<rparr>"

section \<open>Connecting\<close>

abbreviation TLS1_3_VERSION :: u16 where "TLS1_3_VERSION \<equiv> 0x0304"

definition configure_pqc :: "'w openssl \<Rightarrow> PQC_DoIP_Client \<Rightarrow> 'w \<Rightarrow> (bool \<times> 'w) cexec" where
  "configure_pqc L c w =
     cbind (deref (pc_ctx c)) (\<lambda>x.
     let w = o_set_proto L x TLS1_3_VERSION TLS1_3_VERSION w;
         (r, w) = o_set_groups L x (pq_groups (pc_config c)) w
     in if r \<noteq> 1 then Ret (False, w)
     else let (r, w) = o_set_sigalgs L x (pq_sigalgs (pc_config c)) w
     in if r \<noteq> 1 then Ret (False, w)
     else let (r, w) = o_set_ciphersuites L x ''TLS_AES_256_GCM_SHA384:TLS_AES_128_GCM_SHA256'' w
     in if r \<noteq> 1 then Ret (False, w) else Ret (True, o_set_verify L x w))"

text \<open>The addresses in turn: the descriptor of the first that accepts a connection, or the last value of \<^verbatim>\<open>sock_fd_\<close>.\<close>

fun connect_first :: "'w openssl \<Rightarrow> nat list \<Rightarrow> int \<Rightarrow> 'w \<Rightarrow> int \<times> 'w" where
  "connect_first L [] sock w = (sock, w)"
| "connect_first L (a # as) sock w =
     (let (sock, w) = o_socket L a w
      in if sock < 0 then connect_first L as sock w
         else let (r, w) = o_connect L sock a w
              in if r = 0 then (sock, w) else connect_first L as (-1) (o_close L sock w))"

definition drop_ctx :: "'w openssl \<Rightarrow> PQC_DoIP_Client \<Rightarrow> 'w \<Rightarrow> PQC_DoIP_Client \<times> 'w" where
  "drop_ctx L c w = (case pc_ctx c of None \<Rightarrow> (c, w) | Some x \<Rightarrow> (c\<lparr>pc_ctx := None\<rparr>, o_ctx_free L x w))"

definition drop_sock :: "'w openssl \<Rightarrow> PQC_DoIP_Client \<Rightarrow> 'w \<Rightarrow> PQC_DoIP_Client \<times> 'w" where
  "drop_sock L c w = (c\<lparr>pc_sock := -1\<rparr>, o_close L (pc_sock c) w)"

text \<open>The certificates, in the order of the code: the outcome of the first call that fails.\<close>

definition load_files :: "'w openssl \<Rightarrow> nat \<Rightarrow> string \<Rightarrow> string \<Rightarrow> string \<Rightarrow> 'w \<Rightarrow> bool \<times> 'w" where
  "load_files L x cert_file key_file ca_file w =
     (let (r, w) = o_use_cert L x cert_file w
      in if r \<noteq> 1 then (False, w)
      else let (r, w) = o_use_key L x key_file w
      in if r \<noteq> 1 then (False, w)
      else let (r, w) = o_check_key L x w
      in if r = 0 then (False, w)
      else let (r, w) = o_load_verify L x ca_file w in (r = 1, w))"

text \<open>From a new connection on: the TLS handshake.\<close>

definition tls_handshake :: "'w openssl \<Rightarrow> nat \<Rightarrow> PQC_DoIP_Client \<Rightarrow> 'w \<Rightarrow> bool \<times> PQC_DoIP_Client \<times> 'w" where
  "tls_handshake L x c w =
     (let (ssl, w) = o_ssl_new L x w; c = c\<lparr>pc_ssl := ssl\<rparr>
      in case ssl of
           None \<Rightarrow> let (c, w) = drop_sock L c w; (c, w) = drop_ctx L c w in (False, c, w)
         | Some s \<Rightarrow>
             let w = o_set_host L s (pc_host c) (o_set_fd L s (pc_sock c) w);
                 (r, w) = o_ssl_connect L s w
             in if r \<le> 0 then
                  let w = o_ssl_free L s w; c = c\<lparr>pc_ssl := None\<rparr>; (c, w) = drop_sock L c w; (c, w) = drop_ctx L c w
                  in (False, c, w)
                else (True, c\<lparr>pc_connected := True\<rparr>, w))"

definition pqc_connect ::
  "'w openssl \<Rightarrow> string \<Rightarrow> string \<Rightarrow> string \<Rightarrow> PQC_DoIP_Client \<Rightarrow> 'w \<Rightarrow> (bool \<times> PQC_DoIP_Client \<times> 'w) cexec" where
  "pqc_connect L cert_file key_file ca_file c w =
     (let (ctx, w) = o_ctx_new L w; c = c\<lparr>pc_ctx := ctx\<rparr>
      in case ctx of
           None \<Rightarrow> Ret (False, c, w)
         | Some x \<Rightarrow>
             cbind (configure_pqc L c w) (\<lambda>(r, w).
             if \<not> r then Ret (False, drop_ctx L c w)
             else let (r, w) = load_files L x cert_file key_file ca_file w
             in if \<not> r then Ret (False, drop_ctx L c w)
             else let (addrs, w) = o_getaddrinfo L (pc_host c) (pc_port c) w
             in case addrs of
                  None \<Rightarrow> Ret (False, drop_ctx L c w)
                | Some as \<Rightarrow>
                    let (sock, w) = connect_first L as (pc_sock c) w;
                        c = c\<lparr>pc_sock := sock\<rparr>; w = o_freeaddrinfo L w
                    in if sock < 0 then Ret (False, drop_ctx L c w) else Ret (tls_handshake L x c w)))"

definition pqc_disconnect :: "'w openssl \<Rightarrow> PQC_DoIP_Client \<Rightarrow> 'w \<Rightarrow> PQC_DoIP_Client \<times> 'w" where
  "pqc_disconnect L c w =
     (let (c, w) = (case pc_ssl c of None \<Rightarrow> (c, w) | Some s \<Rightarrow> (c\<lparr>pc_ssl := None\<rparr>, o_ssl_free L s (o_shutdown L s w)));
          (c, w) = (if pc_sock c \<ge> 0 then drop_sock L c w else (c, w));
          (c, w) = drop_ctx L c w
      in (c\<lparr>pc_connected := False, pc_routing := False\<rparr>, w))"

section \<open>Packets\<close>

abbreviation PQC_HEADER_SIZE :: nat where "PQC_HEADER_SIZE \<equiv> 8"

text \<open>\<open>plen\<close> (\<^verbatim>\<open>payload_len\<close>) is an \<^verbatim>\<open>uint32_t\<close>, the result and the lengths of the library an \<^verbatim>\<open>int\<close>.\<close>

definition send_doip_packet ::
  "'w openssl \<Rightarrow> u16 \<Rightarrow> bytes \<Rightarrow> u32 \<Rightarrow> PQC_DoIP_Client \<Rightarrow> 'w \<Rightarrow> (int \<times> 'w) cexec" where
  "send_doip_packet L ptype payload plen c w =
     cbind (deref (pc_ssl c)) (\<lambda>s.
     let header = [0x02, 0xFD] @ [ucast (drop_bit 8 ptype), ucast ptype]
           @ [ucast (drop_bit 24 plen), ucast (drop_bit 16 plen), ucast (drop_bit 8 plen), ucast plen];
         (n, w) = o_write L s header 8 w
     in if n \<noteq> 8 then Ret (-1, w)
        else if plen > 0 then
          let (n, w) = o_write L s payload (sint plen) w
          in if n \<noteq> sint plen then Ret (-1, w) else Ret (sint (plen + 8), w)
        else Ret (sint (plen + 8), w))"

text \<open>\<open>type0\<close> is the caller's variable before the call; the result is the length with the type and the buffer.\<close>

definition recv_doip_packet ::
  "'w openssl \<Rightarrow> u16 \<Rightarrow> bytes \<Rightarrow> u32 \<Rightarrow> PQC_DoIP_Client \<Rightarrow> 'w \<Rightarrow> (int \<times> u16 \<times> bytes \<times> 'w) cexec" where
  "recv_doip_packet L type0 payload max_len c w =
     cbind (deref (pc_ssl c)) (\<lambda>s.
     case o_read L s PQC_HEADER_SIZE w of
       (None, w) \<Rightarrow> Ret (-1, type0, payload, w)
     | (Some header, w) \<Rightarrow>
         if length header \<noteq> PQC_HEADER_SIZE then Ret (-1, type0, payload, w)
         else
           let ptype = be16_val (header ! 2) (header ! 3);
               plen = be32_val (header ! 4) (header ! 5) (header ! 6) (header ! 7)
           in if plen > max_len then Ret (-1, ptype, payload, w)
              else if plen > 0 then
                (case o_read L s (unat plen) w of
                   (None, w) \<Rightarrow> Ret (-1, ptype, payload, w)
                 | (Some d, w) \<Rightarrow>
                     cbind (buf_write payload 0 d) (\<lambda>payload.
                     if length d \<noteq> unat plen then Ret (-1, ptype, payload, w)
                     else Ret (sint plen, ptype, payload, w)))
              else Ret (sint plen, ptype, payload, w))"

definition send_routing_activation ::
  "'w openssl \<Rightarrow> bytes \<Rightarrow> PQC_DoIP_Client \<Rightarrow> 'w \<Rightarrow> (bool \<times> PQC_DoIP_Client \<times> 'w) cexec" where
  "send_routing_activation L stack c w =
     (if \<not> pc_connected c then Ret (False, c, w)
      else
        let payload = [ucast (drop_bit 8 (pc_source c)), ucast (pc_source c), 0x00, 0x00, 0x00, 0x00, 0x00]
        in cbind (send_doip_packet L RoutingActivationReq payload 7 c w) (\<lambda>(r, w).
           if r < 0 then Ret (False, c, w)
           else
             cbind (recv_doip_packet L 0 stack (of_nat (length stack)) c w) (\<lambda>(resp_len, resp_type, resp_payload, w).
             if resp_len < 0 \<or> resp_type \<noteq> RoutingActivationRes then Ret (False, c, w)
             else
               cbind (buf_get resp_payload 4) (\<lambda>result_code.
               if result_code = 0x10 then Ret (True, c\<lparr>pc_routing := True\<rparr>, w) else Ret (False, c, w)))))"

definition send_diagnostic_message ::
  "'w openssl \<Rightarrow> u16 \<Rightarrow> bytes \<Rightarrow> PQC_DoIP_Client \<Rightarrow> 'w \<Rightarrow> (bool \<times> 'w) cexec" where
  "send_diagnostic_message L target data c w =
     (if \<not> pc_routing c then Ret (False, w)
      else
        let payload = [ucast (drop_bit 8 (pc_source c)), ucast (pc_source c),
                       ucast (drop_bit 8 target), ucast target] @ data
        in cbind (send_doip_packet L DiagnosticMessage payload (of_nat (length payload)) c w) (\<lambda>(r, w).
           Ret (r > 0, w)))"

definition receive_diagnostic_message ::
  "'w openssl \<Rightarrow> bytes \<Rightarrow> PQC_DoIP_Client \<Rightarrow> 'w \<Rightarrow> (bytes \<times> 'w) cexec" where
  "receive_diagnostic_message L stack c w =
     (if \<not> pc_routing c then Ret ([], w)
      else
        cbind (recv_doip_packet L 0 stack (of_nat (length stack)) c w) (\<lambda>(len, ptype, payload, w).
        if len < 0 \<or> ptype \<noteq> DiagnosticMessage then Ret ([], w)
        else if len < 4 then Ret ([], w)
        else cbind (buf_slice payload 4 (nat len - 4)) (\<lambda>d. Ret (d, w))))"

section \<open>The test program\<close>

text \<open>The answers received are returned.\<close>

fun pqc_rounds :: "nat \<Rightarrow> 'w openssl \<Rightarrow> bytes \<Rightarrow> PQC_DoIP_Client \<Rightarrow> 'w \<Rightarrow> (bytes list \<times> 'w) cexec" where
  "pqc_rounds 0 L stack c w = Ret ([], w)"
| "pqc_rounds (Suc n) L stack c w =
     cbind (send_diagnostic_message L 0x0001 [0x10, 0x01] c w) (\<lambda>(r, w).
     cbind (if r then receive_diagnostic_message L stack c w else Ret ([], w)) (\<lambda>(a, w).
     cbind (pqc_rounds n L stack c w) (\<lambda>(as, w). Ret (a # as, w))))"

definition pqc_main ::
  "'w openssl \<Rightarrow> bytes \<Rightarrow> bytes \<Rightarrow> string list \<Rightarrow> 'w \<Rightarrow> (int \<times> bytes list \<times> 'w) cexec" where
  "pqc_main L stack1 stack2 argv w =
     (if length argv < 5 then Ret (1, [], w)
      else
        cbind (argument argv 1) (\<lambda>vmg_host. cbind (argument argv 2) (\<lambda>port.
        cbind (argument argv 3) (\<lambda>cert. cbind (argument argv 4) (\<lambda>key. cbind (argument argv 5) (\<lambda>ca.
        let c = pqc_doip_client vmg_host (of_int (c_atoi port)) 0x0E80 MLKEM768 MLDSA65
        in cbind (pqc_connect L cert key ca c w) (\<lambda>(r, c, w).
           if \<not> r then let (c, w) = pqc_disconnect L c w in Ret (1, [], w)
           else cbind (send_routing_activation L stack1 c w) (\<lambda>(r, c, w).
             if \<not> r then let (c, w) = pqc_disconnect L c w in Ret (1, [], w)
             else cbind (pqc_rounds 5 L stack2 c w) (\<lambda>(as, w).
               let (c, w) = pqc_disconnect L c w; (c, w) = pqc_disconnect L c w in Ret (0, as, w))))))))))"

text \<open>The usage check asks for five strings, the program reads six.\<close>

lemma pqc_main_missing_argument: "length argv = 5 \<Longrightarrow> pqc_main L stack1 stack2 argv w = Fault"
  by (simp add: pqc_main_def argument_def)

section \<open>The client against the session of the gateway\<close>

text \<open>
  The client writes the header of a packet and its payload separately, which makes two TLS records; the session
  takes each record for a message.
\<close>

definition library_write :: "nat \<Rightarrow> bytes \<Rightarrow> int \<Rightarrow> tls_session \<times> 'r \<Rightarrow> int \<times> tls_session \<times> 'r" where
  "library_write s d k = (\<lambda>(w, r). let (n, w) = session_write (take (nat k) d) w in (n, (w, r)))"

definition library_read :: "nat \<Rightarrow> nat \<Rightarrow> tls_session \<times> 'r \<Rightarrow> bytes option \<times> tls_session \<times> 'r" where
  "library_read s n = (\<lambda>(w, r). case session_read n w of (Inl _, w) \<Rightarrow> (None, (w, r)) | (Inr d, w) \<Rightarrow> (Some d, (w, r)))"

definition talks_to_session :: "(tls_session \<times> 'r) openssl \<Rightarrow> bool" where
  "talks_to_session L \<longleftrightarrow> o_write L = library_write \<and> o_read L = library_read"

lemma sint_small: "n < 2 ^ 31 \<Longrightarrow> sint (of_nat n :: u32) = int n"
  by (simp add: signed_of_nat signed_take_bit_int_eq_self)

lemma session_ignored:
  assumes "length b = 4096" "length d \<le> 4096" "length d < 8 \<or> d ! 0 \<noteq> 0x02"
  shows "session_write d (b, h, out) = (int (length d), (tls_buffer_after d b, h, out))"
proof -
  have "length d < 8 \<or> tls_buffer_after d b ! 0 \<noteq> 0x02"
    using assms(3) by (cases d) (auto simp: tls_buffer_after_def)
  then show ?thesis
    using assms(1,2) by (auto simp: session_write_def session_round)
qed

lemma session_header:
  assumes "length b = 4096" "th_activated h" "0 < n" "n \<le> 4084"
  defines "d \<equiv> [0x02, 0xFD] @ be16 DiagnosticMessage @ be32 (of_nat (4 + n))"
  shows "session_write d (b, h, out) = (8, (tls_buffer_after d b, h,
      out @ [doip_frame DiagnosticMessage ([b ! 10, b ! 11, b ! 8, b ! 9] @ take n (drop 12 b))]))"
proof -
  let ?r = "tls_buffer_after d b"
  obtain x0 x1 x2 x3 where l4: "be32 (of_nat (4 + n) :: u32) = [x0, x1, x2, x3]"
    by (simp add: be32_def)
  have d: "d = [0x02, 0xFD, 0x80, 0x01, x0, x1, x2, x3]"
    by (simp add: d_def l4 be16_def del: of_nat_add)
  have "length d = 8"
    by (simp add: d)
  then have rb: "?r = d @ drop 8 b"
    by (simp add: tls_buffer_after_def)
  have "announced ?r = of_nat (4 + n)"
    using be32_val_nth [of "of_nat (4 + n) :: u32"] unfolding l4 rb by (simp add: d announced_def nth_Cons')
  then have a: "unat (announced ?r) = 4 + n"
    using assms(4) by (simp only:) (intro unat_le_of_nat, simp)
  then have ge: "\<not> announced ?r < 5"
    using assms(3) by (simp add: word_less_nat_alt)
  have t: "be16_val (?r ! 2) (?r ! 3) = DiagnosticMessage" "?r ! 0 = 0x02" "length ?r = 4096"
    unfolding rb using assms(1) by (simp_all add: d be16_val_def nth_Cons')
  have i: "?r ! 10 = b ! 10" "?r ! 11 = b ! 11" "?r ! 8 = b ! 8" "?r ! 9 = b ! 9" "drop 12 ?r = drop 12 b"
    unfolding rb using assms(1) by (simp_all add: nth_append d)
  have e: "echo ?r = doip_frame DiagnosticMessage ([b ! 10, b ! 11, b ! 8, b ! 9] @ take n (drop 12 b))"
    unfolding echo_def a i by simp
  show ?thesis
    using t a ge e assms(1,2,4)
    by (simp add: session_write_def session_round d tls_diagnostic_message_eq)
qed

lemma receive_packet:
  assumes "talks_to_session L" "pc_ssl c = Some s" "0 < length p" "length p \<le> 4096" "length stack = 4096"
  shows "recv_doip_packet L t0 stack (of_nat (length stack)) c ((b, h, [doip_frame t p]), r) =
    Ret (int (length p), t, p @ drop (length p) stack, ((b, h, []), r))"
proof -
  let ?f = "doip_frame t p"
  obtain x0 x1 x2 x3 where l4: "be32 (of_nat (length p) :: u32) = [x0, x1, x2, x3]"
    by (simp add: be32_def)
  obtain y0 y1 where t2: "be16 t = [y0, y1]"
    by (simp add: be16_def)
  have f: "?f = [0x02, 0xFD, y0, y1, x0, x1, x2, x3] @ p"
    by (simp add: doip_frame_def l4 t2)
  have v: "be32_val x0 x1 x2 x3 = of_nat (length p)" "be16_val y0 y1 = t"
    using be32_val_nth [of "of_nat (length p) :: u32"] be16_val_nth [of t] unfolding l4 t2 by simp_all
  have u: "unat (of_nat (length p) :: u32) = length p" "unat (of_nat (length stack) :: u32) = length stack"
    using assms(4,5) by (simp_all add: unat_le_of_nat)
  have c: "\<not> (of_nat (length stack) :: u32) < of_nat (length p)" "(0 :: u32) < of_nat (length p)"
    using u assms(3-5) by (simp_all add: word_less_nat_alt)
  have s: "sint (of_nat (length p) :: u32) = int (length p)"
    using assms(4) by (intro sint_small) simp
  have r: "o_read L s 8 ((b, h, [[0x02, 0xFD, y0, y1, x0, x1, x2, x3] @ p]), r) = (Some [0x02, 0xFD, y0, y1, x0, x1, x2, x3], ((b, h, [p]), r))"
      "o_read L s (length p) ((b, h, [p]), r) = (Some p, ((b, h, []), r))"
    using assms(1,3) by (simp_all add: talks_to_session_def library_read_def session_read_def)
  have w: "buf_write stack 0 p = Ret (p @ drop (length p) stack)"
    using assms(4,5) by (simp add: buf_write_def)
  show ?thesis
    using r(1) by (simp add: recv_doip_packet_def assms(2) r(2) f v u c s w nth_Cons')
qed


section \<open>What the client holds\<close>

text \<open>
  The contract of the library for its resources: contexts, connections and descriptors, each created new and
  released once; \<open>bad\<close> tells that something was released that was not there.
\<close>

record tls_resources =
  ctxs :: "nat set"
  ssls :: "nat set"
  socks :: "int set"
  bad :: bool

locale tls_library =
  fixes L :: "'w openssl" and res :: "'w \<Rightarrow> tls_resources"
  assumes ctx_new: "o_ctx_new L w = (Some x, w1) \<Longrightarrow> x \<notin> ctxs (res w) \<and> res w1 = (res w)\<lparr>ctxs := insert x (ctxs (res w))\<rparr>"
    and ctx_new_none: "o_ctx_new L w = (None, w1) \<Longrightarrow> res w1 = res w"
    and ctx_free: "res (o_ctx_free L x w) = (res w)\<lparr>ctxs := ctxs (res w) - {x}, bad := (bad (res w) \<or> x \<notin> ctxs (res w))\<rparr>"
    and ssl_new: "o_ssl_new L x w = (Some s, w1) \<Longrightarrow> s \<notin> ssls (res w) \<and> res w1 = (res w)\<lparr>ssls := insert s (ssls (res w))\<rparr>"
    and ssl_new_none: "o_ssl_new L x w = (None, w1) \<Longrightarrow> res w1 = res w"
    and ssl_free: "res (o_ssl_free L s w) = (res w)\<lparr>ssls := ssls (res w) - {s}, bad := (bad (res w) \<or> s \<notin> ssls (res w))\<rparr>"
    and socket: "o_socket L a w = (k, w1) \<Longrightarrow> 0 \<le> k \<Longrightarrow> k \<notin> socks (res w) \<and> res w1 = (res w)\<lparr>socks := insert k (socks (res w))\<rparr>"
    and socket_fails: "o_socket L a w = (k, w1) \<Longrightarrow> k < 0 \<Longrightarrow> res w1 = res w"
    and close: "res (o_close L k w) = (res w)\<lparr>socks := socks (res w) - {k}, bad := (bad (res w) \<or> k \<notin> socks (res w))\<rparr>"
    and keeps_config: "res (o_set_proto L x v v' w) = res w" "res (snd (o_set_groups L x t w)) = res w"
      "res (snd (o_set_sigalgs L x t w)) = res w" "res (snd (o_set_ciphersuites L x t w)) = res w" "res (o_set_verify L x w) = res w"
    and keeps_files: "res (snd (o_use_cert L x t w)) = res w" "res (snd (o_use_key L x t w)) = res w"
      "res (snd (o_check_key L x w)) = res w" "res (snd (o_load_verify L x t w)) = res w"
    and keeps_net: "res (snd (o_getaddrinfo L t p w)) = res w" "res (o_freeaddrinfo L w) = res w" "res (snd (o_connect L k a w)) = res w"
    and keeps_ssl: "res (o_set_fd L s k w) = res w" "res (o_set_host L s t w) = res w" "res (snd (o_ssl_connect L s w)) = res w"
      "res (snd (o_write L s d n w)) = res w" "res (snd (o_read L s m w)) = res w" "res (o_shutdown L s w) = res w"
    and read_bound: "fst (o_read L s m w) = Some d \<Longrightarrow> length d \<le> m"
begin

lemma configure_keeps:
  "pc_ctx c = Some x \<Longrightarrow> returns (configure_pqc L c w) (\<lambda>(r, w'). res w' = res w)"
  by (simp add: configure_pqc_def Let_def split_def keeps_config)

lemma load_files_keeps: "res (snd (load_files L x cert key ca w)) = res w"
  by (simp add: load_files_def Let_def split_def keeps_files)

lemma connect_first_res:
  assumes "connect_first L as sock w = (k, w')" "sock < 0" "\<not> bad (res w)"
  shows "if k < 0 then res w' = res w else k \<notin> socks (res w) \<and> res w' = (res w)\<lparr>socks := insert k (socks (res w))\<rparr>"
  using assms
proof (induction as arbitrary: sock w)
  case (Cons a as)
  obtain k1 w1 where s: "o_socket L a w = (k1, w1)" by fastforce
  obtain r w2 where c: "o_connect L k1 a w1 = (r, w2)" by fastforce
  have w2: "res w2 = res w1"
    using keeps_net(3) [of k1 a w1] c by simp
  show ?case
  proof (cases "k1 < 0")
    case True
    have eq: "res w1 = res w"
      by (rule socket_fails [OF s True])
    have "if k < 0 then res w' = res w1 else k \<notin> socks (res w1) \<and> res w' = (res w1)\<lparr>socks := insert k (socks (res w1))\<rparr>"
      by (rule Cons.IH [of k1 w1]) (use Cons.prems s True eq in simp_all)
    then show ?thesis unfolding eq .
  next
    case False
    then have n: "k1 \<notin> socks (res w)" "res w1 = (res w)\<lparr>socks := insert k1 (socks (res w))\<rparr>"
      using socket [OF s] by simp_all
    have eq: "res (o_close L k1 w2) = res w"
      using n w2 Cons.prems(3) by (simp add: close)
    show ?thesis
    proof (cases "r = 0")
      case True
      then show ?thesis
        using False Cons.prems(1) s c n w2 by simp
    next
      case r: False
      let ?w = "o_close L k1 w2"
      have "if k < 0 then res w' = res ?w else k \<notin> socks (res ?w) \<and> res w' = (res ?w)\<lparr>socks := insert k (socks (res ?w))\<rparr>"
        by (rule Cons.IH [of "-1" ?w]) (use Cons.prems s c False r eq in simp_all)
      then show ?thesis unfolding eq .
    qed
  qed
qed simp

text \<open>Resources \<open>r\<close> with those the client holds.\<close>

definition owning :: "PQC_DoIP_Client \<Rightarrow> tls_resources \<Rightarrow> tls_resources" where
  "owning c r = r\<lparr>ctxs := ctxs r \<union> set_option (pc_ctx c), ssls := ssls r \<union> set_option (pc_ssl c),
     socks := socks r \<union> (if pc_sock c < 0 then {} else {pc_sock c})\<rparr>"

definition holds :: "tls_resources \<Rightarrow> PQC_DoIP_Client \<Rightarrow> 'w \<Rightarrow> bool" where
  "holds r c w \<longleftrightarrow> \<not> bad r \<and> res w = owning c r \<and> set_option (pc_ctx c) \<inter> ctxs r = {} \<and> set_option (pc_ssl c) \<inter> ssls r = {}
     \<and> (0 \<le> pc_sock c \<longrightarrow> pc_sock c \<notin> socks r)"

definition client_inv :: "tls_resources \<Rightarrow> PQC_DoIP_Client \<Rightarrow> 'w \<Rightarrow> bool" where
  "client_inv r c w \<longleftrightarrow> holds r c w \<and> (pc_routing c \<longrightarrow> pc_connected c)
     \<and> (if pc_connected c then pc_ctx c \<noteq> None \<and> pc_ssl c \<noteq> None \<and> 0 \<le> pc_sock c
        else pc_ctx c = None \<and> pc_ssl c = None \<and> pc_sock c < 0)"

lemma holds_keeps: "holds r c w \<Longrightarrow> res w' = res w \<Longrightarrow> holds r c w'"
  by (simp add: holds_def)

lemma drop_ctx_holds: "holds r c w \<Longrightarrow> holds r (fst (drop_ctx L c w)) (snd (drop_ctx L c w)) \<and> pc_ctx (fst (drop_ctx L c w)) = None"
  by (cases "pc_ctx c") (auto simp: holds_def drop_ctx_def owning_def ctx_free)

lemma drop_sock_holds:
  "holds r c w \<Longrightarrow> 0 \<le> pc_sock c \<Longrightarrow> holds r (fst (drop_sock L c w)) (snd (drop_sock L c w))"
  by (auto simp: holds_def drop_sock_def owning_def close)

lemma drop_ctx_fields [simp]:
  "pc_ssl (fst (drop_ctx L c w)) = pc_ssl c" "pc_sock (fst (drop_ctx L c w)) = pc_sock c"
  "pc_connected (fst (drop_ctx L c w)) = pc_connected c" "pc_routing (fst (drop_ctx L c w)) = pc_routing c"
  by (simp_all add: drop_ctx_def split: option.split)

lemma drop_sock_fields [simp]:
  "pc_ssl (fst (drop_sock L c w)) = pc_ssl c" "pc_sock (fst (drop_sock L c w)) = -1" "pc_ctx (fst (drop_sock L c w)) = pc_ctx c"
  "pc_connected (fst (drop_sock L c w)) = pc_connected c" "pc_routing (fst (drop_sock L c w)) = pc_routing c"
  by (simp_all add: drop_sock_def)

text \<open>The failing ends of \<^verbatim>\<open>connect\<close>: nothing is held any more.\<close>

lemma give_up_ctx:
  "holds r c w \<Longrightarrow> \<not> pc_connected c \<Longrightarrow> \<not> pc_routing c \<Longrightarrow> pc_ssl c = None \<Longrightarrow> pc_sock c < 0 \<Longrightarrow>
    client_inv r (fst (drop_ctx L c w)) (snd (drop_ctx L c w))"
  using drop_ctx_holds [of r c w] by (simp add: client_inv_def)

lemma tls_handshake_inv:
  assumes "holds r c w" "\<not> pc_connected c" "\<not> pc_routing c" "pc_ssl c = None" "0 \<le> pc_sock c" "pc_ctx c = Some x"
  shows "case tls_handshake L x c w of (up, c', w') \<Rightarrow> client_inv r c' w' \<and> pc_connected c' = up"
proof -
  obtain ssl w1 where n: "o_ssl_new L x w = (ssl, w1)" by fastforce
  show ?thesis
  proof (cases ssl)
    case None
    let ?c = "c\<lparr>pc_ssl := None\<rparr>"
    have h: "holds r ?c w1"
      using assms(1,4) ssl_new_none [of x w w1] n None by (simp add: holds_def owning_def)
    note d = drop_sock_holds [OF h]
    show ?thesis
      using give_up_ctx [OF d] assms n None by (simp add: tls_handshake_def split_def Let_def)
  next
    case (Some s)
    have n': "s \<notin> ssls (res w)" "res w1 = (res w)\<lparr>ssls := insert s (ssls (res w))\<rparr>"
      using ssl_new [of x w s w1] n Some by simp_all
    let ?c = "c\<lparr>pc_ssl := Some s\<rparr>"
    let ?w2 = "o_set_host L s (pc_host c) (o_set_fd L s (pc_sock c) w1)"
    obtain k w3 where k: "o_ssl_connect L s ?w2 = (k, w3)" by fastforce
    have "res w3 = res w1"
      using keeps_ssl(3) [of s ?w2] k by (simp add: keeps_ssl(1,2))
    with n' have h: "holds r ?c w3"
      using assms(1,4) by (auto simp: holds_def owning_def)
    show ?thesis
    proof (cases "k \<le> 0")
      case True
      have h': "holds r (c\<lparr>pc_ssl := None\<rparr>) (o_ssl_free L s w3)"
        using h by (auto simp: holds_def owning_def ssl_free)
      note d = drop_sock_holds [OF h']
      show ?thesis
        using give_up_ctx [OF d] assms n k Some True by (simp add: tls_handshake_def split_def Let_def)
    next
      case False
      then show ?thesis
        using h assms n k Some by (simp add: tls_handshake_def Let_def client_inv_def holds_def owning_def)
    qed
  qed
qed

end

context tls_library
begin

lemma pqc_connect_inv:
  assumes "client_inv r c w" "\<not> pc_connected c"
  shows "returns (pqc_connect L cert key ca c w) (\<lambda>(up, c', w'). client_inv r c' w' \<and> pc_connected c' = up)"
proof -
  have i: "holds r c w" "\<not> pc_routing c" "pc_ctx c = None" "pc_ssl c = None" "pc_sock c < 0"
    using assms by (simp_all add: client_inv_def split: if_splits)
  obtain ctx w1 where n: "o_ctx_new L w = (ctx, w1)" by fastforce
  show ?thesis
  proof (cases ctx)
    case None
    then show ?thesis
      using n i assms(2) ctx_new_none [of w w1] by (simp add: pqc_connect_def client_inv_def holds_def owning_def)
  next
    case (Some x)
    let ?c = "c\<lparr>pc_ctx := Some x\<rparr>"
    have h: "holds r ?c w1"
      using i(1,3) ctx_new [of w x w1] n Some by (auto simp: holds_def owning_def)
    have fail: "client_inv r (fst (drop_ctx L (?c\<lparr>pc_sock := k\<rparr>) w')) (snd (drop_ctx L (?c\<lparr>pc_sock := k\<rparr>) w'))
        \<and> \<not> pc_connected (fst (drop_ctx L (?c\<lparr>pc_sock := k\<rparr>) w'))" if "res w' = res w1" "k < 0" for w' k
    proof -
      have "holds r (?c\<lparr>pc_sock := k\<rparr>) w'"
        using h i(5) that by (simp add: holds_def owning_def)
      then show ?thesis
        using give_up_ctx i assms(2) that(2) by simp
    qed
    have fail0: "client_inv r (fst (drop_ctx L ?c w')) (snd (drop_ctx L ?c w')) \<and> \<not> pc_connected (fst (drop_ctx L ?c w'))"
      if "res w' = res w1" for w'
      using fail [OF that i(5)] by simp
    obtain ok1 w2 where cf: "configure_pqc L ?c w1 = Ret (ok1, w2)" "res w2 = res w1"
      using configure_keeps [of ?c x w1] by (auto elim: returnsE)
    obtain ok2 w3 where lf: "load_files L x cert key ca w2 = (ok2, w3)" by fastforce
    have w3: "res w3 = res w1"
      using load_files_keeps [of x cert key ca w2] lf cf(2) by simp
    obtain addrs w4 where ga: "o_getaddrinfo L (pc_host c) (pc_port c) w3 = (addrs, w4)" by fastforce
    have w4: "res w4 = res w1"
      using keeps_net(1) [of "pc_host c" "pc_port c" w3] ga w3 by simp
    show ?thesis
    proof (cases "ok1 \<and> ok2 \<and> addrs \<noteq> None")
      case False
      then show ?thesis
        using n Some cf lf ga fail0 [OF cf(2)] fail0 [OF w3] fail0 [OF w4]
        by (cases "ok1"; cases ok2; cases addrs) (simp_all add: pqc_connect_def split_def)
    next
      case True
      then obtain as where as: "addrs = Some as" by blast
      obtain k w5 where f: "connect_first L as (pc_sock c) w4 = (k, w5)" by fastforce
      have "\<not> bad (res w4)"
        using h w4 by (simp add: holds_def owning_def)
      note s = connect_first_res [OF f i(5) this]
      let ?w6 = "o_freeaddrinfo L w5" and ?d = "?c\<lparr>pc_sock := k\<rparr>"
      have w6: "res ?w6 = res w5"
        by (rule keeps_net(2))
      have run: "pqc_connect L cert key ca c w = (if k < 0 then Ret (False, drop_ctx L ?d ?w6) else Ret (tls_handshake L x ?d ?w6))"
        using n Some cf(1) lf ga True as f by (simp add: pqc_connect_def)
      show ?thesis
      proof (cases "k < 0")
        case True
        then have "res ?w6 = res w1"
          using s w4 w6 by simp
        from fail [OF this True] show ?thesis
          using run True by (simp add: split_def)
      next
        case False
        then have "holds r ?d ?w6"
          using h i(5) s w4 w6 by (auto simp: holds_def owning_def)
        with tls_handshake_inv [OF this] show ?thesis
          using run False i(2,4) assms(2) by (simp add: split_def)
      qed
    qed
  qed
qed

lemma pqc_disconnect_inv:
  assumes "client_inv r c w"
  shows "client_inv r (fst (pqc_disconnect L c w)) (snd (pqc_disconnect L c w)) \<and> \<not> pc_connected (fst (pqc_disconnect L c w))"
proof -
  have h: "holds r c w"
    using assms by (simp add: client_inv_def)
  obtain c1 w1 where 1: "(case pc_ssl c of None \<Rightarrow> (c, w) | Some s \<Rightarrow> (c\<lparr>pc_ssl := None\<rparr>, o_ssl_free L s (o_shutdown L s w))) = (c1, w1)"
    by fastforce
  have h1: "holds r c1 w1" "pc_ssl c1 = None"
    using h 1 by (auto simp: holds_def owning_def ssl_free keeps_ssl split: option.splits)
  obtain c2 w2 where 2: "(if pc_sock c1 \<ge> 0 then drop_sock L c1 w1 else (c1, w1)) = (c2, w2)"
    by fastforce
  have h2: "holds r c2 w2"
    using h1(1) 2 drop_sock_holds [OF h1(1)] by (auto split: if_splits)
  have n2: "pc_ssl c2 = None" "pc_sock c2 < 0"
    using h1(2) 2 by (auto simp: drop_sock_def split: if_splits)
  have "pqc_disconnect L c w = (let (c3, w3) = drop_ctx L c2 w2 in (c3\<lparr>pc_connected := False, pc_routing := False\<rparr>, w3))"
    unfolding pqc_disconnect_def 1 prod.case 2 Let_def by simp
  then show ?thesis
    using drop_ctx_holds [OF h2] n2 by (simp add: split_def Let_def client_inv_def holds_def owning_def)
qed

lemma send_packet_keeps:
  "pc_ssl c = Some s \<Longrightarrow> returns (send_doip_packet L t p n c w) (\<lambda>(_, w'). res w' = res w)"
  by (simp add: send_doip_packet_def Let_def split_def keeps_ssl)

lemma recv_packet_keeps:
  assumes "pc_ssl c = Some s" "length stack < 2 ^ 31"
  shows "returns (recv_doip_packet L t0 stack (of_nat (length stack)) c w)
    (\<lambda>(n, _, p, w'). res w' = res w \<and> length p = length stack \<and> n \<le> int (length stack))"
proof -
  have u: "unat (of_nat (length stack) :: u32) = length stack"
    using assms(2) by (intro unat_le_of_nat) simp
  have fit: "unat n \<le> length stack" "sint n = int (unat n)" "sint n \<le> int (length stack)" if "\<not> (of_nat (length stack) :: u32) < n" for n
  proof -
    show l: "unat n \<le> length stack"
      using that u by (simp add: word_less_nat_alt)
    then show e: "sint n = int (unat n)"
      using sint_small [of "unat n"] assms(2) by simp
    show "sint n \<le> int (length stack)"
      unfolding e using l by (rule of_nat_mono)
  qed
  have w: "returns (buf_write stack 0 d) (\<lambda>p. length p = length stack)" if "length d \<le> unat n" "\<not> (of_nat (length stack) :: u32) < n" for d n
    using fit(1) [OF that(2)] that(1) by (simp add: buf_write_def)
  obtain x w1 where r: "o_read L s 8 w = (x, w1)" by fastforce
  have w1: "res w1 = res w"
    using keeps_ssl(5) [of s 8 w] r by simp
  show ?thesis
  proof (cases "\<exists>hd. x = Some hd \<and> length hd = 8")
    case False
    then show ?thesis
      using assms(1) r w1 by (auto simp: recv_doip_packet_def split: option.split)
  next
    case True
    then obtain hd where hd: "x = Some hd" "length hd = 8" by blast
    let ?n = "be32_val (hd ! 4) (hd ! 5) (hd ! 6) (hd ! 7)"
    obtain y w2 where r2: "o_read L s (unat ?n) w1 = (y, w2)" by fastforce
    have w2: "res w2 = res w"
      using keeps_ssl(5) [of s "unat ?n" w1] r2 w1 by simp
    have b: "length d \<le> unat ?n" if "y = Some d" for d
      using read_bound [of s "unat ?n" w1 d] r2 that by simp
    show ?thesis
    proof (cases "of_nat (length stack) < ?n")
      case True
      then show ?thesis
        using assms(1) r hd w1 by (simp add: recv_doip_packet_def Let_def)
    next
      case fits: False
      show ?thesis
      proof (cases y)
        case None
        then show ?thesis
          using assms(1) r r2 hd w1 w2 fits fit [OF fits] by (simp add: recv_doip_packet_def Let_def)
      next
        case (Some d)
        obtain p where p: "buf_write stack 0 d = Ret p" "length p = length stack"
          using w [OF b [OF Some] fits] by (auto elim: returnsE)
        then show ?thesis
          using assms(1) r r2 hd w1 w2 Some fits fit [OF fits] by (simp add: recv_doip_packet_def Let_def)
      qed
    qed
  qed
qed

text \<open>Activating, sending and receiving on a client with its stack arrays.\<close>

lemma client_inv_same: "client_inv r c w \<Longrightarrow> res w' = res w \<Longrightarrow> client_inv r c w'"
  by (auto simp: client_inv_def holds_def)

lemma activation_inv:
  assumes "client_inv r c w" "5 \<le> length stack" "length stack < 2 ^ 31"
  shows "returns (send_routing_activation L stack c w) (\<lambda>(_, c', w'). client_inv r c' w' \<and> pc_connected c' = pc_connected c)"
proof (cases "pc_connected c")
  case True
  then obtain s where s: "pc_ssl c = Some s"
    using assms(1) by (auto simp: client_inv_def)
  obtain k w1 where 1: "send_doip_packet L RoutingActivationReq
      [ucast (drop_bit 8 (pc_source c)), ucast (pc_source c), 0x00, 0x00, 0x00, 0x00, 0x00] 7 c w = Ret (k, w1)" "res w1 = res w"
    using send_packet_keeps [OF s] by (rule returnsE) auto
  obtain n t p w2 where 2: "recv_doip_packet L 0 stack (of_nat (length stack)) c w1 = Ret (n, t, p, w2)" "res w2 = res w1"
      "length p = length stack"
    using recv_packet_keeps [OF s assms(3), of 0 w1] by (auto elim!: returnsE)
  have "client_inv r (c\<lparr>pc_routing := True\<rparr>) w2"
    using assms(1) True 1(2) 2(2) by (auto simp: client_inv_def holds_def owning_def)
  moreover have "client_inv r c w1" "client_inv r c w2"
    using client_inv_same [OF assms(1)] 1(2) 2(2) by simp_all
  moreover have "buf_get p 4 = Ret (p ! 4)"
    using 2(3) assms(2) by (simp add: buf_get_def)
  ultimately show ?thesis
    using True 1(1) 2(1) by (simp add: send_routing_activation_def)
qed (use assms(1) in \<open>simp add: send_routing_activation_def\<close>)

lemma send_diagnostic_inv:
  assumes "client_inv r c w"
  shows "returns (send_diagnostic_message L target data c w) (\<lambda>(_, w'). client_inv r c w')"
proof (cases "pc_routing c")
  case True
  then obtain s where s: "pc_ssl c = Some s"
    using assms(1) by (auto simp: client_inv_def split: if_splits)
  let ?p = "[ucast (drop_bit 8 (pc_source c)), ucast (pc_source c), ucast (drop_bit 8 target), ucast target] @ data"
  obtain k w1 where "send_doip_packet L DiagnosticMessage ?p (of_nat (length ?p)) c w = Ret (k, w1)" "res w1 = res w"
    using send_packet_keeps [OF s] by (rule returnsE) auto
  then show ?thesis
    using True client_inv_same [OF assms] by (simp add: send_diagnostic_message_def)
qed (use assms in \<open>simp add: send_diagnostic_message_def\<close>)

lemma receive_diagnostic_inv:
  assumes "client_inv r c w" "length stack < 2 ^ 31"
  shows "returns (receive_diagnostic_message L stack c w) (\<lambda>(_, w'). client_inv r c w')"
proof (cases "pc_routing c")
  case True
  then obtain s where s: "pc_ssl c = Some s"
    using assms(1) by (auto simp: client_inv_def split: if_splits)
  obtain n t p w1 where 1: "recv_doip_packet L 0 stack (of_nat (length stack)) c w = Ret (n, t, p, w1)" "res w1 = res w"
      "length p = length stack" "n \<le> int (length stack)"
    using recv_packet_keeps [OF s assms(2), of 0 w] by (auto elim!: returnsE)
  have "client_inv r c w1"
    using client_inv_same [OF assms(1)] 1(2) by simp
  moreover have "buf_slice p 4 (nat n - 4) = Ret (take (nat n - 4) (drop 4 p))" if "4 \<le> n"
    using that 1(3,4) by (simp add: buf_slice_def)
  ultimately show ?thesis
    using True 1(1) by (simp add: receive_diagnostic_message_def)
qed (use assms in \<open>simp add: receive_diagnostic_message_def\<close>)

end

text \<open>The operations of a client's owner, who connects only while not connected. The stacks are the local arrays.\<close>

datatype pq_op = PqConnect string string string | PqDisconnect | PqActivate bytes | PqSend u16 bytes | PqReceive bytes

fun pq_op_ok :: "pq_op \<Rightarrow> bool" where
  "pq_op_ok (PqActivate stack) = (length stack = 256)"
| "pq_op_ok (PqReceive stack) = (length stack = 4096)"
| "pq_op_ok op = True"

fun pq_step :: "'w openssl \<Rightarrow> pq_op \<Rightarrow> PQC_DoIP_Client \<times> 'w \<Rightarrow> (PQC_DoIP_Client \<times> 'w) cexec" where
  "pq_step L (PqConnect cert key ca) (c, w) =
     (if pc_connected c then Ret (c, w) else cbind (pqc_connect L cert key ca c w) (\<lambda>(_, c, w). Ret (c, w)))"
| "pq_step L PqDisconnect (c, w) = Ret (pqc_disconnect L c w)"
| "pq_step L (PqActivate stack) (c, w) = cbind (send_routing_activation L stack c w) (\<lambda>(_, c, w). Ret (c, w))"
| "pq_step L (PqSend target data) (c, w) = cbind (send_diagnostic_message L target data c w) (\<lambda>(_, w). Ret (c, w))"
| "pq_step L (PqReceive stack) (c, w) = cbind (receive_diagnostic_message L stack c w) (\<lambda>(_, w). Ret (c, w))"

fun pq_run :: "'w openssl \<Rightarrow> pq_op list \<Rightarrow> PQC_DoIP_Client \<times> 'w \<Rightarrow> (PQC_DoIP_Client \<times> 'w) cexec" where
  "pq_run L [] s = Ret s"
| "pq_run L (op # ops) s = cbind (pq_step L op s) (pq_run L ops)"

context tls_library
begin

lemma pq_step_inv:
  assumes "client_inv r c w" "pq_op_ok op"
  shows "returns (pq_step L op (c, w)) (\<lambda>(c', w'). client_inv r c' w')"
proof (cases op)
  case (PqConnect cert key ca)
  show ?thesis
  proof (cases "pc_connected c")
    case False
    then show ?thesis
      using PqConnect returns_mono [OF pqc_connect_inv [OF assms(1) False, of cert key ca]]
      by (auto simp: returns_cbind split_def)
  qed (use PqConnect assms(1) in simp)
next
  case PqDisconnect
  then show ?thesis
    using pqc_disconnect_inv [OF assms(1)] by (simp add: split_def)
next
  case (PqActivate stack)
  then show ?thesis
    using assms(2) returns_mono [OF activation_inv [OF assms(1), of stack]] by (auto simp: returns_cbind split_def)
next
  case (PqSend target data)
  then show ?thesis
    using returns_mono [OF send_diagnostic_inv [OF assms(1), of target data]] by (auto simp: returns_cbind split_def)
next
  case (PqReceive stack)
  then show ?thesis
    using assms(2) returns_mono [OF receive_diagnostic_inv [OF assms(1), of stack]] by (auto simp: returns_cbind split_def)
qed

lemma pq_run_inv:
  "client_inv r c w \<Longrightarrow> list_all pq_op_ok ops \<Longrightarrow> returns (pq_run L ops (c, w)) (\<lambda>(c', w'). client_inv r c' w')"
proof (induction ops arbitrary: c w)
  case (Cons op ops)
  obtain c1 w1 where 1: "pq_step L op (c, w) = Ret (c1, w1)" "client_inv r c1 w1"
    using pq_step_inv [OF Cons.prems(1), of op] Cons.prems(2) by (auto elim!: returnsE)
  then show ?case
    using Cons.IH [OF 1(2)] Cons.prems(2) by simp
qed simp

end


text \<open>
  The session of the gateway as the library's other end: every connection succeeds, and handles are numbered. A set of
  handles that is not finite counts as exhausted.
\<close>

definition new_handle :: "nat set \<Rightarrow> nat option" where
  "new_handle A = (if finite A then Some (Suc (Max (insert 0 A))) else None)"

lemma new_handle_fresh: "new_handle A = Some x \<Longrightarrow> x \<notin> A"
proof
  assume "new_handle A = Some x" "x \<in> A"
  then have "finite A" "x = Suc (Max (insert 0 A))"
    by (auto simp: new_handle_def split: if_splits)
  moreover from this \<open>x \<in> A\<close> have "x \<le> Max (insert 0 A)"
    by (intro Max_ge) simp_all
  ultimately show False by simp
qed

definition session_library :: "(tls_session \<times> tls_resources) openssl" where
  "session_library = \<lparr>
     o_ctx_new = (\<lambda>(v, r). case new_handle (ctxs r) of None \<Rightarrow> (None, (v, r)) | Some x \<Rightarrow> (Some x, (v, r\<lparr>ctxs := insert x (ctxs r)\<rparr>))),
     o_set_proto = (\<lambda>_ _ _ w. w), o_set_groups = (\<lambda>_ _ w. (1, w)), o_set_sigalgs = (\<lambda>_ _ w. (1, w)),
     o_set_ciphersuites = (\<lambda>_ _ w. (1, w)), o_set_verify = (\<lambda>_ w. w), o_use_cert = (\<lambda>_ _ w. (1, w)), o_use_key = (\<lambda>_ _ w. (1, w)),
     o_check_key = (\<lambda>_ w. (1, w)), o_load_verify = (\<lambda>_ _ w. (1, w)), o_getaddrinfo = (\<lambda>_ _ w. (Some [0], w)), o_freeaddrinfo = (\<lambda>w. w),
     o_socket = (\<lambda>_ (v, r). case new_handle (nat ` socks r) of None \<Rightarrow> (-1, (v, r)) | Some k \<Rightarrow> (int k, (v, r\<lparr>socks := insert (int k) (socks r)\<rparr>))),
     o_connect = (\<lambda>_ _ w. (0, w)), o_close = (\<lambda>k (v, r). (v, r\<lparr>socks := socks r - {k}, bad := (bad r \<or> k \<notin> socks r)\<rparr>)),
     o_ssl_new = (\<lambda>_ (v, r). case new_handle (ssls r) of None \<Rightarrow> (None, (v, r)) | Some s \<Rightarrow> (Some s, (v, r\<lparr>ssls := insert s (ssls r)\<rparr>))),
     o_set_fd = (\<lambda>_ _ w. w), o_set_host = (\<lambda>_ _ w. w), o_ssl_connect = (\<lambda>_ w. (1, w)), o_write = library_write, o_read = library_read,
     o_shutdown = (\<lambda>_ w. w), o_ssl_free = (\<lambda>s (v, r). (v, r\<lparr>ssls := ssls r - {s}, bad := (bad r \<or> s \<notin> ssls r)\<rparr>)),
     o_ctx_free = (\<lambda>x (v, r). (v, r\<lparr>ctxs := ctxs r - {x}, bad := (bad r \<or> x \<notin> ctxs r)\<rparr>))\<rparr>"

lemma session_read_bound: "fst (session_read n w) = Inr d \<Longrightarrow> length d \<le> n"
  by (auto simp: session_read_def split: prod.splits list.splits if_splits)

interpretation session_tls: tls_library session_library snd
proof unfold_locales
  fix a :: nat and k :: int and w w1 :: "tls_session \<times> tls_resources"
  assume s: "o_socket session_library a w = (k, w1)" and k: "0 \<le> k"
  obtain v r where w: "w = (v, r)" by fastforce
  obtain n where n: "new_handle (nat ` socks r) = Some n" "k = int n" "snd w1 = r\<lparr>socks := insert (int n) (socks r)\<rparr>"
    using s k by (auto simp: session_library_def w split: option.splits)
  have "int n \<notin> socks r"
  proof
    assume "int n \<in> socks r"
    then have "nat (int n) \<in> nat ` socks r" by (rule imageI)
    with new_handle_fresh [OF n(1)] show False by simp
  qed
  with n show "k \<notin> socks (snd w) \<and> snd w1 = (snd w)\<lparr>socks := insert k (socks (snd w))\<rparr>"
    by (simp add: w)
next
  fix s m w and d :: bytes
  assume "fst (o_read session_library s m w) = Some d"
  then show "length d \<le> m"
    using session_read_bound by (auto simp: session_library_def library_read_def split_def split: prod.splits sum.splits)
qed (auto simp: session_library_def library_read_def library_write_def split_def Let_def dest: new_handle_fresh
    split: prod.splits option.splits sum.splits)

lemma session_talks: "talks_to_session session_library"
  by (simp add: talks_to_session_def session_library_def)

definition no_resources :: tls_resources where
  "no_resources = \<lparr>ctxs = {}, ssls = {}, socks = {}, bad = False\<rparr>"



end
