(* ===== verification/JSON_Interface.thy ===== *)
theory JSON_Interface
  imports Cpp_Exceptions
begin

text \<open>
  The JSON library the C++ programs are written against, nlohmann::json, as an interface. The library
  is not part of the sources: its values are a type parameter and its calls a record of functions. The
  locale \<^verbatim>\<open>json_library\<close> states what its manual promises of the calls the code makes; \<open>view\<close> reads
  the members of an object and is the only thing the clients know of a value's inside.
\<close>

record 'j json_api =
  j_null :: 'j
  j_string :: "string \<Rightarrow> 'j"
  j_int :: "int \<Rightarrow> 'j"
  j_bool :: "bool \<Rightarrow> 'j"
  j_object :: "(string \<times> 'j) list \<Rightarrow> 'j"
  j_at :: "'j \<Rightarrow> string \<Rightarrow> 'j throws"
  j_index :: "'j \<Rightarrow> string \<Rightarrow> ('j \<times> 'j) throws"
  j_assign :: "'j \<Rightarrow> string \<Rightarrow> 'j \<Rightarrow> 'j throws"
  j_contains :: "'j \<Rightarrow> string \<Rightarrow> bool"
  j_is_object :: "'j \<Rightarrow> bool"
  j_empty :: "'j \<Rightarrow> bool"
  j_update :: "'j \<Rightarrow> 'j \<Rightarrow> 'j throws"
  j_get_string :: "'j \<Rightarrow> string throws"
  j_get_int :: "'j \<Rightarrow> int throws"
  j_get_bool :: "'j \<Rightarrow> bool throws"
  j_dump :: "'j \<Rightarrow> string throws"
  j_parse :: "string \<Rightarrow> 'j throws"

text \<open>
  \<open>j_at\<close> is \<^verbatim>\<open>operator[]\<close> on a constant value: undefined for a missing key, an exception on anything but an
  object. \<open>j_index\<close> is \<^verbatim>\<open>operator[]\<close> on a variable: it adds a missing key with the value null, and makes
  null an object; its result is the member and the value afterwards.
\<close>

locale json_library =
  fixes J :: "'j json_api"
    and view :: "'j \<Rightarrow> (string \<Rightarrow> 'j option) option"
  assumes view_object: "view (j_object J kvs) = Some (map_of kvs)"
    and view_null: "view (j_null J) = None"
    and view_string: "view (j_string J s) = None"
    and at_object: "view j = Some m \<Longrightarrow> j_at J j k = (case m k of Some v \<Rightarrow> ok v | None \<Rightarrow> Fault)"
    and at_other: "view j = None \<Longrightarrow> j_at J j k = throw ''type_error.305''"
    and index_object: "view j = Some m \<Longrightarrow> \<exists>j'. j_index J j k = ok (case m k of Some v \<Rightarrow> v | None \<Rightarrow> j_null J, j')
        \<and> view j' = Some (if k \<in> dom m then m else m(k \<mapsto> j_null J))"
    and assign_object: "view j = Some m \<Longrightarrow> \<exists>j'. j_assign J j k v = ok j' \<and> view j' = Some (m(k \<mapsto> v))"
    and contains_iff: "j_contains J j k \<longleftrightarrow> (\<exists>m. view j = Some m \<and> k \<in> dom m)"
    and is_object_iff: "j_is_object J j \<longleftrightarrow> view j \<noteq> None"
    and empty_null: "j_empty J (j_null J)"
    and update_object: "view j = Some m \<Longrightarrow> view j2 = Some m2 \<Longrightarrow> \<exists>j'. j_update J j j2 = ok j' \<and> view j' = Some (m ++ m2)"
    and update_other: "view j = Some m \<Longrightarrow> view j2 = None \<Longrightarrow> j_update J j j2 = throw ''type_error.312''"
    and get_string: "j_get_string J (j_string J s) = ok s"
    and get_int: "j_get_int J (j_int J n) = ok n"
    and get_bool: "j_get_bool J (j_bool J b) = ok b"
    and null_no_string: "j_get_string J (j_null J) = throw ''type_error.302''"
begin

lemma at_member: "view j = Some m \<Longrightarrow> m k = Some v \<Longrightarrow> j_at J j k = ok v"
  by (simp add: at_object)

lemma at_missing: "view j = Some m \<Longrightarrow> m k = None \<Longrightarrow> j_at J j k = Fault"
  by (simp add: at_object)

lemma contains_object: "view j = Some m \<Longrightarrow> j_contains J j k = (k \<in> dom m)"
  by (simp add: contains_iff)

lemma object_members [simp]:
  "j_at J (j_object J kvs) k = (case map_of kvs k of Some v \<Rightarrow> ok v | None \<Rightarrow> Fault)"
  "j_contains J (j_object J kvs) k = (k \<in> dom (map_of kvs))"
  by (simp_all add: at_object view_object contains_object)

end

text \<open>\<^verbatim>\<open>value(key, default)\<close>: the member converted, the default where there is none.\<close>

definition j_value :: "'j json_api \<Rightarrow> ('j \<Rightarrow> 'a throws) \<Rightarrow> 'j \<Rightarrow> string \<Rightarrow> 'a \<Rightarrow> 'a throws" where
  "j_value J get j k d = (if \<not> j_is_object J j then throw ''type_error.306''
     else if j_contains J j k then ebind (j_at J j k) get else ok d)"

context json_library
begin

lemma value_object:
  "view j = Some m \<Longrightarrow> j_value J get j k d = (case m k of Some v \<Rightarrow> get v | None \<Rightarrow> ok d)"
  by (auto simp: j_value_def is_object_iff contains_object at_object split: option.split)

end

section \<open>A library that keeps the promises\<close>

datatype json_value = JNull | JBool bool | JInt int | JString string | JObject "(string \<times> json_value) list"

fun members_of :: "json_value \<Rightarrow> (string \<Rightarrow> json_value option) option" where
  "members_of (JObject kvs) = Some (map_of kvs)"
| "members_of _ = None"

text \<open>Keys are put in front, so that \<open>map_of\<close> finds the latest.\<close>

fun json_at :: "json_value \<Rightarrow> string \<Rightarrow> json_value throws" where
  "json_at (JObject kvs) k = (case map_of kvs k of Some v \<Rightarrow> ok v | None \<Rightarrow> Fault)"
| "json_at _ k = throw ''type_error.305''"

fun json_index :: "json_value \<Rightarrow> string \<Rightarrow> (json_value \<times> json_value) throws" where
  "json_index (JObject kvs) k = (case map_of kvs k of Some v \<Rightarrow> ok (v, JObject kvs) | None \<Rightarrow> ok (JNull, JObject ((k, JNull) # kvs)))"
| "json_index JNull k = ok (JNull, JObject [(k, JNull)])"
| "json_index _ k = throw ''type_error.305''"

fun json_assign :: "json_value \<Rightarrow> string \<Rightarrow> json_value \<Rightarrow> json_value throws" where
  "json_assign (JObject kvs) k v = ok (JObject ((k, v) # kvs))"
| "json_assign JNull k v = ok (JObject [(k, v)])"
| "json_assign _ k v = throw ''type_error.305''"

fun json_update :: "json_value \<Rightarrow> json_value \<Rightarrow> json_value throws" where
  "json_update (JObject a) (JObject b) = ok (JObject (b @ a))"
| "json_update JNull (JObject b) = ok (JObject b)"
| "json_update _ _ = throw ''type_error.312''"

fun json_empty :: "json_value \<Rightarrow> bool" where
  "json_empty JNull = True"
| "json_empty (JObject kvs) = (kvs = [])"
| "json_empty _ = False"

fun json_as_string :: "json_value \<Rightarrow> string throws" where
  "json_as_string (JString s) = ok s"
| "json_as_string _ = throw ''type_error.302''"

fun json_int :: "json_value \<Rightarrow> int throws" where
  "json_int (JInt n) = ok n"
| "json_int _ = throw ''type_error.302''"

fun json_bool :: "json_value \<Rightarrow> bool throws" where
  "json_bool (JBool b) = ok b"
| "json_bool _ = throw ''type_error.302''"

text \<open>The texts are left to the argument \<open>text\<close>, a printer, and \<open>read\<close>, a parser.\<close>

definition json_values :: "(json_value \<Rightarrow> string throws) \<Rightarrow> (string \<Rightarrow> json_value throws) \<Rightarrow> json_value json_api" where
  "json_values print read = \<lparr>j_null = JNull, j_string = JString, j_int = JInt, j_bool = JBool, j_object = JObject,
     j_at = json_at, j_index = json_index, j_assign = json_assign,
     j_contains = (\<lambda>j k. \<exists>m. members_of j = Some m \<and> k \<in> dom m), j_is_object = (\<lambda>j. members_of j \<noteq> None),
     j_empty = json_empty, j_update = json_update, j_get_string = json_as_string, j_get_int = json_int,
     j_get_bool = json_bool, j_dump = print, j_parse = read\<rparr>"

lemma json_values_simps [simp]:
  "j_null (json_values p r) = JNull" "j_string (json_values p r) = JString" "j_int (json_values p r) = JInt"
  "j_bool (json_values p r) = JBool" "j_object (json_values p r) = JObject" "j_at (json_values p r) = json_at"
  "j_index (json_values p r) = json_index" "j_assign (json_values p r) = json_assign"
  "j_contains (json_values p r) = (\<lambda>j k. \<exists>m. members_of j = Some m \<and> k \<in> dom m)"
  "j_is_object (json_values p r) = (\<lambda>j. members_of j \<noteq> None)" "j_empty (json_values p r) = json_empty"
  "j_update (json_values p r) = json_update" "j_get_string (json_values p r) = json_as_string"
  "j_get_int (json_values p r) = json_int" "j_get_bool (json_values p r) = json_bool"
  "j_dump (json_values p r) = p" "j_parse (json_values p r) = r"
  by (simp_all add: json_values_def)

lemma members_of_SomeE:
  assumes "members_of j = Some m"
  obtains kvs where "j = JObject kvs" "m = map_of kvs"
  using assms by (cases j) auto

interpretation json_values: json_library "json_values p r" members_of
proof unfold_locales
  fix j :: json_value and m k
  assume "members_of j = Some m"
  then show "\<exists>j'. j_index (json_values p r) j k = ok (case m k of Some v \<Rightarrow> v | None \<Rightarrow> j_null (json_values p r), j')
      \<and> members_of j' = Some (if k \<in> dom m then m else m(k \<mapsto> j_null (json_values p r)))"
    by (elim members_of_SomeE) (auto split: option.split)
next
  fix j :: json_value and k
  assume "members_of j = None"
  then show "j_at (json_values p r) j k = throw ''type_error.305''"
    by (cases j) simp_all
next
  fix j j2 :: json_value and m
  assume "members_of j = Some m" "members_of j2 = None"
  then show "j_update (json_values p r) j j2 = throw ''type_error.312''"
    by (cases j; cases j2) simp_all
qed (auto elim!: members_of_SomeE split: option.split)

end
