(* ===== verification/C_Texts.thy ===== *)
theory C_Texts
  imports Cpp_Exceptions
begin

text \<open>
  Texts shared by the C++ programs: characters and bytes, C strings of C++ strings, and the numbers that
  \<^verbatim>\<open>sscanf\<close>, \<^verbatim>\<open>std::stoi\<close> and \<^verbatim>\<open>std::to_string\<close> read and write.
\<close>

section \<open>Characters and bytes\<close>

definition bytes_of :: "string \<Rightarrow> bytes" where
  "bytes_of s = map (\<lambda>c. word_of_nat (of_char c)) s"

definition text_of :: "bytes \<Rightarrow> string" where
  "text_of b = map (\<lambda>x. char_of (unat x)) b"

lemma text_of_bytes_of [simp]: "text_of (bytes_of s) = s"
  by (induction s) (simp_all add: text_of_def bytes_of_def unat_of_nat)

lemma length_bytes_of [simp]: "length (bytes_of s) = length s"
  by (simp add: bytes_of_def)

lemma length_text_of [simp]: "length (text_of b) = length b"
  by (simp add: text_of_def)

lemma text_of_append [simp]: "text_of (a @ b) = text_of a @ text_of b"
  by (simp add: text_of_def)

lemma text_of_concat: "text_of (concat bs) = concat (map text_of bs)"
  by (induction bs) (simp_all add: text_of_def)

lemma bytes_of_take: "bytes_of (take n s) = take n (bytes_of s)"
  by (simp add: bytes_of_def take_map)

text \<open>A C++ string as C sees it, up to the first zero character.\<close>

definition c_text :: "string \<Rightarrow> string" where
  "c_text s = takeWhile (\<lambda>c. of_char c \<noteq> (0 :: nat)) s"

lemma byte_of_char: "unat (word_of_nat (of_char c) :: u8) = of_char c"
  by (rule unat_le_of_nat) (simp add: nat_of_char_less_256)

lemma bytes_of_c_text: "takeWhile (\<lambda>x. x \<noteq> 0) (bytes_of s) = bytes_of (c_text s)"
proof -
  have "word_of_nat (of_char c) = (0 :: u8) \<longleftrightarrow> of_char c = (0 :: nat)" for c
    by (metis byte_of_char unat_eq_0)
  then show ?thesis
    by (induction s) (simp_all add: bytes_of_def c_text_def)
qed

lemma bytes_of_nonzero: "0 \<notin> set (bytes_of (c_text s))"
  by (metis bytes_of_c_text set_takeWhileD)

lemma c_text_idem [simp]: "c_text (c_text s) = c_text s"
  by (simp add: c_text_def)

lemma length_c_text: "length (c_text s) \<le> length s"
  by (simp add: c_text_def length_takeWhile_le)

lemma c_text_whole: "c_text (text_of b) = text_of b \<longleftrightarrow> 0 \<notin> set b"
proof -
  have "unat x mod 256 = unat x" for x :: u8
    using unsigned_less [of x, where 'a = nat] by simp
  moreover have "0 < unat x \<longleftrightarrow> x \<noteq> 0" for x :: u8
    by (metis gr0I less_irrefl unat_eq_0)
  ultimately show ?thesis
    by (auto simp: c_text_def text_of_def takeWhile_eq_all_conv)
qed

section \<open>Numbers\<close>

definition is_digit :: "char \<Rightarrow> bool" where
  "is_digit c \<longleftrightarrow> c \<in> set ''0123456789''"

definition scan_space :: "char \<Rightarrow> bool" where
  "scan_space c \<longleftrightarrow> of_char c \<in> {9, 10, 11, 12, 13, 32 :: nat}"

definition digits_value :: "string \<Rightarrow> nat" where
  "digits_value s = foldl (\<lambda>n c. 10 * n + (of_char c - 48)) 0 s"

fun scan_sign :: "string \<Rightarrow> bool \<times> string" where
  "scan_sign (c # s) = (if c = CHR ''-'' then (True, s) else if c = CHR ''+'' then (False, s) else (False, c # s))"
| "scan_sign [] = (False, [])"

text \<open>\<^verbatim>\<open>std::stoi\<close>: white space, a sign, digits; what follows them is ignored. Both of its exceptions have the text \<^verbatim>\<open>stoi\<close>.\<close>

definition stoi :: "string \<Rightarrow> int throws" where
  "stoi s = (let (neg, t) = scan_sign (dropWhile scan_space s); ds = takeWhile is_digit t;
       v = (if neg then - int (digits_value ds) else int (digits_value ds))
     in if ds = [] \<or> v < -(2 ^ 31) \<or> 2 ^ 31 \<le> v then throw ''stoi'' else ok v)"

text \<open>\<^verbatim>\<open>std::to_string\<close> of a number that is not negative.\<close>

fun nat_text :: "nat \<Rightarrow> string" where
  "nat_text n = (if n < 10 then [] else nat_text (n div 10)) @ [char_of (48 + n mod 10)]"

declare nat_text.simps [simp del]

lemma digit_char:
  fixes k :: nat
  assumes "k < 10"
  shows "of_char (char_of (48 + k) :: char) = 48 + k" "is_digit (char_of (48 + k))"
proof -
  show v: "of_char (char_of (48 + k) :: char) = 48 + k"
    using assms by simp
  have "k \<in> {0, 1, 2, 3, 4, 5, 6, 7, 8, 9}"
    using assms by auto
  then show "is_digit (char_of (48 + k))"
    by (elim insertE emptyE) (simp_all add: is_digit_def char_of_eq_iff)
qed

lemma digits_value_snoc: "digits_value (s @ [c]) = 10 * digits_value s + (of_char c - 48)"
  by (simp add: digits_value_def)

lemma digits_value_nat_text [simp]: "digits_value (nat_text n) = n"
proof (induction n rule: nat_text.induct)
  case (1 n)
  then show ?case
    by (subst nat_text.simps) (auto simp: digits_value_snoc digit_char digits_value_def)
qed

lemma nat_text_digits: "c \<in> set (nat_text n) \<Longrightarrow> is_digit c"
proof (induction n rule: nat_text.induct)
  case (1 n)
  then show ?case
    using digit_char(2) [of "n mod 10"] by (subst (asm) nat_text.simps) (auto split: if_splits)
qed

end
