(* ===== verification/Device_Info.thy ===== *)
theory Device_Info
  imports JSON_Interface C_Texts
begin

text \<open>
  The identity and the configuration of the simulated device: \<^verbatim>\<open>tc375_simulator/include/device_info.hpp\<close>
  and \<^verbatim>\<open>src/device_info.cpp\<close>. The two packed structures are kept as their bytes on the little-endian host,
  because the code reads strings across the ends of their fields. A file is its contents, or
  \<open>None\<close> when it cannot be opened; what is in local variables before they are set is the argument \<open>stack\<close>.
\<close>

section \<open>Texts\<close>

text \<open>\<^verbatim>\<open>%u\<close> of \<^verbatim>\<open>sscanf\<close>: white space, a sign, digits. A value that does not fit is undefined.\<close>

definition scan_u :: "string \<Rightarrow> (bool \<times> nat \<times> string) option" where
  "scan_u s = (let (neg, s) = scan_sign (dropWhile scan_space s); ds = takeWhile is_digit s
     in if ds = [] then None else Some (neg, digits_value ds, dropWhile is_digit s))"

fun scan_dotted :: "nat \<Rightarrow> string \<Rightarrow> u32 list cexec" where
  "scan_dotted 0 s = Ret []"
| "scan_dotted (Suc k) s = (case scan_u s of
       None \<Rightarrow> Ret []
     | Some (neg, v, rest) \<Rightarrow>
         if neg \<and> v \<noteq> 0 \<or> 2 ^ 32 \<le> v then Fault
         else case rest of
             c # r \<Rightarrow> if c = CHR ''.'' then cbind (scan_dotted k r) (\<lambda>vs. Ret (word_of_nat v # vs)) else Ret [word_of_nat v]
           | [] \<Rightarrow> Ret [word_of_nat v])"

text \<open>\<^verbatim>\<open>%02hhx\<close>: at most two characters, of which one may be a sign; a prefix \<^verbatim>\<open>0x\<close> leaves no digit.\<close>

definition hex_digit_value :: "char \<Rightarrow> nat option" where
  "hex_digit_value c = (let n = of_char c in
     if 48 \<le> n \<and> n \<le> 57 then Some (n - 48) else if 65 \<le> n \<and> n \<le> 70 then Some (n - 55)
     else if 97 \<le> n \<and> n \<le> 102 then Some (n - 87) else None)"

fun scan_hh :: "string \<Rightarrow> (u8 \<times> string) option" where
  "scan_hh (a # b # s) =
     (if a = CHR ''-'' \<or> a = CHR ''+'' then map_option (\<lambda>v. (if a = CHR ''-'' then - word_of_nat v else word_of_nat v, s)) (hex_digit_value b)
      else if a = CHR ''0'' \<and> (b = CHR ''x'' \<or> b = CHR ''X'') then None
      else case (hex_digit_value a, hex_digit_value b) of
          (Some v, Some v') \<Rightarrow> Some (word_of_nat (16 * v + v'), s)
        | (Some v, None) \<Rightarrow> Some (word_of_nat v, b # s)
        | _ \<Rightarrow> None)"
| "scan_hh [a] = map_option (\<lambda>v. (word_of_nat v, [])) (hex_digit_value a)"
| "scan_hh [] = None"

fun scan_mac :: "nat \<Rightarrow> string \<Rightarrow> bytes" where
  "scan_mac 0 s = []"
| "scan_mac (Suc k) s = (case scan_hh (dropWhile scan_space s) of
       None \<Rightarrow> []
     | Some (v, rest) \<Rightarrow> v # (case rest of c # r \<Rightarrow> if c = CHR '':'' then scan_mac k r else [] | [] \<Rightarrow> []))"

text \<open>\<^verbatim>\<open>%d\<close> and \<^verbatim>\<open>%02X\<close> of a byte.\<close>

definition decimal_byte :: "u8 \<Rightarrow> string" where
  "decimal_byte b = (let n = unat b; d = (\<lambda>k. ''0123456789'' ! k) in
     if n < 10 then [d n] else if n < 100 then [d (n div 10), d (n mod 10)]
     else [d (n div 100), d (n div 10 mod 10), d (n mod 10)])"

definition hex_byte :: "u8 \<Rightarrow> string" where
  "hex_byte b = [''0123456789ABCDEF'' ! (unat b div 16), ''0123456789ABCDEF'' ! (unat b mod 16)]"

section \<open>The structures\<close>

text \<open>Offsets and sizes of the packed \<^verbatim>\<open>PermanentConfig\<close> and \<^verbatim>\<open>DeviceConfig\<close>.\<close>

abbreviation (input) P_ecu_serial :: nat where "P_ecu_serial \<equiv> 0"
abbreviation (input) P_mac_address :: nat where "P_mac_address \<equiv> 32"
abbreviation (input) P_hardware_version :: nat where "P_hardware_version \<equiv> 38"
abbreviation (input) P_vin :: nat where "P_vin \<equiv> 58"
abbreviation (input) P_vehicle_model :: nat where "P_vehicle_model \<equiv> 75"
abbreviation (input) P_vehicle_year :: nat where "P_vehicle_year \<equiv> 107"
definition sizeof_perm :: nat where "sizeof_perm = 32 + 6 + 16 + 4 + 17 + 32 + 2 + 1 + 8 * 4 + 4 + 4 + 128 + 4"

abbreviation (input) D_ip_address :: nat where "D_ip_address \<equiv> 0"
abbreviation (input) D_gateway_port :: nat where "D_gateway_port \<equiv> 12"
abbreviation (input) D_gateway_host :: nat where "D_gateway_host \<equiv> 14"
abbreviation (input) D_tls_enabled :: nat where "D_tls_enabled \<equiv> 78"
abbreviation (input) D_heartbeat_interval :: nat where "D_heartbeat_interval \<equiv> 80"
abbreviation (input) D_sensor_interval :: nat where "D_sensor_interval \<equiv> 82"
abbreviation (input) D_ota_enabled :: nat where "D_ota_enabled \<equiv> 84"
abbreviation (input) D_diagnostics_enabled :: nat where "D_diagnostics_enabled \<equiv> 85"
abbreviation (input) D_crc32 :: nat where "D_crc32 \<equiv> 157"
definition sizeof_dev :: nat where "sizeof_dev = 4 + 4 + 4 + 2 + 64 + 1 + 1 + 2 + 2 + 1 + 1 + 1 + 1 + 4 + 1 + 64 + 4"

record DeviceInfo =
  perm_config :: bytes
  dev_config :: bytes

definition device_info :: DeviceInfo where
  "device_info = \<lparr>perm_config = replicate sizeof_perm 0, dev_config = replicate sizeof_dev 0\<rparr>"

definition put_field :: "nat \<Rightarrow> bytes \<Rightarrow> bytes \<Rightarrow> bytes" where
  "put_field off d b = take off b @ d @ drop (off + length d) b"

definition get_field :: "nat \<Rightarrow> nat \<Rightarrow> bytes \<Rightarrow> bytes" where
  "get_field off n b = take n (drop off b)"

definition strncpy_field :: "nat \<Rightarrow> nat \<Rightarrow> string \<Rightarrow> bytes \<Rightarrow> bytes" where
  "strncpy_field off n s b = put_field off (take n (takeWhile (\<lambda>x. x \<noteq> 0) (bytes_of s) @ replicate n 0)) b"

text \<open>A string made of the pointer to a field runs to the next zero byte of the structure.\<close>

definition string_at :: "nat \<Rightarrow> bytes \<Rightarrow> string cexec" where
  "string_at off b = cbind (cstr_of (drop off b)) (\<lambda>s. Ret (text_of s))"

definition get_u16 :: "nat \<Rightarrow> bytes \<Rightarrow> u16" where
  "get_u16 off b = mem_u16 (get_field off 2 b)"

definition get_u32 :: "nat \<Rightarrow> bytes \<Rightarrow> u32" where
  "get_u32 off b = mem_u32 (get_field off 4 b)"

lemma length_put_field [simp]: "off + length d \<le> length b \<Longrightarrow> length (put_field off d b) = length b"
  by (simp add: put_field_def)

lemma get_put_same [simp]: "off + length d \<le> length b \<Longrightarrow> n = length d \<Longrightarrow> get_field off n (put_field off d b) = d"
  by (simp add: put_field_def get_field_def)

lemma get_put_other [simp]:
  assumes "off + length d \<le> length b" "off' + n \<le> off \<or> off + length d \<le> off'"
  shows "get_field off' n (put_field off d b) = get_field off' n b"
  using assms(2)
proof
  assume "off' + n \<le> off"
  then have "take (off' + n) (put_field off d b) = take (off' + n) b"
    using assms(1) by (simp add: put_field_def min_def)
  then show ?thesis
    by (simp only: get_field_def take_drop [symmetric] add.commute) (simp add: take_drop add.commute)
next
  assume "off + length d \<le> off'"
  then have "drop off' (put_field off d b) = drop off' b"
    using assms(1) by (simp add: put_field_def)
  then show ?thesis
    by (simp add: get_field_def)
qed

section \<open>Checksum\<close>

definition crc_step :: "u32 \<Rightarrow> u32" where
  "crc_step crc = drop_bit 1 crc XOR (0xEDB88320 AND - (crc AND 1))"

definition crc_byte :: "u32 \<Rightarrow> u8 \<Rightarrow> u32" where
  "crc_byte crc b = (crc_step ^^ 8) (crc XOR ucast b)"

definition calculate_crc :: "bytes \<Rightarrow> u32" where
  "calculate_crc d = NOT (foldl crc_byte 0xFFFFFFFF d)"

definition verify_crc :: "bytes \<Rightarrow> u32 \<Rightarrow> bool" where
  "verify_crc d expected \<longleftrightarrow> calculate_crc d = expected"

lemma xor_left_inject: "a XOR b = a XOR c \<longleftrightarrow> b = c" for a b c :: u32
proof
  assume "a XOR b = a XOR c"
  then have "a XOR (a XOR b) = a XOR (a XOR c)"
    by simp
  then show "b = c"
    by (simp flip: xor.assoc)
qed simp

text \<open>The step as a choice on the lowest bit.\<close>

lemma crc_step_cases: "crc_step x = (if bit x 0 then drop_bit 1 x XOR 0xEDB88320 else drop_bit 1 x)"
proof -
  have "x AND 1 = (if bit x 0 then 1 else 0)"
    by (simp add: and_one_eq bit_0 odd_iff_mod_2_eq_one even_iff_mod_2_eq_zero)
  then show ?thesis
    by (simp add: crc_step_def)
qed

lemma crc_step_xor: "crc_step (x XOR y) = crc_step x XOR crc_step y"
proof -
  have "drop_bit 1 (x XOR y) = drop_bit 1 x XOR drop_bit 1 y"
    by (rule bit_word_eqI) (simp add: bit_simps)
  then show ?thesis
    by (auto simp: crc_step_cases bit_xor_iff ac_simps)
qed

lemma crc_step_inj: "crc_step x = crc_step y \<Longrightarrow> x = y"
proof -
  assume eq: "crc_step x = crc_step y"
  have top: "bit (crc_step z) 31 \<longleftrightarrow> bit z 0" for z
    using bit_imp_le_length [of z 32] by (auto simp: crc_step_cases bit_simps)
  have low: "bit x 0 = bit y 0"
    using top [of x] top [of y] eq by simp
  then have "drop_bit 1 x = drop_bit 1 y"
    using eq by (simp add: crc_step_cases xor.commute [of _ "0xEDB88320"] xor_left_inject split: if_splits)
  then have "bit x (Suc n) = bit y (Suc n)" for n
    by (metis bit_drop_bit_eq comp_apply plus_1_eq_Suc)
  then show "x = y"
    using low by (intro bit_word_eqI) (metis not0_implies_Suc)
qed

lemma crc_steps_xor: "(crc_step ^^ n) (x XOR y) = (crc_step ^^ n) x XOR (crc_step ^^ n) y"
  by (induction n) (simp_all add: crc_step_xor)

lemma crc_steps_inj: "(crc_step ^^ n) x = (crc_step ^^ n) y \<Longrightarrow> x = y"
  by (induction n) (auto dest: crc_step_inj)

lemma crc_steps_shift: "n \<le> 32 \<Longrightarrow> (\<And>i. bit y i \<Longrightarrow> i + n < 32) \<Longrightarrow> (crc_step ^^ n) (push_bit n y) = y"
proof (induction n)
  case (Suc n)
  have "crc_step (push_bit (Suc n) y) = push_bit n y"
  proof -
    have "drop_bit 1 (push_bit (Suc n) y) = push_bit n y"
    proof (rule bit_word_eqI)
      fix i
      show "bit (drop_bit 1 (push_bit (Suc n) y)) i \<longleftrightarrow> bit (push_bit n y) i"
        using Suc.prems(2) [of "i - n"] by (auto simp: bit_drop_bit_eq bit_push_bit_iff simp del: push_bit_Suc)
    qed
    then show ?thesis
      by (simp add: crc_step_cases bit_push_bit_iff del: push_bit_Suc)
  qed
  moreover have "(crc_step ^^ n) (push_bit n y) = y"
    using Suc.prems by (intro Suc.IH) fastforce+
  ultimately show ?case
    unfolding funpow_Suc_right o_apply by simp
qed simp

text \<open>Up to four bytes as one word.\<close>

primrec le_word :: "bytes \<Rightarrow> u32" where
  "le_word [] = 0"
| "le_word (b # d) = ucast b XOR push_bit 8 (le_word d)"

lemma le_word_bits: "bit (le_word d) i \<Longrightarrow> i < 8 * length d"
proof (induction d arbitrary: i)
  case (Cons b d)
  then consider "bit b i" | "8 \<le> i" "bit (le_word d) (i - 8)"
    by (auto simp: bit_xor_iff bit_push_bit_iff bit_ucast_iff)
  then show ?case
  proof cases
    case 1
    then show ?thesis
      using bit_imp_le_length [of b i] by simp
  next
    case 2
    then show ?thesis
      using Cons.IH [of "i - 8"] by simp
  qed
qed simp

lemma crc_of_word: "length d \<le> 4 \<Longrightarrow> foldl crc_byte c d = (crc_step ^^ (8 * length d)) (c XOR le_word d)"
proof (induction d arbitrary: c)
  case (Cons b d)
  have "(crc_step ^^ 8) (push_bit 8 (le_word d)) = le_word d"
    using Cons.prems by (intro crc_steps_shift) (auto dest: le_word_bits)
  then have "crc_byte c b XOR le_word d = (crc_step ^^ 8) (c XOR ucast b XOR push_bit 8 (le_word d))"
    by (simp add: crc_byte_def crc_steps_xor xor.assoc)
  then have "foldl crc_byte c (b # d) = (crc_step ^^ (8 * length d)) ((crc_step ^^ 8) (c XOR le_word (b # d)))"
    using Cons by (simp add: xor.assoc)
  also have "\<dots> = (crc_step ^^ (8 * length d + 8)) (c XOR le_word (b # d))"
    by (simp only: funpow_add o_def)
  finally show ?case
    by (simp add: add.commute)
qed simp

lemma le_word_inj: "length x = length y \<Longrightarrow> length x \<le> 4 \<Longrightarrow> le_word x = le_word y \<Longrightarrow> x = y"
proof (induction x y rule: list_induct2)
  case (Cons a x b y)
  have bits: "bit (le_word (c # z)) i \<longleftrightarrow> (if i < 8 then bit c i else i < 32 \<and> bit (le_word z) (i - 8))" for c z i
    by (auto simp: bit_simps dest: bit_imp_le_length)
  have "bit a i = bit b i" for i
    using bits [of a x i] bits [of b y i] Cons.prems(2) by (cases "i < 8") (auto dest: bit_imp_le_length)
  then have "a = b"
    by (rule bit_eqI)
  moreover have "bit (le_word x) i = bit (le_word y) i" for i
  proof (cases "i < 24")
    case True
    then show ?thesis
      using bits [of a x "i + 8"] bits [of b y "i + 8"] Cons.prems(2) by simp
  next
    case False
    then show ?thesis
      using le_word_bits [of x i] le_word_bits [of y i] Cons.prems(1) Cons.hyps by auto
  qed
  then have "le_word x = le_word y"
    by (rule bit_eqI)
  ultimately show ?case
    using Cons by simp
qed simp

lemma crc_byte_inj: "crc_byte c b = crc_byte c' b \<Longrightarrow> c = c'"
proof -
  assume "crc_byte c b = crc_byte c' b"
  then have "c XOR ucast b = c' XOR ucast b"
    unfolding crc_byte_def by (rule crc_steps_inj)
  then show "c = c'"
    by (simp add: xor.commute [of _ "ucast b"] xor_left_inject)
qed

lemma crc_fold_inj: "foldl crc_byte c d = foldl crc_byte c' d \<Longrightarrow> c = c'"
  by (induction d arbitrary: c c') (auto dest!: crc_byte_inj)

text \<open>
  C38. What the checksum detects. A change of up to four neighbouring bytes, wherever it is, is always
  detected: the sum of the changed data differs.
\<close>

theorem device_crc_detects_bursts:
  assumes "length x = length y" "length x \<le> 4" "x \<noteq> y"
  shows "\<not> verify_crc (p @ y @ q) (calculate_crc (p @ x @ q))"
proof
  assume "verify_crc (p @ y @ q) (calculate_crc (p @ x @ q))"
  then have "foldl crc_byte (foldl crc_byte 0xFFFFFFFF p) y = foldl crc_byte (foldl crc_byte 0xFFFFFFFF p) x"
    by (auto simp: verify_crc_def calculate_crc_def dest!: crc_fold_inj)
  then have "foldl crc_byte 0xFFFFFFFF p XOR le_word y = foldl crc_byte 0xFFFFFFFF p XOR le_word x"
    using assms(1,2) by (auto simp: crc_of_word dest!: crc_steps_inj)
  then have "le_word y = le_word x"
    by (simp only: xor_left_inject)
  then show False
    using le_word_inj assms by metis
qed

text \<open>The check value of CRC-32.\<close>

lemma crc_check_value: "calculate_crc [0x31, 0x32, 0x33, 0x34, 0x35, 0x36, 0x37, 0x38, 0x39] = 0xCBF43926"
proof -
  have "(f ^^ 8) x = f (f (f (f (f (f (f (f x)))))))" for f :: "u32 \<Rightarrow> u32" and x
    by (simp add: numeral_eq_Suc)
  then show ?thesis
    by (simp add: crc_byte_def calculate_crc_def crc_step_def)
qed

theorem device_crc_detects_bursts_witness: "\<not> verify_crc [1, 2, 9, 9, 5] (calculate_crc [1, 2, 3, 4, 5])"
  using device_crc_detects_bursts [of "[3, 4]" "[9, 9]" "[1, 2]" "[5]"] by simp

section \<open>Operations\<close>

definition cpp :: "'a cexec \<Rightarrow> 'a throws" where
  "cpp m = cbind m ok"

text \<open>The default configuration, taken when there is no file.\<close>

definition default_permanent :: "bytes \<Rightarrow> bytes" where
  "default_permanent b =
    (let b = strncpy_field P_ecu_serial 32 ''TC375-SIM-001'' b;
         b = put_field P_mac_address [0x02, 0x00, 0x00, 0xAA, 0xBB, 0xCC] b;
         b = strncpy_field P_hardware_version 16 ''TC375TP-v2.0'' b;
         b = strncpy_field P_vin 17 ''KMHGH4JH1NU123456'' b;
         b = strncpy_field P_vehicle_model 32 ''Genesis G80'' b
     in put_field P_vehicle_year (u16_mem 2025) b)"

definition load_permanent_config :: "'j json_api \<Rightarrow> string option \<Rightarrow> DeviceInfo \<Rightarrow> (bool \<times> DeviceInfo) throws" where
  "load_permanent_config J file d = (case file of
     None \<Rightarrow> ok (True, d\<lparr>perm_config := default_permanent (perm_config d)\<rparr>)
   | Some t \<Rightarrow>
       ebind (j_parse J t) (\<lambda>j.
       ebind (j_index J j ''ecu_serial'') (\<lambda>(v, j). ebind (j_get_string J v) (\<lambda>serial.
       let d = d\<lparr>perm_config := strncpy_field P_ecu_serial 32 serial (perm_config d)\<rparr> in
       ebind (j_index J j ''mac_address'') (\<lambda>(v, j). ebind (j_get_string J v) (\<lambda>mac.
       let d = d\<lparr>perm_config := put_field P_mac_address (scan_mac 6 mac) (perm_config d)\<rparr> in
       ebind (j_index J j ''vin'') (\<lambda>(v, j). ebind (j_get_string J v) (\<lambda>vin.
       ok (True, d\<lparr>perm_config := strncpy_field P_vin 17 vin (perm_config d)\<rparr>)))))))))"

definition ip_word :: "u32 list \<Rightarrow> u32" where
  "ip_word v = push_bit 24 (v ! 0) OR push_bit 16 (v ! 1) OR push_bit 8 (v ! 2) OR v ! 3"

definition load_device_config :: "'j json_api \<Rightarrow> u32 list \<Rightarrow> string option \<Rightarrow> DeviceInfo \<Rightarrow> (bool \<times> DeviceInfo) throws" where
  "load_device_config J stack file d = (let put = (\<lambda>off x d. d\<lparr>dev_config := put_field off x (dev_config d)\<rparr>) in
   case file of
     None \<Rightarrow>
       let d = put D_gateway_port (u16_mem 8765) d;
           d = d\<lparr>dev_config := strncpy_field D_gateway_host 64 ''localhost'' (dev_config d)\<rparr>;
           d = put D_tls_enabled [1] d; d = put D_ota_enabled [1] d;
           d = put D_heartbeat_interval (u16_mem 10) d
       in ok (True, put D_sensor_interval (u16_mem 5) d)
   | Some t \<Rightarrow>
       ebind (j_parse J t) (\<lambda>j.
       ebind (j_value J (j_get_string J) j ''ip_address'' ''192.168.1.100'') (\<lambda>ip.
       ebind (cpp (scan_dotted 4 ip)) (\<lambda>vs.
       let d = put D_ip_address (u32_mem (ip_word (vs @ drop (length vs) stack))) d in
       ebind (j_value J (j_get_int J) j ''gateway_port'' 8765) (\<lambda>port.
       let d = put D_gateway_port (u16_mem (word_of_int port)) d in
       ebind (j_value J (j_get_string J) j ''gateway_host'' ''localhost'') (\<lambda>host.
       let d = d\<lparr>dev_config := strncpy_field D_gateway_host 64 host (dev_config d)\<rparr> in
       ebind (j_value J (j_get_bool J) j ''tls_enabled'' True) (\<lambda>tls.
       let d = put D_tls_enabled [if tls then 1 else 0] d in
       ebind (j_value J (j_get_bool J) j ''ota_enabled'' True) (\<lambda>ota.
       let d = put D_ota_enabled [if ota then 1 else 0] d in
       ebind (j_value J (j_get_int J) j ''heartbeat_interval'' 10) (\<lambda>hb.
       let d = put D_heartbeat_interval (u16_mem (word_of_int hb)) d in
       ebind (j_value J (j_get_int J) j ''sensor_interval'' 5) (\<lambda>si.
       ok (True, put D_sensor_interval (u16_mem (word_of_int si)) d)))))))))))"

definition get_ecu_serial :: "DeviceInfo \<Rightarrow> string cexec" where
  "get_ecu_serial d = string_at P_ecu_serial (perm_config d)"

definition get_mac_address :: "DeviceInfo \<Rightarrow> string" where
  "get_mac_address d = (let m = get_field P_mac_address 6 (perm_config d) in
     hex_byte (m ! 0) @ '':'' @ hex_byte (m ! 1) @ '':'' @ hex_byte (m ! 2) @ '':'' @ hex_byte (m ! 3) @ '':''
       @ hex_byte (m ! 4) @ '':'' @ hex_byte (m ! 5))"

definition get_hardware_version :: "DeviceInfo \<Rightarrow> string cexec" where
  "get_hardware_version d = string_at P_hardware_version (perm_config d)"

definition get_vin :: "DeviceInfo \<Rightarrow> string cexec" where
  "get_vin d = string_at P_vin (perm_config d)"

definition get_vehicle_model :: "DeviceInfo \<Rightarrow> string cexec" where
  "get_vehicle_model d = string_at P_vehicle_model (perm_config d)"

definition get_vehicle_year :: "DeviceInfo \<Rightarrow> u16" where
  "get_vehicle_year d = get_u16 P_vehicle_year (perm_config d)"

text \<open>The buffer of 16 characters holds the text cut to 15.\<close>

definition get_ip_address :: "DeviceInfo \<Rightarrow> string" where
  "get_ip_address d = (let ip = get_u32 D_ip_address (dev_config d) in
     take 15 (decimal_byte (ucast (drop_bit 24 ip AND 0xFF)) @ ''.'' @ decimal_byte (ucast (drop_bit 16 ip AND 0xFF)) @ ''.''
       @ decimal_byte (ucast (drop_bit 8 ip AND 0xFF)) @ ''.'' @ decimal_byte (ucast (ip AND 0xFF))))"

definition get_gateway_port :: "DeviceInfo \<Rightarrow> u16" where
  "get_gateway_port d = get_u16 D_gateway_port (dev_config d)"

definition get_gateway_host :: "DeviceInfo \<Rightarrow> string cexec" where
  "get_gateway_host d = string_at D_gateway_host (dev_config d)"

definition is_tls_enabled :: "DeviceInfo \<Rightarrow> bool" where
  "is_tls_enabled d \<longleftrightarrow> get_field D_tls_enabled 1 (dev_config d) ! 0 \<noteq> 0"

text \<open>The flag that has no getter of its own.\<close>

definition ota_enabled :: "DeviceInfo \<Rightarrow> bool" where
  "ota_enabled d \<longleftrightarrow> get_field D_ota_enabled 1 (dev_config d) ! 0 \<noteq> 0"

definition get_heartbeat_interval :: "DeviceInfo \<Rightarrow> u16" where
  "get_heartbeat_interval d = get_u16 D_heartbeat_interval (dev_config d)"

definition get_sensor_interval :: "DeviceInfo \<Rightarrow> u16" where
  "get_sensor_interval d = get_u16 D_sensor_interval (dev_config d)"

text \<open>The checksum of everything before it.\<close>

definition seal_config :: "DeviceInfo \<Rightarrow> DeviceInfo" where
  "seal_config d = d\<lparr>dev_config := put_field D_crc32 (u32_mem (calculate_crc (take (sizeof_dev - 4) (dev_config d)))) (dev_config d)\<rparr>"

definition update_ip_address :: "string \<Rightarrow> DeviceInfo \<Rightarrow> (bool \<times> DeviceInfo) cexec" where
  "update_ip_address ip d = cbind (scan_dotted 4 ip) (\<lambda>vs.
     if length vs \<noteq> 4 then Ret (False, d)
     else Ret (True, seal_config (d\<lparr>dev_config := put_field D_ip_address (u32_mem (ip_word vs)) (dev_config d)\<rparr>)))"

definition update_gateway_port :: "u16 \<Rightarrow> DeviceInfo \<Rightarrow> bool \<times> DeviceInfo" where
  "update_gateway_port port d = (True, seal_config (d\<lparr>dev_config := put_field D_gateway_port (u16_mem port) (dev_config d)\<rparr>))"

definition update_feature_flag :: "string \<Rightarrow> bool \<Rightarrow> DeviceInfo \<Rightarrow> bool \<times> DeviceInfo" where
  "update_feature_flag flag enabled d =
    (let set = (\<lambda>off. (True, seal_config (d\<lparr>dev_config := put_field off [if enabled then 1 else 0] (dev_config d)\<rparr>))) in
     if flag = ''ota'' then set D_ota_enabled
     else if flag = ''diagnostics'' then set D_diagnostics_enabled
     else if flag = ''tls'' then set D_tls_enabled
     else (False, d))"

section \<open>JSON forms\<close>

definition get_permanent_info :: "'j json_api \<Rightarrow> DeviceInfo \<Rightarrow> 'j throws" where
  "get_permanent_info J d =
    ebind (cpp (get_ecu_serial d)) (\<lambda>serial. ebind (cpp (get_hardware_version d)) (\<lambda>hw.
    ebind (cpp (get_vin d)) (\<lambda>vin. ebind (cpp (get_vehicle_model d)) (\<lambda>model.
    ok (j_object J [(''ecu_serial'', j_string J serial), (''mac_address'', j_string J (get_mac_address d)),
      (''hardware_version'', j_string J hw), (''vin'', j_string J vin), (''vehicle_model'', j_string J model),
      (''vehicle_year'', j_int J (uint (get_vehicle_year d)))])))))"

definition get_device_config :: "'j json_api \<Rightarrow> DeviceInfo \<Rightarrow> 'j throws" where
  "get_device_config J d =
    ebind (cpp (get_gateway_host d)) (\<lambda>host.
    ok (j_object J [(''ip_address'', j_string J (get_ip_address d)), (''gateway_host'', j_string J host),
      (''gateway_port'', j_int J (uint (get_gateway_port d))), (''tls_enabled'', j_bool J (is_tls_enabled d)),
      (''ota_enabled'', j_bool J (ota_enabled d)), (''heartbeat_interval'', j_int J (uint (get_heartbeat_interval d))),
      (''sensor_interval'', j_int J (uint (get_sensor_interval d)))]))"

definition get_full_info :: "'j json_api \<Rightarrow> DeviceInfo \<Rightarrow> 'j throws" where
  "get_full_info J d = ebind (get_permanent_info J d) (\<lambda>p. ebind (get_device_config J d) (\<lambda>c.
     ok (j_object J [(''permanent'', p), (''config'', c)])))"

definition get_registration_message :: "'j json_api \<Rightarrow> string \<Rightarrow> DeviceInfo \<Rightarrow> 'j throws" where
  "get_registration_message J now d =
    ebind (cpp (get_ecu_serial d)) (\<lambda>serial. ebind (cpp (get_hardware_version d)) (\<lambda>hw.
    ebind (cpp (get_vin d)) (\<lambda>vin. ebind (cpp (get_vehicle_model d)) (\<lambda>model.
    ok (j_object J [(''type'', j_string J ''DEVICE_REGISTRATION''),
      (''device'', j_object J [(''ecu_serial'', j_string J serial), (''mac_address'', j_string J (get_mac_address d)),
        (''hardware_version'', j_string J hw), (''vin'', j_string J vin), (''vehicle_model'', j_string J model),
        (''vehicle_year'', j_int J (uint (get_vehicle_year d))), (''ip_address'', j_string J (get_ip_address d)),
        (''gateway_port'', j_int J (uint (get_gateway_port d))), (''tls_enabled'', j_bool J (is_tls_enabled d)),
        (''ota_enabled'', j_bool J (ota_enabled d))]),
      (''timestamp'', j_string J now)])))))"

definition get_status_message :: "'j json_api \<Rightarrow> string \<Rightarrow> DeviceInfo \<Rightarrow> 'j throws" where
  "get_status_message J now d = ebind (cpp (get_ecu_serial d)) (\<lambda>serial.
     ok (j_object J [(''type'', j_string J ''STATUS_REPORT''), (''device_id'', j_string J serial),
       (''payload'', j_object J [(''connected'', j_bool J True)]), (''timestamp'', j_string J now)]))"

text \<open>What is written, when the file can be opened.\<close>

definition save_device_config :: "'j json_api \<Rightarrow> bool \<Rightarrow> DeviceInfo \<Rightarrow> (bool \<times> string option) throws" where
  "save_device_config J opens d = ebind (get_device_config J d) (\<lambda>j.
     if \<not> opens then ok (False, None) else ebind (j_dump J j) (\<lambda>t. ok (True, Some t)))"

section \<open>Strings in fields\<close>

lemma cstr_of_append: "0 \<notin> set a \<Longrightarrow> cstr_of (a @ b) = cbind (cstr_of b) (\<lambda>s. Ret (a @ s))"
proof -
  assume a: "0 \<notin> set a"
  then have "takeWhile (\<lambda>x. x \<noteq> 0) (a @ b) = a @ takeWhile (\<lambda>x. x \<noteq> 0) b"
    by (intro takeWhile_append2) auto
  then show ?thesis
    using a by (simp add: cstr_of_def)
qed

lemma cstr_of_zero [simp]: "cstr_of (0 # b) = Ret []"
  by (simp add: cstr_of_def)

lemma take_padded: "length x < n \<Longrightarrow> take n (x @ replicate n 0) = x @ 0 # replicate (n - length x - 1) (0 :: u8)"
  by (simp add: min_def) (metis Suc_diff_Suc diff_Suc_eq_diff_pred replicate_Suc)

text \<open>
  What is read back from a field a string was copied to: the string when it is shorter than the field, else
  what fits, followed by the string that starts in the next field.
\<close>

lemma string_at_strncpy:
  assumes "off + n \<le> length b"
  shows "string_at off (strncpy_field off n s b) =
    (if length (c_text s) < n then Ret (c_text s) else cbind (string_at (off + n) b) (\<lambda>t. Ret (take n (c_text s) @ t)))"
proof -
  let ?x = "bytes_of (c_text s)"
  have l: "length (take n (?x @ replicate n 0)) = n"
    by simp
  have d: "drop off (strncpy_field off n s b) = take n (?x @ replicate n 0) @ drop (off + n) b"
    using assms unfolding strncpy_field_def bytes_of_c_text put_field_def l by simp
  show ?thesis
  proof (cases "length (c_text s) < n")
    case True
    then have "cstr_of (drop off (strncpy_field off n s b)) = Ret ?x"
      unfolding d by (simp only: take_padded length_bytes_of append_assoc append_Cons cstr_of_append [OF bytes_of_nonzero]
          cstr_of_zero cbind.simps append_Nil2)
    then show ?thesis
      using True by (simp add: string_at_def)
  next
    case False
    then have t: "take n (?x @ replicate n 0) = bytes_of (take n (c_text s))"
      by (simp add: bytes_of_take)
    have "0 \<notin> set (bytes_of (take n (c_text s)))"
      unfolding bytes_of_take by (meson bytes_of_nonzero in_set_takeD)
    then have "cstr_of (drop off (strncpy_field off n s b)) = cbind (cstr_of (drop (off + n) b)) (\<lambda>s'. Ret (bytes_of (take n (c_text s)) @ s'))"
      unfolding d t by (rule cstr_of_append)
    then show ?thesis
      using False by (cases "cstr_of (drop (off + n) b)") (simp_all add: string_at_def)
  qed
qed

text \<open>Writing behind a string, or in front of it, leaves it.\<close>

lemma string_at_put_before:
  assumes "off + length d \<le> length b" "off + length d \<le> off'"
  shows "string_at off' (put_field off d b) = string_at off' b"
proof -
  have "drop off' (put_field off d b) = drop off' b"
    using assms by (simp add: put_field_def)
  then show ?thesis
    by (simp add: string_at_def)
qed

section \<open>The identification number\<close>

definition wf_device :: "DeviceInfo \<Rightarrow> bool" where
  "wf_device d \<longleftrightarrow> length (perm_config d) = sizeof_perm \<and> length (dev_config d) = sizeof_dev"

lemmas sizes = sizeof_perm_def sizeof_dev_def

lemma length_strncpy_field [simp]: "off + n \<le> length b \<Longrightarrow> length (strncpy_field off n s b) = length b"
  by (simp add: strncpy_field_def)

lemma length_scan_mac: "length (scan_mac k s) \<le> k"
  by (induction k s rule: scan_mac.induct) (auto split: option.split list.split)

lemma string_at_strncpy_before:
  assumes "off + n \<le> length b" "off + n \<le> off'"
  shows "string_at off' (strncpy_field off n s b) = string_at off' b"
  unfolding strncpy_field_def using assms by (intro string_at_put_before) simp_all

lemma cstr_of_RetD: "cstr_of b = Ret x \<Longrightarrow> \<exists>r. b = x @ 0 # r \<and> 0 \<notin> set x"
proof -
  assume "cstr_of b = Ret x"
  then have x: "0 \<in> set b" "x = takeWhile (\<lambda>y. y \<noteq> 0) b"
    by (auto simp: cstr_of_def split: if_splits)
  then have "dropWhile (\<lambda>y. y \<noteq> 0) b \<noteq> []"
    by (auto simp: dropWhile_eq_Nil_conv)
  then obtain r where "dropWhile (\<lambda>y. y \<noteq> 0) b = 0 # r"
    using hd_dropWhile [of "\<lambda>y. y \<noteq> 0" b] by (cases "dropWhile (\<lambda>y. y \<noteq> 0) b") auto
  then have "b = x @ 0 # r"
    using takeWhile_dropWhile_id [of "\<lambda>y. y \<noteq> 0" b] x(2) by simp
  moreover have "0 \<notin> set x"
    using x(2) by (auto dest: set_takeWhileD)
  ultimately show ?thesis
    by blast
qed

lemma string_at_put_after:
  assumes "string_at off b = Ret s" "off + length s < off'" "off' + length d \<le> length b"
  shows "string_at off (put_field off' d b) = Ret s"
proof -
  obtain x where x: "cstr_of (drop off b) = Ret x" "s = text_of x"
    using assms(1) by (auto simp: string_at_def cbind_Ret_iff)
  obtain r where r: "drop off b = x @ 0 # r" "0 \<notin> set x"
    using cstr_of_RetD [OF x(1)] by blast
  have "length x < off' - off"
    using assms(2) x(2) by (simp add: text_of_def)
  then obtain k where k: "off' - off = length x + Suc k"
    by (metis less_imp_Suc_add add_Suc_right)
  have "drop off (put_field off' d b) = take (off' - off) (drop off b) @ d @ drop (off' + length d) b"
    using assms(2,3) by (simp add: put_field_def drop_take)
  also have "\<dots> = x @ 0 # (take k r @ d @ drop (off' + length d) b)"
    by (simp add: r(1) k)
  finally show ?thesis
    using r(2) by (simp add: string_at_def cstr_of_append x(2))
qed

lemma string_at_strncpy_after:
  "string_at off b = Ret s \<Longrightarrow> off + length s < off' \<Longrightarrow> off' + n \<le> length b \<Longrightarrow> string_at off (strncpy_field off' n t b) = Ret s"
  unfolding strncpy_field_def by (rule string_at_put_after) simp_all

text \<open>A field without a zero byte is read together with what follows.\<close>

lemma string_at_cross:
  assumes "off + n \<le> length b" "0 \<notin> set (get_field off n b)"
  shows "string_at off b = cbind (string_at (off + n) b) (\<lambda>t. Ret (text_of (get_field off n b) @ t))"
proof -
  have "drop off b = get_field off n b @ drop (off + n) b"
    by (simp add: get_field_def add.commute flip: drop_drop)
  then show ?thesis
    by (cases "cstr_of (drop (off + n) b)") (simp_all add: string_at_def cstr_of_append [OF assms(2)])
qed

text \<open>
  The identification number runs on. The field has room for the 17 characters of a number but not for
  the zero after them: after a configuration file was loaded, a shorter number reads back as it is, and a
  full one together with the vehicle model that follows it in memory.
\<close>

theorem device_vin_runs_on:
  assumes "json_library J view" "wf_device d" "j_parse J t = ok j" "view j = Some v"
    and "v ''ecu_serial'' = Some (j_string J serial)" "v ''mac_address'' = Some (j_string J mac)" "v ''vin'' = Some (j_string J vin)"
  shows "\<exists>d'. load_permanent_config J (Some t) d = ok (True, d') \<and> wf_device d'
    \<and> get_vin d' = (if length (c_text vin) < 17 then Ret (c_text vin)
        else cbind (get_vehicle_model d) (\<lambda>m. Ret (take 17 (c_text vin) @ m)))
    \<and> get_vehicle_model d' = get_vehicle_model d"
proof -
  have gs: "j_get_string J (j_string J s) = ok s" for s
    by (rule json_library.get_string [OF assms(1)])
  obtain j1 where 1: "j_index J j ''ecu_serial'' = ok (j_string J serial, j1)" "view j1 = Some v"
    using json_library.index_object [OF assms(1,4), of "''ecu_serial''"] assms(5) by (auto simp: domIff)
  obtain j2 where 2: "j_index J j1 ''mac_address'' = ok (j_string J mac, j2)" "view j2 = Some v"
    using json_library.index_object [OF assms(1) 1(2), of "''mac_address''"] assms(6) by (auto simp: domIff)
  obtain j3 where 3: "j_index J j2 ''vin'' = ok (j_string J vin, j3)"
    using json_library.index_object [OF assms(1) 2(2), of "''vin''"] assms(7) by (auto simp: domIff)
  define b where "b = put_field P_mac_address (scan_mac 6 mac) (strncpy_field P_ecu_serial 32 serial (perm_config d))"
  let ?d = "d\<lparr>perm_config := strncpy_field P_vin 17 vin b\<rparr>"
  have l: "length (perm_config d) = sizeof_perm" "length (scan_mac 6 mac) \<le> 6"
    using assms(2) length_scan_mac [of 6 mac] by (simp_all add: wf_device_def)
  then have b: "length b = sizeof_perm" "string_at P_vehicle_model b = string_at P_vehicle_model (perm_config d)"
    by (simp_all add: b_def sizes string_at_put_before string_at_strncpy_before)
  have "load_permanent_config J (Some t) d = ok (True, ?d)"
    by (simp add: load_permanent_config_def assms(3) 1(1) 2(1) 3 gs b_def)
  moreover have "get_vin ?d = (if length (c_text vin) < 17 then Ret (c_text vin)
      else cbind (string_at P_vehicle_model b) (\<lambda>m. Ret (take 17 (c_text vin) @ m)))"
    using string_at_strncpy [of P_vin 17 b vin] b(1) by (simp add: get_vin_def sizes)
  moreover have "string_at P_vehicle_model (strncpy_field P_vin 17 vin b) = string_at P_vehicle_model b"
    using b(1) by (simp add: sizes string_at_strncpy_before)
  ultimately show ?thesis
    using assms(2) b by (intro exI [of _ ?d]) (simp add: wf_device_def get_vehicle_model_def sizes)
qed

lemma c_text_literal [simp]: "c_text ''KMHGH4JH1NU123456'' = ''KMHGH4JH1NU123456''" "c_text ''Genesis G80'' = ''Genesis G80''"
  by (simp_all add: c_text_def)

text \<open>The defaults have the same fault.\<close>

lemma device_default_vin:
  "\<exists>d. load_permanent_config J None device_info = ok (True, d) \<and> get_vin d = Ret ''KMHGH4JH1NU123456Genesis G80''
     \<and> get_vehicle_model d = Ret ''Genesis G80''"
proof -
  define b0 where "b0 = strncpy_field P_hardware_version 16 ''TC375TP-v2.0''
    (put_field P_mac_address [0x02, 0x00, 0x00, 0xAA, 0xBB, 0xCC] (strncpy_field P_ecu_serial 32 ''TC375-SIM-001'' (replicate sizeof_perm 0)))"
  define b1 where "b1 = strncpy_field P_vin 17 ''KMHGH4JH1NU123456'' b0"
  define b2 where "b2 = strncpy_field P_vehicle_model 32 ''Genesis G80'' b1"
  have l: "length b0 = sizeof_perm" "length b1 = sizeof_perm" "length b2 = sizeof_perm"
    by (simp_all add: b0_def b1_def b2_def sizes)
  have d: "default_permanent (replicate sizeof_perm 0) = put_field P_vehicle_year (u16_mem 2025) b2"
    by (simp add: default_permanent_def b0_def b1_def b2_def)
  have "string_at P_vehicle_model b2 = Ret ''Genesis G80''"
    using l by (simp add: b2_def string_at_strncpy sizes)
  then have m: "string_at P_vehicle_model (put_field P_vehicle_year (u16_mem 2025) b2) = Ret ''Genesis G80''"
    using l by (intro string_at_put_after) (simp_all add: sizes)
  have "get_field P_vin 17 (put_field P_vehicle_year (u16_mem 2025) b2) = get_field P_vin 17 b1"
    using l by (simp add: b2_def strncpy_field_def sizes)
  also have "\<dots> = bytes_of ''KMHGH4JH1NU123456''"
    using l by (simp add: b1_def strncpy_field_def bytes_of_c_text sizes)
  finally have f: "get_field P_vin 17 (put_field P_vehicle_year (u16_mem 2025) b2) = bytes_of ''KMHGH4JH1NU123456''" .
  have "0 \<notin> set (bytes_of ''KMHGH4JH1NU123456'')"
    using bytes_of_nonzero [of "''KMHGH4JH1NU123456''"] by simp
  then have "string_at P_vin (put_field P_vehicle_year (u16_mem 2025) b2) = Ret ''KMHGH4JH1NU123456Genesis G80''"
    using string_at_cross [of P_vin 17 "put_field P_vehicle_year (u16_mem 2025) b2"] l m f by (simp add: sizes)
  then show ?thesis
    using m by (simp add: load_permanent_config_def device_info_def d get_vin_def get_vehicle_model_def)
qed

theorem device_vin_runs_on_witness:
  defines "J \<equiv> json_values (\<lambda>_. ok []) (\<lambda>_. ok (JObject [(''ecu_serial'', JString ''TC375-SIM-002''),
    (''mac_address'', JString ''02:00:00:AA:BB:CD''), (''vin'', JString ''KMHGH4JH1NU654321'')]))"
  shows "\<exists>d d'. load_permanent_config J None device_info = ok (True, d) \<and> load_permanent_config J (Some []) d = ok (True, d')
    \<and> get_vin d' = Ret ''KMHGH4JH1NU654321Genesis G80''"
proof -
  obtain d where d: "load_permanent_config J None device_info = ok (True, d)" "get_vehicle_model d = Ret ''Genesis G80''"
    using device_default_vin [of J] by blast
  then have wf: "wf_device d"
    by (auto simp: load_permanent_config_def device_info_def wf_device_def default_permanent_def sizes)
  have lib: "json_library J members_of"
    unfolding J_def by (rule json_values.json_library_axioms)
  let ?v = "map_of [(''ecu_serial'', JString ''TC375-SIM-002''), (''mac_address'', JString ''02:00:00:AA:BB:CD''), (''vin'', JString ''KMHGH4JH1NU654321'')]"
  obtain d' where d': "load_permanent_config J (Some []) d = ok (True, d')"
    "get_vin d' = (if length (c_text ''KMHGH4JH1NU654321'') < 17 then Ret (c_text ''KMHGH4JH1NU654321'')
        else cbind (get_vehicle_model d) (\<lambda>m. Ret (take 17 (c_text ''KMHGH4JH1NU654321'') @ m)))"
    using device_vin_runs_on [OF lib wf, of "[]" "JObject [(''ecu_serial'', JString ''TC375-SIM-002''),
        (''mac_address'', JString ''02:00:00:AA:BB:CD''), (''vin'', JString ''KMHGH4JH1NU654321'')]" ?v
        "''TC375-SIM-002''" "''02:00:00:AA:BB:CD''" "''KMHGH4JH1NU654321''"] by (auto simp: J_def)
  moreover have "c_text ''KMHGH4JH1NU654321'' = ''KMHGH4JH1NU654321''"
    by (simp add: c_text_def)
  ultimately show ?thesis
    using d by auto
qed

section \<open>Addresses\<close>

abbreviation digit :: "nat \<Rightarrow> char" where "digit k \<equiv> ''0123456789'' ! k"

lemma digit_facts:
  assumes "k < 10"
  shows "is_digit (digit k)" "\<not> scan_space (digit k)" "digit k \<noteq> CHR ''-''" "digit k \<noteq> CHR ''+''" "of_char (digit k) - 48 = k"
proof -
  have "k \<in> {0, 1, 2, 3, 4, 5, 6, 7, 8, 9}"
    using assms by auto
  then show "is_digit (digit k)" "\<not> scan_space (digit k)" "digit k \<noteq> CHR ''-''" "digit k \<noteq> CHR ''+''" "of_char (digit k) - 48 = k"
    by (auto simp: is_digit_def scan_space_def)
qed

lemma decimal_byte_digits:
  "\<exists>ks. ks \<noteq> [] \<and> length ks \<le> 3 \<and> (\<forall>k \<in> set ks. k < 10) \<and> decimal_byte b = map digit ks \<and> foldl (\<lambda>n k. 10 * n + k) 0 ks = unat b"
proof -
  have n: "unat b < 256"
    using unsigned_less [of b, where 'a = nat] by simp
  consider "unat b < 10" | "10 \<le> unat b" "unat b < 100" | "100 \<le> unat b"
    by linarith
  then show ?thesis
  proof cases
    case 1
    then show ?thesis
      by (intro exI [of _ "[unat b]"]) (simp add: decimal_byte_def)
  next
    case 2
    then have "unat b div 10 < 10"
      by (simp add: less_mult_imp_div_less)
    then show ?thesis
      using 2 by (intro exI [of _ "[unat b div 10, unat b mod 10]"]) (simp add: decimal_byte_def Let_def)
  next
    case 3
    have "unat b div 100 = unat b div 10 div 10"
      by (simp only: div_mult2_eq [symmetric]) simp
    then have "10 * (10 * (unat b div 100) + unat b div 10 mod 10) + unat b mod 10 = unat b"
      by (simp only: mult_div_mod_eq)
    moreover have "unat b div 100 < 10"
      using n by (simp add: less_mult_imp_div_less)
    ultimately show ?thesis
      using 3 by (intro exI [of _ "[unat b div 100, unat b div 10 mod 10, unat b mod 10]"]) (simp add: decimal_byte_def Let_def)
  qed
qed

lemma digits_value_map:
  "\<forall>k \<in> set ks. k < 10 \<Longrightarrow> foldl (\<lambda>n c. 10 * n + (of_char c - 48)) m (map digit ks) = foldl (\<lambda>n k. 10 * n + k) m ks"
  by (induction ks arbitrary: m) (simp_all add: digit_facts(5))

text \<open>A printed byte is scanned again, up to a character that is no digit.\<close>

lemma scan_decimal_byte:
  assumes "r = [] \<or> \<not> is_digit (hd r)"
  shows "scan_u (decimal_byte b @ r) = Some (False, unat b, r)"
proof -
  obtain ks where ks: "ks \<noteq> []" "\<forall>k \<in> set ks. k < 10" "decimal_byte b = map digit ks" "foldl (\<lambda>n k. 10 * n + k) 0 ks = unat b"
    using decimal_byte_digits by blast
  obtain k ks' where k: "ks = k # ks'" "k < 10"
    using ks(1,2) by (cases ks) auto
  have all: "\<forall>c \<in> set (map digit ks). is_digit c"
    using ks(2) digit_facts(1) by auto
  have rest: "takeWhile is_digit r = []" "dropWhile is_digit r = r"
    using assms by (cases r; simp)+
  have "dropWhile scan_space (map digit ks @ r) = map digit ks @ r"
    using k digit_facts(2) by simp
  moreover have "scan_sign (map digit ks @ r) = (False, map digit ks @ r)"
    using k digit_facts(3,4) by simp
  moreover have "takeWhile is_digit (map digit ks @ r) = map digit ks" "dropWhile is_digit (map digit ks @ r) = r"
    by (subst takeWhile_append2 dropWhile_append2; use all rest in auto)+
  moreover have "digits_value (map digit ks) = unat b"
    using digits_value_map [OF ks(2), of 0] ks(4) by (simp add: digits_value_def)
  ultimately show ?thesis
    using ks(1) by (simp add: scan_u_def ks(3))
qed

definition dotted :: "u8 \<Rightarrow> u8 \<Rightarrow> u8 \<Rightarrow> u8 \<Rightarrow> string" where
  "dotted a b c e = decimal_byte a @ ''.'' @ decimal_byte b @ ''.'' @ decimal_byte c @ ''.'' @ decimal_byte e"

lemma not_digit_dot: "\<not> is_digit (CHR ''.'')"
  by (simp add: is_digit_def)

lemma scan_dotted_dotted: "scan_dotted 4 (dotted a b c e) = Ret [ucast a, ucast b, ucast c, ucast e]"
proof -
  have lt: "unat x < 2 ^ 32" for x :: u8
    using unsigned_less [of x, where 'a = nat] by simp
  have step: "scan_dotted (Suc k) (decimal_byte x @ ''.'' @ r) = cbind (scan_dotted k r) (\<lambda>vs. Ret (ucast x # vs))" for k x r
    using scan_decimal_byte [of "''.'' @ r" x] lt [of x] by (simp add: not_digit_dot)
  have last: "scan_dotted (Suc k) (decimal_byte x) = Ret [ucast x]" for k x
    using scan_decimal_byte [of "[]" x] lt [of x] by simp
  have "(4 :: nat) = Suc (Suc (Suc (Suc 0)))"
    by simp
  then show ?thesis
    by (simp only: dotted_def step last cbind.simps)
qed

lemma ip_word_bytes: "ip_word [ucast a, ucast b, ucast c, ucast e] = be32_val a b c e"
  by (simp add: ip_word_def be32_val_def)

lemma length_decimal_byte: "length (decimal_byte b) \<le> 3"
  using decimal_byte_digits [of b] by auto

lemma get_ip_address_dotted:
  assumes "get_u32 D_ip_address (dev_config d) = be32_val a b c e"
  shows "get_ip_address d = dotted a b c e"
proof -
  have "length (dotted a b c e) \<le> 15"
    using length_decimal_byte [of a] length_decimal_byte [of b] length_decimal_byte [of c] length_decimal_byte [of e]
    by (simp add: dotted_def)
  moreover have "[ucast (drop_bit 24 (be32_val a b c e) AND 0xFF), ucast (drop_bit 16 (be32_val a b c e) AND 0xFF),
      ucast (drop_bit 8 (be32_val a b c e) AND 0xFF), ucast (be32_val a b c e AND 0xFF)] = [a, b, c, e :: u8]"
  proof -
    have m: "ucast (x AND 0xFF) = (ucast x :: u8)" for x :: u32
    proof -
      have m8: "(0xFF :: u32) = mask 8"
        by (simp add: mask_eq_exp_minus_1)
      show ?thesis
        unfolding m8 by (intro bit_word_eqI) (simp add: bit_simps)
    qed
    show ?thesis
      using be32_be32_val [of a b c e] by (simp only: m be32_def)
  qed
  ultimately show ?thesis
    using assms by (simp add: get_ip_address_def Let_def dotted_def)
qed

section \<open>Configuration\<close>

definition sealed_config :: "DeviceInfo \<Rightarrow> bool" where
  "sealed_config d \<longleftrightarrow> verify_crc (take (sizeof_dev - 4) (dev_config d)) (get_u32 D_crc32 (dev_config d))"

lemma mem_u16_u16_mem: "mem_u16 (u16_mem x) = x"
  unfolding mem_u16_def u16_mem_def by (rule bit_eqI) (auto simp: bit_simps)

lemma take_put_field: "n \<le> off \<Longrightarrow> off + length d \<le> length b \<Longrightarrow> take n (put_field off d b) = take n b"
  by (simp add: put_field_def min_def)

lemma seal_sealed: "wf_device d \<Longrightarrow> sealed_config (seal_config d) \<and> wf_device (seal_config d)"
  by (simp add: sealed_config_def seal_config_def wf_device_def verify_crc_def get_u32_def sizes take_put_field mem_u32_u32_mem)

lemma seal_keeps: "wf_device d \<Longrightarrow> off + n \<le> D_crc32 \<Longrightarrow> get_field off n (dev_config (seal_config d)) = get_field off n (dev_config d)"
  by (simp add: seal_config_def wf_device_def sizes)

lemma update_ip_reads:
  assumes "wf_device d" "scan_dotted 4 ip = Ret vs" "length vs = 4" "ip_word vs = be32_val a b c e"
  shows "\<exists>d'. update_ip_address ip d = Ret (True, d') \<and> get_ip_address d' = dotted a b c e
    \<and> sealed_config d' \<and> wf_device d' \<and> perm_config d' = perm_config d
    \<and> (\<forall>off n. 4 \<le> off \<and> off + n \<le> D_crc32 \<longrightarrow> get_field off n (dev_config d') = get_field off n (dev_config d))"
proof -
  let ?d = "d\<lparr>dev_config := put_field D_ip_address (u32_mem (ip_word vs)) (dev_config d)\<rparr>"
  have wf: "wf_device ?d"
    using assms(1) by (simp add: wf_device_def sizes)
  have "update_ip_address ip d = Ret (True, seal_config ?d)"
    by (simp add: update_ip_address_def assms(2,3))
  moreover have "get_u32 D_ip_address (dev_config (seal_config ?d)) = be32_val a b c e"
    using seal_keeps [OF wf, of D_ip_address 4] assms(1) by (simp add: get_u32_def wf_device_def sizes mem_u32_u32_mem assms(4))
  then have "get_ip_address (seal_config ?d) = dotted a b c e"
    by (rule get_ip_address_dotted)
  moreover have "get_field off n (dev_config (seal_config ?d)) = get_field off n (dev_config d)" if "4 \<le> off" "off + n \<le> D_crc32" for off n
    using seal_keeps [OF wf that(2)] that assms(1) by (simp add: wf_device_def sizes)
  moreover have "perm_config (seal_config ?d) = perm_config d"
    by (simp add: seal_config_def)
  ultimately show ?thesis
    using seal_sealed [OF wf] by blast
qed

text \<open>
  Setting the address. The text of an IPv4 address is accepted, reads back as the same text, changes
  nothing else and leaves the checksum of the configuration right; a text with fewer than four numbers
  changes nothing.
\<close>

theorem device_ip_roundtrip:
  assumes "wf_device d"
  shows "(\<exists>d'. update_ip_address (dotted a b c e) d = Ret (True, d') \<and> get_ip_address d' = dotted a b c e
    \<and> sealed_config d' \<and> wf_device d' \<and> perm_config d' = perm_config d
    \<and> (\<forall>off n. 4 \<le> off \<and> off + n \<le> D_crc32 \<longrightarrow> get_field off n (dev_config d') = get_field off n (dev_config d)))
    \<and> (\<forall>ip vs. scan_dotted 4 ip = Ret vs \<and> length vs < 4 \<longrightarrow> update_ip_address ip d = Ret (False, d))"
proof
  show "\<forall>ip vs. scan_dotted 4 ip = Ret vs \<and> length vs < 4 \<longrightarrow> update_ip_address ip d = Ret (False, d)"
    by (auto simp: update_ip_address_def)
qed (rule update_ip_reads [OF assms scan_dotted_dotted _ ip_word_bytes], simp)

theorem device_ip_roundtrip_witness:
  "\<exists>d'. update_ip_address (dotted 192 168 1 100) device_info = Ret (True, d') \<and> get_ip_address d' = dotted 192 168 1 100"
  using device_ip_roundtrip [of device_info 192 168 1 100] by (auto simp: wf_device_def device_info_def)

text \<open>The numbers are not bounded: 256 in the last place changes the number before it.\<close>

lemma device_ip_aliases:
  assumes "wf_device d"
  shows "\<exists>d'. update_ip_address ''10.0.2.256'' d = Ret (True, d') \<and> get_ip_address d' = ''10.0.3.0''"
proof -
  have four: "(4 :: nat) = Suc (Suc (Suc (Suc 0)))"
    by simp
  have "scan_dotted 4 ''10.0.2.256'' = Ret [10, 0, 2, 256]"
    unfolding four by (simp add: scan_u_def is_digit_def scan_space_def digits_value_def)
  moreover have "ip_word [10, 0, 2, 256] = be32_val 10 0 3 0"
    by (simp add: ip_word_def be32_val_def)
  moreover have "dotted 10 0 3 0 = ''10.0.3.0''"
    by (simp add: dotted_def decimal_byte_def)
  ultimately show ?thesis
    using update_ip_reads [OF assms, of "''10.0.2.256''" "[10, 0, 2, 256]" 10 0 3 0] by auto
qed

text \<open>Every update that is accepted leaves the checksum right.\<close>

lemma device_updates_seal:
  assumes "wf_device d"
  shows "sealed_config (snd (update_gateway_port p d)) \<and> get_gateway_port (snd (update_gateway_port p d)) = p"
    and "update_feature_flag f on d = (r, d') \<Longrightarrow> if r then sealed_config d' \<and> wf_device d' else d' = d"
proof -
  let ?p = "d\<lparr>dev_config := put_field D_gateway_port (u16_mem p) (dev_config d)\<rparr>"
  have wf: "wf_device ?p"
    using assms by (simp add: wf_device_def sizes)
  have "get_gateway_port (seal_config ?p) = p"
    using seal_keeps [OF wf, of D_gateway_port 2] assms
    by (simp add: get_gateway_port_def get_u16_def wf_device_def sizes mem_u16_u16_mem)
  then show "sealed_config (snd (update_gateway_port p d)) \<and> get_gateway_port (snd (update_gateway_port p d)) = p"
    using seal_sealed [OF wf] by (simp add: update_gateway_port_def)
  have "wf_device (d\<lparr>dev_config := put_field off [x] (dev_config d)\<rparr>)" if "off < D_crc32" for off x
    using that assms by (simp add: wf_device_def sizes)
  then show "update_feature_flag f on d = (r, d') \<Longrightarrow> if r then sealed_config d' \<and> wf_device d' else d' = d"
    using seal_sealed by (auto simp: update_feature_flag_def Let_def split: if_splits)
qed

section \<open>Saving and loading\<close>

lemma c_text_text_of: "0 \<notin> set x \<Longrightarrow> c_text (text_of x) = text_of x"
proof -
  assume "0 \<notin> set x"
  moreover have "of_char (char_of (unat y)) = unat y" for y :: u8
    using unsigned_less [of y, where 'a = nat] by simp
  ultimately have "\<forall>y \<in> set x. of_char (char_of (unat y)) \<noteq> (0 :: nat)"
    by (metis unat_eq_0)
  then show ?thesis
    by (simp add: c_text_def text_of_def takeWhile_eq_all_conv)
qed

lemma string_at_c_text: "string_at off b = Ret s \<Longrightarrow> c_text s = s"
  using cstr_of_RetD c_text_text_of by (fastforce simp: string_at_def cbind_Ret_iff)

text \<open>The saved settings, as members of the saved object.\<close>

lemma get_ip_address_eq: "\<exists>a b c e. get_u32 D_ip_address (dev_config d) = be32_val a b c e \<and> get_ip_address d = dotted a b c e"
proof -
  have "be32_val (be32 x ! 0) (be32 x ! 1) (be32 x ! 2) (be32 x ! 3) = x" for x
    by (rule be32_val_nth)
  then show ?thesis
    using get_ip_address_dotted by metis
qed

definition same_settings :: "DeviceInfo \<Rightarrow> DeviceInfo \<Rightarrow> bool" where
  "same_settings d d' \<longleftrightarrow> get_ip_address d = get_ip_address d' \<and> get_gateway_host d = get_gateway_host d'
     \<and> get_gateway_port d = get_gateway_port d' \<and> is_tls_enabled d = is_tls_enabled d' \<and> ota_enabled d = ota_enabled d'
     \<and> get_heartbeat_interval d = get_heartbeat_interval d' \<and> get_sensor_interval d = get_sensor_interval d'"

lemma ip_word_more: "ip_word (ucast a # ucast b # ucast c # ucast e # r) = be32_val a b c e"
  by (simp add: ip_word_def be32_val_def)

text \<open>
  Saving and loading. When the parser gives back the saved object, loading the file into any device
  restores the saved settings, whatever the device held: address, host, port, flags and intervals.
\<close>

theorem device_save_load:
  assumes "json_library J view" "wf_device d" "wf_device d0" "get_gateway_host d = Ret host" "length host < 64"
    and "get_device_config J d = ok j" "j_parse J t = ok j"
  shows "\<exists>d1. load_device_config J stack (Some t) d0 = ok (True, d1) \<and> wf_device d1 \<and> same_settings d1 d"
proof -
  obtain a b c e where ip: "get_ip_address d = dotted a b c e" "get_u32 D_ip_address (dev_config d) = be32_val a b c e"
    using get_ip_address_eq by blast
  let ?kvs = "[(''ip_address'', j_string J (get_ip_address d)), (''gateway_host'', j_string J host),
      (''gateway_port'', j_int J (uint (get_gateway_port d))), (''tls_enabled'', j_bool J (is_tls_enabled d)),
      (''ota_enabled'', j_bool J (ota_enabled d)), (''heartbeat_interval'', j_int J (uint (get_heartbeat_interval d))),
      (''sensor_interval'', j_int J (uint (get_sensor_interval d)))]"
  have j: "j = j_object J ?kvs"
    using assms(6) by (simp add: get_device_config_def cpp_def assms(4))
  note v = json_library.value_object [OF assms(1) json_library.view_object [OF assms(1)], of get ?kvs for get]
  have vals: "j_value J (j_get_string J) j ''ip_address'' x = ok (dotted a b c e)"
    "j_value J (j_get_int J) j ''gateway_port'' n = ok (uint (get_gateway_port d))"
    "j_value J (j_get_string J) j ''gateway_host'' x = ok host"
    "j_value J (j_get_bool J) j ''tls_enabled'' q = ok (is_tls_enabled d)"
    "j_value J (j_get_bool J) j ''ota_enabled'' q = ok (ota_enabled d)"
    "j_value J (j_get_int J) j ''heartbeat_interval'' n = ok (uint (get_heartbeat_interval d))"
    "j_value J (j_get_int J) j ''sensor_interval'' n = ok (uint (get_sensor_interval d))" for x n q
    unfolding j v by (simp_all add: ip(1) json_library.get_string [OF assms(1)] json_library.get_int [OF assms(1)] json_library.get_bool [OF assms(1)])
  define b1 where "b1 = put_field D_gateway_port (u16_mem (get_gateway_port d)) (put_field D_ip_address (u32_mem (be32_val a b c e)) (dev_config d0))"
  define b2 where "b2 = strncpy_field D_gateway_host 64 host b1"
  define b3 where "b3 = put_field D_sensor_interval (u16_mem (get_sensor_interval d))
    (put_field D_heartbeat_interval (u16_mem (get_heartbeat_interval d))
    (put_field D_ota_enabled [if ota_enabled d then 1 else 0] (put_field D_tls_enabled [if is_tls_enabled d then 1 else 0] b2)))"
  let ?d1 = "d0\<lparr>dev_config := b3\<rparr>"
  have l: "length b1 = sizeof_dev" "length b2 = sizeof_dev" "length b3 = sizeof_dev"
    using assms(3) by (simp_all add: b1_def b2_def b3_def wf_device_def sizes)
  have "load_device_config J stack (Some t) d0 = ok (True, ?d1)"
    by (simp add: load_device_config_def Let_def assms(7) vals cpp_def scan_dotted_dotted ip_word_more b1_def b2_def b3_def)
  moreover have "wf_device ?d1"
    using assms(3) l by (simp add: wf_device_def)
  moreover have "same_settings ?d1 d"
  proof -
    have "string_at D_gateway_host b2 = Ret host"
      using l(1) string_at_c_text [of D_gateway_host "dev_config d" host] assms(4,5)
      by (simp add: b2_def string_at_strncpy sizes get_gateway_host_def)
    then have "string_at D_gateway_host b3 = Ret host"
      using assms(5) l(2) by (simp add: b3_def string_at_put_after sizes)
    moreover have "get_u32 D_ip_address b3 = be32_val a b c e"
      using l assms(3) by (simp add: get_u32_def b3_def b2_def b1_def strncpy_field_def wf_device_def sizes mem_u32_u32_mem)
    then have "get_ip_address ?d1 = dotted a b c e"
      by (intro get_ip_address_dotted) simp
    moreover have "get_u16 D_gateway_port b3 = get_gateway_port d"
      using l assms(3) by (simp add: get_u16_def b3_def b2_def b1_def strncpy_field_def wf_device_def sizes mem_u16_u16_mem)
    ultimately show ?thesis
      using l by (simp add: same_settings_def get_gateway_host_def get_gateway_port_def ip(1) assms(4) [unfolded get_gateway_host_def]
          is_tls_enabled_def ota_enabled_def get_heartbeat_interval_def get_sensor_interval_def get_u16_def b3_def sizes mem_u16_u16_mem)
  qed
  ultimately show ?thesis
    by blast
qed

text \<open>The default configuration.\<close>

lemma device_default_config:
  "\<exists>d. load_device_config J stack None device_info = ok (True, d) \<and> wf_device d \<and> get_gateway_host d = Ret ''localhost''
     \<and> get_gateway_port d = 8765"
proof -
  define b1 where "b1 = put_field D_gateway_port (u16_mem 8765) (replicate sizeof_dev 0)"
  define b2 where "b2 = strncpy_field D_gateway_host 64 ''localhost'' b1"
  define b3 where "b3 = put_field D_sensor_interval (u16_mem 5) (put_field D_heartbeat_interval (u16_mem 10)
    (put_field D_ota_enabled [1] (put_field D_tls_enabled [1] b2)))"
  have l: "length b1 = sizeof_dev" "length b2 = sizeof_dev" "length b3 = sizeof_dev"
    by (simp_all add: b1_def b2_def b3_def sizes)
  have "c_text ''localhost'' = ''localhost''"
    by (simp add: c_text_def)
  then have "string_at D_gateway_host b2 = Ret ''localhost''"
    using l(1) by (simp add: b2_def string_at_strncpy sizes)
  then have "string_at D_gateway_host b3 = Ret ''localhost''"
    using l(2) by (simp add: b3_def string_at_put_after sizes)
  moreover have "get_u16 D_gateway_port b3 = 8765"
    using l by (simp add: get_u16_def b3_def b2_def b1_def strncpy_field_def sizes mem_u16_u16_mem)
  moreover have "load_device_config J stack None device_info = ok (True, \<lparr>perm_config = replicate sizeof_perm 0, dev_config = b3\<rparr>)"
    by (simp add: load_device_config_def device_info_def Let_def b1_def b2_def b3_def)
  ultimately show ?thesis
    using l(3) by (simp add: wf_device_def get_gateway_host_def get_gateway_port_def)
qed

theorem device_save_load_witness:
  "\<exists>(J :: json_value json_api) t d d1. load_device_config J [1, 2, 3, 4] None device_info = ok (True, d) \<and> save_device_config J True d = ok (True, Some t)
    \<and> load_device_config J [1, 2, 3, 4] (Some t) device_info = ok (True, d1) \<and> same_settings d1 d"
proof -
  let ?L = "\<lambda>j. json_values (\<lambda>_. ok []) (\<lambda>_. ok j)"
  obtain d where d: "load_device_config (?L JNull) [1, 2, 3, 4] None device_info = ok (True, d)" "wf_device d"
    "get_gateway_host d = Ret ''localhost''"
    using device_default_config by blast
  define j where "j = (case get_device_config (?L JNull) d of Ret (Inr j) \<Rightarrow> j)"
  have j: "get_device_config (?L JNull) d = ok j"
    by (simp add: j_def get_device_config_def d(3) cpp_def) (simp add: ok_def)
  have j': "get_device_config (?L j) d = ok j"
    using j by (simp add: get_device_config_def)
  have "load_device_config (?L j) [1, 2, 3, 4] None device_info = ok (True, d)"
    using d(1) by (simp add: load_device_config_def)
  moreover have "save_device_config (?L j) True d = ok (True, Some [])"
    by (simp add: save_device_config_def j')
  moreover obtain d1 where "load_device_config (?L j) [1, 2, 3, 4] (Some []) device_info = ok (True, d1)" "same_settings d1 d"
    using device_save_load [OF json_values.json_library_axioms d(2) _ d(3) _ j', of device_info "[]" "[1, 2, 3, 4]"]
    by (auto simp: wf_device_def device_info_def)
  ultimately show ?thesis
    by blast
qed

end
