(* ===== verification/PQC_Tables.thy ===== *)
theory PQC_Tables
  imports C_Prelude
begin

text \<open>
  The tables of post-quantum parameters: \<^verbatim>\<open>common/protocol/pqc_params.h\<close>, \<^verbatim>\<open>pqc_params.c\<close> with their sizes, and
  \<^verbatim>\<open>vehicle_gateway/common/pqc_config.h\<close>, whose thirteen entries configure the TLS library, with the
  names of the certificate files from \<^verbatim>\<open>pqc_config.c\<close>. Printing functions are left out.
\<close>

section \<open>Parameters with sizes\<close>

datatype PQC_KEM_Type = PQC_KEM_X25519 | PQC_KEM_MLKEM512 | PQC_KEM_MLKEM768 | PQC_KEM_MLKEM1024
datatype PQC_SIG_Type = PQC_SIG_MLDSA44 | PQC_SIG_MLDSA65 | PQC_SIG_MLDSA87
datatype PQC_ECDSA_Type = PQC_ECDSA_P256 | PQC_ECDSA_P384 | PQC_ECDSA_P521

abbreviation (input) X25519_PUBLIC_KEY_SIZE :: u16 where "X25519_PUBLIC_KEY_SIZE \<equiv> 32"
abbreviation (input) MLKEM512_PUBLIC_KEY_SIZE :: u16 where "MLKEM512_PUBLIC_KEY_SIZE \<equiv> 800"
abbreviation (input) MLKEM512_CIPHERTEXT_SIZE :: u16 where "MLKEM512_CIPHERTEXT_SIZE \<equiv> 768"
abbreviation (input) MLKEM768_PUBLIC_KEY_SIZE :: u16 where "MLKEM768_PUBLIC_KEY_SIZE \<equiv> 1184"
abbreviation (input) MLKEM768_CIPHERTEXT_SIZE :: u16 where "MLKEM768_CIPHERTEXT_SIZE \<equiv> 1088"
abbreviation (input) MLKEM1024_PUBLIC_KEY_SIZE :: u16 where "MLKEM1024_PUBLIC_KEY_SIZE \<equiv> 1568"
abbreviation (input) MLKEM1024_CIPHERTEXT_SIZE :: u16 where "MLKEM1024_CIPHERTEXT_SIZE \<equiv> 1568"
abbreviation (input) MLDSA44_PUBLIC_KEY_SIZE :: u16 where "MLDSA44_PUBLIC_KEY_SIZE \<equiv> 1312"
abbreviation (input) MLDSA44_SIGNATURE_SIZE :: u16 where "MLDSA44_SIGNATURE_SIZE \<equiv> 2420"
abbreviation (input) MLDSA65_PUBLIC_KEY_SIZE :: u16 where "MLDSA65_PUBLIC_KEY_SIZE \<equiv> 1952"
abbreviation (input) MLDSA65_SIGNATURE_SIZE :: u16 where "MLDSA65_SIGNATURE_SIZE \<equiv> 3309"
abbreviation (input) MLDSA87_PUBLIC_KEY_SIZE :: u16 where "MLDSA87_PUBLIC_KEY_SIZE \<equiv> 2592"
abbreviation (input) MLDSA87_SIGNATURE_SIZE :: u16 where "MLDSA87_SIGNATURE_SIZE \<equiv> 4627"
abbreviation (input) ECDSA_P256_PUBLIC_KEY_SIZE :: u16 where "ECDSA_P256_PUBLIC_KEY_SIZE \<equiv> 65"
abbreviation (input) ECDSA_P256_SIGNATURE_SIZE :: u16 where "ECDSA_P256_SIGNATURE_SIZE \<equiv> 64"

text \<open>The type byte and the union are the two constructors: 0 is an ECDSA type, 1 an ML-DSA type.\<close>

datatype pqc_signature = Ecdsa PQC_ECDSA_Type | Mldsa PQC_SIG_Type

record PQC_Params =
  pp_kem :: PQC_KEM_Type
  pp_sig :: pqc_signature
  pp_kem_name :: string
  pp_sig_name :: string
  pp_openssl_groups :: string
  pp_openssl_sigalgs :: string
  pp_kem_public_key_size :: u16
  pp_kem_ciphertext_size :: u16
  pp_sig_public_key_size :: u16
  pp_sig_signature_size :: u16
  pp_security_bits :: u8

definition PQC_CONFIG_TABLE :: "PQC_Params list" where
  "PQC_CONFIG_TABLE =
   [\<lparr>pp_kem = PQC_KEM_X25519, pp_sig = Ecdsa PQC_ECDSA_P256, pp_kem_name = ''X25519'', pp_sig_name = ''ECDSA-P256'',
      pp_openssl_groups = ''x25519'', pp_openssl_sigalgs = ''ecdsa_secp256r1_sha256'',
      pp_kem_public_key_size = X25519_PUBLIC_KEY_SIZE, pp_kem_ciphertext_size = X25519_PUBLIC_KEY_SIZE,
      pp_sig_public_key_size = ECDSA_P256_PUBLIC_KEY_SIZE, pp_sig_signature_size = ECDSA_P256_SIGNATURE_SIZE, pp_security_bits = 128\<rparr>,
    \<lparr>pp_kem = PQC_KEM_MLKEM512, pp_sig = Ecdsa PQC_ECDSA_P256, pp_kem_name = ''ML-KEM-512'', pp_sig_name = ''ECDSA-P256'',
      pp_openssl_groups = ''mlkem512'', pp_openssl_sigalgs = ''ecdsa_secp256r1_sha256'',
      pp_kem_public_key_size = MLKEM512_PUBLIC_KEY_SIZE, pp_kem_ciphertext_size = MLKEM512_CIPHERTEXT_SIZE,
      pp_sig_public_key_size = ECDSA_P256_PUBLIC_KEY_SIZE, pp_sig_signature_size = ECDSA_P256_SIGNATURE_SIZE, pp_security_bits = 128\<rparr>,
    \<lparr>pp_kem = PQC_KEM_MLKEM768, pp_sig = Ecdsa PQC_ECDSA_P256, pp_kem_name = ''ML-KEM-768'', pp_sig_name = ''ECDSA-P256'',
      pp_openssl_groups = ''mlkem768'', pp_openssl_sigalgs = ''ecdsa_secp256r1_sha256'',
      pp_kem_public_key_size = MLKEM768_PUBLIC_KEY_SIZE, pp_kem_ciphertext_size = MLKEM768_CIPHERTEXT_SIZE,
      pp_sig_public_key_size = ECDSA_P256_PUBLIC_KEY_SIZE, pp_sig_signature_size = ECDSA_P256_SIGNATURE_SIZE, pp_security_bits = 192\<rparr>,
    \<lparr>pp_kem = PQC_KEM_MLKEM1024, pp_sig = Ecdsa PQC_ECDSA_P256, pp_kem_name = ''ML-KEM-1024'', pp_sig_name = ''ECDSA-P256'',
      pp_openssl_groups = ''mlkem1024'', pp_openssl_sigalgs = ''ecdsa_secp256r1_sha256'',
      pp_kem_public_key_size = MLKEM1024_PUBLIC_KEY_SIZE, pp_kem_ciphertext_size = MLKEM1024_CIPHERTEXT_SIZE,
      pp_sig_public_key_size = ECDSA_P256_PUBLIC_KEY_SIZE, pp_sig_signature_size = ECDSA_P256_SIGNATURE_SIZE, pp_security_bits = 256\<rparr>,
    \<lparr>pp_kem = PQC_KEM_MLKEM512, pp_sig = Mldsa PQC_SIG_MLDSA44, pp_kem_name = ''ML-KEM-512'', pp_sig_name = ''ML-DSA-44'',
      pp_openssl_groups = ''mlkem512'', pp_openssl_sigalgs = ''dilithium2'',
      pp_kem_public_key_size = MLKEM512_PUBLIC_KEY_SIZE, pp_kem_ciphertext_size = MLKEM512_CIPHERTEXT_SIZE,
      pp_sig_public_key_size = MLDSA44_PUBLIC_KEY_SIZE, pp_sig_signature_size = MLDSA44_SIGNATURE_SIZE, pp_security_bits = 128\<rparr>,
    \<lparr>pp_kem = PQC_KEM_MLKEM512, pp_sig = Mldsa PQC_SIG_MLDSA65, pp_kem_name = ''ML-KEM-512'', pp_sig_name = ''ML-DSA-65'',
      pp_openssl_groups = ''mlkem512'', pp_openssl_sigalgs = ''dilithium3'',
      pp_kem_public_key_size = MLKEM512_PUBLIC_KEY_SIZE, pp_kem_ciphertext_size = MLKEM512_CIPHERTEXT_SIZE,
      pp_sig_public_key_size = MLDSA65_PUBLIC_KEY_SIZE, pp_sig_signature_size = MLDSA65_SIGNATURE_SIZE, pp_security_bits = 128\<rparr>,
    \<lparr>pp_kem = PQC_KEM_MLKEM512, pp_sig = Mldsa PQC_SIG_MLDSA87, pp_kem_name = ''ML-KEM-512'', pp_sig_name = ''ML-DSA-87'',
      pp_openssl_groups = ''mlkem512'', pp_openssl_sigalgs = ''dilithium5'',
      pp_kem_public_key_size = MLKEM512_PUBLIC_KEY_SIZE, pp_kem_ciphertext_size = MLKEM512_CIPHERTEXT_SIZE,
      pp_sig_public_key_size = MLDSA87_PUBLIC_KEY_SIZE, pp_sig_signature_size = MLDSA87_SIGNATURE_SIZE, pp_security_bits = 128\<rparr>,
    \<lparr>pp_kem = PQC_KEM_MLKEM768, pp_sig = Mldsa PQC_SIG_MLDSA44, pp_kem_name = ''ML-KEM-768'', pp_sig_name = ''ML-DSA-44'',
      pp_openssl_groups = ''mlkem768'', pp_openssl_sigalgs = ''dilithium2'',
      pp_kem_public_key_size = MLKEM768_PUBLIC_KEY_SIZE, pp_kem_ciphertext_size = MLKEM768_CIPHERTEXT_SIZE,
      pp_sig_public_key_size = MLDSA44_PUBLIC_KEY_SIZE, pp_sig_signature_size = MLDSA44_SIGNATURE_SIZE, pp_security_bits = 192\<rparr>,
    \<lparr>pp_kem = PQC_KEM_MLKEM768, pp_sig = Mldsa PQC_SIG_MLDSA65, pp_kem_name = ''ML-KEM-768'', pp_sig_name = ''ML-DSA-65'',
      pp_openssl_groups = ''mlkem768'', pp_openssl_sigalgs = ''dilithium3'',
      pp_kem_public_key_size = MLKEM768_PUBLIC_KEY_SIZE, pp_kem_ciphertext_size = MLKEM768_CIPHERTEXT_SIZE,
      pp_sig_public_key_size = MLDSA65_PUBLIC_KEY_SIZE, pp_sig_signature_size = MLDSA65_SIGNATURE_SIZE, pp_security_bits = 192\<rparr>,
    \<lparr>pp_kem = PQC_KEM_MLKEM768, pp_sig = Mldsa PQC_SIG_MLDSA87, pp_kem_name = ''ML-KEM-768'', pp_sig_name = ''ML-DSA-87'',
      pp_openssl_groups = ''mlkem768'', pp_openssl_sigalgs = ''dilithium5'',
      pp_kem_public_key_size = MLKEM768_PUBLIC_KEY_SIZE, pp_kem_ciphertext_size = MLKEM768_CIPHERTEXT_SIZE,
      pp_sig_public_key_size = MLDSA87_PUBLIC_KEY_SIZE, pp_sig_signature_size = MLDSA87_SIGNATURE_SIZE, pp_security_bits = 192\<rparr>,
    \<lparr>pp_kem = PQC_KEM_MLKEM1024, pp_sig = Mldsa PQC_SIG_MLDSA44, pp_kem_name = ''ML-KEM-1024'', pp_sig_name = ''ML-DSA-44'',
      pp_openssl_groups = ''mlkem1024'', pp_openssl_sigalgs = ''dilithium2'',
      pp_kem_public_key_size = MLKEM1024_PUBLIC_KEY_SIZE, pp_kem_ciphertext_size = MLKEM1024_CIPHERTEXT_SIZE,
      pp_sig_public_key_size = MLDSA44_PUBLIC_KEY_SIZE, pp_sig_signature_size = MLDSA44_SIGNATURE_SIZE, pp_security_bits = 256\<rparr>,
    \<lparr>pp_kem = PQC_KEM_MLKEM1024, pp_sig = Mldsa PQC_SIG_MLDSA65, pp_kem_name = ''ML-KEM-1024'', pp_sig_name = ''ML-DSA-65'',
      pp_openssl_groups = ''mlkem1024'', pp_openssl_sigalgs = ''dilithium3'',
      pp_kem_public_key_size = MLKEM1024_PUBLIC_KEY_SIZE, pp_kem_ciphertext_size = MLKEM1024_CIPHERTEXT_SIZE,
      pp_sig_public_key_size = MLDSA65_PUBLIC_KEY_SIZE, pp_sig_signature_size = MLDSA65_SIGNATURE_SIZE, pp_security_bits = 256\<rparr>,
    \<lparr>pp_kem = PQC_KEM_MLKEM1024, pp_sig = Mldsa PQC_SIG_MLDSA87, pp_kem_name = ''ML-KEM-1024'', pp_sig_name = ''ML-DSA-87'',
      pp_openssl_groups = ''mlkem1024'', pp_openssl_sigalgs = ''dilithium5'',
      pp_kem_public_key_size = MLKEM1024_PUBLIC_KEY_SIZE, pp_kem_ciphertext_size = MLKEM1024_CIPHERTEXT_SIZE,
      pp_sig_public_key_size = MLDSA87_PUBLIC_KEY_SIZE, pp_sig_signature_size = MLDSA87_SIGNATURE_SIZE, pp_security_bits = 256\<rparr>]"

definition pqc_get_config :: "u8 \<Rightarrow> PQC_Params option" where
  "pqc_get_config config_id = (if unat config_id \<ge> 13 then None else Some (PQC_CONFIG_TABLE ! unat config_id))"

definition pqc_estimate_handshake_size :: "PQC_Params option \<Rightarrow> size_t" where
  "pqc_estimate_handshake_size config = (case config of
     None \<Rightarrow> 0
   | Some c \<Rightarrow> ucast (pp_kem_public_key_size c) + ucast (pp_kem_ciphertext_size c) + ucast (pp_sig_public_key_size c)
       + ucast (pp_sig_signature_size c) + 1024)"

section \<open>Configurations of the TLS library\<close>

datatype TLS_KEM_Type = KEM_X25519 | KEM_MLKEM512 | KEM_MLKEM768 | KEM_MLKEM1024
datatype TLS_SIG_Type = SIG_ECDSA_P256 | SIG_MLDSA44 | SIG_MLDSA65 | SIG_MLDSA87

record PQC_Config =
  cf_kem :: TLS_KEM_Type
  cf_sig :: TLS_SIG_Type
  cf_kem_name :: string
  cf_sig_name :: string
  cf_openssl_groups :: string
  cf_openssl_sigalgs :: string

definition PQC_CONFIGS :: "PQC_Config list" where
  "PQC_CONFIGS =
   [\<lparr>cf_kem = KEM_X25519, cf_sig = SIG_ECDSA_P256, cf_kem_name = ''X25519'', cf_sig_name = ''ECDSA-P256'',
      cf_openssl_groups = ''x25519'', cf_openssl_sigalgs = ''ecdsa_secp256r1_sha256''\<rparr>,
    \<lparr>cf_kem = KEM_MLKEM512, cf_sig = SIG_ECDSA_P256, cf_kem_name = ''ML-KEM-512'', cf_sig_name = ''ECDSA-P256'',
      cf_openssl_groups = ''mlkem512'', cf_openssl_sigalgs = ''ecdsa_secp256r1_sha256''\<rparr>,
    \<lparr>cf_kem = KEM_MLKEM768, cf_sig = SIG_ECDSA_P256, cf_kem_name = ''ML-KEM-768'', cf_sig_name = ''ECDSA-P256'',
      cf_openssl_groups = ''mlkem768'', cf_openssl_sigalgs = ''ecdsa_secp256r1_sha256''\<rparr>,
    \<lparr>cf_kem = KEM_MLKEM1024, cf_sig = SIG_ECDSA_P256, cf_kem_name = ''ML-KEM-1024'', cf_sig_name = ''ECDSA-P256'',
      cf_openssl_groups = ''mlkem1024'', cf_openssl_sigalgs = ''ecdsa_secp256r1_sha256''\<rparr>,
    \<lparr>cf_kem = KEM_MLKEM512, cf_sig = SIG_MLDSA44, cf_kem_name = ''ML-KEM-512'', cf_sig_name = ''ML-DSA-44'',
      cf_openssl_groups = ''mlkem512'', cf_openssl_sigalgs = ''mldsa44''\<rparr>,
    \<lparr>cf_kem = KEM_MLKEM512, cf_sig = SIG_MLDSA65, cf_kem_name = ''ML-KEM-512'', cf_sig_name = ''ML-DSA-65'',
      cf_openssl_groups = ''mlkem512'', cf_openssl_sigalgs = ''mldsa65''\<rparr>,
    \<lparr>cf_kem = KEM_MLKEM512, cf_sig = SIG_MLDSA87, cf_kem_name = ''ML-KEM-512'', cf_sig_name = ''ML-DSA-87'',
      cf_openssl_groups = ''mlkem512'', cf_openssl_sigalgs = ''mldsa87''\<rparr>,
    \<lparr>cf_kem = KEM_MLKEM768, cf_sig = SIG_MLDSA44, cf_kem_name = ''ML-KEM-768'', cf_sig_name = ''ML-DSA-44'',
      cf_openssl_groups = ''mlkem768'', cf_openssl_sigalgs = ''mldsa44''\<rparr>,
    \<lparr>cf_kem = KEM_MLKEM768, cf_sig = SIG_MLDSA65, cf_kem_name = ''ML-KEM-768'', cf_sig_name = ''ML-DSA-65'',
      cf_openssl_groups = ''mlkem768'', cf_openssl_sigalgs = ''mldsa65''\<rparr>,
    \<lparr>cf_kem = KEM_MLKEM768, cf_sig = SIG_MLDSA87, cf_kem_name = ''ML-KEM-768'', cf_sig_name = ''ML-DSA-87'',
      cf_openssl_groups = ''mlkem768'', cf_openssl_sigalgs = ''mldsa87''\<rparr>,
    \<lparr>cf_kem = KEM_MLKEM1024, cf_sig = SIG_MLDSA44, cf_kem_name = ''ML-KEM-1024'', cf_sig_name = ''ML-DSA-44'',
      cf_openssl_groups = ''mlkem1024'', cf_openssl_sigalgs = ''mldsa44''\<rparr>,
    \<lparr>cf_kem = KEM_MLKEM1024, cf_sig = SIG_MLDSA65, cf_kem_name = ''ML-KEM-1024'', cf_sig_name = ''ML-DSA-65'',
      cf_openssl_groups = ''mlkem1024'', cf_openssl_sigalgs = ''mldsa65''\<rparr>,
    \<lparr>cf_kem = KEM_MLKEM1024, cf_sig = SIG_MLDSA87, cf_kem_name = ''ML-KEM-1024'', cf_sig_name = ''ML-DSA-87'',
      cf_openssl_groups = ''mlkem1024'', cf_openssl_sigalgs = ''mldsa87''\<rparr>]"

fun cert_kem_prefix :: "TLS_KEM_Type \<Rightarrow> string" where
  "cert_kem_prefix KEM_X25519 = ''x25519''"
| "cert_kem_prefix KEM_MLKEM512 = ''mlkem512''"
| "cert_kem_prefix KEM_MLKEM768 = ''mlkem768''"
| "cert_kem_prefix KEM_MLKEM1024 = ''mlkem1024''"

fun cert_sig_prefix :: "TLS_SIG_Type \<Rightarrow> string" where
  "cert_sig_prefix SIG_ECDSA_P256 = ''ecdsa_secp256r1_sha256''"
| "cert_sig_prefix SIG_MLDSA44 = ''mldsa44''"
| "cert_sig_prefix SIG_MLDSA65 = ''mldsa65''"
| "cert_sig_prefix SIG_MLDSA87 = ''mldsa87''"

text \<open>The static buffer has 256 characters.\<close>

definition pqc_get_cert_filename :: "PQC_Config \<Rightarrow> bool \<Rightarrow> string" where
  "pqc_get_cert_filename config is_server = take 255 (cert_kem_prefix (cf_kem config) @ ''_'' @ cert_sig_prefix (cf_sig config) @ ''_''
     @ (if is_server then ''server'' else ''client''))"

section \<open>Properties\<close>

text \<open>The two enumerations of the same algorithms.\<close>

fun kem_of :: "PQC_KEM_Type \<Rightarrow> TLS_KEM_Type" where
  "kem_of PQC_KEM_X25519 = KEM_X25519"
| "kem_of PQC_KEM_MLKEM512 = KEM_MLKEM512"
| "kem_of PQC_KEM_MLKEM768 = KEM_MLKEM768"
| "kem_of PQC_KEM_MLKEM1024 = KEM_MLKEM1024"

fun sig_of :: "pqc_signature \<Rightarrow> TLS_SIG_Type option" where
  "sig_of (Ecdsa PQC_ECDSA_P256) = Some SIG_ECDSA_P256"
| "sig_of (Ecdsa _) = None"
| "sig_of (Mldsa PQC_SIG_MLDSA44) = Some SIG_MLDSA44"
| "sig_of (Mldsa PQC_SIG_MLDSA65) = Some SIG_MLDSA65"
| "sig_of (Mldsa PQC_SIG_MLDSA87) = Some SIG_MLDSA87"

definition same_algorithms :: "PQC_Params \<Rightarrow> PQC_Config \<Rightarrow> bool" where
  "same_algorithms p c \<longleftrightarrow> kem_of (pp_kem p) = cf_kem c \<and> sig_of (pp_sig p) = Some (cf_sig c)
     \<and> pp_kem_name p = cf_kem_name c \<and> pp_sig_name p = cf_sig_name c \<and> pp_openssl_groups p = cf_openssl_groups c"

lemma table_lengths [simp]: "length PQC_CONFIG_TABLE = 13" "length PQC_CONFIGS = 13"
  by (simp_all add: PQC_CONFIG_TABLE_def PQC_CONFIGS_def)

lemma tables_same: "list_all2 same_algorithms PQC_CONFIG_TABLE PQC_CONFIGS"
  by (simp add: PQC_CONFIG_TABLE_def PQC_CONFIGS_def same_algorithms_def)

text \<open>Only the classical signature has the same name for the library in both tables.\<close>

lemma tables_sigalgs:
  "list_all2 (\<lambda>p c. (pp_openssl_sigalgs p = cf_openssl_sigalgs c) = (cf_sig c = SIG_ECDSA_P256)) PQC_CONFIG_TABLE PQC_CONFIGS"
  by (simp add: PQC_CONFIG_TABLE_def PQC_CONFIGS_def)

lemma table_security:
  "list_all (\<lambda>p. pp_security_bits p = (case pp_kem p of PQC_KEM_MLKEM768 \<Rightarrow> 192 | PQC_KEM_MLKEM1024 \<Rightarrow> 0 | _ \<Rightarrow> 128)) PQC_CONFIG_TABLE"
  by (simp add: PQC_CONFIG_TABLE_def)

lemma table_sizes:
  "list_all (\<lambda>p. 1217 \<le> unat (pqc_estimate_handshake_size (Some p)) \<and> unat (pqc_estimate_handshake_size (Some p)) \<le> 11379
     \<and> unat (pqc_estimate_handshake_size (Some p)) = unat (pp_kem_public_key_size p) + unat (pp_kem_ciphertext_size p)
         + unat (pp_sig_public_key_size p) + unat (pp_sig_signature_size p) + 1024) PQC_CONFIG_TABLE"
  by (simp add: PQC_CONFIG_TABLE_def pqc_estimate_handshake_size_def)

lemma table_nth: "list_all P xs \<Longrightarrow> i < length xs \<Longrightarrow> P (xs ! i)"
  by (simp add: list_all_length)

text \<open>
  The two tables. Every identifier below 13 names a configuration in both tables, with the same
  algorithms, names and groups; the names of the signature algorithms for the library differ except for ECDSA,
  the strength is stored as 0 for ML-KEM-1024, and the estimated handshake is the sum of the sizes.
\<close>

theorem pqc_tables_agree:
  "(13 \<le> unat i \<longrightarrow> pqc_get_config i = None) \<and> (unat i < 13 \<longrightarrow> (\<exists>p. pqc_get_config i = Some p
    \<and> same_algorithms p (PQC_CONFIGS ! unat i)
    \<and> (pp_openssl_sigalgs p = cf_openssl_sigalgs (PQC_CONFIGS ! unat i) \<longleftrightarrow> cf_sig (PQC_CONFIGS ! unat i) = SIG_ECDSA_P256)
    \<and> (pp_security_bits p = 0 \<longleftrightarrow> pp_kem p = PQC_KEM_MLKEM1024)
    \<and> unat (pqc_estimate_handshake_size (Some p)) = unat (pp_kem_public_key_size p) + unat (pp_kem_ciphertext_size p)
        + unat (pp_sig_public_key_size p) + unat (pp_sig_signature_size p) + 1024
    \<and> unat (pqc_estimate_handshake_size (Some p)) \<le> 11379))"
proof (cases "unat i < 13")
  case True
  let ?p = "PQC_CONFIG_TABLE ! unat i"
  have "same_algorithms ?p (PQC_CONFIGS ! unat i)"
    using list_all2_nthD [OF tables_same] True by simp
  moreover have "(pp_openssl_sigalgs ?p = cf_openssl_sigalgs (PQC_CONFIGS ! unat i)) = (cf_sig (PQC_CONFIGS ! unat i) = SIG_ECDSA_P256)"
    using list_all2_nthD [OF tables_sigalgs] True by simp
  moreover have "pp_security_bits ?p = 0 \<longleftrightarrow> pp_kem ?p = PQC_KEM_MLKEM1024"
    using table_nth [OF table_security, of "unat i"] True by (simp split: PQC_KEM_Type.splits)
  ultimately show ?thesis
    using table_nth [OF table_sizes, of "unat i"] True by (simp add: pqc_get_config_def)
qed (simp add: pqc_get_config_def)

theorem pqc_tables_agree_witness:
  "\<exists>p. pqc_get_config 12 = Some p \<and> pp_security_bits p = 0 \<and> unat (pqc_estimate_handshake_size (Some p)) \<le> 11379"
proof -
  have "pp_kem (PQC_CONFIG_TABLE ! 12) = PQC_KEM_MLKEM1024"
    by (simp add: PQC_CONFIG_TABLE_def)
  then show ?thesis
    using pqc_tables_agree [of 12] by (auto simp: pqc_get_config_def)
qed

text \<open>All certificate names, those of the servers and of the clients.\<close>

definition all_cert_names :: "string list" where
  "all_cert_names = map (\<lambda>(c, s). pqc_get_cert_filename c s) (List.product PQC_CONFIGS [True, False])"

lemma cert_names_distinct: "distinct all_cert_names"
  by code_simp

lemma pqc_cert_names_distinct:
  assumes "c \<in> set PQC_CONFIGS" "c' \<in> set PQC_CONFIGS" "pqc_get_cert_filename c s = pqc_get_cert_filename c' s'"
  shows "c = c' \<and> s = s'"
proof -
  have "inj_on (\<lambda>(c, s). pqc_get_cert_filename c s) (set PQC_CONFIGS \<times> UNIV)"
    using cert_names_distinct by (simp add: all_cert_names_def distinct_map UNIV_bool insert_commute)
  then show ?thesis
    using assms by (auto dest: inj_onD [where x = "(c, s)" and y = "(c', s')"])
qed

end
