(* ===== verification/PQC_TLS.thy ===== *)
theory PQC_TLS
  imports PQC_Tables PQC_Client
begin

text \<open>
  The post-quantum TLS of the vehicle gateway: \<^verbatim>\<open>common/pqc_config.c\<close>, \<^verbatim>\<open>src/pqc_tls_client.c\<close> and
  \<^verbatim>\<open>src/pqc_tls_server.c\<close> over the library of \<^verbatim>\<open>PQC_Client\<close>. A pointer that may be null is an option;
  whether \<^verbatim>\<open>calloc\<close> succeeds is an argument. Log output is left out.
\<close>

section \<open>Configuring a context\<close>

definition pqc_configure_ssl_ctx :: "'w openssl \<Rightarrow> nat option \<Rightarrow> PQC_Config option \<Rightarrow> 'w \<Rightarrow> bool \<times> 'w" where
  "pqc_configure_ssl_ctx L ctx config w = (case (ctx, config) of
     (Some x, Some c) \<Rightarrow>
       let w = o_set_proto L x TLS1_3_VERSION TLS1_3_VERSION w;
           (r, w) = o_set_groups L x (cf_openssl_groups c) w
       in if r \<noteq> 1 then (False, w)
       else let (r, w) = o_set_sigalgs L x (cf_openssl_sigalgs c) w
       in if r \<noteq> 1 then (False, w)
       else let (r, w) = o_set_ciphersuites L x ''TLS_AES_256_GCM_SHA384:TLS_AES_128_GCM_SHA256'' w
       in (r = 1, w)
   | _ \<Rightarrow> (False, w))"

text \<open>A file that may be null: the call is made only for a name.\<close>

definition with_file :: "(string \<Rightarrow> 'w \<Rightarrow> int \<times> 'w) \<Rightarrow> string option \<Rightarrow> 'w \<Rightarrow> bool \<times> 'w" where
  "with_file f file w = (case file of None \<Rightarrow> (True, w) | Some t \<Rightarrow> let (r, w) = f t w in (r = 1, w))"

definition pqc_load_certificates ::
  "'w openssl \<Rightarrow> nat option \<Rightarrow> string option \<Rightarrow> string option \<Rightarrow> string option \<Rightarrow> 'w \<Rightarrow> bool \<times> 'w" where
  "pqc_load_certificates L ctx cert_file key_file ca_file w = (case ctx of
     None \<Rightarrow> (False, w)
   | Some x \<Rightarrow>
       let (r, w) = with_file (o_use_cert L x) cert_file w
       in if \<not> r then (False, w)
       else let (r, w) = with_file (o_use_key L x) key_file w
       in if \<not> r then (False, w)
       else let (r, w) = (if cert_file \<noteq> None \<and> key_file \<noteq> None then o_check_key L x w else (1, w))
       in if r = 0 then (False, w)
       else let (r, w) = with_file (o_load_verify L x) ca_file w
       in if \<not> r then (False, w)
       else (True, o_set_verify L x w))"

section \<open>The client\<close>

record PQC_TLS_Client =
  tc_ctx :: "nat option"
  tc_ssl :: "nat option"
  tc_fd :: int
  tc_config :: "PQC_Config option"

definition connect_to_host :: "'w openssl \<Rightarrow> string \<Rightarrow> u16 \<Rightarrow> 'w \<Rightarrow> int \<times> 'w" where
  "connect_to_host L hostname port w =
    (let (addrs, w) = o_getaddrinfo L hostname port w in
     case addrs of
       None \<Rightarrow> (-1, w)
     | Some as \<Rightarrow> let (fd, w) = connect_first L as (-1) w in (fd, o_freeaddrinfo L w))"

definition pqc_client_create ::
  "'w openssl \<Rightarrow> bool \<Rightarrow> string \<Rightarrow> u16 \<Rightarrow> PQC_Config option \<Rightarrow> string option \<Rightarrow> string option \<Rightarrow> string option
    \<Rightarrow> 'w \<Rightarrow> PQC_TLS_Client option \<times> 'w" where
  "pqc_client_create L alloc hostname port config cert_file key_file ca_file w =
    (if \<not> alloc then (None, w)
     else let client = \<lparr>tc_ctx = None, tc_ssl = None, tc_fd = 0, tc_config = config\<rparr>;
              (ctx, w) = o_ctx_new L w; client = client\<lparr>tc_ctx := ctx\<rparr>
     in case ctx of
          None \<Rightarrow> (None, w)
        | Some x \<Rightarrow>
            let (r, w) = pqc_configure_ssl_ctx L (Some x) config w
            in if \<not> r then (None, o_ctx_free L x w)
            else let (r, w) = pqc_load_certificates L (Some x) cert_file key_file ca_file w
            in if \<not> r then (None, o_ctx_free L x w)
            else let (fd, w) = connect_to_host L hostname port w; client = client\<lparr>tc_fd := fd\<rparr>
            in if fd < 0 then (None, o_ctx_free L x w)
            else let (ssl, w) = o_ssl_new L x w; client = client\<lparr>tc_ssl := ssl\<rparr>
            in case ssl of
                 None \<Rightarrow> (None, o_ctx_free L x (o_close L fd w))
               | Some s \<Rightarrow>
                   let w = o_set_host L s hostname (o_set_fd L s fd w);
                       (r, w) = o_ssl_connect L s w
                   in if r \<le> 0 then (None, o_ctx_free L x (o_close L fd (o_ssl_free L s w)))
                      else (Some client, w))"

definition pqc_client_write :: "'w openssl \<Rightarrow> PQC_TLS_Client option \<Rightarrow> bytes \<Rightarrow> 'w \<Rightarrow> int \<times> 'w" where
  "pqc_client_write L client data w = (case client of
     None \<Rightarrow> (-1, w)
   | Some c \<Rightarrow> (case tc_ssl c of None \<Rightarrow> (-1, w) | Some s \<Rightarrow> o_write L s data (int (length data)) w))"

text \<open>\<open>None\<close> is a result that is not positive.\<close>

definition pqc_client_read :: "'w openssl \<Rightarrow> PQC_TLS_Client option \<Rightarrow> nat \<Rightarrow> 'w \<Rightarrow> bytes option \<times> 'w" where
  "pqc_client_read L client len w = (case client of
     None \<Rightarrow> (None, w)
   | Some c \<Rightarrow> (case tc_ssl c of None \<Rightarrow> (None, w) | Some s \<Rightarrow> o_read L s len w))"

definition pqc_client_destroy :: "'w openssl \<Rightarrow> PQC_TLS_Client option \<Rightarrow> 'w \<Rightarrow> 'w" where
  "pqc_client_destroy L client w = (case client of
     None \<Rightarrow> w
   | Some c \<Rightarrow>
       let w = (case tc_ssl c of None \<Rightarrow> w | Some s \<Rightarrow> o_ssl_free L s (o_shutdown L s w));
           w = (if tc_fd c \<ge> 0 then o_close L (tc_fd c) w else w)
       in (case tc_ctx c of None \<Rightarrow> w | Some x \<Rightarrow> o_ctx_free L x w))"

section \<open>The server\<close>

text \<open>The calls of a listening socket.\<close>

record 'w listen_calls =
  v_socket :: "'w \<Rightarrow> int \<times> 'w"
  v_bind :: "int \<Rightarrow> u16 \<Rightarrow> 'w \<Rightarrow> int \<times> 'w"
  v_listen :: "int \<Rightarrow> 'w \<Rightarrow> int \<times> 'w"
  v_accept :: "int \<Rightarrow> 'w \<Rightarrow> int \<times> 'w"
  v_ssl_accept :: "nat \<Rightarrow> 'w \<Rightarrow> int \<times> 'w"

record PQC_TLS_Server =
  ts_ctx :: "nat option"
  ts_listen_fd :: int
  ts_port :: u16
  ts_config :: "PQC_Config option"

definition create_listen_socket :: "'w openssl \<Rightarrow> 'w listen_calls \<Rightarrow> u16 \<Rightarrow> 'w \<Rightarrow> int \<times> 'w" where
  "create_listen_socket L V port w =
    (let (fd, w) = v_socket V w
     in if fd < 0 then (-1, w)
     else let (r, w) = v_bind V fd port w
     in if r < 0 then (-1, o_close L fd w)
     else let (r, w) = v_listen V fd w
     in if r < 0 then (-1, o_close L fd w) else (fd, w))"

definition pqc_server_create ::
  "'w openssl \<Rightarrow> 'w listen_calls \<Rightarrow> bool \<Rightarrow> u16 \<Rightarrow> PQC_Config option \<Rightarrow> string option \<Rightarrow> string option \<Rightarrow> string option
    \<Rightarrow> 'w \<Rightarrow> PQC_TLS_Server option \<times> 'w" where
  "pqc_server_create L V alloc port config cert_file key_file ca_file w =
    (if \<not> alloc then (None, w)
     else let (ctx, w) = o_ctx_new L w
     in case ctx of
          None \<Rightarrow> (None, w)
        | Some x \<Rightarrow>
            let (r, w) = pqc_configure_ssl_ctx L (Some x) config w
            in if \<not> r then (None, o_ctx_free L x w)
            else let (r, w) = pqc_load_certificates L (Some x) cert_file key_file ca_file w
            in if \<not> r then (None, o_ctx_free L x w)
            else let (fd, w) = create_listen_socket L V port w
            in if fd < 0 then (None, o_ctx_free L x w)
            else (Some \<lparr>ts_ctx = Some x, ts_listen_fd = fd, ts_port = port, ts_config = config\<rparr>, w))"

text \<open>The connection and its descriptor, when a client was accepted; neither output pointer is null.\<close>

definition pqc_server_accept ::
  "'w openssl \<Rightarrow> 'w listen_calls \<Rightarrow> PQC_TLS_Server option \<Rightarrow> 'w \<Rightarrow> (nat \<times> int) option \<times> 'w" where
  "pqc_server_accept L V server w = (case server of
     None \<Rightarrow> (None, w)
   | Some sv \<Rightarrow>
       let (client_fd, w) = v_accept V (ts_listen_fd sv) w
       in if client_fd < 0 then (None, w)
       else let (ssl, w) = (case ts_ctx sv of None \<Rightarrow> (None, w) | Some x \<Rightarrow> o_ssl_new L x w)
       in case ssl of
            None \<Rightarrow> (None, o_close L client_fd w)
          | Some s \<Rightarrow>
              let w = o_set_fd L s client_fd w; (r, w) = v_ssl_accept V s w
              in if r \<le> 0 then (None, o_close L client_fd (o_ssl_free L s w)) else (Some (s, client_fd), w))"

definition pqc_server_destroy :: "'w openssl \<Rightarrow> PQC_TLS_Server option \<Rightarrow> 'w \<Rightarrow> 'w" where
  "pqc_server_destroy L server w = (case server of
     None \<Rightarrow> w
   | Some sv \<Rightarrow>
       let w = (if ts_listen_fd sv \<ge> 0 then o_close L (ts_listen_fd sv) w else w)
       in (case ts_ctx sv of None \<Rightarrow> w | Some x \<Rightarrow> o_ctx_free L x w))"

text \<open>A round of the example's endless loop: one message is echoed to every client.\<close>

definition pqc_echo_round :: "'w openssl \<Rightarrow> 'w listen_calls \<Rightarrow> PQC_TLS_Server \<Rightarrow> 'w \<Rightarrow> 'w" where
  "pqc_echo_round L V sv w =
    (let (conn, w) = pqc_server_accept L V (Some sv) w in
     case conn of
       None \<Rightarrow> w
     | Some (s, client_fd) \<Rightarrow>
         let (d, w) = o_read L s 4096 w;
             w = (case d of None \<Rightarrow> w | Some d \<Rightarrow> snd (o_write L s d (int (length d)) w))
         in o_close L client_fd (o_ssl_free L s (o_shutdown L s w)))"

text \<open>The example for \<open>n\<close> rounds; \<open>False\<close> when the server could not be made.\<close>

definition pqc_doip_server_example :: "'w openssl \<Rightarrow> 'w listen_calls \<Rightarrow> bool \<Rightarrow> nat \<Rightarrow> u16 \<Rightarrow> 'w \<Rightarrow> bool \<times> 'w" where
  "pqc_doip_server_example L V alloc n port w =
    (let (server, w) = pqc_server_create L V alloc port (Some (PQC_CONFIGS ! 2)) (Some ''certs/mlkem768_mldsa65_server.crt'')
       (Some ''certs/mlkem768_mldsa65_server.key'') (Some ''certs/ca.crt'') w in
     case server of None \<Rightarrow> (False, w) | Some sv \<Rightarrow> (True, (pqc_echo_round L V sv ^^ n) w))"

section \<open>Resources\<close>

context tls_library
begin

lemma configure_ctx_keeps: "res (snd (pqc_configure_ssl_ctx L x c w)) = res w"
  by (simp add: pqc_configure_ssl_ctx_def Let_def split_def keeps_config split: option.split)

lemma with_file_keeps: "(\<And>t w. res (snd (f t w)) = res w) \<Longrightarrow> res (snd (with_file f file w)) = res w"
  by (simp add: with_file_def split_def Let_def split: option.split)

lemma load_certificates_keeps: "res (snd (pqc_load_certificates L x cert key ca w)) = res w"
  by (simp add: pqc_load_certificates_def Let_def split_def keeps_config keeps_files with_file_keeps split: option.split)

lemma connect_to_host_res:
  assumes "connect_to_host L h p w = (fd, w')" "\<not> bad (res w)"
  shows "if fd < 0 then res w' = res w else fd \<notin> socks (res w) \<and> res w' = (res w)\<lparr>socks := insert fd (socks (res w))\<rparr>"
proof -
  obtain addrs w1 where g: "o_getaddrinfo L h p w = (addrs, w1)" by fastforce
  have w1: "res w1 = res w"
    using keeps_net(1) [of h p w] g by simp
  show ?thesis
  proof (cases addrs)
    case (Some as)
    obtain k w2 where f: "connect_first L as (-1) w1 = (k, w2)" by fastforce
    have "if k < 0 then res w2 = res w1 else k \<notin> socks (res w1) \<and> res w2 = (res w1)\<lparr>socks := insert k (socks (res w1))\<rparr>"
      by (rule connect_first_res [OF f]) (simp_all add: w1 assms(2))
    then show ?thesis
      using assms(1) keeps_net(2) [of w2] by (auto simp: connect_to_host_def g f Some w1)
  qed (use assms(1) w1 in \<open>auto simp: connect_to_host_def g\<close>)
qed

text \<open>A client that was made holds a context, a connection and a descriptor of its own; otherwise nothing is held.\<close>

lemma client_create_res:
  assumes "pqc_client_create L alloc h p config cert key ca w = (client, w')" "\<not> bad (res w)"
  shows "case client of
      None \<Rightarrow> res w' = res w
    | Some c \<Rightarrow> \<exists>x s. tc_ctx c = Some x \<and> tc_ssl c = Some s \<and> 0 \<le> tc_fd c
        \<and> x \<notin> ctxs (res w) \<and> s \<notin> ssls (res w) \<and> tc_fd c \<notin> socks (res w)
        \<and> res w' = (res w)\<lparr>ctxs := insert x (ctxs (res w)), ssls := insert s (ssls (res w)), socks := insert (tc_fd c) (socks (res w))\<rparr>"
proof (cases alloc)
  case True
  obtain ctx w1 where n: "o_ctx_new L w = (ctx, w1)" by fastforce
  show ?thesis
  proof (cases ctx)
    case None
    then show ?thesis
      using assms(1) True n ctx_new_none [of w w1] by (auto simp: pqc_client_create_def)
  next
    case (Some x)
    then have x: "x \<notin> ctxs (res w)" "res w1 = (res w)\<lparr>ctxs := insert x (ctxs (res w))\<rparr>"
      using ctx_new n by blast+
    have drop: "res (o_ctx_free L x v) = res w" if "res v = res w1" for v
      using x that assms(2) by (simp add: ctx_free)
    obtain r1 w2 where cf: "pqc_configure_ssl_ctx L (Some x) config w1 = (r1, w2)" by fastforce
    have w2: "res w2 = res w1"
      using configure_ctx_keeps [of "Some x" config w1] cf by simp
    obtain r2 w3 where lc: "pqc_load_certificates L (Some x) cert key ca w2 = (r2, w3)" by fastforce
    have w3: "res w3 = res w1"
      using load_certificates_keeps [of "Some x" cert key ca w2] lc w2 by simp
    obtain fd w4 where h: "connect_to_host L h p w3 = (fd, w4)" by fastforce
    have w4: "if fd < 0 then res w4 = res w1 else fd \<notin> socks (res w1) \<and> res w4 = (res w1)\<lparr>socks := insert fd (socks (res w1))\<rparr>"
    proof -
      have "\<not> bad (res w3)"
        using w3 x(2) assms(2) by simp
      from connect_to_host_res [OF h this] show ?thesis
        unfolding w3 .
    qed
    obtain ssl w5 where sn: "o_ssl_new L x w4 = (ssl, w5)" by fastforce
    show ?thesis
    proof (cases "r1 \<and> r2 \<and> 0 \<le> fd")
      case False
      then show ?thesis
        using assms(1) True n Some cf lc h drop [OF w2] drop [OF w3] drop [of w4] w4
        by (auto simp: pqc_client_create_def Let_def split: if_splits)
    next
      case up: True
      then have f: "fd \<notin> socks (res w)" "res w4 = (res w1)\<lparr>socks := insert fd (socks (res w))\<rparr>"
        using w4 x by simp_all
      have close_fd: "res (o_close L fd v) = res w1" if "res v = res w4" for v
        using that f x assms(2) by (simp add: close)
      show ?thesis
      proof (cases ssl)
        case None
        then show ?thesis
          using assms(1) True n Some cf lc h up sn drop [OF close_fd] ssl_new_none [of x w4 w5]
          by (auto simp: pqc_client_create_def Let_def)
      next
        case ssl: (Some s)
        then have s: "s \<notin> ssls (res w)" "res w5 = (res w4)\<lparr>ssls := insert s (ssls (res w))\<rparr>"
          using ssl_new [of x w4 s w5] sn f x by simp_all
        let ?w6 = "o_set_host L s h (o_set_fd L s fd w5)"
        obtain k w7 where k: "o_ssl_connect L s ?w6 = (k, w7)" by fastforce
        have w7: "res w7 = res w5"
          using keeps_ssl(3) [of s ?w6] k by (simp add: keeps_ssl(1,2))
        show ?thesis
        proof (cases "k \<le> 0")
          case True
          have "res (o_ssl_free L s w7) = res w4"
            using w7 s f x assms(2) by (simp add: ssl_free)
          then show ?thesis
            using assms(1) \<open>alloc\<close> n Some cf lc h up sn ssl k True drop [OF close_fd] by (auto simp: pqc_client_create_def Let_def)
        next
          case False
          then have "client = Some \<lparr>tc_ctx = Some x, tc_ssl = Some s, tc_fd = fd, tc_config = config\<rparr>" "w' = w7"
            using assms(1) True n Some cf lc h up sn ssl k by (auto simp: pqc_client_create_def Let_def)
          then show ?thesis
            using x f s w7 up by simp
        qed
      qed
    qed
  qed
qed (use assms(1) in \<open>auto simp: pqc_client_create_def\<close>)

lemma client_destroy_res:
  assumes "\<not> bad r" "tc_ctx c = Some x" "tc_ssl c = Some s" "0 \<le> tc_fd c"
    "x \<notin> ctxs r" "s \<notin> ssls r" "tc_fd c \<notin> socks r"
    "res w = r\<lparr>ctxs := insert x (ctxs r), ssls := insert s (ssls r), socks := insert (tc_fd c) (socks r)\<rparr>"
  shows "res (pqc_client_destroy L (Some c) w) = r"
  using assms by (simp add: pqc_client_destroy_def ctx_free ssl_free close keeps_ssl)

lemma client_lifecycle:
  assumes "pqc_client_create L alloc h p config cert key ca w = (client, w1)" "\<not> bad (res w)"
  shows "client = None \<Longrightarrow> res w1 = res w" "client \<noteq> None \<Longrightarrow> card (socks (res w1) - socks (res w)) = 1"
    "res w2 = res w1 \<Longrightarrow> res (pqc_client_destroy L client w2) = res w"
proof -
  show "client = None \<Longrightarrow> res w1 = res w"
    using client_create_res [OF assms] by simp
  show "client \<noteq> None \<Longrightarrow> card (socks (res w1) - socks (res w)) = 1"
    using client_create_res [OF assms] by (auto simp: insert_Diff_if)
  show "res w2 = res w1 \<Longrightarrow> res (pqc_client_destroy L client w2) = res w"
  proof (cases client)
    case (Some c)
    moreover assume "res w2 = res w1"
    ultimately show ?thesis
      using client_create_res [OF assms] client_destroy_res [OF assms(2), of c] by auto
  qed (use client_create_res [OF assms] in \<open>simp add: pqc_client_destroy_def\<close>)
qed

lemma client_io_keeps:
  "res (snd (pqc_client_write L c d w)) = res w" "res (snd (pqc_client_read L c n w)) = res w"
  by (simp_all add: pqc_client_write_def pqc_client_read_def keeps_ssl split: option.split)

end

text \<open>
  C40. The client gives back what it takes. Creating a client either fails and leaves the resources as they
  were, or yields one with a context, a connection and a descriptor of its own; reading and writing change
  none, and destroying it releases exactly these three.
\<close>

theorem pqc_tls_client_resources:
  assumes "tls_library L res" "\<not> bad (res w)" "pqc_client_create L alloc h p config cert key ca w = (client, w1)"
  shows "(client = None \<longrightarrow> res w1 = res w)
    \<and> (client \<noteq> None \<longrightarrow> card (socks (res w1) - socks (res w)) = 1)
    \<and> res (snd (pqc_client_write L client d w1)) = res w1 \<and> res (snd (pqc_client_read L client n w1)) = res w1
    \<and> (\<forall>w2. res w2 = res w1 \<longrightarrow> res (pqc_client_destroy L client w2) = res w)"
  using tls_library.client_lifecycle [OF assms(1,3,2)] tls_library.client_io_keeps [OF assms(1)] by simp

theorem pqc_tls_client_resources_witness:
  defines "v \<equiv> (replicate 4096 0, doip_handler, []) :: tls_session" and "none \<equiv> \<lparr>ctxs = {}, ssls = {}, socks = {}, bad = False\<rparr>"
  shows "\<exists>c w1. pqc_client_create session_library True ''vmg'' 8883 (Some (PQC_CONFIGS ! 2)) None None None (v, none) = (Some c, w1)
    \<and> card (socks (snd w1)) = 1 \<and> snd (pqc_client_destroy session_library (Some c) w1) = none"
proof -
  let ?w = "(v, none)"
  obtain client w1 where c: "pqc_client_create session_library True ''vmg'' 8883 (Some (PQC_CONFIGS ! 2)) None None None ?w = (client, w1)"
    by (metis prod.exhaust)
  then have "client \<noteq> None"
    by (auto simp: pqc_client_create_def session_library_def pqc_configure_ssl_ctx_def pqc_load_certificates_def with_file_def
        connect_to_host_def new_handle_def none_def Let_def)
  then show ?thesis
    using pqc_tls_client_resources [OF session_tls.tls_library_axioms _ c, of "[]" 0] c
    by (auto simp: none_def simp del: split_paired_All)
qed

end
