(* ===== verification/MQTT_Client.thy ===== *)
theory MQTT_Client
  imports PQC_TLS C_Texts
begin

text \<open>
  The MQTT client of the vehicle gateway, \<^verbatim>\<open>vehicle_gateway/src/pqc_mqtt.c\<close>: its packets, connecting and
  publishing over \<^verbatim>\<open>PQC_TLS\<close>. A packet is built in a local array; building one that does not fit
  is a \<open>Fault\<close>. The text of the process identifier is an argument.
\<close>

section \<open>Packets\<close>

abbreviation (input) MQTT_CONNECT :: u8 where "MQTT_CONNECT \<equiv> 1"
abbreviation (input) MQTT_CONNACK :: u8 where "MQTT_CONNACK \<equiv> 2"
abbreviation (input) MQTT_PUBLISH :: u8 where "MQTT_PUBLISH \<equiv> 3"
abbreviation (input) MQTT_DISCONNECT :: u8 where "MQTT_DISCONNECT \<equiv> 14"

record MQTT_Client =
  mq_tls_client :: "PQC_TLS_Client option"
  mq_client_id :: bytes
  mq_packet_id :: u16

fun mqtt_encode_length :: "nat \<Rightarrow> bytes" where
  "mqtt_encode_length len =
    (let d = word_of_nat (len mod 128); len' = len div 128
     in if len' > 0 then (d OR 0x80) # mqtt_encode_length len' else [d])"

declare mqtt_encode_length.simps [simp del]

text \<open>The array of \<open>n\<close> bytes after the writes: what is sent is the part written.\<close>

definition packet_in :: "nat \<Rightarrow> bytes \<Rightarrow> bytes cexec" where
  "packet_in n d = (if n < length d then Fault else Ret d)"

definition mqtt_connect_packet :: "bytes \<Rightarrow> bytes" where
  "mqtt_connect_packet client_id =
    [push_bit 4 MQTT_CONNECT] @ mqtt_encode_length (2 + 4 + 1 + 1 + 2 + 2 + length client_id)
    @ [0, 4, 0x4D, 0x51, 0x54, 0x54, 4, 0x02, 0x00, 0x3C] @ be16 (word_of_nat (length client_id)) @ client_id"

definition mqtt_send_connect :: "'w openssl \<Rightarrow> MQTT_Client \<Rightarrow> 'w \<Rightarrow> (int \<times> 'w) cexec" where
  "mqtt_send_connect L mqtt w = cbind (packet_in 256 (mqtt_connect_packet (mq_client_id mqtt))) (\<lambda>p.
     Ret (pqc_client_write L (mq_tls_client mqtt) p w))"

definition mqtt_recv_connack :: "'w openssl \<Rightarrow> MQTT_Client \<Rightarrow> 'w \<Rightarrow> bool \<times> 'w" where
  "mqtt_recv_connack L mqtt w = (case pqc_client_read L (mq_tls_client mqtt) 4 w of
     (None, w) \<Rightarrow> (False, w)
   | (Some b, w) \<Rightarrow>
       (if length b \<noteq> 4 then False else if drop_bit 4 (b ! 0) \<noteq> MQTT_CONNACK then False else b ! 3 = 0, w))"

definition mqtt_publish_packet :: "u16 \<Rightarrow> bytes \<Rightarrow> bytes \<Rightarrow> u8 \<Rightarrow> bytes" where
  "mqtt_publish_packet packet_id topic payload qos =
    [push_bit 4 MQTT_PUBLISH OR push_bit 1 qos]
    @ mqtt_encode_length (2 + length topic + length payload + (if qos > 0 then 2 else 0))
    @ be16 (word_of_nat (length topic)) @ topic @ (if qos > 0 then be16 packet_id else []) @ payload"

definition mqtt_publish ::
  "'w openssl \<Rightarrow> MQTT_Client option \<Rightarrow> bytes option \<Rightarrow> bytes \<Rightarrow> u8 \<Rightarrow> 'w \<Rightarrow> (bool \<times> MQTT_Client option \<times> 'w) cexec" where
  "mqtt_publish L mqtt topic payload qos w = (case (mqtt, topic) of
     (Some m, Some t) \<Rightarrow>
       cbind (packet_in 2048 (mqtt_publish_packet (mq_packet_id m) t payload qos)) (\<lambda>p.
       let m = (if qos > 0 then m\<lparr>mq_packet_id := mq_packet_id m + 1\<rparr> else m);
           (r, w) = pqc_client_write L (mq_tls_client m) p w
       in Ret (r > 0, Some m, w))
   | _ \<Rightarrow> Ret (False, mqtt, w))"

section \<open>Connecting\<close>

text \<open>\<^verbatim>\<open>mqtts://host:port\<close>: the host, cut to the array of 256 characters, and the port.\<close>

definition mqtt_parse_url :: "string \<Rightarrow> string \<times> u16" where
  "mqtt_parse_url url =
    (if take 8 url = ''mqtts://'' then
       let host_start = drop 8 url; before = takeWhile (\<lambda>c. c \<noteq> CHR '':'') host_start
       in if CHR '':'' \<in> set host_start
          then (take 255 before, of_int (c_atoi (drop (length before + 1) host_start)))
          else (take 255 host_start, 8883)
     else (take 255 url, 8883))"

definition mqtt_client_create ::
  "'w openssl \<Rightarrow> bool \<Rightarrow> bool \<Rightarrow> bytes \<Rightarrow> string \<Rightarrow> PQC_Config option \<Rightarrow> string option \<Rightarrow> string option \<Rightarrow> string option
    \<Rightarrow> 'w \<Rightarrow> (MQTT_Client option \<times> 'w) cexec" where
  "mqtt_client_create L alloc alloc2 pid_text broker_url config cert_file key_file ca_file w =
    (let (hostname, port) = mqtt_parse_url broker_url;
         (tls, w) = pqc_client_create L alloc hostname port config cert_file key_file ca_file w
     in if tls = None then Ret (None, w)
     else if \<not> alloc2 then Ret (None, pqc_client_destroy L tls w)
     else let mqtt = \<lparr>mq_tls_client = tls, mq_client_id = take 63 ([0x76, 0x6D, 0x67, 0x5F] @ pid_text), mq_packet_id = 1\<rparr>
     in cbind (mqtt_send_connect L mqtt w) (\<lambda>(r, w).
        if r < 0 then Ret (None, pqc_client_destroy L tls w)
        else let (r, w) = mqtt_recv_connack L mqtt w
        in if \<not> r then Ret (None, pqc_client_destroy L tls w) else Ret (Some mqtt, w)))"

definition mqtt_client_destroy :: "'w openssl \<Rightarrow> MQTT_Client option \<Rightarrow> 'w \<Rightarrow> 'w" where
  "mqtt_client_destroy L mqtt w = (case mqtt of
     None \<Rightarrow> w
   | Some m \<Rightarrow>
       let w = snd (pqc_client_write L (mq_tls_client m) [push_bit 4 MQTT_DISCONNECT, 0] w)
       in pqc_client_destroy L (mq_tls_client m) w)"

section \<open>The length field\<close>

text \<open>The decoder of the standard: seven bits a byte, the top bit tells whether there are more.\<close>

fun mqtt_decode_length :: "bytes \<Rightarrow> (nat \<times> bytes) option" where
  "mqtt_decode_length [] = None"
| "mqtt_decode_length (b # r) =
    (if b AND 0x80 = 0 then Some (unat b, r)
     else map_option (\<lambda>(n, r). (unat (b AND 0x7F) + 128 * n, r)) (mqtt_decode_length r))"

lemma length_byte:
  assumes "n < 128"
  shows "(word_of_nat n :: u8) AND 0x80 = 0" "unat (word_of_nat n :: u8) = n"
    "(word_of_nat n OR 0x80 :: u8) AND 0x80 \<noteq> 0" "unat ((word_of_nat n OR 0x80 :: u8) AND 0x7F) = n"
proof -
  have m: "bit (0x7F :: u8) i \<longleftrightarrow> i < 7" for i
    using bit_mask_iff [of 7 i, where 'a = u8] by (auto simp: mask_eq_exp_minus_1 possible_bit_word)
  have h: "bit (0x80 :: u8) i \<longleftrightarrow> i = 7" for i
    using bit_exp_iff [of 7 i, where 'a = u8] by (auto simp: possible_bit_word)
  show u: "unat (word_of_nat n :: u8) = n"
    using assms by (simp add: unat_of_nat)
  have "take_bit 7 n = n"
    using assms by (simp add: take_bit_nat_eq_self_iff)
  then have t: "bit n i \<Longrightarrow> i < 7" for i
    by (metis bit_take_bit_iff)
  have b: "bit (word_of_nat n :: u8) i \<longleftrightarrow> i < 7 \<and> bit n i" for i
    using t [of i] by (auto simp: bit_of_nat_iff possible_bit_word)
  show "(word_of_nat n :: u8) AND 0x80 = 0"
    by (rule bit_word_eqI) (simp only: m h bit_and_iff bit_or_iff b, auto)
  have "bit ((word_of_nat n OR 0x80 :: u8) AND 0x80) 7"
    by (simp only: h bit_and_iff bit_or_iff simp_thms)
  then show "(word_of_nat n OR 0x80 :: u8) AND 0x80 \<noteq> 0"
    by auto
  have "(word_of_nat n OR 0x80 :: u8) AND 0x7F = word_of_nat n"
    by (rule bit_word_eqI) (simp only: m h bit_and_iff bit_or_iff b, auto)
  then show "unat ((word_of_nat n OR 0x80 :: u8) AND 0x7F) = n"
    using u by simp
qed

lemma mqtt_decode_encode: "mqtt_decode_length (mqtt_encode_length n @ r) = Some (n, r)"
proof (induction n rule: mqtt_encode_length.induct)
  case (1 n)
  note b = length_byte [of "n mod 128"]
  show ?case
  proof (cases "n div 128 > 0")
    case True
    then show ?thesis
      using 1 b by (subst mqtt_encode_length.simps) (simp add: Let_def)
  next
    case False
    then have "n mod 128 = n"
      by simp
    then show ?thesis
      using False b by (subst mqtt_encode_length.simps) (simp add: Let_def)
  qed
qed

lemma mqtt_encode_length_size: "k > 0 \<Longrightarrow> length (mqtt_encode_length n) \<le> k \<longleftrightarrow> n < 128 ^ k"
proof (induction n arbitrary: k rule: mqtt_encode_length.induct)
  case (1 n)
  show ?case
  proof (cases "n div 128 > 0")
    case True
    obtain j where j: "k = Suc j"
      using 1(2) by (cases k) auto
    have l: "length (mqtt_encode_length n) = Suc (length (mqtt_encode_length (n div 128)))"
      using True by (subst mqtt_encode_length.simps) (simp add: Let_def)
    have p: "length (mqtt_encode_length (n div 128)) > 0"
      by (subst mqtt_encode_length.simps) (simp add: Let_def)
    show ?thesis
    proof (cases j)
      case 0
      then show ?thesis
        using l p j True by auto
    next
      case (Suc i)
      have "n div 128 < 128 ^ j \<longleftrightarrow> n < 128 ^ k"
        by (simp add: j div_less_iff_less_mult mult.commute)
      then show ?thesis
        using 1(1) [OF _ refl, of _ j] True l j Suc by (simp add: Let_def)
    qed
  next
    case False
    then have "n < 128 ^ 1"
      by auto
    also have "(128 :: nat) ^ 1 \<le> 128 ^ k"
      using 1(2) by (intro power_increasing) simp_all
    finally show ?thesis
      using False 1(2) by (subst mqtt_encode_length.simps) (simp add: Let_def)
  qed
qed

section \<open>Publishing\<close>

text \<open>What a broker reads in a PUBLISH packet: quality of service, topic, identifier and payload.\<close>

definition mqtt_read_publish :: "bytes \<Rightarrow> (u8 \<times> bytes \<times> u16 option \<times> bytes) option" where
  "mqtt_read_publish p =
    (if p = [] \<or> drop_bit 4 (hd p) \<noteq> MQTT_PUBLISH then None
     else let qos = drop_bit 1 (hd p) AND 3
     in case mqtt_decode_length (tl p) of
       Some (n, hi # lo # r) \<Rightarrow>
         let t = unat (be16_val hi lo); r' = drop t r
         in if n \<noteq> 2 + length r \<or> length r < t then None
            else if qos = 0 then Some (qos, take t r, None, r')
            else if length r' < 2 then None
            else Some (qos, take t r, Some (be16_val (r' ! 0) (r' ! 1)), drop 2 r')
     | _ \<Rightarrow> None)"

lemma qos_cases: "(q :: u8) \<le> 2 \<Longrightarrow> q = 0 \<or> q = 1 \<or> q = 2"
proof -
  assume "q \<le> 2"
  then have "unat q = 0 \<or> unat q = 1 \<or> unat q = 2"
    by (auto simp: word_le_nat_alt)
  then show ?thesis
    by (auto simp: word_eq_iff_unsigned [where 'a = nat])
qed

lemma mqtt_read_publish_packet:
  assumes "q \<le> 2" "length t < 65536"
  shows "mqtt_read_publish (mqtt_publish_packet i t p q) = Some (q, t, if q > 0 then Some i else None, p)"
proof -
  define h :: u8 where "h = push_bit 4 MQTT_PUBLISH OR push_bit 1 q"
  have h: "drop_bit 4 h = MQTT_PUBLISH" "drop_bit 1 h AND 3 = q"
    using qos_cases [OF assms(1)] by (auto simp: h_def)
  have l: "unat (word_of_nat (length t) :: u16) = length t"
    using assms(2) by (simp add: unat_of_nat)
  show ?thesis
    unfolding mqtt_publish_packet_def mqtt_read_publish_def h_def [symmetric]
    using qos_cases [OF assms(1)] h l
    by (auto simp: mqtt_decode_encode be16_def be16_val_be16 Let_def)
qed

lemma mqtt_packet_fits:
  "length (mqtt_publish_packet i t p q) \<le> 2048 \<longleftrightarrow> length t + length p + (if q > 0 then 4 else 2) \<le> 2045"
proof -
  let ?n = "2 + length t + length p + (if q > 0 then 2 else 0)"
  have "length (mqtt_publish_packet i t p q) = 1 + length (mqtt_encode_length ?n) + ?n"
    by (simp add: mqtt_publish_packet_def)
  moreover have "length (mqtt_encode_length ?n) \<le> 1 \<longleftrightarrow> ?n < 128" "length (mqtt_encode_length ?n) \<le> 2 \<longleftrightarrow> ?n < 16384"
    using mqtt_encode_length_size [of 1 ?n] mqtt_encode_length_size [of 2 ?n] by simp_all
  ultimately show ?thesis
    by (cases "?n < 128"; cases "?n < 16384") auto
qed



lemma mqtt_connect_fits: "length i \<le> 63 \<Longrightarrow> length (mqtt_connect_packet i) \<le> 256"
  using mqtt_encode_length_size [of 1 "12 + length i"] by (simp add: mqtt_connect_packet_def)

lemma mqtt_send_connect_ret:
  "length (mq_client_id m) \<le> 63 \<Longrightarrow>
    mqtt_send_connect L m w = Ret (pqc_client_write L (mq_tls_client m) (mqtt_connect_packet (mq_client_id m)) w)"
  using mqtt_connect_fits by (simp add: mqtt_send_connect_def packet_in_def not_less [symmetric])

context tls_library
begin

lemma mqtt_recv_res: "res (snd (mqtt_recv_connack L m w)) = res w"
  using client_io_keeps(2) [of "mq_tls_client m" 4 w] by (auto simp: mqtt_recv_connack_def split: option.split prod.split)

lemma mqtt_destroy_res:
  "(\<And>w2. res w2 = r1 \<Longrightarrow> res (pqc_client_destroy L (mq_tls_client m) w2) = r) \<Longrightarrow> res w = r1
    \<Longrightarrow> res (mqtt_client_destroy L (Some m) w) = r"
  using client_io_keeps(1) by (simp add: mqtt_client_destroy_def)

text \<open>The client of the MQTT layer is the one made for it; when there is none its TLS client is gone.\<close>

lemma mqtt_create_res:
  assumes "\<not> bad (res w)"
  shows "\<exists>m w1. mqtt_client_create L a a2 pid url config cert key ca w = Ret (m, w1)
    \<and> (m = None \<longrightarrow> res w1 = res w)
    \<and> (\<forall>c. m = Some c \<longrightarrow> (\<forall>w2. res w2 = res w1 \<longrightarrow> res (pqc_client_destroy L (mq_tls_client c) w2) = res w))"
proof -
  obtain h p where u: "mqtt_parse_url url = (h, p)"
    by (metis prod.exhaust)
  obtain t w1 where t: "pqc_client_create L a h p config cert key ca w = (t, w1)"
    by (metis prod.exhaust)
  let ?m = "\<lparr>mq_tls_client = t, mq_client_id = take 63 ([0x76, 0x6D, 0x67, 0x5F] @ pid), mq_packet_id = 1\<rparr>"
  obtain n w2 where s: "pqc_client_write L t (mqtt_connect_packet (mq_client_id ?m)) w1 = (n, w2)"
    by (metis prod.exhaust)
  then have m: "mqtt_send_connect L ?m w1 = Ret (n, w2)"
    by (subst mqtt_send_connect_ret) simp_all
  obtain r w3 where k: "mqtt_recv_connack L ?m w2 = (r, w3)"
    by (metis prod.exhaust)
  have r: "res w2 = res w1" "res w3 = res w1"
    using client_io_keeps(1) [of t _ w1] s mqtt_recv_res [of ?m w2] k by (metis snd_conv)+
  show ?thesis
    using client_lifecycle [OF t assms] r m k
    by (auto simp: mqtt_client_create_def u t Let_def)
qed

lemma mqtt_publish_res:
  "mqtt_publish L m t p q w = Ret (r, m', w2)
    \<Longrightarrow> res w2 = res w \<and> map_option mq_tls_client m' = map_option mq_tls_client m"
  using client_io_keeps(1)
  by (auto simp: mqtt_publish_def packet_in_def split_def Let_def split: option.splits if_splits)

end

text \<open>
  Creating the MQTT client never leaves the bounds of its packet; it either fails, having released its TLS
  connection, or yields a client whose publications leave the resources alone and whose destruction restores
  them.
\<close>

theorem mqtt_client_resources:
  assumes "tls_library L res" "\<not> bad (res w)"
  shows "\<exists>m w1. mqtt_client_create L a a2 pid url config cert key ca w = Ret (m, w1)
    \<and> (m = None \<longrightarrow> res w1 = res w)
    \<and> (\<forall>t p q r m' w2. mqtt_publish L m t p q w1 = Ret (r, m', w2) \<longrightarrow>
         res w2 = res w1 \<and> res (mqtt_client_destroy L m' w2) = res w)"
proof -
  obtain m w1 where c: "mqtt_client_create L a a2 pid url config cert key ca w = Ret (m, w1)"
    and n: "m = None \<longrightarrow> res w1 = res w"
    and d: "\<forall>c. m = Some c \<longrightarrow> (\<forall>w2. res w2 = res w1 \<longrightarrow> res (pqc_client_destroy L (mq_tls_client c) w2) = res w)"
    using tls_library.mqtt_create_res [OF assms] by metis
  have "res w2 = res w1 \<and> res (mqtt_client_destroy L m' w2) = res w"
    if "mqtt_publish L m t p q w1 = Ret (r, m', w2)" for t p q r m' w2
    using tls_library.mqtt_publish_res [OF assms(1) that] tls_library.mqtt_destroy_res [OF assms(1), of "res w1"] n d
    by (cases m; cases m') (auto simp: mqtt_client_destroy_def)
  then show ?thesis
    using c n by blast
qed

theorem mqtt_client_resources_witness:
  defines "v \<equiv> (replicate 4096 0, doip_handler, []) :: tls_session" and "none \<equiv> \<lparr>ctxs = {}, ssls = {}, socks = {}, bad = False\<rparr>"
  shows "\<exists>m w1. mqtt_client_create session_library True True [0x31] ''mqtts://vmg:8883'' (Some (PQC_CONFIGS ! 2)) None None None
      (v, none) = Ret (m, w1) \<and> (m = None \<longrightarrow> snd w1 = none)
    \<and> (\<forall>r m' w2. mqtt_publish session_library m (Some [0x74]) [] 0 w1 = Ret (r, m', w2) \<longrightarrow> snd (mqtt_client_destroy session_library m' w2) = none)"
  using mqtt_client_resources [OF session_tls.tls_library_axioms, of "(v, none)" True True "[0x31]" "''mqtts://vmg:8883''"
      "Some (PQC_CONFIGS ! 2)" None None None]
  by (auto simp: none_def simp del: split_paired_All)

section \<open>The telemetry program\<close>

text \<open>\<^verbatim>\<open>vehicle_gateway/src/mqtt_client.cpp\<close>. The speeds and charges are exact multiples of 1, printed with one decimal.\<close>

definition quoted :: "string \<Rightarrow> string" where
  "quoted s = [CHR 0x22] @ s @ [CHR 0x22]"

definition int_text :: "int \<Rightarrow> string" where
  "int_text n = (if n < 0 then CHR ''-'' # nat_text (nat (- n)) else nat_text (nat n))"

definition telemetry :: "int \<Rightarrow> nat \<Rightarrow> string" where
  "telemetry now i = take 255
    (''{'' @ quoted ''timestamp'' @ '':'' @ int_text now @ '','' @ quoted ''vehicle_id'' @ '':'' @ quoted ''VMG-001'' @ '',''
     @ quoted ''speed'' @ '':'' @ nat_text (60 + i * 5) @ ''.0,'' @ quoted ''battery'' @ '':'' @ nat_text (80 - i * 2) @ ''.0}'')"

text \<open>The clock at every turn is the argument \<open>now\<close>.\<close>

primrec telemetry_loop :: "'w openssl \<Rightarrow> (nat \<Rightarrow> int) \<Rightarrow> nat list \<Rightarrow> MQTT_Client option \<Rightarrow> 'w \<Rightarrow> (MQTT_Client option \<times> 'w) cexec" where
  "telemetry_loop L now [] mqtt w = Ret (mqtt, w)"
| "telemetry_loop L now (i # is) mqtt w =
     cbind (mqtt_publish L mqtt (Some (bytes_of ''vmg/telemetry'')) (bytes_of (telemetry (now i) i)) 1 w) (\<lambda>(r, mqtt, w).
     telemetry_loop L now is mqtt w)"

definition mqtt_main :: "'w openssl \<Rightarrow> bool \<Rightarrow> bool \<Rightarrow> bytes \<Rightarrow> (nat \<Rightarrow> int) \<Rightarrow> string list \<Rightarrow> 'w \<Rightarrow> (int \<times> 'w) cexec" where
  "mqtt_main L alloc alloc2 pid_text now args w = (case args of
     broker_url # cert # key # ca # _ \<Rightarrow>
       cbind (mqtt_client_create L alloc alloc2 pid_text (c_text broker_url) (Some (PQC_CONFIGS ! 2)) (Some (c_text cert)) (Some (c_text key))
         (Some (c_text ca)) w) (\<lambda>(mqtt, w).
       if mqtt = None then Ret (1, w)
       else cbind (telemetry_loop L now [0..<10] mqtt w) (\<lambda>(mqtt, w). Ret (0, mqtt_client_destroy L mqtt w)))
   | _ \<Rightarrow> Ret (1, w))"

lemma telemetry_publish:
  "\<exists>r w2. mqtt_publish L (Some m) (Some (bytes_of ''vmg/telemetry'')) (bytes_of (telemetry t i)) 1 w
    = Ret (r, Some (m\<lparr>mq_packet_id := mq_packet_id m + 1\<rparr>), w2)"
proof -
  have "length (telemetry t i) \<le> 255"
    by (simp add: telemetry_def)
  then have "\<not> 2048 < length (mqtt_publish_packet (mq_packet_id m) (bytes_of ''vmg/telemetry'') (bytes_of (telemetry t i)) 1)"
    using mqtt_packet_fits [of "mq_packet_id m" "bytes_of ''vmg/telemetry''" "bytes_of (telemetry t i)" 1] by simp
  then show ?thesis
    by (simp add: mqtt_publish_def packet_in_def split_def Let_def)
qed

lemma telemetry_loop_runs:
  "\<exists>w2. telemetry_loop L now is (Some m) w = Ret (Some (m\<lparr>mq_packet_id := mq_packet_id m + word_of_nat (length is)\<rparr>), w2)"
proof (induction "is" arbitrary: m w)
  case (Cons i "is")
  obtain r w2 where p: "mqtt_publish L (Some m) (Some (bytes_of ''vmg/telemetry'')) (bytes_of (telemetry (now i) i)) 1 w
      = Ret (r, Some (m\<lparr>mq_packet_id := mq_packet_id m + 1\<rparr>), w2)"
    using telemetry_publish [of L m "now i" i w] by blast
  show ?case
    using Cons [of "m\<lparr>mq_packet_id := mq_packet_id m + 1\<rparr>" w2] by (simp add: p add.assoc)
qed simp

context tls_library
begin

lemma telemetry_loop_res: "telemetry_loop L now is mqtt w = Ret (mqtt', w2) \<Longrightarrow> res w2 = res w"
proof (induction "is" arbitrary: mqtt w)
  case (Cons i "is")
  then show ?case
    by (auto simp: cbind_Ret_iff dest: mqtt_publish_res)
qed simp

end

text \<open>
  The program never leaves the bounds of a packet, whatever the library and the clock do: it ends with 0 or 1 and
  holds nothing it did not hold before.
\<close>

theorem mqtt_program:
  assumes "tls_library L res" "\<not> bad (res w)"
  shows "\<exists>code w'. mqtt_main L a a2 pid now args w = Ret (code, w') \<and> code \<in> {0, 1} \<and> res w' = res w"
proof (cases "4 \<le> length args")
  case True
  then have "Suc (Suc (Suc (Suc 0))) \<le> length args"
    by simp
  then obtain url cert key ca more where g: "args = url # cert # key # ca # more"
    by (auto simp: Suc_le_length_iff)
  obtain m w1 where c: "mqtt_client_create L a a2 pid (c_text url) (Some (PQC_CONFIGS ! 2)) (Some (c_text cert)) (Some (c_text key))
      (Some (c_text ca)) w = Ret (m, w1)"
    and n: "m = None \<longrightarrow> res w1 = res w"
    and d: "\<And>k w2. m = Some k \<Longrightarrow> res w2 = res w1 \<Longrightarrow> res (pqc_client_destroy L (mq_tls_client k) w2) = res w"
    using tls_library.mqtt_create_res [OF assms] by metis
  show ?thesis
  proof (cases m)
    case (Some k)
    obtain w2 where l: "telemetry_loop L now [0..<10] m w1 = Ret (Some (k\<lparr>mq_packet_id := mq_packet_id k + word_of_nat (length [0..<10])\<rparr>), w2)"
      using telemetry_loop_runs [of L now "[0..<10]" k w1] unfolding Some by blast
    have "res (mqtt_client_destroy L (Some (k\<lparr>mq_packet_id := mq_packet_id k + word_of_nat (length [0..<10])\<rparr>)) w2) = res w"
      by (rule tls_library.mqtt_destroy_res [OF assms(1), of "res w1"]) (use d [OF Some] tls_library.telemetry_loop_res [OF assms(1) l] in simp_all)
    then show ?thesis
      using c l Some by (simp add: mqtt_main_def g del: upt_Suc upt_rec_numeral)
  qed (use c n in \<open>simp add: mqtt_main_def g\<close>)
next
  case False
  then show ?thesis
    by (auto simp: mqtt_main_def split: list.splits)
qed

theorem mqtt_program_witness:
  "\<exists>code w'. mqtt_main session_library True True [0x31] (\<lambda>i. 1700000000 + 5 * int i) [''mqtts://broker'', ''c'', ''k'', ''a'']
    ((replicate 4096 0, doip_handler, []), no_resources) = Ret (code, w') \<and> snd w' = no_resources"
  using mqtt_program [OF session_tls.tls_library_axioms, of "((replicate 4096 0, doip_handler, []), no_resources)"]
  by (simp add: no_resources_def) blast

end
