(* ===== verification/HTTPS_Client.thy ===== *)
theory HTTPS_Client
  imports PQC_TLS C_Texts Cpp_Exceptions
begin

text \<open>
  The HTTPS client of the vehicle gateway, \<^verbatim>\<open>vehicle_gateway/src/https_client.cpp\<close>, over \<^verbatim>\<open>PQC_TLS\<close>: requests,
  responses and the program. A call that may throw also gives the world it leaves: \<open>Inl\<close> is the exception. What
  the program prints is left out.
\<close>

section \<open>The client\<close>

record HTTPSClient =
  hc_client :: "PQC_TLS_Client option"
  hc_hostname :: string
  hc_port :: u16

definition https_client ::
  "'w openssl \<Rightarrow> bool \<Rightarrow> string \<Rightarrow> u16 \<Rightarrow> PQC_Config \<Rightarrow> string \<Rightarrow> string \<Rightarrow> string \<Rightarrow> 'w \<Rightarrow> (string + HTTPSClient) \<times> 'w" where
  "https_client L alloc host p config cert key ca w =
    (let (client, w) = pqc_client_create L alloc (c_text host) p (Some config) (Some (c_text cert)) (Some (c_text key))
           (Some (c_text ca)) w
     in (if client = None then Inl ''Failed to create HTTPS client''
         else Inr \<lparr>hc_client = client, hc_hostname = host, hc_port = p\<rparr>, w))"

definition https_client_end :: "'w openssl \<Rightarrow> HTTPSClient \<Rightarrow> 'w \<Rightarrow> 'w" where
  "https_client_end L c w = (if hc_client c \<noteq> None then pqc_client_destroy L (hc_client c) w else w)"

abbreviation (input) crlf :: string where "crlf \<equiv> [CHR 0x0D, CHR 0x0A]"

definition get_request :: "string \<Rightarrow> string \<Rightarrow> string" where
  "get_request hostname path =
    ''GET '' @ path @ '' HTTP/1.1'' @ crlf @ ''Host: '' @ hostname @ crlf @ ''User-Agent: VMG/1.0'' @ crlf
    @ ''Connection: close'' @ crlf @ crlf"

definition post_request :: "string \<Rightarrow> string \<Rightarrow> string \<Rightarrow> string \<Rightarrow> string" where
  "post_request hostname path body content_type =
    ''POST '' @ path @ '' HTTP/1.1'' @ crlf @ ''Host: '' @ hostname @ crlf @ ''User-Agent: VMG/1.0'' @ crlf
    @ ''Content-Type: '' @ content_type @ crlf @ ''Content-Length: '' @ nat_text (length body) @ crlf
    @ ''Connection: close'' @ crlf @ crlf @ body"

text \<open>
  The loop over the response. A chunk is followed by a zero byte and appended as a C string; \<open>None\<close> when the
  peer never stops sending.
\<close>

partial_function (option) read_response ::
  "'w openssl \<Rightarrow> PQC_TLS_Client option \<Rightarrow> string \<Rightarrow> 'w \<Rightarrow> (string \<times> 'w) option" where
  "read_response L c response w =
    (let (b, w) = pqc_client_read L c 4095 w
     in case b of None \<Rightarrow> Some (response, w) | Some b \<Rightarrow> read_response L c (response @ c_text (text_of b)) w)"

definition send_and_read :: "'w openssl \<Rightarrow> HTTPSClient \<Rightarrow> string \<Rightarrow> 'w \<Rightarrow> ((string + string) \<times> 'w) cexec" where
  "send_and_read L c request w =
    (let (r, w) = pqc_client_write L (hc_client c) (bytes_of request) w
     in if r < 0 then Ret (Inl ''Failed to send request'', w)
        else case read_response L (hc_client c) [] w of None \<Rightarrow> Hang | Some (response, w) \<Rightarrow> Ret (Inr response, w))"

definition https_get :: "'w openssl \<Rightarrow> HTTPSClient \<Rightarrow> string \<Rightarrow> 'w \<Rightarrow> ((string + string) \<times> 'w) cexec" where
  "https_get L c path w = send_and_read L c (get_request (hc_hostname c) path) w"

definition https_post ::
  "'w openssl \<Rightarrow> HTTPSClient \<Rightarrow> string \<Rightarrow> string \<Rightarrow> string \<Rightarrow> 'w \<Rightarrow> ((string + string) \<times> 'w) cexec" where
  "https_post L c path body content_type w = send_and_read L c (post_request (hc_hostname c) path body content_type) w"

section \<open>The program\<close>

definition https_parse_url :: "string \<Rightarrow> (string \<times> u16 \<times> string) throws" where
  "https_parse_url url =
    (let url = (if take 8 url = ''https://'' then drop 8 url else url);
         (hostname, path) = (if CHR ''/'' \<in> set url
           then (takeWhile (\<lambda>c. c \<noteq> CHR ''/'') url, dropWhile (\<lambda>c. c \<noteq> CHR ''/'') url) else (url, ''/''))
     in if CHR '':'' \<in> set hostname
        then ebind (stoi (tl (dropWhile (\<lambda>c. c \<noteq> CHR '':'') hostname))) (\<lambda>p.
          ok (takeWhile (\<lambda>c. c \<noteq> CHR '':'') hostname, of_int p, path))
        else ok (hostname, 443, path))"

text \<open>The arguments after the name of the program; an exception that nothing catches is \<open>Inl\<close>.\<close>

definition https_main :: "'w openssl \<Rightarrow> bool \<Rightarrow> string list \<Rightarrow> 'w \<Rightarrow> ((string + int) \<times> 'w) cexec" where
  "https_main L alloc args w = (case args of
     url # cert # key # ca # _ \<Rightarrow>
       cbind (https_parse_url url) (\<lambda>r. case r of
         Inl e \<Rightarrow> Ret (Inl e, w)
       | Inr (hostname, port, path) \<Rightarrow>
           (case https_client L alloc hostname port (PQC_CONFIGS ! 2) cert key ca w of
              (Inl e, w) \<Rightarrow> Ret (Inr 1, w)
            | (Inr c, w) \<Rightarrow> cbind (https_get L c path w) (\<lambda>(r, w).
                Ret (Inr (case r of Inl e \<Rightarrow> 1 | Inr response \<Rightarrow> 0), https_client_end L c w))))
   | _ \<Rightarrow> Ret (Inr 1, w))"

section \<open>Responses\<close>

text \<open>What the peer sends until it stops, when that is within \<open>n\<close> chunks.\<close>

fun read_chunks :: "'w openssl \<Rightarrow> PQC_TLS_Client option \<Rightarrow> nat \<Rightarrow> 'w \<Rightarrow> (bytes list \<times> 'w) option" where
  "read_chunks L c 0 w = None"
| "read_chunks L c (Suc n) w = (case pqc_client_read L c 4095 w of
     (None, w) \<Rightarrow> Some ([], w)
   | (Some b, w) \<Rightarrow> map_option (\<lambda>(bs, w). (b # bs, w)) (read_chunks L c n w))"

lemma read_response_chunks:
  "read_chunks L c n w = Some (bs, w') \<Longrightarrow> read_response L c resp w = Some (resp @ concat (map (\<lambda>b. c_text (text_of b)) bs), w')"
proof (induction n arbitrary: w bs resp)
  case (Suc n)
  then show ?case
    by (subst read_response.simps) (auto split: prod.splits option.splits)
qed simp

lemma read_response_ends:
  assumes "read_response L c resp w = Some y"
  shows "\<exists>n bs. read_chunks L c n w = Some (bs, snd y)"
proof (rule read_response.raw_induct [OF _ assms, where P = "\<lambda>L c resp w y. \<exists>n bs. read_chunks L c n w = Some (bs, snd y)"])
  fix f L c resp w and y :: "string \<times> 'a"
  assume IH: "\<And>L c resp w y. f L c resp w = Some y \<Longrightarrow> \<exists>n bs. read_chunks L c n w = Some (bs, snd y)"
    and s: "(let (b, w) = pqc_client_read L c 4095 w
      in case b of None \<Rightarrow> Some (resp, w) | Some b \<Rightarrow> f L c (resp @ c_text (text_of b)) w) = Some y"
  obtain b w1 where b: "pqc_client_read L c 4095 w = (b, w1)"
    by fastforce
  show "\<exists>n bs. read_chunks L c n w = Some (bs, snd y)"
  proof (cases b)
    case None
    then have "read_chunks L c 1 w = Some ([], snd y)"
      using s b by auto
    then show ?thesis
      by blast
  next
    case (Some d)
    then obtain n bs where "read_chunks L c n w1 = Some (bs, snd y)"
      using s b IH [of L c "resp @ c_text (text_of d)" w1 y] by auto
    then have "read_chunks L c (Suc n) w = Some (d # bs, snd y)"
      using b Some by simp
    then show ?thesis
      by blast
  qed
qed

lemma cut_whole: "concat (map (\<lambda>b. c_text (text_of b)) bs) = text_of (concat bs) \<longleftrightarrow> 0 \<notin> set (concat bs)"
proof (induction bs)
  case (Cons b bs)
  have l: "length (concat (map (\<lambda>b. c_text (text_of b)) bs)) \<le> length (text_of (concat bs))"
  proof (induction bs)
    case (Cons d ds)
    then show ?case
      using length_c_text [of "text_of d"] by simp
  qed simp
  have "c_text (text_of b) = text_of b" if "c_text (text_of b) @ concat (map (\<lambda>b. c_text (text_of b)) bs) = text_of b @ text_of (concat bs)"
  proof -
    have "length (c_text (text_of b)) = length (text_of b)"
      using arg_cong [OF that, of length] l length_c_text [of "text_of b"] by simp
    then show ?thesis
      using that by simp
  qed
  then have "c_text (text_of b) @ concat (map (\<lambda>b. c_text (text_of b)) bs) = text_of b @ text_of (concat bs)
      \<longleftrightarrow> c_text (text_of b) = text_of b \<and> concat (map (\<lambda>b. c_text (text_of b)) bs) = text_of (concat bs)"
    by auto
  then show ?case
    using Cons.IH by (simp add: c_text_whole)
qed (simp add: text_of_def)

text \<open>
  The answer to a request that was sent. The client returns exactly when the peer stops sending, with the
  chunks that arrived, each cut at its first zero byte: the whole response exactly when it has no zero byte.
\<close>

theorem https_response:
  assumes "pqc_client_write L (hc_client c) (bytes_of (get_request (hc_hostname c) path)) w = (r, w1)" "0 \<le> r"
  shows "(https_get L c path w = Hang \<longleftrightarrow> (\<forall>n. read_chunks L (hc_client c) n w1 = None))
    \<and> (\<forall>n bs w2. read_chunks L (hc_client c) n w1 = Some (bs, w2) \<longrightarrow>
         (\<exists>t. https_get L c path w = Ret (Inr t, w2) \<and> t = concat (map (\<lambda>b. c_text (text_of b)) bs)
           \<and> (t = text_of (concat bs) \<longleftrightarrow> 0 \<notin> set (concat bs))))"
proof -
  have g: "https_get L c path w =
      (case read_response L (hc_client c) [] w1 of None \<Rightarrow> Hang | Some (response, w) \<Rightarrow> Ret (Inr response, w))"
    using assms by (simp add: https_get_def send_and_read_def)
  have "read_response L (hc_client c) [] w1 = None \<longleftrightarrow> (\<forall>n. read_chunks L (hc_client c) n w1 = None)"
  proof
    assume r: "read_response L (hc_client c) [] w1 = None"
    show "\<forall>n. read_chunks L (hc_client c) n w1 = None"
    proof
      fix n
      show "read_chunks L (hc_client c) n w1 = None"
        using r read_response_chunks [of L "hc_client c" n w1 _ _ "[]"]
        by (cases "read_chunks L (hc_client c) n w1") auto
    qed
  next
    assume "\<forall>n. read_chunks L (hc_client c) n w1 = None"
    then have "read_response L (hc_client c) [] w1 \<noteq> Some y" for y
      using read_response_ends [of L "hc_client c" "[]" w1 y] by auto
    then show "read_response L (hc_client c) [] w1 = None"
      by (cases "read_response L (hc_client c) [] w1") auto
  qed
  moreover have "\<exists>t. https_get L c path w = Ret (Inr t, w2) \<and> t = concat (map (\<lambda>b. c_text (text_of b)) bs)
      \<and> (t = text_of (concat bs) \<longleftrightarrow> 0 \<notin> set (concat bs))" if "read_chunks L (hc_client c) n w1 = Some (bs, w2)" for n bs w2
    using read_response_chunks [OF that, of "[]"] cut_whole [of bs] by (simp add: g)
  moreover have "https_get L c path w = Hang \<longleftrightarrow> read_response L (hc_client c) [] w1 = None"
    by (auto simp: g split: option.split)
  ultimately show ?thesis
    by (intro conjI allI impI) (simp, metis)
qed

text \<open>A peer that has two chunks to send, the second with a zero byte.\<close>

theorem https_response_witness:
  defines "L \<equiv> session_library\<lparr>o_write := \<lambda>_ _ n w. (n, w)\<rparr>"
    and "c \<equiv> \<lparr>hc_client = Some \<lparr>tc_ctx = Some 1, tc_ssl = Some 1, tc_fd = 1, tc_config = None\<rparr>, hc_hostname = ''ota'', hc_port = 443\<rparr>"
    and "w \<equiv> (([], doip_handler, [[0x4F, 0x4B], [0x41, 0, 0x42]]), no_resources)"
  shows "\<exists>w2. https_get L c ''/'' w = Ret (Inr ''OKA'', w2)"
proof -
  have "read_chunks L (hc_client c) 3 w = Some ([[0x4F, 0x4B], [0x41, 0, 0x42]], (([], doip_handler, []), no_resources))"
    by (simp add: L_def c_def w_def numeral_3_eq_3 pqc_client_read_def session_library_def library_read_def session_read_def)
  moreover have "concat (map (\<lambda>b. c_text (text_of b)) [[0x4F, 0x4B], [0x41, 0, 0x42]]) = ''OKA''"
    by (simp add: c_text_def text_of_def char_of_eq_iff)
  moreover have "pqc_client_write L (hc_client c) (bytes_of (get_request (hc_hostname c) ''/'')) w
      = (int (length (get_request (hc_hostname c) ''/'')), w)"
    by (simp add: L_def c_def pqc_client_write_def)
  ultimately show ?thesis
    using https_response [of L c "''/''" w] by (metis of_nat_0_le_iff)
qed

section \<open>Requests\<close>

text \<open>A reader of requests: the lines up to the empty one, and what follows.\<close>

function http_lines :: "string \<Rightarrow> (string list \<times> string) option" where
  "http_lines s =
    (let l = takeWhile (\<lambda>c. c \<noteq> CHR 0x0D) s; r = drop (length l) s
     in if take 2 r \<noteq> crlf then None
        else if l = [] then Some ([], drop 2 r)
        else map_option (\<lambda>(ls, b). (l # ls, b)) (http_lines (drop 2 r)))"
  by pat_completeness auto

termination
proof (relation "measure length")
  fix s :: string and l r
  assume "l = takeWhile (\<lambda>c. c \<noteq> CHR 0x0D) s" "r = drop (length l) s" "\<not> take 2 r \<noteq> crlf"
  then show "(drop 2 r, s) \<in> measure length"
    by (cases s) auto
qed simp

declare http_lines.simps [simp del]

definition http_read :: "string \<Rightarrow> (string \<times> string \<times> string) option" where
  "http_read s = (case http_lines s of
     Some (request # headers, b) \<Rightarrow>
       let m = takeWhile (\<lambda>c. c \<noteq> CHR '' '') request;
           p = takeWhile (\<lambda>c. c \<noteq> CHR '' '') (drop (Suc (length m)) request);
           n = (case find (\<lambda>h. take 16 h = ''Content-Length: '') headers of None \<Rightarrow> 0 | Some h \<Rightarrow> digits_value (drop 16 h))
       in if length b < n then None else Some (m, p, take n b)
   | _ \<Rightarrow> None)"

lemma http_lines_step:
  assumes "CHR 0x0D \<notin> set l"
  shows "http_lines (l @ CHR 0x0D # CHR 0x0A # s) = (if l = [] then Some ([], s) else map_option (\<lambda>(ls, b). (l # ls, b)) (http_lines s))"
proof -
  have "takeWhile (\<lambda>c. c \<noteq> CHR 0x0D) (l @ CHR 0x0D # CHR 0x0A # s) = l"
    using assms by (subst takeWhile_append2) auto
  then show ?thesis
    by (subst http_lines.simps) (simp add: Let_def)
qed

text \<open>
  The requests are what a server expects. It reads the method, the path and the body from them, for any
  body, when host, path and content type are without line ends and the path without spaces.
\<close>

theorem https_requests_read:
  assumes "CHR 0x0D \<notin> set h" "CHR 0x0D \<notin> set p" "CHR '' '' \<notin> set p" "CHR 0x0D \<notin> set t"
  shows "http_read (get_request h p) = Some (''GET'', p, []) \<and> http_read (post_request h p b t) = Some (''POST'', p, b)"
proof -
  note step = http_lines_step [unfolded append_assoc]
  have n: "CHR 0x0D \<notin> set (nat_text (length b))"
    using nat_text_digits [of "CHR 0x0D" "length b"] by (auto simp: is_digit_def)
  have s: "takeWhile (\<lambda>c. c \<noteq> CHR '' '') (p @ CHR '' '' # r) = p" for r
    using assms(3) by (subst takeWhile_append2) auto
  have e: "http_lines (CHR 0x0D # CHR 0x0A # r) = Some ([], r)" for r
    using http_lines_step [of "[]" r] by simp
  have l: "http_lines (get_request h p) = Some ([''GET '' @ p @ '' HTTP/1.1'', ''Host: '' @ h, ''User-Agent: VMG/1.0'', ''Connection: close''], [])"
    unfolding get_request_def
    using http_lines_step [of "''GET '' @ p @ '' HTTP/1.1''"] http_lines_step [of "''Host: '' @ h"]
      http_lines_step [of "''User-Agent: VMG/1.0''"] http_lines_step [of "''Connection: close''"] assms e
    by simp
  have l': "http_lines (post_request h p b t) = Some ([''POST '' @ p @ '' HTTP/1.1'', ''Host: '' @ h, ''User-Agent: VMG/1.0'',
      ''Content-Type: '' @ t, ''Content-Length: '' @ nat_text (length b), ''Connection: close''], b)"
    unfolding post_request_def
    using http_lines_step [of "''POST '' @ p @ '' HTTP/1.1''"] http_lines_step [of "''Host: '' @ h"]
      http_lines_step [of "''User-Agent: VMG/1.0''"] http_lines_step [of "''Connection: close''"]
      http_lines_step [of "''Content-Type: '' @ t"] http_lines_step [of "''Content-Length: '' @ nat_text (length b)"] assms n e
    by simp
  show ?thesis
    unfolding http_read_def l l' using s by (simp add: Let_def)
qed

theorem https_requests_read_witness:
  "http_read (get_request ''ota'' ''/v1'') = Some (''GET'', ''/v1'', [])
    \<and> http_read (post_request ''ota'' ''/v1'' [CHR 0x0D, CHR 0x0A, CHR 0x0D, CHR 0x0A] ''text/plain'') = Some (''POST'', ''/v1'', [CHR 0x0D, CHR 0x0A, CHR 0x0D, CHR 0x0A])"
  by (rule https_requests_read) simp_all

section \<open>Resources\<close>

context tls_library
begin

lemma read_response_res:
  assumes "read_response L c resp w = Some y"
  shows "res (snd y) = res w"
proof -
  obtain n bs where "read_chunks L c n w = Some (bs, snd y)"
    using read_response_ends [OF assms] by blast
  then show ?thesis
  proof (induction n arbitrary: w bs)
    case (Suc n)
    then show ?case
      using client_io_keeps(2) [of c 4095 w] by (auto split: prod.splits option.splits)
  qed simp
qed

lemma https_get_res: "https_get L c path w = Ret (r, w') \<Longrightarrow> res w' = res w"
  using client_io_keeps(1) [of "hc_client c" "bytes_of (get_request (hc_hostname c) path)" w]
  by (auto simp: https_get_def send_and_read_def Let_def split: prod.splits if_splits option.splits dest: read_response_res)

end

text \<open>
  However the program ends, it holds nothing it did not hold at its start; it ends by an exception exactly when
  the port of the address cannot be read.
\<close>

theorem https_main_resources:
  assumes "tls_library L res" "\<not> bad (res w)" "https_main L alloc args w = Ret (r, w')"
  shows "res w' = res w \<and> (\<forall>e. r = Inl e \<longleftrightarrow> 4 \<le> length args \<and> https_parse_url (hd args) = throw e)"
proof (cases "4 \<le> length args")
  case True
  then have "Suc (Suc (Suc (Suc 0))) \<le> length args"
    by simp
  then obtain url cert key ca more where a: "args = url # cert # key # ca # more"
    by (auto simp: Suc_le_length_iff)
  obtain u where u: "https_parse_url url = Ret u"
    using assms(3) by (cases "https_parse_url url") (auto simp: https_main_def a)
  show ?thesis
  proof (cases u)
    case (Inl e)
    then show ?thesis
      using assms(3) u by (auto simp: https_main_def a throw_def)
  next
    case (Inr v)
    obtain h port p where v: "v = (h, port, p)"
      by (cases v)
    obtain t w1 where t: "pqc_client_create L alloc (c_text h) port (Some (PQC_CONFIGS ! 2)) (Some (c_text cert)) (Some (c_text key))
        (Some (c_text ca)) w = (t, w1)"
      by fastforce
    note life = tls_library.client_lifecycle [OF assms(1) t assms(2)]
    show ?thesis
    proof (cases t)
      case None
      then show ?thesis
        using assms(3) u Inr v t life(1) by (auto simp: https_main_def a https_client_def throw_def)
    next
      case (Some c)
      let ?c = "\<lparr>hc_client = t, hc_hostname = h, hc_port = port\<rparr>"
      obtain q w2 where g: "https_get L ?c p w1 = Ret (q, w2)"
        using assms(3) u Inr v t Some by (cases "https_get L ?c p w1") (auto simp: https_main_def a https_client_def)
      then have "res w2 = res w1"
        by (rule tls_library.https_get_res [OF assms(1)])
      then show ?thesis
        using assms(3) u Inr v t Some g life(3) by (auto simp: https_main_def a https_client_def https_client_end_def throw_def split: sum.splits)
    qed
  qed
next
  case False
  then show ?thesis
    using assms(3) by (auto simp: https_main_def split: list.splits)
qed

theorem https_main_resources_witness:
  defines "w \<equiv> ((replicate 4096 0, doip_handler, []), no_resources)"
  shows "\<exists>w'. https_main session_library True [''https://ota:8443/v1'', ''c'', ''k'', ''a''] w = Ret (Inr 0, w') \<and> snd w' = no_resources"
proof -
  let ?t = "\<lparr>tc_ctx = Some 1, tc_ssl = Some 1, tc_fd = 1, tc_config = Some (PQC_CONFIGS ! 2)\<rparr>"
  let ?r = "\<lparr>ctxs = {1}, ssls = {1}, socks = {1}, bad = False\<rparr>"
  let ?c = "\<lparr>hc_client = Some ?t, hc_hostname = ''ota'', hc_port = 8443\<rparr>"
  have u: "https_parse_url ''https://ota:8443/v1'' = ok (''ota'', 8443, ''/v1'')"
    by (simp add: https_parse_url_def stoi_def scan_space_def is_digit_def digits_value_def)
  have t: "pqc_client_create session_library True (c_text ''ota'') 8443 (Some (PQC_CONFIGS ! 2)) (Some (c_text ''c'')) (Some (c_text ''k''))
      (Some (c_text ''a'')) w = (Some ?t, ((replicate 4096 0, doip_handler, []), ?r))"
    by (simp add: w_def no_resources_def pqc_client_create_def session_library_def pqc_configure_ssl_ctx_def pqc_load_certificates_def
        with_file_def connect_to_host_def new_handle_def)
  let ?d = "bytes_of (get_request ''ota'' ''/v1'')"
  have d: "length ?d \<le> 4096" "length ?d < 8 \<or> ?d ! 0 \<noteq> 0x02"
    by (simp_all add: get_request_def bytes_of_def)
  have "read_response session_library (Some ?t) [] ((tls_buffer_after ?d (replicate 4096 0), doip_handler, []), ?r)
      = Some ([], ((tls_buffer_after ?d (replicate 4096 0), doip_handler, []), ?r))"
    by (subst read_response.simps) (simp add: pqc_client_read_def session_library_def library_read_def session_read_def)
  then have "https_get session_library ?c ''/v1'' ((replicate 4096 0, doip_handler, []), ?r)
      = Ret (Inr [], ((tls_buffer_after ?d (replicate 4096 0), doip_handler, []), ?r))"
    using session_ignored [OF _ d, of "replicate 4096 0" doip_handler "[]"]
    by (simp add: https_get_def send_and_read_def pqc_client_write_def session_library_def library_write_def)
  then have "\<exists>w'. https_main session_library True [''https://ota:8443/v1'', ''c'', ''k'', ''a''] w = Ret (Inr 0, w')"
    by (simp add: https_main_def u t https_client_def ok_def)
  then show ?thesis
    using https_main_resources [OF session_tls.tls_library_axioms, of w] by (auto simp: w_def no_resources_def)
qed

end
