(* ===== verification/HSM_Integration.thy ===== *)
theory HSM_Integration
  imports C_Prelude
begin

text \<open>
  The hardware security module of the TC375 behind mbedTLS,
  \<^verbatim>\<open>vehicle_gateway/common/tc375_hsm_integration.c\<close> and the table of its driver functions in
  \<^verbatim>\<open>mbedtls_hsm_config.h\<close>. A driver function that is not registered is \<open>None\<close>; one that is takes the buffer it
  writes and gives its new contents, over a state \<open>'w\<close> of the device. Numbers and points of the library are of
  types \<open>'n\<close> and \<open>'p\<close>. Log output and the statistics, which nothing counts, are left out.
\<close>

section \<open>The driver\<close>

record 'w tc375_hsm =
  hs_aes_encrypt :: "(bytes \<Rightarrow> bytes \<Rightarrow> nat \<Rightarrow> 'w \<Rightarrow> int \<times> bytes \<times> 'w) option"
  hs_aes_decrypt :: "(bytes \<Rightarrow> bytes \<Rightarrow> nat \<Rightarrow> 'w \<Rightarrow> int \<times> bytes \<times> 'w) option"
  hs_sha256 :: "(bytes \<Rightarrow> nat \<Rightarrow> bytes \<Rightarrow> 'w \<Rightarrow> int \<times> bytes \<times> 'w) option"
  hs_ecdsa_sign :: "(bytes \<Rightarrow> bytes \<Rightarrow> size_t \<Rightarrow> 'w \<Rightarrow> int \<times> bytes \<times> size_t \<times> 'w) option"
  hs_ecdsa_verify :: "(bytes \<Rightarrow> bytes \<Rightarrow> size_t \<Rightarrow> 'w \<Rightarrow> int \<times> 'w) option"
  hs_random :: "(bytes \<Rightarrow> nat \<Rightarrow> 'w \<Rightarrow> int \<times> bytes \<times> 'w) option"

definition no_hsm :: "'w tc375_hsm" where
  "no_hsm = \<lparr>hs_aes_encrypt = None, hs_aes_decrypt = None, hs_sha256 = None, hs_ecdsa_sign = None,
     hs_ecdsa_verify = None, hs_random = None\<rparr>"

text \<open>The results: what a driver returned, or the named errors of the library.\<close>

datatype hsm_result = Device int | MBEDTLS_ERR_AES_INVALID_KEY_LENGTH | MBEDTLS_ERR_AES_HW_ACCEL_FAILED
  | MBEDTLS_ERR_SHA256_HW_ACCEL_FAILED | MBEDTLS_ERR_ECP_HW_ACCEL_FAILED | MBEDTLS_ERR_ENTROPY_SOURCE_FAILED

section \<open>AES\<close>

record mbedtls_aes_context =
  aes_nr :: nat

definition mbedtls_aes_init :: "mbedtls_aes_context \<Rightarrow> mbedtls_aes_context" where
  "mbedtls_aes_init ctx = ctx\<lparr>aes_nr := 0\<rparr>"

definition mbedtls_aes_setkey_enc :: "mbedtls_aes_context \<Rightarrow> bytes \<Rightarrow> u32 \<Rightarrow> hsm_result \<times> mbedtls_aes_context" where
  "mbedtls_aes_setkey_enc ctx key keybits =
    (if keybits \<noteq> 128 \<and> keybits \<noteq> 192 \<and> keybits \<noteq> 256 then (MBEDTLS_ERR_AES_INVALID_KEY_LENGTH, ctx)
     else (Device 0, ctx\<lparr>aes_nr := unat (drop_bit 5 keybits + 6)\<rparr>))"

text \<open>The decryption is called without a test of its pointer.\<close>

definition mbedtls_aes_crypt_ecb ::
  "'w tc375_hsm \<Rightarrow> mbedtls_aes_context \<Rightarrow> bool \<Rightarrow> bytes \<Rightarrow> bytes \<Rightarrow> 'w \<Rightarrow> (hsm_result \<times> bytes \<times> 'w) cexec" where
  "mbedtls_aes_crypt_ecb H ctx encrypt input output w = (case hs_aes_encrypt H of
     None \<Rightarrow> Ret (MBEDTLS_ERR_AES_HW_ACCEL_FAILED, output, w)
   | Some e \<Rightarrow>
       if encrypt then let (r, out, w) = e input output 16 w in Ret (Device r, out, w)
       else cbind (deref (hs_aes_decrypt H)) (\<lambda>d. let (r, out, w) = d input output 16 w in Ret (Device r, out, w)))"

definition mbedtls_aes_free :: "mbedtls_aes_context option \<Rightarrow> mbedtls_aes_context option" where
  "mbedtls_aes_free ctx = map_option (\<lambda>c. c\<lparr>aes_nr := 0\<rparr>) ctx"

section \<open>SHA-256\<close>

record mbedtls_sha256_context =
  sha_is224 :: int

definition mbedtls_sha256_init :: "mbedtls_sha256_context \<Rightarrow> mbedtls_sha256_context" where
  "mbedtls_sha256_init ctx = ctx\<lparr>sha_is224 := 0\<rparr>"

definition mbedtls_sha256_starts :: "mbedtls_sha256_context \<Rightarrow> int \<Rightarrow> hsm_result \<times> mbedtls_sha256_context" where
  "mbedtls_sha256_starts ctx is224 = (Device 0, ctx\<lparr>sha_is224 := is224\<rparr>)"

definition mbedtls_sha256_update :: "mbedtls_sha256_context \<Rightarrow> bytes \<Rightarrow> hsm_result \<times> mbedtls_sha256_context" where
  "mbedtls_sha256_update ctx input = (Device 0, ctx)"

definition mbedtls_sha256_finish ::
  "'w tc375_hsm \<Rightarrow> mbedtls_sha256_context \<Rightarrow> bytes \<Rightarrow> hsm_result \<times> bytes \<times> mbedtls_sha256_context" where
  "mbedtls_sha256_finish H ctx output =
    (if hs_sha256 H = None then (MBEDTLS_ERR_SHA256_HW_ACCEL_FAILED, output, ctx) else (Device 0, output, ctx))"

definition mbedtls_sha256_free :: "mbedtls_sha256_context option \<Rightarrow> mbedtls_sha256_context option" where
  "mbedtls_sha256_free ctx = map_option (\<lambda>c. c\<lparr>sha_is224 := 0\<rparr>) ctx"

definition mbedtls_sha256 :: "'w tc375_hsm \<Rightarrow> bytes \<Rightarrow> bytes \<Rightarrow> int \<Rightarrow> 'w \<Rightarrow> hsm_result \<times> bytes \<times> 'w" where
  "mbedtls_sha256 H input output is224 w = (case hs_sha256 H of
     None \<Rightarrow> (MBEDTLS_ERR_SHA256_HW_ACCEL_FAILED, output, w)
   | Some h \<Rightarrow> let (r, out, w) = h input (length input) output w in (Device r, out, w))"

section \<open>Elliptic curves\<close>

text \<open>The point \<open>R\<close> of the result stays what it was.\<close>

definition mbedtls_ecp_mul :: "'p \<Rightarrow> 'n \<Rightarrow> 'p \<Rightarrow> hsm_result \<times> 'p" where
  "mbedtls_ecp_mul R m P = (Device 0, R)"

text \<open>The numbers \<open>r\<close> and \<open>s\<close> are outputs. The local signature and its length start as \<open>sig\<close> and \<open>sig_len\<close>.\<close>

definition mbedtls_ecdsa_sign ::
  "'w tc375_hsm \<Rightarrow> bytes \<Rightarrow> size_t \<Rightarrow> 'n \<Rightarrow> 'n \<Rightarrow> 'n \<Rightarrow> bytes \<Rightarrow> 'w \<Rightarrow> hsm_result \<times> ('n \<times> 'n) \<times> 'w" where
  "mbedtls_ecdsa_sign H sig sig_len r s d buf w = (case hs_ecdsa_sign H of
     None \<Rightarrow> (MBEDTLS_ERR_ECP_HW_ACCEL_FAILED, (r, s), w)
   | Some f \<Rightarrow>
       let (ret, sig, sig_len, w) = f buf sig sig_len w
       in if ret \<noteq> 0 then (Device ret, (r, s), w) else (Device 0, (r, s), w))"

definition mbedtls_ecdsa_verify ::
  "'w tc375_hsm \<Rightarrow> bytes \<Rightarrow> size_t \<Rightarrow> bytes \<Rightarrow> 'p \<Rightarrow> 'n \<Rightarrow> 'n \<Rightarrow> 'w \<Rightarrow> hsm_result \<times> 'w" where
  "mbedtls_ecdsa_verify H sig sig_len buf Q r s w = (case hs_ecdsa_verify H of
     None \<Rightarrow> (MBEDTLS_ERR_ECP_HW_ACCEL_FAILED, w)
   | Some f \<Rightarrow> let (ret, w) = f buf sig sig_len w in (Device ret, w))"

section \<open>Random numbers, start and end\<close>

definition mbedtls_hardware_poll ::
  "'w tc375_hsm \<Rightarrow> bytes \<Rightarrow> nat \<Rightarrow> nat \<Rightarrow> 'w \<Rightarrow> hsm_result \<times> bytes \<times> nat \<times> 'w" where
  "mbedtls_hardware_poll H output len olen w = (case hs_random H of
     None \<Rightarrow> (MBEDTLS_ERR_ENTROPY_SOURCE_FAILED, output, olen, w)
   | Some f \<Rightarrow> let (ret, out, w) = f output len w in (Device ret, out, if ret = 0 then len else olen, w))"

text \<open>The registration of the drivers is a comment.\<close>

definition tc375_hsm_init :: "'w tc375_hsm \<Rightarrow> int \<times> 'w tc375_hsm" where
  "tc375_hsm_init H = (0, H)"

definition tc375_hsm_free :: "'w tc375_hsm \<Rightarrow> 'w tc375_hsm" where
  "tc375_hsm_free H = no_hsm"

section \<open>Properties\<close>

text \<open>Calls that change the table of driver functions.\<close>

datatype hsm_call = HsmInit | HsmFree

fun hsm_run :: "hsm_call list \<Rightarrow> 'w tc375_hsm \<Rightarrow> 'w tc375_hsm" where
  "hsm_run [] H = H"
| "hsm_run (HsmInit # cs) H = hsm_run cs (snd (tc375_hsm_init H))"
| "hsm_run (HsmFree # cs) H = hsm_run cs (tc375_hsm_free H)"

lemma hsm_stays_empty: "hsm_run cs no_hsm = no_hsm"
proof (induction cs)
  case (Cons c cs)
  then show ?case
    by (cases c) (simp_all add: tc375_hsm_init_def tc375_hsm_free_def)
qed simp

text \<open>
  Whatever calls of initialisation and release are made from the start of the program, the module serves
  nothing: every operation of it fails with its error and leaves outputs and device alone.
\<close>

theorem hsm_never_available:
  fixes w :: 'w and calls :: "hsm_call list"
  defines "H \<equiv> hsm_run calls (no_hsm :: 'w tc375_hsm)"
  shows "mbedtls_aes_crypt_ecb H ctx e input output w = Ret (MBEDTLS_ERR_AES_HW_ACCEL_FAILED, output, w)
    \<and> mbedtls_sha256 H input output is224 w = (MBEDTLS_ERR_SHA256_HW_ACCEL_FAILED, output, w)
    \<and> mbedtls_ecdsa_sign H sig n r s d input w = (MBEDTLS_ERR_ECP_HW_ACCEL_FAILED, (r, s), w)
    \<and> mbedtls_ecdsa_verify H sig n input Q r s w = (MBEDTLS_ERR_ECP_HW_ACCEL_FAILED, w)
    \<and> mbedtls_hardware_poll H output len olen w = (MBEDTLS_ERR_ENTROPY_SOURCE_FAILED, output, olen, w)"
  unfolding H_def hsm_stays_empty
  by (simp add: no_hsm_def mbedtls_aes_crypt_ecb_def mbedtls_sha256_def mbedtls_ecdsa_sign_def mbedtls_ecdsa_verify_def
      mbedtls_hardware_poll_def)

text \<open>A hash computed in pieces: the output is what it was, also with a registered driver.\<close>

fun sha256_updates :: "mbedtls_sha256_context \<Rightarrow> bytes list \<Rightarrow> mbedtls_sha256_context" where
  "sha256_updates ctx [] = ctx"
| "sha256_updates ctx (d # ds) = sha256_updates (snd (mbedtls_sha256_update ctx d)) ds"

definition sha256_stream :: "'w tc375_hsm \<Rightarrow> mbedtls_sha256_context \<Rightarrow> bytes list \<Rightarrow> bytes \<Rightarrow> hsm_result \<times> bytes" where
  "sha256_stream H ctx ds output =
    (let ctx = sha256_updates (snd (mbedtls_sha256_starts (mbedtls_sha256_init ctx) 0)) ds; (r, out, ctx) = mbedtls_sha256_finish H ctx output
     in (r, out))"

lemma sha256_updates_id [simp]: "sha256_updates ctx ds = ctx"
  by (induction ds) (simp_all add: mbedtls_sha256_update_def)

lemma hsm_hash_collides:
  assumes "hs_sha256 H \<noteq> None"
  shows "sha256_stream H ctx ds output = (Device 0, output)"
  using assms by (simp add: sha256_stream_def mbedtls_sha256_finish_def Let_def)

lemma hsm_verify_ignores_signature:
  "mbedtls_ecdsa_verify H sig n buf Q r s w = mbedtls_ecdsa_verify H sig n buf Q' r' s' w"
  by (simp add: mbedtls_ecdsa_verify_def)

text \<open>The number of rounds is the one of the standard for the three key sizes; no other size is taken.\<close>

lemma aes_rounds:
  "mbedtls_aes_setkey_enc ctx key bits = (Device 0, ctx') \<longleftrightarrow>
    (bits = 128 \<and> ctx' = ctx\<lparr>aes_nr := 10\<rparr> \<or> bits = 192 \<and> ctx' = ctx\<lparr>aes_nr := 12\<rparr> \<or> bits = 256 \<and> ctx' = ctx\<lparr>aes_nr := 14\<rparr>)"
  by (auto simp: mbedtls_aes_setkey_enc_def)

text \<open>Decryption goes through a null pointer exactly when only the encryption is registered.\<close>

lemma aes_decrypt_faults:
  "mbedtls_aes_crypt_ecb H ctx False input output w = Fault \<longleftrightarrow> hs_aes_encrypt H \<noteq> None \<and> hs_aes_decrypt H = None"
  by (cases "hs_aes_decrypt H") (auto simp: mbedtls_aes_crypt_ecb_def split: option.split prod.split)

end
