(* ===== verification/Sim_TLS.thy ===== *)
theory Sim_TLS
  imports PQC_Client C_Texts
begin

text \<open>
  The TLS client of the simulated device, \<^verbatim>\<open>tc375_simulator/src/tls_client.cpp\<close>, over the OpenSSL
  calls of \<^verbatim>\<open>PQC_Client\<close> and the few more it makes. The error callback is the list of the texts it was
  called with.
\<close>

section \<open>The client\<close>

text \<open>
  The calls this client makes besides: the lowest version, whether the peer is verified, the addresses of a
  host and a port number, the error of the last call, and which errors ask to try again.
\<close>

record 'w tls_calls =
  t_init :: "'w \<Rightarrow> 'w"
  t_min_proto :: "nat \<Rightarrow> u16 \<Rightarrow> 'w \<Rightarrow> 'w"
  t_verify :: "nat \<Rightarrow> bool \<Rightarrow> 'w \<Rightarrow> 'w"
  t_getaddrinfo :: "string \<Rightarrow> int \<Rightarrow> 'w \<Rightarrow> nat list option \<times> 'w"
  t_error :: "nat \<Rightarrow> 'w \<Rightarrow> nat \<times> 'w"
  t_retry :: "nat \<Rightarrow> bool"

record TlsClient =
  tl_host :: string
  tl_port :: int
  tl_socket_fd :: int
  tl_connected :: bool
  tl_ctx :: "nat option"
  tl_ssl :: "nat option"
  tl_verify_peer :: bool
  tl_ca_cert_path :: string
  tl_client_cert_path :: string
  tl_client_key_path :: string
  tl_errors :: "string list"

definition tls_client :: "string \<Rightarrow> int \<Rightarrow> TlsClient" where
  "tls_client host port =
    \<lparr>tl_host = host, tl_port = port, tl_socket_fd = -1, tl_connected = False, tl_ctx = None, tl_ssl = None, tl_verify_peer = False,
     tl_ca_cert_path = [], tl_client_cert_path = [], tl_client_key_path = [], tl_errors = []\<rparr>"

definition tl_handle_error :: "string \<Rightarrow> TlsClient \<Rightarrow> TlsClient" where
  "tl_handle_error e c = c\<lparr>tl_errors := tl_errors c @ [e]\<rparr>"

definition tl_init_ssl :: "'w openssl \<Rightarrow> 'w tls_calls \<Rightarrow> TlsClient \<Rightarrow> 'w \<Rightarrow> bool \<times> TlsClient \<times> 'w" where
  "tl_init_ssl L T c w =
    (let (ctx, w) = o_ctx_new L (t_init T w); c = c\<lparr>tl_ctx := ctx\<rparr>
     in case ctx of
       None \<Rightarrow> (False, tl_handle_error ''Failed to create SSL context'' c, w)
     | Some x \<Rightarrow>
         let w = t_min_proto T x TLS1_3_VERSION w;
             (r, w) = (if tl_verify_peer c \<and> tl_ca_cert_path c \<noteq> [] then o_load_verify L x (c_text (tl_ca_cert_path c)) w else (1, w))
         in if r \<noteq> 1 then (False, tl_handle_error ''Failed to load CA certificate'' c, w)
         else let w = t_verify T x (tl_verify_peer c) w
         in if tl_client_cert_path c = [] \<or> tl_client_key_path c = [] then (True, c, w)
         else let (r, w) = o_use_cert L x (c_text (tl_client_cert_path c)) w
         in if r \<noteq> 1 then (False, tl_handle_error ''Failed to load client certificate'' c, w)
         else let (r, w) = o_use_key L x (c_text (tl_client_key_path c)) w
         in if r \<noteq> 1 then (False, tl_handle_error ''Failed to load client private key'' c, w)
         else (True, c, w))"

definition tl_cleanup_ssl :: "'w openssl \<Rightarrow> TlsClient \<Rightarrow> 'w \<Rightarrow> TlsClient \<times> 'w" where
  "tl_cleanup_ssl L c w =
    (let w = (case tl_ssl c of None \<Rightarrow> w | Some s \<Rightarrow> o_ssl_free L s (o_shutdown L s w)); c = c\<lparr>tl_ssl := None\<rparr>;
         w = (case tl_ctx c of None \<Rightarrow> w | Some x \<Rightarrow> o_ctx_free L x w)
     in (c\<lparr>tl_ctx := None\<rparr>, w))"

text \<open>Only the first address is tried.\<close>

definition tl_create_socket :: "'w openssl \<Rightarrow> 'w tls_calls \<Rightarrow> TlsClient \<Rightarrow> 'w \<Rightarrow> (bool \<times> TlsClient \<times> 'w) cexec" where
  "tl_create_socket L T c w =
    (let (result, w) = t_getaddrinfo T (c_text (tl_host c)) (tl_port c) w
     in case result of
       None \<Rightarrow> Ret (False, tl_handle_error ''Failed to resolve hostname'' c, w)
     | Some [] \<Rightarrow> Fault
     | Some (a # _) \<Rightarrow>
         let (fd, w) = o_socket L a w; c = c\<lparr>tl_socket_fd := fd\<rparr>
         in if fd < 0 then Ret (False, tl_handle_error ''Failed to create socket'' c, o_freeaddrinfo L w)
         else let (r, w) = o_connect L fd a w
         in if r < 0 then
              let w = o_freeaddrinfo L (o_close L fd w)
              in Ret (False, tl_handle_error ''Failed to connect to server'' (c\<lparr>tl_socket_fd := -1\<rparr>), w)
            else Ret (True, c, o_freeaddrinfo L w))"

text \<open>The end of \<^verbatim>\<open>connect\<close>, from the connection object on.\<close>

definition tl_secure :: "'w openssl \<Rightarrow> 'w tls_calls \<Rightarrow> TlsClient \<Rightarrow> 'w \<Rightarrow> (bool \<times> TlsClient \<times> 'w) cexec" where
  "tl_secure L T c w =
    cbind (deref (tl_ctx c)) (\<lambda>x.
    let (ssl, w) = o_ssl_new L x w; c = c\<lparr>tl_ssl := ssl\<rparr>
    in case ssl of
      None \<Rightarrow>
        let w = o_close L (tl_socket_fd c) w;
            (c, w) = tl_cleanup_ssl L ((tl_handle_error ''Failed to create SSL object'' c)\<lparr>tl_socket_fd := -1\<rparr>) w
        in Ret (False, c, w)
    | Some s \<Rightarrow>
        let (r, w) = o_ssl_connect L s (o_set_fd L s (tl_socket_fd c) w)
        in if r \<noteq> 1 then
             let (e, w) = t_error T s w;
                 (c, w) = tl_cleanup_ssl L (tl_handle_error (''TLS handshake failed: '' @ nat_text e) c) w
             in Ret (False, c\<lparr>tl_socket_fd := -1\<rparr>, o_close L (tl_socket_fd c) w)
           else Ret (True, c\<lparr>tl_connected := True\<rparr>, w))"

definition tl_connect :: "'w openssl \<Rightarrow> 'w tls_calls \<Rightarrow> TlsClient \<Rightarrow> 'w \<Rightarrow> (bool \<times> TlsClient \<times> 'w) cexec" where
  "tl_connect L T c w =
    (if tl_connected c then Ret (True, c, w)
     else let (r, c, w) = tl_init_ssl L T c w
     in if \<not> r then Ret (False, c, w)
     else cbind (tl_create_socket L T c w) (\<lambda>(r, c, w).
       if \<not> r then let (c, w) = tl_cleanup_ssl L c w in Ret (False, c, w)
       else tl_secure L T c w))"

definition tl_disconnect :: "'w openssl \<Rightarrow> TlsClient \<Rightarrow> 'w \<Rightarrow> TlsClient \<times> 'w" where
  "tl_disconnect L c w =
    (if \<not> tl_connected c then (c, w)
     else let (c, w) = tl_cleanup_ssl L c w;
              (c, w) = (if tl_socket_fd c \<ge> 0 then (c\<lparr>tl_socket_fd := -1\<rparr>, o_close L (tl_socket_fd c) w) else (c, w))
     in (c\<lparr>tl_connected := False\<rparr>, w))"

definition tl_send :: "'w openssl \<Rightarrow> 'w tls_calls \<Rightarrow> TlsClient \<Rightarrow> string \<Rightarrow> 'w \<Rightarrow> bool \<times> TlsClient \<times> 'w" where
  "tl_send L T c data w =
    (case (tl_connected c, tl_ssl c) of
       (True, Some s) \<Rightarrow>
         let (r, w) = o_write L s (bytes_of data) (int (length data)) w
         in if r \<le> 0 then let (e, w) = t_error T s w in (False, tl_handle_error (''Failed to send data: '' @ nat_text e) c, w)
            else (True, c, w)
     | _ \<Rightarrow> (False, tl_handle_error ''Not connected'' c, w))"

text \<open>
  The array has \<open>max_len\<close> bytes, one of which is for the final zero; for 0 the number of bytes asked for
  wraps.
\<close>

definition tl_receive :: "'w openssl \<Rightarrow> 'w tls_calls \<Rightarrow> TlsClient \<Rightarrow> nat \<Rightarrow> 'w \<Rightarrow> (string \<times> TlsClient \<times> 'w) cexec" where
  "tl_receive L T c max_len w =
    (case (tl_connected c, tl_ssl c) of
       (True, Some s) \<Rightarrow>
         if max_len = 0 then Fault
         else let (d, w) = o_read L s (max_len - 1) w
         in (case d of
               None \<Rightarrow> let (e, w) = t_error T s w
                 in Ret ([], if t_retry T e then c else tl_handle_error (''Failed to receive data: '' @ nat_text e) c, w)
             | Some d \<Rightarrow> Ret (text_of d, c, w))
     | _ \<Rightarrow> Ret ([], tl_handle_error ''Not connected'' c, w))"

definition tl_set_client_cert_path :: "string \<Rightarrow> string \<Rightarrow> TlsClient \<Rightarrow> TlsClient" where
  "tl_set_client_cert_path cert key c = c\<lparr>tl_client_cert_path := cert, tl_client_key_path := key\<rparr>"

section \<open>Resources\<close>

text \<open>Uses of a client after it was made.\<close>

datatype tl_op = TlConnect | TlDisconnect | TlSend string | TlReceive nat | TlVerify bool | TlCA string | TlCert string string

fun tl_step :: "'w openssl \<Rightarrow> 'w tls_calls \<Rightarrow> tl_op \<Rightarrow> TlsClient \<times> 'w \<Rightarrow> (TlsClient \<times> 'w) cexec" where
  "tl_step L T TlConnect (c, w) = cbind (tl_connect L T c w) (\<lambda>(r, s). Ret s)"
| "tl_step L T TlDisconnect (c, w) = Ret (tl_disconnect L c w)"
| "tl_step L T (TlSend d) (c, w) = Ret (snd (tl_send L T c d w))"
| "tl_step L T (TlReceive n) (c, w) = cbind (tl_receive L T c n w) (\<lambda>(r, s). Ret s)"
| "tl_step L T (TlVerify v) (c, w) = Ret (c\<lparr>tl_verify_peer := v\<rparr>, w)"
| "tl_step L T (TlCA p) (c, w) = Ret (c\<lparr>tl_ca_cert_path := p\<rparr>, w)"
| "tl_step L T (TlCert p k) (c, w) = Ret (tl_set_client_cert_path p k c, w)"

text \<open>
  A run, with the number of calls of \<^verbatim>\<open>connect\<close> that failed in \<^verbatim>\<open>initSSL\<close> after the context was made: they
  return false and leave it in the client.
\<close>

fun tl_run :: "'w openssl \<Rightarrow> 'w tls_calls \<Rightarrow> tl_op list \<Rightarrow> nat \<times> TlsClient \<times> 'w \<Rightarrow> (nat \<times> TlsClient \<times> 'w) cexec" where
  "tl_run L T [] s = Ret s"
| "tl_run L T (a # as) (n, c, w) = cbind (tl_step L T a (c, w)) (\<lambda>(c', w').
     tl_run L T as (if a = TlConnect \<and> \<not> tl_connected c' \<and> tl_ctx c' \<noteq> None then Suc n else n, c', w'))"

text \<open>
  What a client holds besides \<open>r\<close>: \<open>n\<close> contexts it has lost, and a context, a connection and a descriptor of
  its own exactly when it is connected.
\<close>

definition tl_holds :: "tls_resources \<Rightarrow> nat \<Rightarrow> TlsClient \<Rightarrow> tls_resources \<Rightarrow> bool" where
  "tl_holds r n c q \<longleftrightarrow> (\<exists>C. finite C \<and> card C = n \<and> C \<inter> ctxs r = {} \<and>
     (if tl_connected c
      then \<exists>x s. tl_ctx c = Some x \<and> tl_ssl c = Some s \<and> 0 \<le> tl_socket_fd c
        \<and> x \<notin> ctxs r \<union> C \<and> s \<notin> ssls r \<and> tl_socket_fd c \<notin> socks r
        \<and> q = r\<lparr>ctxs := insert x (ctxs r \<union> C), ssls := insert s (ssls r), socks := insert (tl_socket_fd c) (socks r)\<rparr>
      else tl_ssl c = None \<and> q = r\<lparr>ctxs := ctxs r \<union> C\<rparr>))"

text \<open>What the further calls promise: they hold no resource, and a resolved host has an address.\<close>

locale simulator_tls = tls_library +
  fixes T :: "'a tls_calls"
  assumes keeps_extra: "res (t_init T w) = res w" "res (t_min_proto T x v w) = res w" "res (t_verify T x b w) = res w"
      "res (snd (t_getaddrinfo T h p w)) = res w" "res (snd (t_error T s w)) = res w"
    and addresses: "fst (t_getaddrinfo T h p w) \<noteq> Some []"
begin

lemma tl_init_res:
  assumes "tl_init_ssl L T c w = (g, c', w')"
  shows "\<exists>ctx. c' = c\<lparr>tl_ctx := ctx, tl_errors := tl_errors c'\<rparr> \<and> (case ctx of
      None \<Rightarrow> \<not> g \<and> res w' = res w
    | Some x \<Rightarrow> x \<notin> ctxs (res w) \<and> res w' = (res w)\<lparr>ctxs := insert x (ctxs (res w))\<rparr>)"
proof -
  obtain ctx w1 where n: "o_ctx_new L (t_init T w) = (ctx, w1)"
    by fastforce
  show ?thesis
  proof (cases ctx)
    case None
    then show ?thesis
      using assms n ctx_new_none [of "t_init T w" w1] by (auto simp: tl_init_ssl_def tl_handle_error_def keeps_extra)
  next
    case (Some x)
    then have x: "x \<notin> ctxs (res w)" "res w1 = (res w)\<lparr>ctxs := insert x (ctxs (res w))\<rparr>"
      using n ctx_new [of "t_init T w" x w1] by (simp_all add: keeps_extra)
    have "c' = c\<lparr>tl_ctx := ctx, tl_errors := tl_errors c'\<rparr> \<and> res w' = res w1"
      using assms n Some
      by (auto simp: tl_init_ssl_def tl_handle_error_def Let_def split_def keeps_extra keeps_files keeps_config split: if_splits)
    then show ?thesis
      using x Some by auto
  qed
qed

lemma tl_cleanup_res:
  assumes "tl_cleanup_ssl L c w = (c', w')" "tl_ctx c = Some x"
  shows "c' = c\<lparr>tl_ssl := None, tl_ctx := None\<rparr>"
    "tl_ssl c = None \<Longrightarrow> res w' = (res w)\<lparr>ctxs := ctxs (res w) - {x}, bad := (bad (res w) \<or> x \<notin> ctxs (res w))\<rparr>"
    "tl_ssl c = Some s \<Longrightarrow> res w' = (res w)\<lparr>ctxs := ctxs (res w) - {x}, ssls := ssls (res w) - {s},
       bad := (bad (res w) \<or> s \<notin> ssls (res w) \<or> x \<notin> ctxs (res w))\<rparr>"
  using assms by (auto simp: tl_cleanup_ssl_def Let_def ctx_free ssl_free keeps_ssl)

lemma tl_create_socket_res:
  assumes "\<not> bad (res w)"
  obtains fd g e w' where "tl_create_socket L T c w = Ret (g, c\<lparr>tl_socket_fd := fd, tl_errors := e\<rparr>, w')"
    "if g then 0 \<le> fd \<and> fd \<notin> socks (res w) \<and> res w' = (res w)\<lparr>socks := insert fd (socks (res w))\<rparr> else res w' = res w"
proof -
  obtain as w1 where d: "t_getaddrinfo T (c_text (tl_host c)) (tl_port c) w = (as, w1)"
    by fastforce
  have w1: "res w1 = res w"
    using keeps_extra(4) [of "c_text (tl_host c)" "tl_port c" w] d by simp
  show ?thesis
  proof (cases as)
    case None
    show ?thesis
      by (rule that [where g = False and fd = "tl_socket_fd c" and e = "tl_errors c @ [''Failed to resolve hostname'']" and w' = w1])
        (simp_all add: tl_create_socket_def d None tl_handle_error_def w1)
  next
    case (Some l)
    then obtain a more where l: "l = a # more"
      using addresses [of "c_text (tl_host c)" "tl_port c" w] d by (cases l) auto
    obtain fd w2 where k: "o_socket L a w1 = (fd, w2)"
      by fastforce
    show ?thesis
    proof (cases "fd < 0")
      case True
      then show ?thesis
        using that [where g = False and fd = fd and e = "tl_errors c @ [''Failed to create socket'']" and w' = "o_freeaddrinfo L w2"] socket_fails [OF k]
        by (simp add: tl_create_socket_def d Some l k tl_handle_error_def w1 keeps_net)
    next
      case False
      then have w2: "fd \<notin> socks (res w)" "res w2 = (res w)\<lparr>socks := insert fd (socks (res w))\<rparr>"
        using socket [OF k] by (simp_all add: w1)
      obtain r w3 where r: "o_connect L fd a w2 = (r, w3)"
        by fastforce
      have w3: "res w3 = res w2"
        using keeps_net(3) [of fd a w2] r by simp
      show ?thesis
      proof (cases "r < 0")
        case True
        have "res (o_freeaddrinfo L (o_close L fd w3)) = res w"
          using w2 w3 assms by (simp add: close keeps_net)
        then show ?thesis
          using that [where g = False and fd = "-1" and e = "tl_errors c @ [''Failed to connect to server'']" and w' = "o_freeaddrinfo L (o_close L fd w3)"] True False
          by (simp add: tl_create_socket_def d Some l k r tl_handle_error_def)
      next
        case F: False
        show ?thesis
          by (rule that [where g = True and fd = fd and e = "tl_errors c" and w' = "o_freeaddrinfo L w3"])
            (use False F w2 w3 in \<open>simp_all add: tl_create_socket_def d Some l k r keeps_net\<close>)
      qed
    qed
  qed
qed

end

lemma tl_holds_settings [simp]:
  "tl_holds r n (c\<lparr>tl_verify_peer := v\<rparr>) q = tl_holds r n c q" "tl_holds r n (c\<lparr>tl_ca_cert_path := p\<rparr>) q = tl_holds r n c q"
  "tl_holds r n (tl_set_client_cert_path p k c) q = tl_holds r n c q" "tl_holds r n (tl_handle_error e c) q = tl_holds r n c q"
  by (simp_all add: tl_holds_def tl_set_client_cert_path_def tl_handle_error_def)

lemma tl_holds_count:
  assumes "tl_holds r n c q" "\<not> bad r"
  shows "\<not> bad q \<and> card (socks q - socks r) = (if tl_connected c then 1 else 0) \<and> card (ssls q - ssls r) = (if tl_connected c then 1 else 0)
    \<and> card (ctxs q - ctxs r) = n + (if tl_connected c then 1 else 0)"
proof -
  obtain C where C: "finite C" "card C = n" "C \<inter> ctxs r = {}"
    and c: "if tl_connected c
      then \<exists>x s. tl_ctx c = Some x \<and> tl_ssl c = Some s \<and> 0 \<le> tl_socket_fd c
        \<and> x \<notin> ctxs r \<union> C \<and> s \<notin> ssls r \<and> tl_socket_fd c \<notin> socks r
        \<and> q = r\<lparr>ctxs := insert x (ctxs r \<union> C), ssls := insert s (ssls r), socks := insert (tl_socket_fd c) (socks r)\<rparr>
      else tl_ssl c = None \<and> q = r\<lparr>ctxs := ctxs r \<union> C\<rparr>"
    using assms(1) unfolding tl_holds_def by blast
  have "ctxs r \<union> C - ctxs r = C"
    using C(3) by auto
  then show ?thesis
    using C c assms(2) by (auto simp: insert_Diff_if split: if_splits)
qed

context simulator_tls
begin

lemma tl_cleanup_back:
  assumes "tl_ctx c = Some x" "tl_ssl c = None" "ctxs (res w) = insert x A" "x \<notin> A"
  obtains w' where "tl_cleanup_ssl L c w = (c\<lparr>tl_ssl := None, tl_ctx := None\<rparr>, w')" "res w' = (res w)\<lparr>ctxs := A\<rparr>"
proof -
  obtain c' w' where u: "tl_cleanup_ssl L c w = (c', w')"
    by fastforce
  show ?thesis
    using that tl_cleanup_res [OF u assms(1)] u assms(2-4) by (simp add: insert_Diff_if)
qed

lemma tl_secure_res:
  assumes c: "tl_ctx c = Some x" "tl_ssl c = None" "\<not> tl_connected c" "tl_socket_fd c = fd" and "\<not> bad r"
    and new: "x \<notin> A" "fd \<notin> socks r" "res w = r\<lparr>ctxs := insert x A, socks := insert fd (socks r)\<rparr>"
  obtains g c' w' where "tl_secure L T c w = Ret (g, c', w')" "g \<longleftrightarrow> tl_connected c'"
    "if g then tl_ctx c' = Some x \<and> tl_socket_fd c' = fd \<and> (\<exists>s. tl_ssl c' = Some s \<and> s \<notin> ssls r
          \<and> res w' = r\<lparr>ctxs := insert x A, ssls := insert s (ssls r), socks := insert fd (socks r)\<rparr>)
      else tl_ctx c' = None \<and> tl_ssl c' = None \<and> res w' = r\<lparr>ctxs := A\<rparr>"
proof -
  obtain ssl w1 where n: "o_ssl_new L x w = (ssl, w1)"
    by fastforce
  show ?thesis
  proof (cases ssl)
    case None
    let ?c = "(tl_handle_error ''Failed to create SSL object'' (c\<lparr>tl_ssl := None\<rparr>))\<lparr>tl_socket_fd := -1\<rparr>"
    have w2: "res (o_close L fd w1) = r\<lparr>ctxs := insert x A\<rparr>"
      using ssl_new_none [of x w w1] n None new assms(5) by (simp add: close)
    obtain w3 where "tl_cleanup_ssl L ?c (o_close L fd w1) = (?c\<lparr>tl_ssl := None, tl_ctx := None\<rparr>, w3)" "res w3 = r\<lparr>ctxs := A\<rparr>"
      using tl_cleanup_back [of ?c x "o_close L fd w1" A] c new(1) w2 by (auto simp: tl_handle_error_def)
    then show ?thesis
      using that [of False "?c\<lparr>tl_ssl := None, tl_ctx := None\<rparr>" w3] n None c by (simp add: tl_secure_def tl_handle_error_def)
  next
    case s: (Some s)
    have w1: "s \<notin> ssls r" "res w1 = r\<lparr>ctxs := insert x A, ssls := insert s (ssls r), socks := insert fd (socks r)\<rparr>"
      using ssl_new [of x w s w1] n s new by simp_all
    obtain h w2 where h: "o_ssl_connect L s (o_set_fd L s fd w1) = (h, w2)"
      by fastforce
    have w2: "res w2 = res w1"
      using keeps_ssl(3) [of s "o_set_fd L s fd w1"] h by (simp add: keeps_ssl(1))
    show ?thesis
    proof (cases "h = 1")
      case True
      then show ?thesis
        using that [of True "c\<lparr>tl_ssl := Some s, tl_connected := True\<rparr>" w2] n s h c w1 w2 by (simp add: tl_secure_def)
    next
      case False
      obtain err w3 where e: "t_error T s w2 = (err, w3)"
        by fastforce
      have w3: "res w3 = res w1"
        using keeps_extra(5) [of s w2] e w2 by simp
      let ?c = "tl_handle_error (''TLS handshake failed: '' @ nat_text err) (c\<lparr>tl_ssl := Some s\<rparr>)"
      obtain c' w4 where u: "tl_cleanup_ssl L ?c w3 = (c', w4)"
        by fastforce
      have c': "tl_ctx ?c = Some x" "tl_ssl ?c = Some s"
        using c by (simp_all add: tl_handle_error_def)
      have w4: "c' = ?c\<lparr>tl_ssl := None, tl_ctx := None\<rparr>" "res w4 = r\<lparr>ctxs := A, socks := insert fd (socks r)\<rparr>"
        using tl_cleanup_res(1,3) [OF u c'(1)] c'(2) w3 w1 new(1) assms(5) by (simp_all add: insert_Diff_if)
      have "res (o_close L fd w4) = r\<lparr>ctxs := A\<rparr>"
        using w4(2) new(2) assms(5) by (simp add: close)
      then show ?thesis
        using that [of False "c'\<lparr>tl_socket_fd := -1\<rparr>" "o_close L fd w4"] n s h False e u w4(1) c by (simp add: tl_secure_def tl_handle_error_def)
    qed
  qed
qed

lemma tl_connect_holds:
  assumes "tl_holds r n c (res w)" "\<not> bad r"
  shows "\<exists>g c' w'. tl_connect L T c w = Ret (g, c', w') \<and> (g \<longleftrightarrow> tl_connected c')
    \<and> tl_holds r (if \<not> tl_connected c' \<and> tl_ctx c' \<noteq> None then Suc n else n) c' (res w')"
proof (cases "tl_connected c")
  case False
  obtain C where C: "finite C" "card C = n" "C \<inter> ctxs r = {}" "tl_ssl c = None" "res w = r\<lparr>ctxs := ctxs r \<union> C\<rparr>"
    using assms(1) False by (auto simp: tl_holds_def)
  have idle: "tl_holds r n c' (res w')" if "\<not> tl_connected c'" "tl_ssl c' = None" "res w' = res w" for c' w'
    using that C by (auto simp: tl_holds_def)
  obtain g1 c1 w1 where i: "tl_init_ssl L T c w = (g1, c1, w1)"
    by (metis prod.exhaust)
  obtain ctx where c1: "c1 = c\<lparr>tl_ctx := ctx, tl_errors := tl_errors c1\<rparr>"
    and ctx: "case ctx of None \<Rightarrow> \<not> g1 \<and> res w1 = res w
      | Some x \<Rightarrow> x \<notin> ctxs (res w) \<and> res w1 = (res w)\<lparr>ctxs := insert x (ctxs (res w))\<rparr>"
    using tl_init_res [OF i] by blast
  have s1: "\<not> tl_connected c1" "tl_ssl c1 = None" "tl_ctx c1 = ctx"
    by (subst c1, simp add: False C(4))+
  show ?thesis
  proof (cases ctx)
    case None
    then show ?thesis
      using ctx False i s1 idle [of c1 w1] by (auto simp: tl_connect_def)
  next
    case (Some x)
    then have x: "x \<notin> ctxs r \<union> C" "res w1 = r\<lparr>ctxs := insert x (ctxs r \<union> C)\<rparr>"
      using ctx C(5) by simp_all
    have lost: "tl_holds r (Suc n) c1 (res w1)"
      unfolding tl_holds_def using s1 x C by (intro exI [of _ "insert x C"]) auto
    have "\<not> bad (res w1)"
      using x assms(2) by simp
    then obtain fd g2 e w2 where k: "tl_create_socket L T c1 w1 = Ret (g2, c1\<lparr>tl_socket_fd := fd, tl_errors := e\<rparr>, w2)"
      and w2: "if g2 then 0 \<le> fd \<and> fd \<notin> socks (res w1) \<and> res w2 = (res w1)\<lparr>socks := insert fd (socks (res w1))\<rparr> else res w2 = res w1"
      by (rule tl_create_socket_res)
    let ?c2 = "c1\<lparr>tl_socket_fd := fd, tl_errors := e\<rparr>"
    consider "\<not> g1" | "g1" "\<not> g2" | "g1" "g2"
      by blast
    then show ?thesis
    proof cases
      case 1
      then show ?thesis
        using False i s1 Some lost by (auto simp: tl_connect_def)
    next
      case 2
      obtain w' where w': "tl_cleanup_ssl L ?c2 w2 = (?c2\<lparr>tl_ssl := None, tl_ctx := None\<rparr>, w')" "res w' = (res w2)\<lparr>ctxs := ctxs r \<union> C\<rparr>"
        by (rule tl_cleanup_back [of ?c2 x w2 "ctxs r \<union> C"]) (use s1 Some w2 2 x in auto)
      then have "tl_holds r n (?c2\<lparr>tl_ssl := None, tl_ctx := None\<rparr>) (res w')"
        using s1 w2 2 x(2) C(5) by (intro idle) simp_all
      then show ?thesis
        using False i k 2 w'(1) s1 by (auto simp: tl_connect_def)
    next
      case 3
      then have fd: "0 \<le> fd" "fd \<notin> socks r" "res w2 = r\<lparr>ctxs := insert x (ctxs r \<union> C), socks := insert fd (socks r)\<rparr>"
        using w2 x(2) by simp_all
      obtain g c' w' where sec: "tl_secure L T ?c2 w2 = Ret (g, c', w')" "g \<longleftrightarrow> tl_connected c'"
        "if g then tl_ctx c' = Some x \<and> tl_socket_fd c' = fd \<and> (\<exists>s. tl_ssl c' = Some s \<and> s \<notin> ssls r
            \<and> res w' = r\<lparr>ctxs := insert x (ctxs r \<union> C), ssls := insert s (ssls r), socks := insert fd (socks r)\<rparr>)
          else tl_ctx c' = None \<and> tl_ssl c' = None \<and> res w' = r\<lparr>ctxs := ctxs r \<union> C\<rparr>"
        by (rule tl_secure_res [of ?c2 x fd r "ctxs r \<union> C" w2]) (use s1 Some assms(2) x(1) fd in simp_all)
      then have "tl_holds r n c' (res w')"
        unfolding tl_holds_def using C fd x(1) by (intro exI [of _ C]) (auto split: if_splits)
      then show ?thesis
        using False i k 3 sec by (auto simp: tl_connect_def)
    qed
  qed
qed (use assms in \<open>auto simp: tl_connect_def\<close>)

lemma tl_disconnect_holds:
  assumes "tl_holds r n c (res w)" "\<not> bad r"
  shows "\<not> tl_connected (fst (tl_disconnect L c w)) \<and> tl_holds r n (fst (tl_disconnect L c w)) (res (snd (tl_disconnect L c w)))"
proof (cases "tl_connected c")
  case True
  then obtain C x s where C: "finite C" "card C = n" "C \<inter> ctxs r = {}" and c: "tl_ctx c = Some x" "tl_ssl c = Some s" "0 \<le> tl_socket_fd c"
    and x: "x \<notin> ctxs r \<union> C" "s \<notin> ssls r" "tl_socket_fd c \<notin> socks r"
    and w: "res w = r\<lparr>ctxs := insert x (ctxs r \<union> C), ssls := insert s (ssls r), socks := insert (tl_socket_fd c) (socks r)\<rparr>"
    using assms(1) by (auto simp: tl_holds_def)
  obtain c' w' where u: "tl_cleanup_ssl L c w = (c', w')"
    by fastforce
  have "c' = c\<lparr>tl_ssl := None, tl_ctx := None\<rparr>" "res w' = r\<lparr>ctxs := ctxs r \<union> C, socks := insert (tl_socket_fd c) (socks r)\<rparr>"
    using tl_cleanup_res(1,3) [OF u c(1)] c(2) w x assms(2) by (simp_all add: insert_Diff_if)
  then have "\<not> tl_connected (fst (tl_disconnect L c w)) \<and> tl_ssl (fst (tl_disconnect L c w)) = None
      \<and> res (snd (tl_disconnect L c w)) = r\<lparr>ctxs := ctxs r \<union> C\<rparr>"
    using True u c(3) x(3) assms(2) by (simp add: tl_disconnect_def close)
  then show ?thesis
    using C by (auto simp: tl_holds_def)
qed (use assms in \<open>simp add: tl_disconnect_def\<close>)

lemma tl_send_holds:
  "tl_connected (fst (snd (tl_send L T c d w))) = tl_connected c \<and> tl_holds r n (fst (snd (tl_send L T c d w))) (res (snd (snd (tl_send L T c d w))))
    = tl_holds r n c (res w)"
  by (auto simp: tl_send_def tl_handle_error_def Let_def split_def keeps_ssl keeps_extra tl_holds_def split: option.split bool.split)

lemma tl_receive_holds:
  "m \<noteq> 0 \<Longrightarrow> \<exists>t c' w'. tl_receive L T c m w = Ret (t, c', w') \<and> tl_connected c' = tl_connected c
    \<and> tl_holds r n c' (res w') = tl_holds r n c (res w)"
  by (auto simp: tl_receive_def tl_handle_error_def Let_def split_def keeps_ssl keeps_extra tl_holds_def split: option.split bool.split)

lemma tl_run_holds:
  assumes "TlReceive 0 \<notin> set ops" "tl_holds r n c (res w)" "\<not> bad r"
  shows "\<exists>n' c' w'. tl_run L T ops (n, c, w) = Ret (n', c', w') \<and> tl_holds r n' c' (res w')"
  using assms(1,2)
proof (induction ops arbitrary: n c w)
  case (Cons a ops)
  have "\<exists>c' w'. tl_step L T a (c, w) = Ret (c', w')
      \<and> tl_holds r (if a = TlConnect \<and> \<not> tl_connected c' \<and> tl_ctx c' \<noteq> None then Suc n else n) c' (res w')"
  proof (cases a)
    case TlConnect
    then show ?thesis
      using tl_connect_holds [OF Cons.prems(2) assms(3)] by fastforce
  next
    case TlDisconnect
    then show ?thesis
      using tl_disconnect_holds [OF Cons.prems(2) assms(3)] by (cases "tl_disconnect L c w") simp
  next
    case (TlSend d)
    then show ?thesis
      using tl_send_holds [of c d w r n] Cons.prems(2) by (cases "tl_send L T c d w") auto
  next
    case (TlReceive m)
    then show ?thesis
      using tl_receive_holds [of m c w r n] Cons.prems by fastforce
  qed (use Cons.prems(2) in simp_all)
  then show ?case
    using Cons.IH Cons.prems(1) by fastforce
qed simp

end

text \<open>
  The client leaks. After any uses of a new client, with the descriptors and connections it holds exactly
  when connected, it also holds one context for every call of \<^verbatim>\<open>connect\<close> that could not load its
  certificates, and the destructor does not release them.
\<close>

theorem simulator_tls_leaks:
  assumes "simulator_tls L res T" "\<not> bad (res w)" "TlReceive 0 \<notin> set ops"
  shows "\<exists>n c w'. tl_run L T ops (0, tls_client h p, w) = Ret (n, c, w') \<and> \<not> bad (res w')
    \<and> card (socks (res w') - socks (res w)) = (if tl_connected c then 1 else 0)
    \<and> card (ssls (res w') - ssls (res w)) = (if tl_connected c then 1 else 0)
    \<and> card (ctxs (res w') - ctxs (res w)) = n + (if tl_connected c then 1 else 0)
    \<and> card (ctxs (res (snd (tl_disconnect L c w'))) - ctxs (res w)) = n"
proof -
  have "tl_holds (res w) 0 (tls_client h p) (res w)"
    unfolding tl_holds_def by (intro exI [of _ "{}"]) (simp add: tls_client_def)
  then obtain n c w' where r: "tl_run L T ops (0, tls_client h p, w) = Ret (n, c, w')" "tl_holds (res w) n c (res w')"
    using simulator_tls.tl_run_holds [OF assms(1,3) _ assms(2)] by blast
  have "tl_holds (res w) n (fst (tl_disconnect L c w')) (res (snd (tl_disconnect L c w')))"
    "\<not> tl_connected (fst (tl_disconnect L c w'))"
    using simulator_tls.tl_disconnect_holds [OF assms(1) r(2) assms(2)] by simp_all
  then show ?thesis
    using r tl_holds_count [OF r(2) assms(2)] tl_holds_count [OF _ assms(2)] by fastforce
qed

section \<open>A library without the certificate\<close>

definition session_calls :: "(tls_session \<times> tls_resources) tls_calls" where
  "session_calls = \<lparr>t_init = (\<lambda>w. w), t_min_proto = (\<lambda>_ _ w. w), t_verify = (\<lambda>_ _ w. w),
     t_getaddrinfo = (\<lambda>_ _ w. (Some [0], w)), t_error = (\<lambda>_ w. (1, w)), t_retry = (\<lambda>e. e \<in> {2, 3})\<rparr>"

interpretation simulator: simulator_tls session_library snd session_calls
  by unfold_locales (simp_all add: session_calls_def)

definition no_ca_library :: "(tls_session \<times> tls_resources) openssl" where
  "no_ca_library = session_library\<lparr>o_load_verify := \<lambda>_ _ w. (0, w)\<rparr>"

interpretation no_ca: simulator_tls no_ca_library snd session_calls
  using simulator.simulator_tls_axioms
  by (simp add: no_ca_library_def simulator_tls_def tls_library_def)

theorem simulator_tls_leaks_witness:
  defines "w \<equiv> ((replicate 4096 0, doip_handler, []), no_resources)"
  shows "\<exists>c w'. tl_run no_ca_library session_calls [TlVerify True, TlCA ''ca.pem'', TlConnect, TlConnect]
      (0, tls_client ''vmg'' 8765, w) = Ret (2, c, w')
    \<and> card (ctxs (snd (snd (tl_disconnect no_ca_library c w')))) = 2"
proof -
  let ?run = "tl_run no_ca_library session_calls [TlVerify True, TlCA ''ca.pem'', TlConnect, TlConnect] (0, tls_client ''vmg'' 8765, w)"
  have "\<exists>c w'. ?run = Ret (2, c, w')"
    by (simp add: w_def no_resources_def tls_client_def tl_connect_def tl_init_ssl_def no_ca_library_def session_library_def session_calls_def
        new_handle_def tl_handle_error_def numeral_2_eq_2)
  then show ?thesis
    using simulator_tls_leaks [OF no_ca.simulator_tls_axioms, of w "[TlVerify True, TlCA ''ca.pem'', TlConnect, TlConnect]" "''vmg''" 8765]
    by (auto simp: w_def no_resources_def)
qed

end
