(* ===== verification/Unified_Message.thy ===== *)
theory Unified_Message
  imports JSON_Interface
begin

text \<open>
  The message format of the vehicle gateway towards the server and the ECUs,
  \<^verbatim>\<open>vehicle_gateway/include/unified_message.hpp\<close>: the message class, its conversion to and from JSON,
  identifiers and time stamps, and the builder. The JSON library is the interface \<^verbatim>\<open>json_library\<close>.
\<close>

section \<open>Data\<close>

text \<open>An \<^verbatim>\<open>enum class\<close> field is an integer, because a field without an initialiser may hold any value.\<close>

type_synonym EntityType = int

abbreviation EntityType_VMG :: EntityType where "EntityType_VMG \<equiv> 0"
abbreviation EntityType_SERVER :: EntityType where "EntityType_SERVER \<equiv> 1"
abbreviation EntityType_ECU :: EntityType where "EntityType_ECU \<equiv> 2"

datatype MessageType =
  DEVICE_REGISTRATION | DEVICE_REGISTRATION_ACK | HEARTBEAT | SENSOR_DATA | STATUS_REPORT
| WAKEUP | WAKEUP_ACK | REQUEST_VCI | VCI_REPORT | REQUEST_READINESS | READINESS_RESPONSE
| OTA_DOWNLOAD_PROGRESS | OTA_UPDATE_RESULT
| COMMAND_ACK | ERROR

record MessageEntity =
  me_entity :: EntityType
  me_identifier :: string

record 'j MessageMetadata =
  md_protocol_version :: string
  md_encryption :: string
  md_signature :: 'j
  md_extra :: 'j

record 'j UnifiedMessage =
  um_message_type :: MessageType
  um_message_id :: string
  um_correlation_id :: string
  um_timestamp :: string
  um_source :: MessageEntity
  um_target :: MessageEntity
  um_payload :: 'j
  um_metadata :: "'j MessageMetadata"

text \<open>
  What the constructor finds in its surroundings: the draws of the two random distributions, the clock
  in milliseconds since 1970, and what is in the memory of the two entity fields.
\<close>

record surroundings =
  draw :: "nat \<Rightarrow> nat"
  draw2 :: nat
  clock_ms :: nat
  raw_source :: EntityType
  raw_target :: EntityType

section \<open>Names of types\<close>

definition entity_type_to_string :: "EntityType \<Rightarrow> string" where
  "entity_type_to_string t =
    (if t = EntityType_VMG then ''VMG'' else if t = EntityType_SERVER then ''SERVER''
     else if t = EntityType_ECU then ''ECU'' else ''UNKNOWN'')"

fun message_type_to_string :: "MessageType \<Rightarrow> string" where
  "message_type_to_string DEVICE_REGISTRATION = ''DEVICE_REGISTRATION''"
| "message_type_to_string DEVICE_REGISTRATION_ACK = ''DEVICE_REGISTRATION_ACK''"
| "message_type_to_string HEARTBEAT = ''HEARTBEAT''"
| "message_type_to_string SENSOR_DATA = ''SENSOR_DATA''"
| "message_type_to_string STATUS_REPORT = ''STATUS_REPORT''"
| "message_type_to_string WAKEUP = ''WAKEUP''"
| "message_type_to_string WAKEUP_ACK = ''WAKEUP_ACK''"
| "message_type_to_string REQUEST_VCI = ''REQUEST_VCI''"
| "message_type_to_string VCI_REPORT = ''VCI_REPORT''"
| "message_type_to_string REQUEST_READINESS = ''REQUEST_READINESS''"
| "message_type_to_string READINESS_RESPONSE = ''READINESS_RESPONSE''"
| "message_type_to_string OTA_DOWNLOAD_PROGRESS = ''OTA_DOWNLOAD_PROGRESS''"
| "message_type_to_string OTA_UPDATE_RESULT = ''OTA_UPDATE_RESULT''"
| "message_type_to_string COMMAND_ACK = ''COMMAND_ACK''"
| "message_type_to_string ERROR = ''ERROR''"

definition string_to_message_type :: "string \<Rightarrow> MessageType" where
  "string_to_message_type s =
    (if s = ''DEVICE_REGISTRATION'' then DEVICE_REGISTRATION
     else if s = ''DEVICE_REGISTRATION_ACK'' then DEVICE_REGISTRATION_ACK
     else if s = ''HEARTBEAT'' then HEARTBEAT
     else if s = ''SENSOR_DATA'' then SENSOR_DATA
     else if s = ''STATUS_REPORT'' then STATUS_REPORT
     else if s = ''WAKEUP'' then WAKEUP
     else if s = ''WAKEUP_ACK'' then WAKEUP_ACK
     else if s = ''REQUEST_VCI'' then REQUEST_VCI
     else if s = ''VCI_REPORT'' then VCI_REPORT
     else if s = ''REQUEST_READINESS'' then REQUEST_READINESS
     else if s = ''READINESS_RESPONSE'' then READINESS_RESPONSE
     else if s = ''OTA_DOWNLOAD_PROGRESS'' then OTA_DOWNLOAD_PROGRESS
     else if s = ''OTA_UPDATE_RESULT'' then OTA_UPDATE_RESULT
     else if s = ''COMMAND_ACK'' then COMMAND_ACK
     else if s = ''ERROR'' then ERROR
     else ERROR)"

lemma string_to_message_type_inverse [simp]: "string_to_message_type (message_type_to_string t) = t"
  by (cases t) (simp_all add: string_to_message_type_def)

section \<open>Identifiers\<close>

text \<open>One digit, as \<^verbatim>\<open>std::hex\<close> prints a number below 16.\<close>

definition uuid_digit :: "nat \<Rightarrow> char" where
  "uuid_digit n = ''0123456789abcdef'' ! n"

definition generate_uuid :: "(nat \<Rightarrow> nat) \<Rightarrow> nat \<Rightarrow> string" where
  "generate_uuid d d2 =
     map (\<lambda>i. uuid_digit (d i)) [0..<8] @ ''-'' @
     map (\<lambda>i. uuid_digit (d i)) [8..<12] @ ''-4'' @
     map (\<lambda>i. uuid_digit (d i)) [12..<15] @ ''-'' @
     [uuid_digit d2] @
     map (\<lambda>i. uuid_digit (d i)) [15..<18] @ ''-'' @
     map (\<lambda>i. uuid_digit (d i)) [18..<30]"

section \<open>Time stamps\<close>

record calendar_time =
  tm_year :: nat
  tm_mon :: nat
  tm_mday :: nat
  tm_hour :: nat
  tm_min :: nat
  tm_sec :: nat

definition leap_year :: "nat \<Rightarrow> bool" where
  "leap_year y \<longleftrightarrow> y mod 4 = 0 \<and> (y mod 100 \<noteq> 0 \<or> y mod 400 = 0)"

definition days_of_year :: "nat \<Rightarrow> nat" where
  "days_of_year y = (if leap_year y then 366 else 365)"

definition days_of_months :: "nat \<Rightarrow> nat list" where
  "days_of_months y = [31, if leap_year y then 29 else 28, 31, 30, 31, 30, 31, 31, 30, 31, 30, 31]"

function find_year :: "nat \<Rightarrow> nat \<Rightarrow> nat \<times> nat" where
  "find_year y d = (if d < days_of_year y then (y, d) else find_year (y + 1) (d - days_of_year y))"
  by auto

termination
  by (relation "measure snd") (auto simp: days_of_year_def)

declare find_year.simps [simp del]

fun find_month :: "nat \<Rightarrow> nat list \<Rightarrow> nat \<Rightarrow> nat \<times> nat" where
  "find_month m [] d = (m, d)"
| "find_month m (n # ns) d = (if d < n then (m, d) else find_month (m + 1) ns (d - n))"

text \<open>\<^verbatim>\<open>gmtime\<close>, with months and days counted from 1 and the year in full.\<close>

definition gmtime :: "nat \<Rightarrow> calendar_time" where
  "gmtime t = (let (y, yd) = find_year 1970 (t div 86400); (m, d) = find_month 1 (days_of_months y) yd; s = t mod 86400
     in \<lparr>tm_year = y, tm_mon = m, tm_mday = d + 1, tm_hour = s div 3600, tm_min = s mod 3600 div 60, tm_sec = s mod 60\<rparr>)"

text \<open>A number in \<open>w\<close> decimal digits, as \<^verbatim>\<open>setw\<close> with zeros prints one that fits.\<close>

primrec padded_decimal :: "nat \<Rightarrow> nat \<Rightarrow> string" where
  "padded_decimal 0 n = []"
| "padded_decimal (Suc w) n = padded_decimal w (n div 10) @ [''0123456789'' ! (n mod 10)]"

definition timestamp_iso8601 :: "nat \<Rightarrow> string" where
  "timestamp_iso8601 now = (let t = gmtime (now div 1000) in
     padded_decimal 4 (tm_year t) @ ''-'' @ padded_decimal 2 (tm_mon t) @ ''-'' @ padded_decimal 2 (tm_mday t) @ ''T'' @
     padded_decimal 2 (tm_hour t) @ '':'' @ padded_decimal 2 (tm_min t) @ '':'' @ padded_decimal 2 (tm_sec t) @
     ''.'' @ padded_decimal 3 (now mod 1000) @ ''Z'')"

section \<open>The message\<close>

definition default_metadata :: "'j json_api \<Rightarrow> 'j MessageMetadata" where
  "default_metadata J = \<lparr>md_protocol_version = ''1.0'', md_encryption = ''ML-KEM-768'', md_signature = j_null J, md_extra = j_null J\<rparr>"

definition unified_message :: "'j json_api \<Rightarrow> surroundings \<Rightarrow> MessageType \<Rightarrow> 'j UnifiedMessage" where
  "unified_message J s t = \<lparr>um_message_type = t, um_message_id = generate_uuid (draw s) (draw2 s), um_correlation_id = [],
     um_timestamp = timestamp_iso8601 (clock_ms s), um_source = \<lparr>me_entity = raw_source s, me_identifier = []\<rparr>,
     um_target = \<lparr>me_entity = raw_target s, me_identifier = []\<rparr>, um_payload = j_null J, um_metadata = default_metadata J\<rparr>"

definition entity_to_json :: "'j json_api \<Rightarrow> MessageEntity \<Rightarrow> 'j" where
  "entity_to_json J e = j_object J [(''entity'', j_string J (entity_type_to_string (me_entity e))),
     (''identifier'', j_string J (me_identifier e))]"

text \<open>
  The last call of the metadata conversion names a function the library does not have,
  \<^verbatim>\<open>json::object::merge\<close>; it is the argument \<open>merge\<close>.
\<close>

definition metadata_to_json :: "'j json_api \<Rightarrow> ('j \<Rightarrow> 'j \<Rightarrow> 'j throws) \<Rightarrow> 'j MessageMetadata \<Rightarrow> 'j throws" where
  "metadata_to_json J merge d =
    (let result = j_object J [(''protocol_version'', j_string J (md_protocol_version d)),
       (''encryption'', j_string J (md_encryption d))] in
     ebind (if \<not> j_empty J (md_signature d) then j_assign J result ''signature'' (md_signature d) else ok result) (\<lambda>result.
     if \<not> j_empty J (md_extra d) then merge result (md_extra d) else ok result))"

definition to_json :: "'j json_api \<Rightarrow> ('j \<Rightarrow> 'j \<Rightarrow> 'j throws) \<Rightarrow> 'j UnifiedMessage \<Rightarrow> 'j throws" where
  "to_json J merge m =
    (let result = j_object J [(''message_type'', j_string J (message_type_to_string (um_message_type m))),
       (''message_id'', j_string J (um_message_id m)), (''timestamp'', j_string J (um_timestamp m)),
       (''source'', entity_to_json J (um_source m)), (''payload'', um_payload m)] in
     ebind (if um_correlation_id m \<noteq> [] then j_assign J result ''correlation_id'' (j_string J (um_correlation_id m)) else ok result) (\<lambda>result.
     ebind (if me_identifier (um_target m) \<noteq> [] then j_assign J result ''target'' (entity_to_json J (um_target m)) else ok result) (\<lambda>result.
     if md_protocol_version (um_metadata m) \<noteq> []
     then ebind (metadata_to_json J merge (um_metadata m)) (j_assign J result ''metadata'') else ok result)))"

definition from_json :: "'j json_api \<Rightarrow> surroundings \<Rightarrow> 'j \<Rightarrow> 'j UnifiedMessage throws" where
  "from_json J s j =
    ebind (ebind (j_at J j ''message_type'') (j_get_string J)) (\<lambda>t.
    let msg = unified_message J s (string_to_message_type t) in
    ebind (ebind (j_at J j ''message_id'') (j_get_string J)) (\<lambda>i.
    let msg = msg\<lparr>um_message_id := i\<rparr> in
    ebind (ebind (j_at J j ''timestamp'') (j_get_string J)) (\<lambda>ts.
    let msg = msg\<lparr>um_timestamp := ts\<rparr> in
    ebind (if j_contains J j ''correlation_id''
      then ebind (ebind (j_at J j ''correlation_id'') (j_get_string J)) (\<lambda>c. ok (msg\<lparr>um_correlation_id := c\<rparr>)) else ok msg) (\<lambda>msg.
    ebind (if j_contains J j ''source''
      then ebind (ebind (ebind (j_at J j ''source'') (\<lambda>e. j_at J e ''identifier'')) (j_get_string J)) (\<lambda>i.
        ok (msg\<lparr>um_source := \<lparr>me_entity = EntityType_VMG, me_identifier = i\<rparr>\<rparr>)) else ok msg) (\<lambda>msg.
    ebind (if j_contains J j ''target''
      then ebind (ebind (ebind (j_at J j ''target'') (\<lambda>e. j_at J e ''identifier'')) (j_get_string J)) (\<lambda>i.
        ok (msg\<lparr>um_target := \<lparr>me_entity = EntityType_SERVER, me_identifier = i\<rparr>\<rparr>)) else ok msg) (\<lambda>msg.
    ebind (j_at J j ''payload'') (\<lambda>p.
    ok (msg\<lparr>um_payload := p\<rparr>))))))))"

section \<open>The builder\<close>

abbreviation entity :: "EntityType \<Rightarrow> string \<Rightarrow> MessageEntity" where
  "entity t i \<equiv> \<lparr>me_entity = t, me_identifier = i\<rparr>"

definition create_device_registration :: "'j json_api \<Rightarrow> surroundings \<Rightarrow> string \<Rightarrow> 'j \<Rightarrow> 'j UnifiedMessage" where
  "create_device_registration J s ecu_serial device_info = (unified_message J s DEVICE_REGISTRATION)
     \<lparr>um_source := entity EntityType_ECU ecu_serial, um_target := entity EntityType_VMG ''VMG-001'',
      um_payload := j_object J [(''device_info'', device_info)]\<rparr>"

definition create_heartbeat :: "'j json_api \<Rightarrow> surroundings \<Rightarrow> string \<Rightarrow> 'j UnifiedMessage" where
  "create_heartbeat J s device_id = (unified_message J s HEARTBEAT)
     \<lparr>um_source := entity EntityType_ECU device_id, um_payload := j_object J [(''status'', j_string J ''alive'')]\<rparr>"

definition create_status_report :: "'j json_api \<Rightarrow> surroundings \<Rightarrow> string \<Rightarrow> 'j \<Rightarrow> 'j UnifiedMessage" where
  "create_status_report J s device_id status = (unified_message J s STATUS_REPORT)
     \<lparr>um_source := entity EntityType_ECU device_id, um_payload := status\<rparr>"

definition create_wakeup :: "'j json_api \<Rightarrow> surroundings \<Rightarrow> string \<Rightarrow> 'j \<Rightarrow> 'j UnifiedMessage throws" where
  "create_wakeup J s vin vehicle_info =
    (let msg = (unified_message J s WAKEUP)
       \<lparr>um_source := entity EntityType_VMG ''VMG-001'', um_target := entity EntityType_SERVER ''OTA-SERVER-001''\<rparr>;
       payload = j_object J [(''vin'', j_string J vin), (''wakeup_reason'', j_string J ''ignition_on'')] in
     ebind (j_update J payload vehicle_info) (\<lambda>payload. ok (msg\<lparr>um_payload := payload\<rparr>)))"

definition create_vci_report :: "'j json_api \<Rightarrow> surroundings \<Rightarrow> string \<Rightarrow> 'j \<Rightarrow> 'j UnifiedMessage" where
  "create_vci_report J s correlation_id vci_data = (unified_message J s VCI_REPORT)
     \<lparr>um_correlation_id := correlation_id, um_source := entity EntityType_VMG ''VMG-001'',
      um_target := entity EntityType_SERVER ''OTA-SERVER-001'', um_payload := vci_data\<rparr>"

definition create_readiness_response ::
  "'j json_api \<Rightarrow> surroundings \<Rightarrow> string \<Rightarrow> string \<Rightarrow> string \<Rightarrow> 'j \<Rightarrow> 'j UnifiedMessage" where
  "create_readiness_response J s correlation_id campaign_id status checks = (unified_message J s READINESS_RESPONSE)
     \<lparr>um_correlation_id := correlation_id, um_source := entity EntityType_VMG ''VMG-001'',
      um_target := entity EntityType_SERVER ''OTA-SERVER-001'',
      um_payload := j_object J [(''campaign_id'', j_string J campaign_id), (''readiness_status'', j_string J status),
        (''checks'', checks)]\<rparr>"

definition create_ota_progress ::
  "'j json_api \<Rightarrow> surroundings \<Rightarrow> string \<Rightarrow> string \<Rightarrow> int \<Rightarrow> 64 word \<Rightarrow> 64 word \<Rightarrow> 'j UnifiedMessage" where
  "create_ota_progress J s campaign_id package_id progress_percentage bytes_downloaded total_bytes =
    (unified_message J s OTA_DOWNLOAD_PROGRESS)
     \<lparr>um_source := entity EntityType_VMG ''VMG-001'',
      um_payload := j_object J [(''campaign_id'', j_string J campaign_id), (''package_id'', j_string J package_id),
        (''status'', j_string J ''downloading''), (''progress_percentage'', j_int J progress_percentage),
        (''bytes_downloaded'', j_int J (uint bytes_downloaded)), (''total_bytes'', j_int J (uint total_bytes))]\<rparr>"

definition create_ota_result :: "'j json_api \<Rightarrow> surroundings \<Rightarrow> string \<Rightarrow> string \<Rightarrow> 'j \<Rightarrow> 'j UnifiedMessage" where
  "create_ota_result J s campaign_id overall_status ecus_result = (unified_message J s OTA_UPDATE_RESULT)
     \<lparr>um_source := entity EntityType_VMG ''VMG-001'', um_target := entity EntityType_SERVER ''OTA-SERVER-001'',
      um_payload := j_object J [(''campaign_id'', j_string J campaign_id), (''overall_status'', j_string J overall_status),
        (''ecus'', ecus_result)]\<rparr>"

definition create_error :: "'j json_api \<Rightarrow> surroundings \<Rightarrow> string \<Rightarrow> string \<Rightarrow> string \<Rightarrow> 'j \<Rightarrow> 'j UnifiedMessage" where
  "create_error J s correlation_id error_code message details =
    (let msg = unified_message J s ERROR;
       msg = (if correlation_id \<noteq> [] then msg\<lparr>um_correlation_id := correlation_id\<rparr> else msg)
     in msg\<lparr>um_payload := j_object J [(''error_code'', j_string J error_code), (''error_category'', j_string J ''system''),
        (''severity'', j_string J ''error''), (''message'', j_string J message), (''details'', details)]\<rparr>)"

section \<open>Conversion and back\<close>

text \<open>The roles and the metadata that a message has after it was read back.\<close>

definition reread :: "'j json_api \<Rightarrow> surroundings \<Rightarrow> 'j UnifiedMessage \<Rightarrow> 'j UnifiedMessage" where
  "reread J s m = m\<lparr>um_source := entity EntityType_VMG (me_identifier (um_source m)),
     um_target := entity (if me_identifier (um_target m) = [] then raw_target s else EntityType_SERVER) (me_identifier (um_target m)),
     um_metadata := default_metadata J\<rparr>"

context json_library
begin

lemma assign_ifE:
  assumes "view j = Some m"
  obtains j' where "(if b then j_assign J j k v else ok j) = ok j'" "view j' = Some (if b then m(k \<mapsto> v) else m)"
proof (cases b)
  case True
  then show ?thesis
    using assign_object [OF assms, of k v] that by auto
qed (use assms that in simp)

lemma metadata_to_json_object:
  assumes "j_empty J (md_extra d)"
  obtains j where "metadata_to_json J merge d = ok j"
proof -
  let ?kvs = "[(''protocol_version'', j_string J (md_protocol_version d)), (''encryption'', j_string J (md_encryption d))]"
  obtain j where "(if \<not> j_empty J (md_signature d) then j_assign J (j_object J ?kvs) ''signature'' (md_signature d)
      else ok (j_object J ?kvs)) = ok j"
    by (rule assign_ifE [OF view_object])
  then have "metadata_to_json J merge d = ok j"
    using assms by (simp only: metadata_to_json_def Let_def ebind_simps if_cancel not_True_eq_False if_False eqTrueI)
  then show thesis
    by (rule that)
qed

text \<open>The members of a converted message.\<close>

lemma to_json_members:
  assumes "j_empty J (md_extra (um_metadata m))"
  obtains j v where "to_json J merge m = ok j" "view j = Some v"
    "v ''message_type'' = Some (j_string J (message_type_to_string (um_message_type m)))"
    "v ''message_id'' = Some (j_string J (um_message_id m))"
    "v ''timestamp'' = Some (j_string J (um_timestamp m))"
    "v ''source'' = Some (entity_to_json J (um_source m))" "v ''payload'' = Some (um_payload m)"
    "v ''correlation_id'' = (if um_correlation_id m \<noteq> [] then Some (j_string J (um_correlation_id m)) else None)"
    "v ''target'' = (if me_identifier (um_target m) \<noteq> [] then Some (entity_to_json J (um_target m)) else None)"
proof -
  define kvs where "kvs = [(''message_type'', j_string J (message_type_to_string (um_message_type m))),
       (''message_id'', j_string J (um_message_id m)), (''timestamp'', j_string J (um_timestamp m)),
       (''source'', entity_to_json J (um_source m)), (''payload'', um_payload m)]"
  obtain j1 where j1: "(if um_correlation_id m \<noteq> [] then j_assign J (j_object J kvs) ''correlation_id'' (j_string J (um_correlation_id m))
      else ok (j_object J kvs)) = ok j1"
    "view j1 = Some (if um_correlation_id m \<noteq> [] then (map_of kvs)(''correlation_id'' \<mapsto> j_string J (um_correlation_id m)) else map_of kvs)"
    by (rule assign_ifE [OF view_object])
  obtain j2 where j2: "(if me_identifier (um_target m) \<noteq> [] then j_assign J j1 ''target'' (entity_to_json J (um_target m)) else ok j1) = ok j2"
    "view j2 = Some (if me_identifier (um_target m) \<noteq> [] then (the (view j1))(''target'' \<mapsto> entity_to_json J (um_target m)) else the (view j1))"
    by (rule assign_ifE [of j1 "the (view j1)"]) (simp_all add: j1(2))
  obtain jm where jm: "metadata_to_json J merge (um_metadata m) = ok jm"
    by (rule metadata_to_json_object [OF assms])
  obtain j3 where j3: "(if md_protocol_version (um_metadata m) \<noteq> [] then j_assign J j2 ''metadata'' jm else ok j2) = ok j3"
    "view j3 = Some (if md_protocol_version (um_metadata m) \<noteq> [] then (the (view j2))(''metadata'' \<mapsto> jm) else the (view j2))"
    by (rule assign_ifE [of j2 "the (view j2)"]) (simp_all add: j2(2))
  have "to_json J merge m = ok j3"
    unfolding to_json_def Let_def kvs_def [symmetric] j1(1) j2(1) ebind_simps jm j3(1) ..
  moreover note j3(2)
  ultimately show thesis
    by (rule that) (simp_all add: j2(2) j1(2) kvs_def)
qed

lemma from_json_to_json:
  assumes "j_empty J (md_extra (um_metadata m))"
  shows "ebind (to_json J merge m) (from_json J s) = ok (reread J s m)"
proof -
  obtain j v where j: "to_json J merge m = ok j" "view j = Some v"
    and v: "v ''message_type'' = Some (j_string J (message_type_to_string (um_message_type m)))"
    "v ''message_id'' = Some (j_string J (um_message_id m))"
    "v ''timestamp'' = Some (j_string J (um_timestamp m))"
    "v ''source'' = Some (entity_to_json J (um_source m))" "v ''payload'' = Some (um_payload m)"
    "v ''correlation_id'' = (if um_correlation_id m \<noteq> [] then Some (j_string J (um_correlation_id m)) else None)"
    "v ''target'' = (if me_identifier (um_target m) \<noteq> [] then Some (entity_to_json J (um_target m)) else None)"
    by (rule to_json_members [OF assms])
  have "from_json J s j = ok (reread J s m)"
    using v by (simp add: from_json_def Let_def at_object [OF j(2)] contains_object [OF j(2)] domIff get_string
        entity_to_json_def unified_message_def reread_def)
  then show ?thesis
    by (simp add: j(1))
qed

end

section \<open>Reading time stamps\<close>

definition digit_value :: "char \<Rightarrow> nat" where
  "digit_value c = of_char c - 48"

definition read_decimal :: "string \<Rightarrow> nat" where
  "read_decimal s = foldl (\<lambda>n c. 10 * n + digit_value c) 0 s"

definition days_before :: "nat \<Rightarrow> nat \<Rightarrow> nat \<Rightarrow> nat" where
  "days_before y m d = sum_list (map days_of_year [1970..<y]) + sum_list (take (m - 1) (days_of_months y)) + (d - 1)"

text \<open>The milliseconds since 1970 a time stamp stands for.\<close>

definition read_timestamp :: "string \<Rightarrow> nat" where
  "read_timestamp s = (let part = (\<lambda>i n. read_decimal (take n (drop i s))) in
     (days_before (part 0 4) (part 5 2) (part 8 2) * 86400 + part 11 2 * 3600 + part 14 2 * 60 + part 17 2) * 1000 + part 20 3)"

lemma digit_value_digit: "n < 10 \<Longrightarrow> digit_value (''0123456789'' ! n) = n"
proof -
  assume "n < 10"
  then have "n \<in> {0, 1, 2, 3, 4, 5, 6, 7, 8, 9}"
    by auto
  then show ?thesis
    by (auto simp: digit_value_def)
qed

lemma length_decimal [simp]: "length (padded_decimal w n) = w"
  by (induction w arbitrary: n) simp_all

lemma read_decimal_decimal: "n < 10 ^ w \<Longrightarrow> read_decimal (padded_decimal w n) = n"
proof (induction w arbitrary: n)
  case (Suc w)
  then have "read_decimal (padded_decimal w (n div 10)) = n div 10"
    by (simp add: less_mult_imp_div_less mult.commute)
  then show ?case
    by (simp add: read_decimal_def digit_value_digit del: One_nat_def)
qed (simp add: read_decimal_def)

lemma find_year_spec:
  "find_year y0 d = (y, r) \<Longrightarrow> y0 \<le> y \<and> r < days_of_year y \<and> sum_list (map days_of_year [y0..<y]) + r = d"
proof (induction y0 d rule: find_year.induct)
  case (1 y0 d)
  show ?case
  proof (cases "d < days_of_year y0")
    case True
    then show ?thesis
      using "1.prems" by (simp add: find_year.simps)
  next
    case False
    then have "find_year (y0 + 1) (d - days_of_year y0) = (y, r)"
      using "1.prems" by (simp add: find_year.simps [of y0 d])
    then have IH: "y0 + 1 \<le> y \<and> r < days_of_year y \<and> sum_list (map days_of_year [y0 + 1..<y]) + r = d - days_of_year y0"
      by (rule "1.IH" [OF False])
    then have "[y0..<y] = y0 # [y0 + 1..<y]"
      by (simp add: upt_conv_Cons)
    then have "sum_list (map days_of_year [y0..<y]) = days_of_year y0 + sum_list (map days_of_year [y0 + 1..<y])"
      by simp
    then show ?thesis
      using IH False by linarith
  qed
qed

lemma find_month_spec:
  "find_month m ns d = (k, r) \<Longrightarrow> d < sum_list ns \<Longrightarrow>
     m \<le> k \<and> k < m + length ns \<and> r < ns ! (k - m) \<and> sum_list (take (k - m) ns) + r = d"
proof (induction m ns d rule: find_month.induct)
  case (2 m n ns d)
  show ?case
  proof (cases "d < n")
    case False
    then have IH: "m + 1 \<le> k \<and> k < m + 1 + length ns \<and> r < ns ! (k - (m + 1)) \<and> sum_list (take (k - (m + 1)) ns) + r = d - n"
      using 2 by simp
    then obtain i where "k - m = Suc i" "k - (m + 1) = i"
      by (metis Suc_diff_le Suc_eq_plus1 diff_Suc_Suc)
    then show ?thesis
      using IH False by auto
  qed (use 2 in simp)
qed simp

lemma sum_days_of_months: "sum_list (days_of_months y) = days_of_year y"
  by (simp add: days_of_months_def days_of_year_def)

lemma month_lengths: "i < 12 \<Longrightarrow> days_of_months y ! i \<le> 31"
proof -
  assume "i < 12"
  then have "days_of_months y ! i \<in> set (days_of_months y)"
    by (intro nth_mem) (simp add: days_of_months_def)
  then show ?thesis
    by (auto simp: days_of_months_def split: if_splits)
qed

lemma gmtime_spec:
  defines "c t \<equiv> gmtime t"
  shows "tm_mon (c t) \<in> {1..12}" "tm_mday (c t) \<in> {1..31}" "tm_hour (c t) < 24" "tm_min (c t) < 60" "tm_sec (c t) < 60"
    "days_before (tm_year (c t)) (tm_mon (c t)) (tm_mday (c t)) = t div 86400"
    "tm_hour (c t) * 3600 + tm_min (c t) * 60 + tm_sec (c t) = t mod 86400"
proof -
  obtain y yd where y: "find_year 1970 (t div 86400) = (y, yd)"
    by fastforce
  obtain m d where m: "find_month 1 (days_of_months y) yd = (m, d)"
    by fastforce
  have c: "c t = \<lparr>tm_year = y, tm_mon = m, tm_mday = d + 1, tm_hour = (t mod 86400) div 3600,
      tm_min = (t mod 86400) mod 3600 div 60, tm_sec = (t mod 86400) mod 60\<rparr>"
    by (simp add: c_def gmtime_def y m Let_def del: One_nat_def)
  have ys: "yd < days_of_year y" "sum_list (map days_of_year [1970..<y]) + yd = t div 86400"
    using find_year_spec [OF y] by auto
  have ms: "1 \<le> m" "m < 1 + 12" "d < days_of_months y ! (m - 1)" "sum_list (take (m - 1) (days_of_months y)) + d = yd"
    using find_month_spec [OF m] ys(1) by (simp_all add: sum_days_of_months) (simp_all add: days_of_months_def)
  show "tm_mon (c t) \<in> {1..12}" "days_before (tm_year (c t)) (tm_mon (c t)) (tm_mday (c t)) = t div 86400"
    using ms ys by (simp_all add: c days_before_def)
  show "tm_mday (c t) \<in> {1..31}"
  proof -
    have "days_of_months y ! (m - 1) \<le> 31"
      using ms(2) by (intro month_lengths) linarith
    then show ?thesis
      using ms(3) by (simp add: c)
  qed
  show "tm_hour (c t) < 24" "tm_min (c t) < 60" "tm_sec (c t) < 60"
    by (simp_all add: c less_mult_imp_div_less)
  show "tm_hour (c t) * 3600 + tm_min (c t) * 60 + tm_sec (c t) = t mod 86400"
  proof -
    have "s div 3600 * 3600 + (s mod 3600 div 60 * 60 + s mod 3600 mod 60) = s" for s :: nat
      by (simp only: div_mult_mod_eq)
    moreover have "s mod 3600 mod 60 = s mod 60" for s :: nat
      by (rule mod_mod_cancel) simp
    ultimately show ?thesis
      unfolding c calendar_time.simps add.assoc by metis
  qed
qed

definition um_year :: "nat \<Rightarrow> nat" where
  "um_year now = tm_year (gmtime (now div 1000))"

lemma read_timestamp_part:
  "length a = i \<Longrightarrow> read_decimal (take w (drop i (a @ padded_decimal w n @ b))) = read_decimal (padded_decimal w n)"
  by simp

text \<open>
  Time stamps. Before the year 10000 the time stamp of a message has the fixed form of ISO 8601 and
  reading it gives the clock back to the millisecond, so messages of different times have different
  time stamps.
\<close>

theorem um_timestamp_roundtrip:
  assumes "um_year now < 10000"
  shows "length (timestamp_iso8601 now) = 24 \<and> read_timestamp (timestamp_iso8601 now) = now"
proof -
  let ?t = "gmtime (now div 1000)"
  note g = gmtime_spec [of "now div 1000"]
  have "tm_year ?t < 10 ^ 4" "tm_mon ?t < 10 ^ 2" "tm_mday ?t < 10 ^ 2" "tm_hour ?t < 10 ^ 2" "tm_min ?t < 10 ^ 2"
    "tm_sec ?t < 10 ^ 2" "now mod 1000 < 10 ^ 3"
    using g(1-5) assms by (auto simp: um_year_def)
  note d = this [THEN read_decimal_decimal]
  let ?s = "timestamp_iso8601 now"
  have part: "read_decimal (take 4 (drop 0 ?s)) = tm_year ?t" "read_decimal (take 2 (drop 5 ?s)) = tm_mon ?t"
    "read_decimal (take 2 (drop 8 ?s)) = tm_mday ?t" "read_decimal (take 2 (drop 11 ?s)) = tm_hour ?t"
    "read_decimal (take 2 (drop 14 ?s)) = tm_min ?t" "read_decimal (take 2 (drop 17 ?s)) = tm_sec ?t"
    "read_decimal (take 3 (drop 20 ?s)) = now mod 1000"
    by (simp_all add: timestamp_iso8601_def Let_def d)
  have "read_timestamp ?s = (now div 1000 div 86400 * 86400 + now div 1000 mod 86400) * 1000 + now mod 1000"
    unfolding read_timestamp_def Let_def part g(6) add.assoc g(7) [unfolded add.assoc] ..
  then show ?thesis
    by (simp add: timestamp_iso8601_def Let_def)
qed

theorem um_timestamp_roundtrip_witness:
  "timestamp_iso8601 1761838170123 = ''2025-10-30T15:29:30.123Z'' \<and> read_timestamp ''2025-10-30T15:29:30.123Z'' = 1761838170123"
proof -
  have y: "find_year 1970 20391 = (2025, 302)"
    by (simp add: find_year.simps days_of_year_def leap_year_def)
  have m: "find_month 1 [31, 28, 31, 30, 31, 30, 31, 31, 30, 31, 30, 31] 302 = (10, 29)"
    by simp
  have l: "\<not> leap_year 2025"
    by (simp add: leap_year_def)
  have g: "gmtime 1761838170 = \<lparr>tm_year = 2025, tm_mon = 10, tm_mday = 30, tm_hour = 15, tm_min = 29, tm_sec = 30\<rparr>"
    by (simp add: gmtime_def y days_of_months_def l m [simplified])
  have D: "padded_decimal (numeral k) n = padded_decimal (pred_numeral k) (n div 10) @ [''0123456789'' ! (n mod 10)]" for k n
    unfolding numeral_eq_Suc [of k] by (rule padded_decimal.simps)
  have "timestamp_iso8601 1761838170123 = ''2025-10-30T15:29:30.123Z''"
    by (simp add: timestamp_iso8601_def g D)
  moreover have "um_year 1761838170123 < 10000"
    by (simp add: um_year_def g)
  ultimately show ?thesis
    using um_timestamp_roundtrip [of 1761838170123] by simp
qed

section \<open>Properties\<close>

text \<open>Version 4 of RFC 4122: the form 8-4-4-4-12, the version 4, the variant 8, 9, a or b.\<close>

definition hex_char :: "char \<Rightarrow> bool" where
  "hex_char c \<longleftrightarrow> c \<in> set ''0123456789abcdef''"

definition uuid_v4 :: "string \<Rightarrow> bool" where
  "uuid_v4 u \<longleftrightarrow> length u = 36 \<and> u ! 8 = CHR ''-'' \<and> u ! 13 = CHR ''-'' \<and> u ! 18 = CHR ''-'' \<and> u ! 23 = CHR ''-''
     \<and> u ! 14 = CHR ''4'' \<and> u ! 19 \<in> set ''89ab'' \<and> list_all (\<lambda>c. hex_char c \<or> c = CHR ''-'') u"

lemma hex_char_digit [simp]: "n < 16 \<Longrightarrow> hex_char (uuid_digit n)"
  unfolding hex_char_def uuid_digit_def by (rule nth_mem) simp

lemma message_id_uuid:
  assumes "\<And>i. draw s i < 16" "draw2 s \<in> {8..11}"
  shows "uuid_v4 (um_message_id (unified_message J s t))"
proof -
  have d: "hex_char (uuid_digit (draw s i))" for i
    using assms(1) by simp
  have "draw2 s \<in> {8, 9, 10, 11}"
    using assms(2) by auto
  then have v: "uuid_digit (draw2 s) \<in> set ''89ab''"
    by (auto simp: uuid_digit_def)
  then have "hex_char (uuid_digit (draw2 s))"
    by (auto simp: hex_char_def)
  then have "list_all (\<lambda>c. hex_char c \<or> c = CHR ''-'') (generate_uuid (draw s) (draw2 s))"
    using d by (auto simp: generate_uuid_def list_all_iff) (auto simp: hex_char_def)
  moreover have "length (generate_uuid (draw s) (draw2 s)) = 36"
    by (simp add: generate_uuid_def)
  moreover have "map (\<lambda>i. generate_uuid (draw s) (draw2 s) ! i) [8, 13, 18, 23, 14, 19] = ''----4'' @ [uuid_digit (draw2 s)]"
    by (simp add: generate_uuid_def upt_rec numeral_eq_Suc)
  ultimately show ?thesis
    using v by (simp add: uuid_v4_def unified_message_def)
qed

context json_library
begin

text \<open>Which JSON values \<open>from_json\<close> must not be given: \<open>operator[]\<close> on a constant value needs the key.\<close>

lemma from_json_faults:
  assumes "view j = Some v"
    and "\<And>k x. k \<in> {''message_type'', ''message_id'', ''timestamp'', ''correlation_id''} \<Longrightarrow> v k = Some x \<Longrightarrow> \<exists>t. j_get_string J x = ok t"
    and "\<And>k x. k \<in> {''source'', ''target''} \<Longrightarrow> v k = Some x \<Longrightarrow>
      \<exists>e. view x = Some e \<and> (\<forall>i. e ''identifier'' = Some i \<longrightarrow> (\<exists>t. j_get_string J i = ok t))"
  shows "from_json J s j = Fault \<longleftrightarrow>
    (\<exists>k \<in> {''message_type'', ''message_id'', ''timestamp'', ''payload''}. v k = None)
    \<or> (\<exists>k \<in> {''source'', ''target''}. \<exists>x e. v k = Some x \<and> view x = Some e \<and> e ''identifier'' = None)"
proof -
  define str where "str k = ebind (j_at J j k) (j_get_string J)" for k
  have str: "\<exists>t. str k = (if v k = None then Fault else ok t)"
    if "k \<in> {''message_type'', ''message_id'', ''timestamp'', ''correlation_id''}" for k
    using assms(2) [OF that] by (cases "v k") (simp_all add: str_def at_object [OF assms(1)])
  define anonymous where "anonymous k \<longleftrightarrow> (\<exists>x e. v k = Some x \<and> view x = Some e \<and> e ''identifier'' = None)" for k
  define ident where "ident k = ebind (ebind (j_at J j k) (\<lambda>e. j_at J e ''identifier'')) (j_get_string J)" for k
  have ident: "v k \<noteq> None \<longrightarrow> (\<exists>t. ident k = (if anonymous k then Fault else ok t))" "v k = None \<longrightarrow> \<not> anonymous k"
    if k: "k \<in> {''source'', ''target''}" for k
  proof -
    show "v k \<noteq> None \<longrightarrow> (\<exists>t. ident k = (if anonymous k then Fault else ok t))"
    proof
      assume "v k \<noteq> None"
      then obtain x e where "v k = Some x" "view x = Some e" "\<forall>i. e ''identifier'' = Some i \<longrightarrow> (\<exists>t. j_get_string J i = ok t)"
        using assms(3) [OF k] by blast
      then show "\<exists>t. ident k = (if anonymous k then Fault else ok t)"
        by (cases "e ''identifier''") (auto simp: ident_def anonymous_def at_object [OF assms(1)] at_object)
    qed
  qed (simp add: anonymous_def)
  from str obtain f where "\<And>k. k \<in> {''message_type'', ''message_id'', ''timestamp'', ''correlation_id''} \<Longrightarrow>
      str k = (if v k = None then Fault else ok (f k))"
    by metis
  note t = this [of "''message_type''", OF insertI1] this [of "''message_id''", OF insertI2, OF insertI1]
    this [of "''timestamp''", OF insertI2, OF insertI2, OF insertI1] this [of "''correlation_id''", OF insertI2, OF insertI2, OF insertI2, OF insertI1]
  from ident(1) obtain g where "\<And>k. k \<in> {''source'', ''target''} \<Longrightarrow> v k \<noteq> None \<longrightarrow> ident k = (if anonymous k then Fault else ok (g k))"
    by metis
  note i = this [of "''source''", OF insertI1] this [of "''target''", OF insertI2, OF insertI1]
    ident(2) [of "''source''", OF insertI1] ident(2) [of "''target''", OF insertI2, OF insertI1]
  have p: "j_at J j ''payload'' = (if v ''payload'' = None then Fault else ok (the (v ''payload'')))"
    by (cases "v ''payload''") (simp_all add: at_object [OF assms(1)])
  have c: "j_contains J j k \<longleftrightarrow> v k \<noteq> None" for k
    by (simp add: contains_object [OF assms(1)] domIff)
  have "from_json J s j = Fault \<longleftrightarrow> v ''message_type'' = None \<or> v ''message_id'' = None \<or> v ''timestamp'' = None
      \<or> anonymous ''source'' \<or> anonymous ''target'' \<or> v ''payload'' = None"
  proof (cases "v ''message_type'' = None \<or> v ''message_id'' = None \<or> v ''timestamp'' = None")
    case True
    then show ?thesis
      unfolding from_json_def str_def [symmetric] t Let_def by auto
  next
    case False
    then show ?thesis
      unfolding from_json_def str_def [symmetric] ident_def [symmetric] t p c Let_def using i by simp
  qed
  then show ?thesis
    unfolding anonymous_def by blast
qed

text \<open>The vehicle information of a wake-up replaces the identification number of the message.\<close>

lemma wakeup_members:
  assumes "view info = Some i"
  shows "\<exists>m p. create_wakeup J s vin info = ok m \<and> view (um_payload m) = Some p
    \<and> p ''vin'' = (case i ''vin'' of None \<Rightarrow> Some (j_string J vin) | Some x \<Rightarrow> Some x)"
proof -
  let ?kvs = "[(''vin'', j_string J vin), (''wakeup_reason'', j_string J ''ignition_on'')]"
  obtain j where j: "j_update J (j_object J ?kvs) info = ok j" "view j = Some (map_of ?kvs ++ i)"
    using update_object [OF view_object assms] by blast
  then have "(map_of ?kvs ++ i) ''vin'' = (case i ''vin'' of None \<Rightarrow> Some (j_string J vin) | Some x \<Rightarrow> Some x)"
    by (simp add: map_add_def split: option.split)
  then show ?thesis
    using j(1) unfolding create_wakeup_def Let_def by (auto simp: j(2))
qed

end



text \<open>
  C37. Malformed messages. Among the JSON objects whose members have the expected types, \<open>from_json\<close> runs
  into undefined behaviour exactly on those that lack the type, the identifier, the time stamp or the
  payload, or whose source or target lacks its name.
\<close>

theorem um_from_json_faults_iff:
  assumes "json_library J view" "view j = Some v"
    and "\<forall>k \<in> {''message_type'', ''message_id'', ''timestamp'', ''correlation_id''}. \<forall>x. v k = Some x \<longrightarrow> (\<exists>t. j_get_string J x = ok t)"
    and "\<forall>k \<in> {''source'', ''target''}. \<forall>x. v k = Some x \<longrightarrow>
      (\<exists>e. view x = Some e \<and> (\<forall>i. e ''identifier'' = Some i \<longrightarrow> (\<exists>t. j_get_string J i = ok t)))"
  shows "from_json J s j = Fault \<longleftrightarrow>
    (\<exists>k \<in> {''message_type'', ''message_id'', ''timestamp'', ''payload''}. v k = None)
    \<or> (\<exists>k \<in> {''source'', ''target''}. \<exists>x e. v k = Some x \<and> view x = Some e \<and> e ''identifier'' = None)"
  by (rule json_library.from_json_faults [OF assms(1,2) assms(3) [rule_format] assms(4) [rule_format]])

theorem um_from_json_faults_iff_witness:
  "from_json (json_values (\<lambda>_. ok []) (\<lambda>_. ok JNull)) \<lparr>draw = (\<lambda>_. 7), draw2 = 9, clock_ms = 0, raw_source = 77, raw_target = 77\<rparr> (JObject [(''message_type'', JString ''HEARTBEAT'')]) = Fault"
proof -
  let ?v = "[''message_type'' \<mapsto> JString ''HEARTBEAT'']"
  have only: "?v k = Some x \<longleftrightarrow> k = ''message_type'' \<and> x = JString ''HEARTBEAT''" for k x
    by auto
  have "from_json (json_values (\<lambda>_. ok []) (\<lambda>_. ok JNull)) \<lparr>draw = (\<lambda>_. 7), draw2 = 9, clock_ms = 0, raw_source = 77, raw_target = 77\<rparr> (JObject [(''message_type'', JString ''HEARTBEAT'')]) = Fault \<longleftrightarrow>
    (\<exists>k \<in> {''message_type'', ''message_id'', ''timestamp'', ''payload''}. ?v k = None)
    \<or> (\<exists>k \<in> {''source'', ''target''}. \<exists>x e. ?v k = Some x \<and> members_of x = Some e \<and> e ''identifier'' = None)"
  proof (rule um_from_json_faults_iff [OF json_values.json_library_axioms])
    show "\<forall>k \<in> {''source'', ''target''}. \<forall>x. ?v k = Some x \<longrightarrow>
        (\<exists>e. members_of x = Some e \<and> (\<forall>i. e ''identifier'' = Some i \<longrightarrow> (\<exists>t. j_get_string (json_values (\<lambda>_. ok []) (\<lambda>_. ok JNull)) i = ok t)))"
      unfolding only by simp
    show "\<forall>k \<in> {''message_type'', ''message_id'', ''timestamp'', ''correlation_id''}. \<forall>x. ?v k = Some x \<longrightarrow>
        (\<exists>t. j_get_string (json_values (\<lambda>_. ok []) (\<lambda>_. ok JNull)) x = ok t)"
      unfolding only by simp
  qed (simp add: fun_eq_iff)
  moreover have "?v ''payload'' = None"
    by simp
  ultimately show ?thesis
    by blast
qed

end
