(* ===== verification/Sim_Protocol.thy ===== *)
theory Sim_Protocol
  imports Unified_Message
begin

text \<open>
  The messages of the TC375 simulator, \<^verbatim>\<open>tc375_simulator/include/protocol.hpp\<close> and \<^verbatim>\<open>src/protocol.cpp\<close>:
  their texts and the builders, over the interface \<^verbatim>\<open>json_library\<close>, and what the message class of the
  vehicle gateway makes of them. The local time, a text, is an argument of the builders.
\<close>

section \<open>Messages\<close>

datatype SimMessageType = SIM_HEARTBEAT | SIM_STATUS_REPORT | SIM_COMMAND_ACK | SIM_SENSOR_DATA | SIM_ERROR

record 'j ProtocolMessage =
  pm_type :: SimMessageType
  pm_device_id :: string
  pm_payload :: 'j
  pm_timestamp :: string

fun sim_type_to_string :: "SimMessageType \<Rightarrow> string" where
  "sim_type_to_string SIM_HEARTBEAT = ''HEARTBEAT''"
| "sim_type_to_string SIM_STATUS_REPORT = ''STATUS_REPORT''"
| "sim_type_to_string SIM_COMMAND_ACK = ''COMMAND_ACK''"
| "sim_type_to_string SIM_SENSOR_DATA = ''SENSOR_DATA''"
| "sim_type_to_string SIM_ERROR = ''ERROR''"

definition string_to_sim_type :: "string \<Rightarrow> SimMessageType" where
  "string_to_sim_type s =
    (if s = ''HEARTBEAT'' then SIM_HEARTBEAT
     else if s = ''STATUS_REPORT'' then SIM_STATUS_REPORT
     else if s = ''COMMAND_ACK'' then SIM_COMMAND_ACK
     else if s = ''SENSOR_DATA'' then SIM_SENSOR_DATA
     else if s = ''ERROR'' then SIM_ERROR
     else SIM_ERROR)"

lemma string_to_sim_type_inverse [simp]: "string_to_sim_type (sim_type_to_string t) = t"
  by (cases t) (simp_all add: string_to_sim_type_def)

text \<open>The object whose text is sent.\<close>

definition protocol_object :: "'j json_api \<Rightarrow> 'j ProtocolMessage \<Rightarrow> 'j" where
  "protocol_object J m = j_object J [(''type'', j_string J (sim_type_to_string (pm_type m))),
     (''device_id'', j_string J (pm_device_id m)), (''payload'', pm_payload m), (''timestamp'', j_string J (pm_timestamp m))]"

definition protocol_to_text :: "'j json_api \<Rightarrow> 'j ProtocolMessage \<Rightarrow> string throws" where
  "protocol_to_text J m = j_dump J (protocol_object J m)"

text \<open>Here the object is a variable, so a missing member reads as null.\<close>

definition protocol_from_text :: "'j json_api \<Rightarrow> string \<Rightarrow> 'j ProtocolMessage throws" where
  "protocol_from_text J s =
    ebind (j_parse J s) (\<lambda>j.
    ebind (j_index J j ''type'') (\<lambda>(v, j). ebind (j_get_string J v) (\<lambda>t.
    ebind (j_index J j ''device_id'') (\<lambda>(v, j). ebind (j_get_string J v) (\<lambda>d.
    ebind (j_index J j ''payload'') (\<lambda>(p, j).
    ebind (j_index J j ''timestamp'') (\<lambda>(v, j). ebind (j_get_string J v) (\<lambda>ts.
    ok \<lparr>pm_type = string_to_sim_type t, pm_device_id = d, pm_payload = p, pm_timestamp = ts\<rparr>))))))))"

section \<open>Builders\<close>

definition sim_create_heartbeat :: "'j json_api \<Rightarrow> string \<Rightarrow> string \<Rightarrow> 'j ProtocolMessage" where
  "sim_create_heartbeat J now device_id = \<lparr>pm_type = SIM_HEARTBEAT, pm_device_id = device_id,
     pm_payload = j_object J [(''status'', j_string J ''alive'')], pm_timestamp = now\<rparr>"

definition sim_create_status_report :: "string \<Rightarrow> string \<Rightarrow> 'j \<Rightarrow> 'j ProtocolMessage" where
  "sim_create_status_report now device_id status = \<lparr>pm_type = SIM_STATUS_REPORT, pm_device_id = device_id,
     pm_payload = status, pm_timestamp = now\<rparr>"

definition sim_create_sensor_data :: "string \<Rightarrow> string \<Rightarrow> 'j \<Rightarrow> 'j ProtocolMessage" where
  "sim_create_sensor_data now device_id data = \<lparr>pm_type = SIM_SENSOR_DATA, pm_device_id = device_id,
     pm_payload = data, pm_timestamp = now\<rparr>"

definition sim_create_command_ack :: "'j json_api \<Rightarrow> string \<Rightarrow> string \<Rightarrow> string \<Rightarrow> bool \<Rightarrow> 'j ProtocolMessage" where
  "sim_create_command_ack J now device_id command_id success = \<lparr>pm_type = SIM_COMMAND_ACK, pm_device_id = device_id,
     pm_payload = j_object J [(''command_id'', j_string J command_id), (''success'', j_bool J success)], pm_timestamp = now\<rparr>"

definition sim_create_error :: "'j json_api \<Rightarrow> string \<Rightarrow> string \<Rightarrow> string \<Rightarrow> 'j ProtocolMessage" where
  "sim_create_error J now device_id error_msg = \<lparr>pm_type = SIM_ERROR, pm_device_id = device_id,
     pm_payload = j_object J [(''error'', j_string J error_msg)], pm_timestamp = now\<rparr>"

section \<open>Properties\<close>

context json_library
begin

lemma index_member:
  assumes "view j = Some m" "m k = Some v"
  obtains j' where "j_index J j k = ok (v, j')" "view j' = Some m"
  using index_object [OF assms(1), of k] assms(2) by (auto simp: domIff)

lemma index_missing:
  assumes "view j = Some m" "m k = None"
  obtains j' where "j_index J j k = ok (j_null J, j')"
  using index_object [OF assms(1), of k] assms(2) by (auto simp: domIff)

lemma protocol_from_text:
  assumes "j_parse J s = ok j" "view j = Some v"
    and "v ''type'' = Some (j_string J t)" "v ''device_id'' = Some (j_string J d)" "v ''payload'' = Some p"
      "v ''timestamp'' = Some (j_string J ts)"
  shows "protocol_from_text J s = ok \<lparr>pm_type = string_to_sim_type t, pm_device_id = d, pm_payload = p, pm_timestamp = ts\<rparr>"
proof -
  obtain j1 where 1: "j_index J j ''type'' = ok (j_string J t, j1)" "view j1 = Some v"
    by (rule index_member [OF assms(2,3)])
  obtain j2 where 2: "j_index J j1 ''device_id'' = ok (j_string J d, j2)" "view j2 = Some v"
    by (rule index_member [OF 1(2) assms(4)])
  obtain j3 where 3: "j_index J j2 ''payload'' = ok (p, j3)" "view j3 = Some v"
    by (rule index_member [OF 2(2) assms(5)])
  obtain j4 where 4: "j_index J j3 ''timestamp'' = ok (j_string J ts, j4)"
    by (rule index_member [OF 3(2) assms(6)])
  show ?thesis
    unfolding protocol_from_text_def assms(1) ebind_simps 1(1) prod.case get_string 2(1) 3(1) 4 ..
qed

lemma protocol_without_type:
  assumes "j_parse J s = ok j" "view j = Some v" "v ''type'' = None"
  shows "protocol_from_text J s = throw ''type_error.302''"
proof -
  obtain j1 where "j_index J j ''type'' = ok (j_null J, j1)"
    by (rule index_missing [OF assms(2,3)])
  then show ?thesis
    by (simp add: protocol_from_text_def assms(1) null_no_string)
qed

lemma protocol_members: "view (protocol_object J m) = Some (map_of [(''type'', j_string J (sim_type_to_string (pm_type m))),
     (''device_id'', j_string J (pm_device_id m)), (''payload'', pm_payload m), (''timestamp'', j_string J (pm_timestamp m))])"
  by (simp only: protocol_object_def view_object)

text \<open>The two message formats do not fit: the gateway's \<open>from_json\<close> is undefined on every message of the simulator.\<close>

lemma gateway_refuses: "from_json J s (protocol_object J m) = Fault"
  by (simp add: from_json_def at_object [OF protocol_members])

end

text \<open>
  Messages of the simulator. When the parser gives back the object that was printed, reading the text
  of a message gives the message; a text without a type is refused with an exception.
\<close>

theorem sim_protocol_roundtrip:
  assumes "json_library J view" "j_parse J s = ok j"
  shows "(protocol_to_text J m = ok s \<and> j = protocol_object J m \<longrightarrow> protocol_from_text J s = ok m)
    \<and> (\<forall>v. view j = Some v \<and> v ''type'' = None \<longrightarrow> protocol_from_text J s = throw ''type_error.302'')"
  using json_library.protocol_from_text [OF assms(1) _ json_library.protocol_members [OF assms(1)], of s m]
    json_library.protocol_without_type [OF assms] assms(2) by auto

theorem sim_protocol_roundtrip_witness:
  fixes m :: "json_value ProtocolMessage"
  defines "J \<equiv> json_values (\<lambda>_. ok ''text'') (\<lambda>_. ok (protocol_object (json_values (\<lambda>_. ok []) (\<lambda>_. ok JNull)) m))"
  shows "protocol_from_text J ''text'' = ok m"
proof -
  have lib: "json_library J members_of"
    unfolding J_def by (rule json_values.json_library_axioms)
  have "j_parse J ''text'' = ok (protocol_object J m)" "protocol_to_text J m = ok ''text''"
    by (simp_all add: J_def protocol_object_def protocol_to_text_def)
  then show ?thesis
    using sim_protocol_roundtrip [OF lib, of "''text''" "protocol_object J m" m] by simp
qed

end
