(* ===== verification/Device_Simulator.thy ===== *)
theory Device_Simulator
  imports Sim_TLS Sim_Protocol
begin

text \<open>
  The simulated device, \<^verbatim>\<open>tc375_simulator/src/device_simulator.cpp\<close>, over its TLS client and its messages. A
  configuration file is its text. The clock, in nanoseconds, the local time and the random variations are
  arguments; the single precision numbers are a type \<open>'f\<close> with the operations the code uses. A turn of a thread
  is atomic; an exception in one, which ends the process, is \<open>Inl\<close>. Log output is left out.
\<close>

section \<open>Configuration\<close>

record SimulatorConfig =
  sc_device_id :: string
  sc_device_type :: string
  sc_gateway_host :: string
  sc_gateway_port :: int
  sc_use_tls :: bool
  sc_verify_peer :: bool
  sc_ca_cert_path :: string
  sc_heartbeat_interval_sec :: int
  sc_sensor_update_interval_sec :: int

definition int32 :: "int \<Rightarrow> int" where
  "int32 n = sint (word_of_int n :: u32)"

text \<open>\<^verbatim>\<open>j[a][b]\<close> on a variable: a missing member is added, also inside the member \<open>a\<close>.\<close>

definition index2 :: "'j json_api \<Rightarrow> string \<Rightarrow> string \<Rightarrow> 'j \<Rightarrow> ('j \<times> 'j) throws" where
  "index2 J a b j = ebind (j_index J j a) (\<lambda>(d, j). ebind (j_index J d b) (\<lambda>(v, d). ebind (j_assign J j a d) (\<lambda>j. ok (v, j))))"

definition member2 :: "'j json_api \<Rightarrow> ('j \<Rightarrow> 'a throws) \<Rightarrow> string \<Rightarrow> string \<Rightarrow> 'j \<Rightarrow> ('a \<times> 'j) throws" where
  "member2 J get a b j = ebind (index2 J a b j) (\<lambda>(v, j). ebind (get v) (\<lambda>x. ok (x, j)))"

text \<open>\<^verbatim>\<open>j.contains("gateway") && j["gateway"].contains(key)\<close>, the member when it is there.\<close>

definition optional2 :: "'j json_api \<Rightarrow> ('j \<Rightarrow> 'a throws) \<Rightarrow> string \<Rightarrow> string \<Rightarrow> 'a \<Rightarrow> 'j \<Rightarrow> ('a \<times> 'j) throws" where
  "optional2 J get a b d j =
    (if \<not> j_contains J j a then ok (d, j)
     else ebind (j_index J j a) (\<lambda>(g, j). if j_contains J g b then member2 J get a b j else ok (d, j)))"

definition load_from_file :: "'j json_api \<Rightarrow> string \<Rightarrow> string option \<Rightarrow> SimulatorConfig throws" where
  "load_from_file J filepath file = (case file of
     None \<Rightarrow> throw (''Failed to open config file: '' @ filepath)
   | Some s \<Rightarrow>
       ebind (j_parse J s) (\<lambda>j.
       ebind (member2 J (j_get_string J) ''device'' ''id'' j) (\<lambda>(i, j).
       ebind (member2 J (j_get_string J) ''device'' ''type'' j) (\<lambda>(ty, j).
       ebind (member2 J (j_get_string J) ''gateway'' ''host'' j) (\<lambda>(h, j).
       ebind (member2 J (j_get_int J) ''gateway'' ''port'' j) (\<lambda>(p, j).
       ebind (member2 J (j_get_bool J) ''gateway'' ''use_tls'' j) (\<lambda>(tls, j).
       ebind (optional2 J (j_get_bool J) ''gateway'' ''verify_peer'' False j) (\<lambda>(v, j).
       ebind (optional2 J (j_get_string J) ''gateway'' ''ca_cert'' [] j) (\<lambda>(ca, j).
       ebind (j_value J (j_get_int J) j ''heartbeat_interval_sec'' 10) (\<lambda>hb.
       ebind (j_value J (j_get_int J) j ''sensor_update_interval_sec'' 5) (\<lambda>su.
       ok \<lparr>sc_device_id = i, sc_device_type = ty, sc_gateway_host = h, sc_gateway_port = int32 p, sc_use_tls = tls,
           sc_verify_peer = v, sc_ca_cert_path = ca, sc_heartbeat_interval_sec = int32 hb,
           sc_sensor_update_interval_sec = int32 su\<rparr>)))))))))))"

section \<open>The simulator\<close>

text \<open>Numbers: \<open>f_lit m d\<close> is the literal with the digits \<open>m\<close>, \<open>d\<close> of them after the point.\<close>

record 'f float_ops =
  f_lit :: "int \<Rightarrow> nat \<Rightarrow> 'f"
  f_add :: "'f \<Rightarrow> 'f \<Rightarrow> 'f"
  f_less :: "'f \<Rightarrow> 'f \<Rightarrow> bool"

definition f_min :: "'f float_ops \<Rightarrow> 'f \<Rightarrow> 'f \<Rightarrow> 'f" where
  "f_min F a b = (if f_less F b a then b else a)"

definition f_max :: "'f float_ops \<Rightarrow> 'f \<Rightarrow> 'f \<Rightarrow> 'f" where
  "f_max F a b = (if f_less F a b then b else a)"

text \<open>The time points are variables of the worker thread.\<close>

record 'f DeviceSimulator =
  ds_config :: SimulatorConfig
  ds_client :: TlsClient
  ds_running :: bool
  ds_temperature :: 'f
  ds_pressure :: 'f
  ds_voltage :: 'f
  ds_last_heartbeat :: nat
  ds_last_sensor_data :: nat

definition device_simulator :: "'f float_ops \<Rightarrow> SimulatorConfig \<Rightarrow> 'f DeviceSimulator" where
  "device_simulator F config =
    (let client = (tls_client (sc_gateway_host config) (sc_gateway_port config))\<lparr>tl_verify_peer := sc_verify_peer config\<rparr>;
         client = (if sc_ca_cert_path config \<noteq> [] then client\<lparr>tl_ca_cert_path := sc_ca_cert_path config\<rparr> else client)
     in \<lparr>ds_config = config, ds_client = client, ds_running = False, ds_temperature = f_lit F 250 1, ds_pressure = f_lit F 1013 1,
         ds_voltage = f_lit F 120 1, ds_last_heartbeat = 0, ds_last_sensor_data = 0\<rparr>)"

definition ds_start :: "'w openssl \<Rightarrow> 'w tls_calls \<Rightarrow> nat \<Rightarrow> 'f DeviceSimulator \<Rightarrow> 'w \<Rightarrow> (bool \<times> 'f DeviceSimulator \<times> 'w) cexec" where
  "ds_start L T now s w =
    (if ds_running s then Ret (True, s, w)
     else cbind (tl_connect L T (ds_client s) w) (\<lambda>(r, c, w). let s = s\<lparr>ds_client := c\<rparr>
       in if \<not> r then Ret (False, s, w)
          else Ret (True, s\<lparr>ds_running := True, ds_last_heartbeat := now, ds_last_sensor_data := now\<rparr>, w)))"

text \<open>The two threads end at their next turn and are waited for.\<close>

definition ds_stop :: "'w openssl \<Rightarrow> 'f DeviceSimulator \<Rightarrow> 'w \<Rightarrow> 'f DeviceSimulator \<times> 'w" where
  "ds_stop L s w =
    (if \<not> ds_running s then (s, w)
     else let (c, w) = tl_disconnect L (ds_client s) w in (s\<lparr>ds_running := False, ds_client := c\<rparr>, w))"

definition ds_send_heartbeat ::
  "'w openssl \<Rightarrow> 'w tls_calls \<Rightarrow> 'j json_api \<Rightarrow> string \<Rightarrow> 'f DeviceSimulator \<Rightarrow> 'w \<Rightarrow> ('f DeviceSimulator \<times> 'w) throws" where
  "ds_send_heartbeat L T J local s w =
    ebind (protocol_to_text J (sim_create_heartbeat J local (sc_device_id (ds_config s)))) (\<lambda>json_str.
    let (r, c, w) = tl_send L T (ds_client s) (json_str @ [CHR 0x0A]) w in ok (s\<lparr>ds_client := c\<rparr>, w))"

text \<open>\<open>jf\<close> is the JSON value of a number.\<close>

definition ds_send_sensor_data ::
  "'w openssl \<Rightarrow> 'w tls_calls \<Rightarrow> 'j json_api \<Rightarrow> ('f \<Rightarrow> 'j) \<Rightarrow> string \<Rightarrow> 'f DeviceSimulator \<Rightarrow> 'w \<Rightarrow> ('f DeviceSimulator \<times> 'w) throws" where
  "ds_send_sensor_data L T J jf local s w =
    ebind (protocol_to_text J (sim_create_sensor_data local (sc_device_id (ds_config s))
      (j_object J [(''temperature'', jf (ds_temperature s)), (''pressure'', jf (ds_pressure s)), (''voltage'', jf (ds_voltage s))])))
    (\<lambda>json_str. let (r, c, w) = tl_send L T (ds_client s) (json_str @ [CHR 0x0A]) w in ok (s\<lparr>ds_client := c\<rparr>, w))"

text \<open>Whether as many whole seconds have passed.\<close>

definition interval_due :: "nat \<Rightarrow> nat \<Rightarrow> int \<Rightarrow> bool" where
  "interval_due since now interval \<longleftrightarrow> interval \<le> (int now - int since) div 10 ^ 9"

definition worker_round ::
  "'w openssl \<Rightarrow> 'w tls_calls \<Rightarrow> 'j json_api \<Rightarrow> ('f \<Rightarrow> 'j) \<Rightarrow> nat \<Rightarrow> string \<Rightarrow> 'f DeviceSimulator \<Rightarrow> 'w \<Rightarrow> ('f DeviceSimulator \<times> 'w) throws" where
  "worker_round L T J jf now local s w =
    (if \<not> ds_running s then ok (s, w)
     else ebind (if interval_due (ds_last_heartbeat s) now (sc_heartbeat_interval_sec (ds_config s))
         then ebind (ds_send_heartbeat L T J local s w) (\<lambda>(s, w). ok (s\<lparr>ds_last_heartbeat := now\<rparr>, w)) else ok (s, w)) (\<lambda>(s, w).
       if interval_due (ds_last_sensor_data s) now (sc_sensor_update_interval_sec (ds_config s))
       then ebind (ds_send_sensor_data L T J jf local s w) (\<lambda>(s, w). ok (s\<lparr>ds_last_sensor_data := now\<rparr>, w)) else ok (s, w)))"

definition clamp :: "'f float_ops \<Rightarrow> 'f \<Rightarrow> 'f \<Rightarrow> 'f \<Rightarrow> 'f" where
  "clamp F lo hi x = f_max F lo (f_min F hi x)"

definition update_sensors :: "'f float_ops \<Rightarrow> 'f \<times> 'f \<times> 'f \<Rightarrow> 'f DeviceSimulator \<Rightarrow> 'f DeviceSimulator" where
  "update_sensors F = (\<lambda>(t, p, v) s. s\<lparr>
     ds_temperature := clamp F (f_lit F 150 1) (f_lit F 350 1) (f_add F (ds_temperature s) t),
     ds_pressure := clamp F (f_lit F 950 1) (f_lit F 1050 1) (f_add F (ds_pressure s) p),
     ds_voltage := clamp F (f_lit F 110 1) (f_lit F 130 1) (f_add F (ds_voltage s) v)\<rparr>)"

definition sensor_round :: "'f float_ops \<Rightarrow> 'f \<times> 'f \<times> 'f \<Rightarrow> 'f DeviceSimulator \<Rightarrow> 'f DeviceSimulator" where
  "sensor_round F noise s = (if ds_running s then update_sensors F noise s else s)"

section \<open>Sensors\<close>

definition in_range :: "'f float_ops \<Rightarrow> int \<Rightarrow> int \<Rightarrow> 'f \<Rightarrow> bool" where
  "in_range F lo hi x \<longleftrightarrow> \<not> f_less F x (f_lit F lo 1) \<and> \<not> f_less F (f_lit F hi 1) x"

definition sensors_in_range :: "'f float_ops \<Rightarrow> 'f DeviceSimulator \<Rightarrow> bool" where
  "sensors_in_range F s \<longleftrightarrow> in_range F 150 350 (ds_temperature s) \<and> in_range F 950 1050 (ds_pressure s) \<and> in_range F 110 130 (ds_voltage s)"

text \<open>What the code relies on: the comparison is asymmetric and transitive, and the literals it uses compare as numbers.\<close>

locale single_precision =
  fixes F :: "'f float_ops"
  assumes less_asym: "f_less F a b \<Longrightarrow> \<not> f_less F b a"
    and less_trans: "f_less F a b \<Longrightarrow> f_less F b c \<Longrightarrow> f_less F a c"
    and literals: "f_less F (f_lit F 150 1) (f_lit F 250 1)" "f_less F (f_lit F 250 1) (f_lit F 350 1)"
      "f_less F (f_lit F 950 1) (f_lit F 1013 1)" "f_less F (f_lit F 1013 1) (f_lit F 1050 1)"
      "f_less F (f_lit F 110 1) (f_lit F 120 1)" "f_less F (f_lit F 120 1) (f_lit F 130 1)"
begin

lemma clamp_in_range: "f_less F (f_lit F lo 1) (f_lit F hi 1) \<Longrightarrow> in_range F lo hi (clamp F (f_lit F lo 1) (f_lit F hi 1) x)"
  using less_asym [of "f_lit F lo 1" "f_lit F hi 1"] less_asym [of "f_lit F lo 1" "f_lit F lo 1"]
    less_asym [of "f_lit F hi 1" "f_lit F hi 1"] less_asym [of "f_lit F lo 1" x] less_asym [of x "f_lit F hi 1"]
  by (auto simp: in_range_def clamp_def f_max_def f_min_def simp del: One_nat_def)

lemma update_in_range: "sensors_in_range F (update_sensors F noise s)"
  using literals less_trans
  by (cases noise) (auto simp: sensors_in_range_def update_sensors_def simp del: One_nat_def intro!: clamp_in_range)

lemma fresh_in_range: "sensors_in_range F (device_simulator F config)"
  using literals less_asym by (auto simp: sensors_in_range_def device_simulator_def in_range_def Let_def simp del: One_nat_def)

end

text \<open>Numbers with three decimals.\<close>

definition thousandths :: "int float_ops" where
  "thousandths = \<lparr>f_lit = (\<lambda>m d. m * 10 ^ (3 - d)), f_add = (+), f_less = (<)\<rparr>"

interpretation thousandths: single_precision thousandths
  by unfold_locales (auto simp: thousandths_def)

section \<open>Resources\<close>

datatype 'f ds_op = DsStart nat | DsStop | DsWorker nat string | DsSensors "'f \<times> 'f \<times> 'f"

fun ds_step ::
  "'w openssl \<Rightarrow> 'w tls_calls \<Rightarrow> 'j json_api \<Rightarrow> ('f \<Rightarrow> 'j) \<Rightarrow> 'f float_ops \<Rightarrow> 'f ds_op \<Rightarrow> 'f DeviceSimulator \<times> 'w \<Rightarrow> ('f DeviceSimulator \<times> 'w) throws" where
  "ds_step L T J jf F (DsStart now) (s, w) = cbind (ds_start L T now s w) (\<lambda>(r, s, w). ok (s, w))"
| "ds_step L T J jf F DsStop (s, w) = ok (ds_stop L s w)"
| "ds_step L T J jf F (DsWorker now local) (s, w) = worker_round L T J jf now local s w"
| "ds_step L T J jf F (DsSensors noise) (s, w) = ok (sensor_round F noise s, w)"

primrec ds_run ::
  "'w openssl \<Rightarrow> 'w tls_calls \<Rightarrow> 'j json_api \<Rightarrow> ('f \<Rightarrow> 'j) \<Rightarrow> 'f float_ops \<Rightarrow> 'f ds_op list \<Rightarrow> 'f DeviceSimulator \<times> 'w \<Rightarrow> ('f DeviceSimulator \<times> 'w) throws" where
  "ds_run L T J jf F [] sw = ok sw"
| "ds_run L T J jf F (a # as) sw = ebind (ds_step L T J jf F a sw) (ds_run L T J jf F as)"

text \<open>The invariant: connected exactly while running, with what a connected client holds.\<close>

definition ds_inv :: "'f float_ops \<Rightarrow> tls_resources \<Rightarrow> 'f DeviceSimulator \<Rightarrow> tls_resources \<Rightarrow> bool" where
  "ds_inv F r s q \<longleftrightarrow> ds_running s = tl_connected (ds_client s) \<and> sensors_in_range F s \<and> (\<exists>n. tl_holds r n (ds_client s) q)"

context simulator_tls
begin

lemma ds_start_inv:
  assumes "ds_inv F r s (res w)" "\<not> bad r" "ds_start L T now s w = Ret (g, s', w')"
  shows "ds_inv F r s' (res w')"
proof (cases "ds_running s")
  case False
  obtain n where n: "tl_holds r n (ds_client s) (res w)"
    using assms(1) by (auto simp: ds_inv_def)
  obtain h c w1 where c: "tl_connect L T (ds_client s) w = Ret (h, c, w1)" "h \<longleftrightarrow> tl_connected c"
    "tl_holds r (if \<not> tl_connected c \<and> tl_ctx c \<noteq> None then Suc n else n) c (res w1)"
    using tl_connect_holds [OF n assms(2)] by blast
  then show ?thesis
    using assms(1,3) False by (auto simp: ds_start_def ds_inv_def sensors_in_range_def Let_def split: if_splits)
qed (use assms in \<open>simp add: ds_start_def\<close>)

lemma ds_stop_inv:
  assumes "ds_inv F r s (res w)" "\<not> bad r"
  shows "ds_inv F r (fst (ds_stop L s w)) (res (snd (ds_stop L s w))) \<and> \<not> ds_running (fst (ds_stop L s w))"
proof -
  obtain n where n: "tl_holds r n (ds_client s) (res w)"
    using assms(1) by (auto simp: ds_inv_def)
  show ?thesis
    using assms(1) tl_disconnect_holds [OF n assms(2)]
    by (auto simp: ds_stop_def ds_inv_def sensors_in_range_def split_def Let_def)
qed

lemma ds_send_inv:
  "ds_inv F r (s\<lparr>ds_client := fst (snd (tl_send L T (ds_client s) d w))\<rparr>) (res (snd (snd (tl_send L T (ds_client s) d w))))
    = ds_inv F r s (res w)"
  using tl_send_holds [of "ds_client s" d w r] by (auto simp: ds_inv_def sensors_in_range_def)

lemma worker_round_inv:
  assumes "worker_round L T J jf now local s w = ok (s', w')"
  shows "ds_inv F r s' (res w') = ds_inv F r s (res w)"
proof -
  have clock: "ds_inv F r (s\<lparr>ds_last_heartbeat := t\<rparr>) q = ds_inv F r s q" "ds_inv F r (s\<lparr>ds_last_sensor_data := t\<rparr>) q = ds_inv F r s q" for s t q
    by (simp_all add: ds_inv_def sensors_in_range_def)
  have h: "ds_inv F r s1 (res w1) = ds_inv F r s (res w)" if "ds_send_heartbeat L T J local s w = ok (s1, w1)" for s s1 w w1
    using that by (auto simp: ds_send_heartbeat_def ebind_ok_iff Let_def split_def ds_send_inv)
  have d: "ds_inv F r s1 (res w1) = ds_inv F r s (res w)" if "ds_send_sensor_data L T J jf local s w = ok (s1, w1)" for s s1 w w1
    using that by (auto simp: ds_send_sensor_data_def ebind_ok_iff Let_def split_def ds_send_inv)
  show ?thesis
    using assms by (auto simp: worker_round_def ebind_ok_iff clock dest!: h d split: if_splits prod.splits)
qed

lemma ds_step_inv:
  assumes "ds_inv F r s (res w)" "\<not> bad r" "single_precision F" "ds_step L T J jf F a (s, w) = ok (s', w')"
  shows "ds_inv F r s' (res w')"
proof (cases a)
  case (DsStart now)
  then show ?thesis
    using assms(4) ds_start_inv [OF assms(1,2)]
    by (cases "ds_start L T now s w") (auto simp: ok_def)
next
  case DsStop
  then show ?thesis
    using assms(4) ds_stop_inv [OF assms(1,2)] by (cases "ds_stop L s w") simp
next
  case (DsWorker now local)
  then have "worker_round L T J jf now local s w = ok (s', w')"
    using assms(4) by simp
  from worker_round_inv [OF this] show ?thesis
    using assms(1) by blast
next
  case (DsSensors noise)
  have "ds_inv F r (update_sensors F noise s) (res w)"
    using assms(1) single_precision.update_in_range [OF assms(3), of noise s]
    by (cases noise) (auto simp: ds_inv_def update_sensors_def)
  then show ?thesis
    using DsSensors assms(1,4) by (auto simp: sensor_round_def split: if_splits)
qed

lemma ds_run_inv:
  assumes "ds_inv F r s (res w)" "\<not> bad r" "single_precision F" "ds_run L T J jf F ops (s, w) = ok (s', w')"
  shows "ds_inv F r s' (res w')"
  using assms(1,4)
proof (induction ops arbitrary: s w)
  case (Cons a ops)
  then obtain s1 w1 where "ds_step L T J jf F a (s, w) = ok (s1, w1)" "ds_run L T J jf F ops (s1, w1) = ok (s', w')"
    by (auto simp: ebind_ok_iff)
  then show ?case
    using Cons.IH ds_step_inv [OF Cons.prems(1) assms(2,3)] by blast
qed simp

end

text \<open>
  The simulator, whatever its threads and its network do. As long as the process lives it is connected exactly
  while it runs, with one connection and one descriptor, its readings are within the ranges of the code, and
  stopping it releases connection and descriptor.
\<close>

theorem simulator_invariant:
  assumes "simulator_tls L res T" "single_precision F" "\<not> bad (res w)"
    and "ds_run L T J jf F ops (device_simulator F config, w) = ok (s, w')"
  shows "tl_connected (ds_client s) = ds_running s \<and> sensors_in_range F s \<and> \<not> bad (res w')
    \<and> card (socks (res w') - socks (res w)) = (if ds_running s then 1 else 0)
    \<and> card (ssls (res w') - ssls (res w)) = (if ds_running s then 1 else 0)
    \<and> card (socks (res (snd (ds_stop L s w'))) - socks (res w)) = 0"
proof -
  have "tl_holds (res w) 0 (ds_client (device_simulator F config)) (res w) \<and> \<not> tl_connected (ds_client (device_simulator F config))"
    unfolding tl_holds_def by (auto intro!: exI [of _ "{}"] simp: device_simulator_def tls_client_def Let_def)
  then have "ds_inv F (res w) (device_simulator F config) (res w)"
    using single_precision.fresh_in_range [OF assms(2)] by (auto simp: ds_inv_def device_simulator_def Let_def)
  then have s: "ds_inv F (res w) s (res w')"
    by (rule simulator_tls.ds_run_inv [OF assms(1) _ assms(3,2,4)])
  note stop = simulator_tls.ds_stop_inv [OF assms(1) s assms(3)]
  have count: "\<not> bad (res w2) \<and> card (socks (res w2) - socks (res w)) = (if ds_running s2 then 1 else 0)
      \<and> card (ssls (res w2) - ssls (res w)) = (if ds_running s2 then 1 else 0)" if "ds_inv F (res w) s2 (res w2)" for s2 w2
    using that tl_holds_count [OF _ assms(3)] by (fastforce simp: ds_inv_def)
  show ?thesis
    using s count [OF s] count [of "fst (ds_stop L s w')" "snd (ds_stop L s w')"] stop by (auto simp: ds_inv_def)
qed

theorem simulator_invariant_witness:
  defines "J \<equiv> json_values (\<lambda>_. ok ''text'') (\<lambda>_. ok JNull)" and "w \<equiv> ((replicate 4096 0, doip_handler, []), no_resources)"
    and "config \<equiv> \<lparr>sc_device_id = ''tc375-sim-001'', sc_device_type = ''TC375_SIMULATOR'', sc_gateway_host = ''localhost'', sc_gateway_port = 8765,
      sc_use_tls = True, sc_verify_peer = False, sc_ca_cert_path = [], sc_heartbeat_interval_sec = 10, sc_sensor_update_interval_sec = 5\<rparr>"
  shows "\<exists>s w'. ds_run session_library session_calls J JInt thousandths [DsStart 0, DsWorker 5 ''now'', DsSensors (20000, 0, 0)]
      (device_simulator thousandths config, w) = ok (s, w') \<and> ds_temperature s = 35000 \<and> card (socks (snd w')) = 1"
proof -
  let ?run = "ds_run session_library session_calls J JInt thousandths [DsStart 0, DsWorker 5 ''now'', DsSensors (20000, 0, 0)]
      (device_simulator thousandths config, w)"
  have "\<exists>s w'. ?run = ok (s, w') \<and> ds_temperature s = 35000 \<and> ds_running s"
    by (simp add: config_def w_def no_resources_def device_simulator_def tls_client_def ds_start_def tl_connect_def tl_init_ssl_def
        tl_create_socket_def tl_secure_def session_library_def session_calls_def new_handle_def worker_round_def interval_due_def sensor_round_def
        update_sensors_def clamp_def f_max_def f_min_def thousandths_def)
  then obtain s w' where r: "?run = ok (s, w')" "ds_temperature s = 35000" "ds_running s"
    by blast
  show ?thesis
    using simulator_invariant [OF simulator.simulator_tls_axioms thousandths.single_precision_axioms _ r(1)] r
    by (auto simp: w_def no_resources_def)
qed

section \<open>The rate of the heartbeats\<close>

text \<open>Turns of the worker thread, with the number of heartbeats sent in them.\<close>

primrec worker_run ::
  "'w openssl \<Rightarrow> 'w tls_calls \<Rightarrow> 'j json_api \<Rightarrow> ('f \<Rightarrow> 'j) \<Rightarrow> (nat \<times> string) list \<Rightarrow> nat \<times> 'f DeviceSimulator \<times> 'w
    \<Rightarrow> (nat \<times> 'f DeviceSimulator \<times> 'w) throws" where
  "worker_run L T J jf [] = ok"
| "worker_run L T J jf (t # ts) = (\<lambda>(n, s, w). ebind (worker_round L T J jf (fst t) (snd t) s w) (\<lambda>(s', w').
     worker_run L T J jf ts (if interval_due (ds_last_heartbeat s) (fst t) (sc_heartbeat_interval_sec (ds_config s)) then Suc n else n, s', w')))"

lemma interval_due_iff: "since \<le> now \<Longrightarrow> interval_due since now (int k) \<longleftrightarrow> k * 10 ^ 9 \<le> now - since"
proof -
  assume "since \<le> now"
  then have "(int now - int since) div 10 ^ 9 = int ((now - since) div 10 ^ 9)"
    by (simp add: of_nat_diff zdiv_int)
  then show ?thesis
    by (simp only: interval_due_def of_nat_le_iff) (simp add: less_eq_div_iff_mult_less_eq)
qed

lemma worker_round_frame:
  assumes "worker_round L T J jf now local s w = ok (s', w')"
  shows "ds_running s' = ds_running s" "ds_config s' = ds_config s"
    "ds_running s \<Longrightarrow> ds_last_heartbeat s' = (if interval_due (ds_last_heartbeat s) now (sc_heartbeat_interval_sec (ds_config s)) then now else ds_last_heartbeat s)"
  using assms
  by (auto simp: worker_round_def ds_send_heartbeat_def ds_send_sensor_data_def ebind_ok_iff Let_def split_def split: if_splits)


lemma worker_run_rate:
  assumes "ds_running s" "sc_heartbeat_interval_sec (ds_config s) = int k" "sorted (prev # map fst ts)"
    and "\<forall>(a, b) \<in> set (zip (prev # map fst ts) (map fst ts)). b \<le> a + g" "ds_last_heartbeat s \<le> prev" "prev - ds_last_heartbeat s < k * 10 ^ 9"
    and "worker_run L T J jf ts (n, s, w) = ok (n', s', w')"
  shows "n \<le> n' \<and> (n' - n) * (k * 10 ^ 9) \<le> last (prev # map fst ts) - ds_last_heartbeat s
    \<and> last (prev # map fst ts) - ds_last_heartbeat s < (n' - n) * (k * 10 ^ 9 + g) + k * 10 ^ 9"
  using assms
proof (induction ts arbitrary: n s w prev)
  case Nil
  then show ?case
    by simp
next
  case (Cons a ts)
  obtain t local where a: "a = (t, local)"
    by (cases a)
  let ?l = "ds_last_heartbeat s" and ?due = "k * 10 ^ 9 \<le> t - ds_last_heartbeat s"
  obtain s1 w1 where r: "worker_round L T J jf t local s w = ok (s1, w1)"
    and run: "worker_run L T J jf ts (if interval_due ?l t (int k) then Suc n else n, s1, w1) = ok (n', s', w')"
    using Cons.prems(2,7) by (auto simp: a ebind_ok_iff)
  have t: "prev \<le> t" "t \<le> prev + g" "?l \<le> t"
    using Cons.prems(3-5) by (auto simp: a)
  note f = worker_round_frame [OF r]
  have l1: "ds_last_heartbeat s1 = (if ?due then t else ?l)"
    using f(3) Cons.prems(1,2) interval_due_iff [OF t(3), of k] by simp
  have "sorted (t # map fst ts)" "\<forall>(a, b) \<in> set (zip (t # map fst ts) (map fst ts)). b \<le> a + g"
    using Cons.prems(3,4) by (simp_all add: a)
  note IH = Cons.IH [OF _ _ this _ _ run]
  have ih: "(if ?due then Suc n else n) \<le> n' \<and> (n' - (if ?due then Suc n else n)) * (k * 10 ^ 9) \<le> last (t # map fst ts) - ds_last_heartbeat s1
    \<and> last (t # map fst ts) - ds_last_heartbeat s1 < (n' - (if ?due then Suc n else n)) * (k * 10 ^ 9 + g) + k * 10 ^ 9"
  proof -
    have "0 < k * 10 ^ 9"
      using Cons.prems(6) by auto
    then show ?thesis
      using IH f(1,2) Cons.prems(1,2) l1 t interval_due_iff [OF t(3), of k] by (simp split: if_splits)
  qed
  define K T where "K = k * 10 ^ 9" and "T = last (t # map fst ts)"
  have T: "t \<le> T" "last (prev # map fst (a # ts)) = T"
    using Cons.prems(3) by (auto simp: T_def a last_map)
  have l: "prev - ?l < K"
    using Cons.prems(6) by (simp add: K_def)
  show ?case
  proof (cases ?due)
    case True
    define d where "d = n' - Suc n"
    have "Suc n \<le> n'" "d * K \<le> T - t" "T - t < d * (K + g) + K"
      using ih True by (simp_all add: l1 K_def T_def d_def)
    moreover have "n' - n = Suc d"
      using calculation(1) by (simp add: d_def)
    moreover have "T - ?l = (T - t) + (t - ?l)" "K \<le> t - ?l" "t - ?l < K + g"
      using T(1) t True l Cons.prems(5) by (auto simp: K_def)
    ultimately show ?thesis
      unfolding T(2) K_def [symmetric] by simp
  next
    case False
    then show ?thesis
      using ih unfolding T(2) by (simp add: l1 T_def)
  qed
qed

text \<open>
  The heartbeats of a running simulator. In any turns of its worker that are at most \<open>g\<close> apart and that no exception
  ends, one heartbeat goes out for every interval, delayed by at most \<open>g\<close>: \<open>m\<close> heartbeats take at least \<open>m\<close> intervals,
  and less than \<open>m + 1\<close> intervals and \<open>m\<close> delays have passed.
\<close>

theorem simulator_heartbeat_rate:
  assumes "ds_running s" "sc_heartbeat_interval_sec (ds_config s) = int k" "0 < k" "sorted (ds_last_heartbeat s # map fst ts)"
    and "\<forall>(a, b) \<in> set (zip (ds_last_heartbeat s # map fst ts) (map fst ts)). b \<le> a + g"
    and "worker_run L T J jf ts (0, s, w) = ok (m, s', w')"
  shows "m * (k * 10 ^ 9) \<le> last (ds_last_heartbeat s # map fst ts) - ds_last_heartbeat s
    \<and> last (ds_last_heartbeat s # map fst ts) - ds_last_heartbeat s < m * (k * 10 ^ 9 + g) + k * 10 ^ 9"
  using worker_run_rate [OF assms(1,2,4,5) _ _ assms(6)] assms(3) by simp


theorem simulator_heartbeat_rate_witness:
  defines "J \<equiv> json_values (\<lambda>_. ok ''text'') (\<lambda>_. ok JNull)" and "w \<equiv> ((replicate 4096 0, doip_handler, []), no_resources)"
    and "config \<equiv> \<lparr>sc_device_id = ''tc375-sim-001'', sc_device_type = ''TC375_SIMULATOR'', sc_gateway_host = ''localhost'', sc_gateway_port = 8765,
      sc_use_tls = True, sc_verify_peer = False, sc_ca_cert_path = [], sc_heartbeat_interval_sec = 1, sc_sensor_update_interval_sec = 100\<rparr>"
  shows "\<exists>m s' w'. worker_run session_library session_calls J JInt [(600000000, ''a''), (1200000000, ''b''), (1800000000, ''c'')]
      (0, (device_simulator thousandths config)\<lparr>ds_running := True\<rparr>, w) = ok (m, s', w')
    \<and> m * 1000000000 \<le> 1800000000 \<and> 1800000000 < m * 1600000000 + 1000000000"
proof -
  let ?s = "(device_simulator thousandths config)\<lparr>ds_running := True\<rparr>"
  let ?ts = "[(600000000, ''a''), (1200000000, ''b''), (1800000000, ''c'')]"
  have s: "ds_running ?s" "sc_heartbeat_interval_sec (ds_config ?s) = int 1" "ds_last_heartbeat ?s = 0"
    by (simp_all add: device_simulator_def config_def)
  have "\<exists>m s' w'. worker_run session_library session_calls J JInt ?ts (0, ?s, w) = ok (m, s', w')"
    by (simp add: worker_round_def interval_due_def ds_send_heartbeat_def protocol_to_text_def J_def device_simulator_def config_def tls_client_def
        tl_send_def tl_handle_error_def)
  then obtain m s' w' where r: "worker_run session_library session_calls J JInt ?ts (0, ?s, w) = ok (m, s', w')"
    by blast
  show ?thesis
    using simulator_heartbeat_rate [OF s(1,2) _ _ _ r, of 600000000] r s(3) by auto
qed

section \<open>Reading the configuration\<close>

context json_library
begin

text \<open>A value whose members \<open>device\<close> and \<open>gateway\<close> are objects with the members \<open>dv\<close> and \<open>gv\<close>.\<close>

definition config_view :: "'j \<Rightarrow> (string \<Rightarrow> 'j option) \<Rightarrow> (string \<Rightarrow> 'j option) \<Rightarrow> (string \<Rightarrow> 'j option) \<Rightarrow> bool" where
  "config_view j dv gv rest \<longleftrightarrow> (\<exists>m d g. view j = Some m \<and> m ''device'' = Some d \<and> view d = Some dv \<and> m ''gateway'' = Some g \<and> view g = Some gv
     \<and> (\<forall>k. k \<noteq> ''device'' \<longrightarrow> k \<noteq> ''gateway'' \<longrightarrow> m k = rest k))"

lemma member2_config:
  assumes "config_view j dv gv rest" "a = ''device'' \<and> dv b = Some v \<or> a = ''gateway'' \<and> gv b = Some v"
  obtains j' where "member2 J get a b j = ebind (get v) (\<lambda>x. ok (x, j'))" "config_view j' dv gv rest"
proof -
  obtain m d g where m: "view j = Some m" "m ''device'' = Some d" "view d = Some dv" "m ''gateway'' = Some g" "view g = Some gv"
      "\<forall>k. k \<noteq> ''device'' \<longrightarrow> k \<noteq> ''gateway'' \<longrightarrow> m k = rest k"
    using assms(1) unfolding config_view_def by (elim exE conjE) (rule that)
  define e ev where "e = (if a = ''device'' then d else g)" and "ev = (if a = ''device'' then dv else gv)"
  have e: "m a = Some e" "view e = Some ev" "ev b = Some v"
    using m assms(2) by (auto simp: e_def ev_def)
  obtain j1 where j1: "j_index J j a = ok (e, j1)" "view j1 = Some m"
    using index_object [OF m(1), of a] e(1) by (auto simp: domIff)
  obtain e1 where e1: "j_index J e b = ok (v, e1)" "view e1 = Some ev"
    using index_object [OF e(2), of b] e(3) by (auto simp: domIff)
  obtain j2 where j2: "j_assign J j1 a e1 = ok j2" "view j2 = Some (m(a \<mapsto> e1))"
    using assign_object [OF j1(2), of a e1] by blast
  have "config_view j2 dv gv rest"
    unfolding config_view_def using m assms(2) e1(2) j2(2) by (auto simp: ev_def)
  then show ?thesis
    using that [of j2] j1(1) e1(1) j2(1) by (simp add: member2_def index2_def)
qed

lemma member2_device:
  assumes "config_view j dv gv rest" "get v = ok x" "dv b = Some v"
  obtains j' where "member2 J get ''device'' b j = ok (x, j')" "config_view j' dv gv rest"
  by (rule member2_config [OF assms(1) disjI1 [OF conjI [OF refl assms(3)]], of get]) (simp add: assms(2) that)

lemma member2_gateway:
  assumes "config_view j dv gv rest" "get v = ok x" "gv b = Some v"
  obtains j' where "member2 J get ''gateway'' b j = ok (x, j')" "config_view j' dv gv rest"
  by (rule member2_config [OF assms(1) disjI2 [OF conjI [OF refl assms(3)]], of get]) (simp add: assms(2) that)

lemma optional2_config:
  assumes "config_view j dv gv rest"
  obtains j' where "optional2 J get ''gateway'' b d j = (case gv b of None \<Rightarrow> ok (d, j') | Some v \<Rightarrow> ebind (get v) (\<lambda>x. ok (x, j')))"
    "config_view j' dv gv rest"
proof -
  obtain m g where m: "view j = Some m" "m ''gateway'' = Some g" "view g = Some gv"
    using assms unfolding config_view_def by (elim exE conjE) (rule that)
  obtain j1 where j1: "j_index J j ''gateway'' = ok (g, j1)" "view j1 = Some m"
    using index_object [OF m(1), of "''gateway''"] m(2) by (auto simp: domIff)
  have c: "config_view j1 dv gv rest"
    using assms m(1) j1(2) by (simp add: config_view_def)
  have o: "optional2 J get ''gateway'' b d j = (if gv b = None then ok (d, j1) else member2 J get ''gateway'' b j1)"
    using m j1 by (auto simp: optional2_def contains_object domIff)
  show ?thesis
  proof (cases "gv b")
    case None
    then show ?thesis
      using that [of j1] c o by simp
  next
    case (Some v)
    then obtain j' where "member2 J get ''gateway'' b j1 = ebind (get v) (\<lambda>x. ok (x, j'))" "config_view j' dv gv rest"
      using member2_config [OF c, of "''gateway''" b v get] by blast
    then show ?thesis
      using that [of j'] o Some by simp
  qed
qed

lemma load_config:
  assumes "j_parse J s = ok j" "config_view j dv gv rest"
    and "dv ''id'' = Some (j_string J i)" "dv ''type'' = Some (j_string J ty)"
    and "gv ''host'' = Some (j_string J h)" "gv ''port'' = Some (j_int J p)" "gv ''use_tls'' = Some (j_bool J tls)"
    and "gv ''verify_peer'' = map_option (j_bool J) v" "gv ''ca_cert'' = map_option (j_string J) ca"
    and "rest ''heartbeat_interval_sec'' = map_option (j_int J) hb" "rest ''sensor_update_interval_sec'' = map_option (j_int J) su"
  shows "load_from_file J path (Some s) = ok \<lparr>sc_device_id = i, sc_device_type = ty, sc_gateway_host = h, sc_gateway_port = int32 p,
      sc_use_tls = tls, sc_verify_peer = case_option False id v, sc_ca_cert_path = case_option [] id ca,
      sc_heartbeat_interval_sec = int32 (case_option 10 id hb), sc_sensor_update_interval_sec = int32 (case_option 5 id su)\<rparr>"
proof -
  obtain j1 where 1: "member2 J (j_get_string J) ''device'' ''id'' j = ok (i, j1)" "config_view j1 dv gv rest"
    by (rule member2_device [where get = "j_get_string J", OF assms(2) get_string assms(3)])
  obtain j2 where 2: "member2 J (j_get_string J) ''device'' ''type'' j1 = ok (ty, j2)" "config_view j2 dv gv rest"
    by (rule member2_device [where get = "j_get_string J", OF 1(2) get_string assms(4)])
  obtain j3 where 3: "member2 J (j_get_string J) ''gateway'' ''host'' j2 = ok (h, j3)" "config_view j3 dv gv rest"
    by (rule member2_gateway [where get = "j_get_string J", OF 2(2) get_string assms(5)])
  obtain j4 where 4: "member2 J (j_get_int J) ''gateway'' ''port'' j3 = ok (p, j4)" "config_view j4 dv gv rest"
    by (rule member2_gateway [where get = "j_get_int J", OF 3(2) get_int assms(6)])
  obtain j5 where 5: "member2 J (j_get_bool J) ''gateway'' ''use_tls'' j4 = ok (tls, j5)" "config_view j5 dv gv rest"
    by (rule member2_gateway [where get = "j_get_bool J", OF 4(2) get_bool assms(7)])
  obtain j6 where 6: "optional2 J (j_get_bool J) ''gateway'' ''verify_peer'' False j5 = ok (case_option False id v, j6)" "config_view j6 dv gv rest"
    by (rule optional2_config [OF 5(2), of "j_get_bool J" "''verify_peer''" False]) (cases v; simp add: assms(8) get_bool)
  obtain j7 where 7: "optional2 J (j_get_string J) ''gateway'' ''ca_cert'' [] j6 = ok (case_option [] id ca, j7)" "config_view j7 dv gv rest"
    by (rule optional2_config [OF 6(2), of "j_get_string J" "''ca_cert''" "[]"]) (cases ca; simp add: assms(9) get_string)
  obtain m where m: "view j7 = Some m" "\<forall>k. k \<noteq> ''device'' \<longrightarrow> k \<noteq> ''gateway'' \<longrightarrow> m k = rest k"
    using 7(2) unfolding config_view_def by (elim exE conjE) (rule that)
  have r: "m ''heartbeat_interval_sec'' = map_option (j_int J) hb" "m ''sensor_update_interval_sec'' = map_option (j_int J) su"
    using m(2) assms(10,11) by simp_all
  have "j_value J (j_get_int J) j7 ''heartbeat_interval_sec'' 10 = ok (case_option 10 id hb)"
    "j_value J (j_get_int J) j7 ''sensor_update_interval_sec'' 5 = ok (case_option 5 id su)"
    by (cases hb; simp add: value_object [OF m(1)] r get_int) (cases su; simp add: value_object [OF m(1)] r get_int)
  then show ?thesis
    by (simp add: load_from_file_def assms(1) 1 2 3 4 5 6 7)
qed

end

text \<open>
  A configuration file with the members of the code is read as it is, in any order and beside other members; the
  optional ones have the defaults of the code, and \<open>use_tls\<close>, which nothing consults, is read too.
\<close>

theorem simulator_config_read:
  assumes "json_library J view" "j_parse J s = ok j" "view j = Some m" "m ''device'' = Some d" "view d = Some dv"
    and "m ''gateway'' = Some g" "view g = Some gv"
    and "dv ''id'' = Some (j_string J i)" "dv ''type'' = Some (j_string J ty)"
    and "gv ''host'' = Some (j_string J h)" "gv ''port'' = Some (j_int J p)" "gv ''use_tls'' = Some (j_bool J tls)"
    and "gv ''verify_peer'' = map_option (j_bool J) v" "gv ''ca_cert'' = map_option (j_string J) ca"
    and "m ''heartbeat_interval_sec'' = map_option (j_int J) hb" "m ''sensor_update_interval_sec'' = map_option (j_int J) su"
  shows "load_from_file J path (Some s) = ok \<lparr>sc_device_id = i, sc_device_type = ty, sc_gateway_host = h, sc_gateway_port = int32 p,
      sc_use_tls = tls, sc_verify_peer = case_option False id v, sc_ca_cert_path = case_option [] id ca,
      sc_heartbeat_interval_sec = int32 (case_option 10 id hb), sc_sensor_update_interval_sec = int32 (case_option 5 id su)\<rparr>"
proof -
  have "json_library.config_view view j dv gv m"
    unfolding json_library.config_view_def [OF assms(1)] using assms(3-7) by blast
  from json_library.load_config [OF assms(1,2) this assms(8-16)] show ?thesis .
qed

theorem simulator_config_read_witness:
  defines "J \<equiv> json_values (\<lambda>_. ok []) (\<lambda>_. ok (JObject [
      (''device'', JObject [(''id'', JString ''tc375-sim-001''), (''type'', JString ''TC375_SIMULATOR'')]),
      (''gateway'', JObject [(''host'', JString ''localhost''), (''port'', JInt 8765), (''use_tls'', JBool True)])]))"
  shows "load_from_file J ''device.json'' (Some []) = ok \<lparr>sc_device_id = ''tc375-sim-001'', sc_device_type = ''TC375_SIMULATOR'',
      sc_gateway_host = ''localhost'', sc_gateway_port = 8765, sc_use_tls = True, sc_verify_peer = False, sc_ca_cert_path = [],
      sc_heartbeat_interval_sec = 10, sc_sensor_update_interval_sec = 5\<rparr>"
proof -
  let ?d = "[(''id'', JString ''tc375-sim-001''), (''type'', JString ''TC375_SIMULATOR'')]"
  let ?g = "[(''host'', JString ''localhost''), (''port'', JInt 8765), (''use_tls'', JBool True)]"
  let ?m = "[(''device'', JObject ?d), (''gateway'', JObject ?g)]"
  have lib: "json_library J members_of"
    unfolding J_def by (rule json_values.json_library_axioms)
  have "j_parse J [] = ok (JObject ?m)"
    by (simp add: J_def json_values_def)
  from simulator_config_read [OF lib this, where m = "map_of ?m" and d = "JObject ?d" and dv = "map_of ?d" and g = "JObject ?g"
      and gv = "map_of ?g" and v = None and ca = None and hb = None and su = None and path = "''device.json''"
      and i = "''tc375-sim-001''" and ty = "''TC375_SIMULATOR''" and h = "''localhost''" and p = 8765 and tls = True]
  show ?thesis
    by (simp add: J_def int32_def)
qed

end
